(* ===== verification/Fwd_Prelude.thy ===== *)
theory Fwd_Prelude
  imports Main "HOL-Library.Word" "HOL-Library.Signed_Division"
begin

unbundle bit_operations_syntax

text \<open>
  The vocabulary every component shares: the machine integers of the C code, the ways a C function
  can stop without returning (\<open>stop\<close>), memory blocks that are read and written by index with the
  out-of-bounds access written out, and POSIX \<open>timeval\<close>.
\<close>

section \<open>Machine integers\<close>

type_synonym u8 = "8 word"
type_synonym u16 = "16 word"
type_synonym u32 = "32 word"
type_synonym u64 = "64 word"
type_synonym bytes = "8 word list"

section \<open>Ways a C function stops\<close>

text \<open>
  \<open>ExitCall\<close>: the code calls \<open>exit(EXIT_FAILURE)\<close>, which the Makefile renames to \<open>mem_exit\<close>, so it
  unwinds the calling thread. \<open>OutOfBounds\<close>: an access outside the array the pointer points into.
  \<open>NullDeref\<close>: an access through NULL. \<open>BadConversion\<close>: a floating value that the integer type it is
  converted to cannot hold. \<open>SignedOverflow\<close>: signed arithmetic that leaves its type. \<open>OverlappingCopy\<close>: \<open>memcpy\<close>
  between regions that overlap. These five are undefined behaviour in C. \<open>AssertFail\<close>: \<open>assert(0)\<close>.
\<close>

datatype stop = ExitCall | OutOfBounds | NullDeref | BadConversion | SignedOverflow | OverlappingCopy | AssertFail

type_synonym 'a res = "stop + 'a"

definition bindr :: "'a res \<Rightarrow> ('a \<Rightarrow> 'b res) \<Rightarrow> 'b res" where
  "bindr m f = (case m of Inl e \<Rightarrow> Inl e | Inr x \<Rightarrow> f x)"

named_theorems res_simps "how the result type computes"

lemma bindr_Inl [simp, res_simps]: "bindr (Inl e) f = Inl e"
  by (simp add: bindr_def)

lemma bindr_Inr [simp, res_simps]: "bindr (Inr x) f = f x"
  by (simp add: bindr_def)

lemma bindr_eq_Inr_iff: "bindr m f = Inr y \<longleftrightarrow> (\<exists>x. m = Inr x \<and> f x = Inr y)"
  by (cases m) auto

lemma bindr_assoc: "bindr (bindr m f) g = bindr m (\<lambda>x. bindr (f x) g)"
  by (cases m) auto

lemma bindr_cong [fundef_cong]:
  "m = m' \<Longrightarrow> (\<And>x. m' = Inr x \<Longrightarrow> f x = g x) \<Longrightarrow> bindr m f = bindr m' g"
  by (cases m') auto

text \<open>A loop over a list of indices whose body may stop.\<close>

fun each_res :: "('i \<Rightarrow> 's \<Rightarrow> 's res) \<Rightarrow> 'i list \<Rightarrow> 's \<Rightarrow> 's res" where
  "each_res f [] s = Inr s"
| "each_res f (i # is) s = bindr (f i s) (each_res f is)"

lemma each_res_cong [fundef_cong]:
  "xs = ys \<Longrightarrow> s = t \<Longrightarrow> (\<And>x s. x \<in> set ys \<Longrightarrow> f x s = g x s) \<Longrightarrow> each_res f xs s = each_res g ys t"
proof (induction xs arbitrary: ys s t)
  case (Cons x xs)
  then have "f x s = g x s" "each_res f xs u = each_res g xs u" for u
    using Cons.prems(3) by (auto simp flip: Cons.prems(1,2) intro!: Cons.IH)
  then show ?case
    using Cons.prems(1,2) by (auto simp: bindr_def split: sum.split)
qed simp

section \<open>Memory blocks\<close>

definition ld :: "'a list \<Rightarrow> nat \<Rightarrow> 'a res" where
  "ld xs i = (if i < length xs then Inr (xs ! i) else Inl OutOfBounds)"

definition st :: "'a list \<Rightarrow> nat \<Rightarrow> 'a \<Rightarrow> 'a list res" where
  "st xs i v = (if i < length xs then Inr (xs[i := v]) else Inl OutOfBounds)"

text \<open>\<open>memcpy (buf + off, src, n)\<close> where \<open>src\<close> is the list of the \<open>n\<close> values copied.\<close>

definition memcpy :: "'a list \<Rightarrow> nat \<Rightarrow> 'a list \<Rightarrow> 'a list res" where
  "memcpy buf off src =
     (if off + length src \<le> length buf
      then Inr (take off buf @ src @ drop (off + length src) buf) else Inl OutOfBounds)"

lemma ld_Inr [simp, res_simps]: "i < length xs \<Longrightarrow> ld xs i = Inr (xs ! i)"
  by (simp add: ld_def)

lemma st_Inr [res_simps]: "i < length xs \<Longrightarrow> st xs i v = Inr (xs[i := v])"
  by (simp add: st_def)

lemma st_append: "length pre = j \<Longrightarrow> rest \<noteq> [] \<Longrightarrow> st (pre @ rest) j v = Inr (pre @ v # tl rest)"
  by (cases rest) (auto simp: st_def)

lemma memcpy_Inr [simp, res_simps]:
  "off + length src \<le> length buf \<Longrightarrow>
   memcpy buf off src = Inr (take off buf @ src @ drop (off + length src) buf)"
  by (simp add: memcpy_def)

lemma memcpy_length: "memcpy buf off src = Inr buf' \<Longrightarrow> length buf' = length buf"
  by (auto simp: memcpy_def split: if_splits)

text \<open>\<open>memcpy (buff + buff_index, s, n); buff_index += n\<close>\<close>

definition put_bytes :: "bytes \<Rightarrow> nat \<Rightarrow> bytes \<Rightarrow> (bytes \<times> nat) res" where
  "put_bytes buff i s = bindr (memcpy buff i s) (\<lambda>buff. Inr (buff, i + length s))"

lemma put_bytes_ok [res_simps]:
  "length out = n \<Longrightarrow> length s \<le> length rest \<Longrightarrow>
   put_bytes (out @ rest) n s = Inr ((out @ s) @ drop (length s) rest, n + length s)"
  by (simp add: put_bytes_def)

section \<open>C integer division\<close>

text \<open>\<open>sdiv\<close> and \<open>smod\<close> truncate towards zero; on non-negative operands they are \<open>div\<close> and \<open>mod\<close>.\<close>

lemma sdiv_nonneg [simp]: "0 \<le> (a::int) \<Longrightarrow> 0 < b \<Longrightarrow> a sdiv b = a div b"
  by (simp add: signed_divide_int_def sgn_if)

lemma smod_nonneg [simp]: "0 \<le> (a::int) \<Longrightarrow> 0 < b \<Longrightarrow> a smod b = a mod b"
  by (simp add: signed_modulo_int_def signed_divide_int_def sgn_if minus_mult_div_eq_mod)

section \<open>Generic list facts\<close>

lemma update_append_at:
  "length as = n \<Longrightarrow> bs \<noteq> [] \<Longrightarrow> (as @ bs)[n := v] = (as @ [v]) @ tl bs"
  by (cases bs) auto

lemma drop_Cons_nth: "i < length xs \<Longrightarrow> drop i xs = xs ! i # drop (Suc i) xs"
  by (rule Cons_nth_drop_Suc [symmetric])

lemma length_add3E:
  assumes "length xs = Suc (Suc (Suc m))"
  obtains a b c ys where "xs = a # b # c # ys" and "length ys = m"
  using assms by (auto simp: length_Suc_conv)

lemma tl_drop_Suc: "tl (drop n xs) = drop (Suc n) xs"
  by (simp add: tl_drop drop_Suc)

section \<open>Characters\<close>

text \<open>A C string literal as the bytes \<open>memcpy\<close> copies, without the terminating NUL.\<close>

definition lit :: "string \<Rightarrow> bytes" where
  "lit s = map of_char s"

lemma length_lit [simp]: "length (lit s) = length s"
  by (simp add: lit_def)

lemma lit_append: "lit (s @ t) = lit s @ lit t"
  by (simp add: lit_def)

section \<open>Time values\<close>

record timeval =
  tv_sec :: int
  tv_usec :: int

end
