(* ===== verification/Base64.thy ===== *)
theory Base64
  imports Fwd_Prelude
begin

unbundle bit_operations_syntax

text \<open>
  \<open>lora_pkt_fwd/src/base64.c\<close>: the Base64 codec of the JSON payloads. A pointer is
  \<open>bytes option\<close> (\<open>None\<close> is NULL) and stands for the memory block it points to; the C \<open>int\<close> sizes
  stay \<open>int\<close>, with C's truncating division (\<open>sdiv\<close>, \<open>smod\<close>). The functions return the C return
  value and the output block. The specification below them is RFC 4648 on lists; the lemmas show
  the loops over buffers compute it and that decoding inverts encoding.
\<close>

section \<open>Codes and characters\<close>

definition code_62 :: u8 where "code_62 = 43"  \<comment> \<open>\<open>'+'\<close>\<close>
definition code_63 :: u8 where "code_63 = 47"  \<comment> \<open>\<open>'/'\<close>\<close>
definition code_pad :: u8 where "code_pad = 61"  \<comment> \<open>\<open>'='\<close>\<close>

definition code_to_char :: "u8 \<Rightarrow> u8 res" where
  "code_to_char x =
     (if x \<le> 25 then Inr (65 + x)
      else if 26 \<le> x \<and> x \<le> 51 then Inr (97 + (x - 26))
      else if 52 \<le> x \<and> x \<le> 61 then Inr (48 + (x - 52))
      else if x = 62 then Inr code_62
      else if x = 63 then Inr code_63
      else Inl ExitCall)"

definition char_to_code :: "u8 \<Rightarrow> u8 res" where
  "char_to_code x =
     (if 65 \<le> x \<and> x \<le> 90 then Inr (x - 65)
      else if 97 \<le> x \<and> x \<le> 122 then Inr (x - 97 + 26)
      else if 48 \<le> x \<and> x \<le> 57 then Inr (x - 48 + 52)
      else if x = code_62 then Inr 62
      else if x = code_63 then Inr 63
      else Inl ExitCall)"

section \<open>Encoding\<close>

text \<open>\<open>out[j] = code_to_char((b >> k) & 0x3F)\<close>\<close>

definition put_code :: "bytes \<Rightarrow> nat \<Rightarrow> u32 \<Rightarrow> nat \<Rightarrow> bytes res" where
  "put_code out j b k =
     bindr (code_to_char (ucast (drop_bit k b AND 0x3F))) (\<lambda>c. st out j c)"

text \<open>\<open>b = (0xFF & in[3*i]) << 16;\<close> then \<open>b |= (0xFF & in[3*i + 1]) << 8;\<close> then \<open>b |= 0xFF & in[3*i + 2];\<close>\<close>

definition pack1 :: "u8 \<Rightarrow> u32" where
  "pack1 x0 = push_bit 16 (0xFF AND ucast x0)"

definition pack2 :: "u8 \<Rightarrow> u8 \<Rightarrow> u32" where
  "pack2 x0 x1 = pack1 x0 OR push_bit 8 (0xFF AND ucast x1)"

definition pack3 :: "u8 \<Rightarrow> u8 \<Rightarrow> u8 \<Rightarrow> u32" where
  "pack3 x0 x1 x2 = pack2 x0 x1 OR (0xFF AND ucast x2)"

definition enc_block :: "bytes \<Rightarrow> nat \<Rightarrow> bytes \<Rightarrow> bytes res" where
  "enc_block inp i out =
     bindr (ld inp (3*i)) (\<lambda>x0.
     bindr (ld inp (3*i + 1)) (\<lambda>x1.
     bindr (ld inp (3*i + 2)) (\<lambda>x2.
     let b = pack3 x0 x1 x2 in
     bindr (put_code out (4*i) b 18) (\<lambda>out.
     bindr (put_code out (4*i + 1) b 12) (\<lambda>out.
     bindr (put_code out (4*i + 2) b 6) (\<lambda>out.
     put_code out (4*i + 3) b 0))))))"

function enc_loop :: "bytes \<Rightarrow> nat \<Rightarrow> nat \<Rightarrow> bytes \<Rightarrow> bytes res" where
  "enc_loop inp i full_blocks out =
     (if i < full_blocks
      then bindr (enc_block inp i out) (\<lambda>out. enc_loop inp (Suc i) full_blocks out)
      else Inr out)"
  by pat_completeness auto
termination
  by (relation "measure (\<lambda>(inp, i, n, out). n - i)") auto

declare enc_loop.simps [simp del]

definition enc_last :: "bytes \<Rightarrow> nat \<Rightarrow> int \<Rightarrow> bytes \<Rightarrow> bytes res" where
  "enc_last inp i last_chars out =
     (if last_chars = 0 then st out (4*i) 0
      else if last_chars = 2 then
        bindr (ld inp (3*i)) (\<lambda>x0.
        let b = pack1 x0 in
        bindr (put_code out (4*i) b 18) (\<lambda>out.
        bindr (put_code out (4*i + 1) b 12) (\<lambda>out.
        st out (4*i + 2) 0)))
      else if last_chars = 3 then
        bindr (ld inp (3*i)) (\<lambda>x0.
        bindr (ld inp (3*i + 1)) (\<lambda>x1.
        let b = pack2 x0 x1 in
        bindr (put_code out (4*i) b 18) (\<lambda>out.
        bindr (put_code out (4*i + 1) b 12) (\<lambda>out.
        bindr (put_code out (4*i + 2) b 6) (\<lambda>out.
        st out (4*i + 3) 0)))))
      else Inr out)"

text \<open>
  A negative \<open>size\<close> makes \<open>size % 3\<close> negative, which the \<open>switch\<close> sends to \<open>CRIT\<close> (exit), or makes
  \<open>full_blocks\<close> negative, and then \<open>out[4*i]\<close> is before the buffer.
\<close>

definition bin_to_b64_nopad ::
    "bytes option \<Rightarrow> int \<Rightarrow> bytes option \<Rightarrow> int \<Rightarrow> (int \<times> bytes option) res" where
  "bin_to_b64_nopad inp sz out max_len =
     (case (out, inp) of
        (Some out', Some inp') \<Rightarrow>
          (if sz = 0 then bindr (st out' 0 0) (\<lambda>out'. Inr (0, Some out'))
           else
             let full_blocks = sz sdiv 3; last_bytes = sz smod 3 in
             if last_bytes \<notin> {0, 1, 2} then Inl ExitCall
             else
               let last_chars = (if last_bytes = 0 then 0 else if last_bytes = 1 then 2 else 3);
                   result_len = 4 * full_blocks + last_chars in
               if max_len < result_len + 1 then Inr (-1, out)
               else if full_blocks < 0 then Inl OutOfBounds
               else
                 bindr (enc_loop inp' 0 (nat full_blocks) out') (\<lambda>out'.
                 bindr (enc_last inp' (nat full_blocks) last_chars out') (\<lambda>out'.
                 Inr (result_len, Some out'))))
      | _ \<Rightarrow> Inr (-1, out))"

definition st_opt :: "bytes option \<Rightarrow> nat \<Rightarrow> u8 \<Rightarrow> bytes option res" where
  "st_opt p j v = (case p of None \<Rightarrow> Inl NullDeref | Some xs \<Rightarrow> bindr (st xs j v) (\<lambda>xs. Inr (Some xs)))"

definition bin_to_b64 ::
    "bytes option \<Rightarrow> int \<Rightarrow> bytes option \<Rightarrow> int \<Rightarrow> (int \<times> bytes option) res" where
  "bin_to_b64 inp sz out max_len =
     bindr (bin_to_b64_nopad inp sz out max_len) (\<lambda>(ret, out).
       if ret = -1 then Inr (-1, out)
       else if ret smod 4 = 0 then Inr (ret, out)
       else if ret smod 4 = 1 then Inr (-1, out)
       else if ret smod 4 = 2 then
         (if ret + 2 + 1 \<le> max_len then
            bindr (st_opt out (nat ret) code_pad) (\<lambda>out.
            bindr (st_opt out (nat (ret + 1)) code_pad) (\<lambda>out.
            bindr (st_opt out (nat (ret + 2)) 0) (\<lambda>out.
            Inr (ret + 2, out))))
          else Inr (-1, out))
       else if ret smod 4 = 3 then
         (if ret + 1 + 1 \<le> max_len then
            bindr (st_opt out (nat ret) code_pad) (\<lambda>out.
            bindr (st_opt out (nat (ret + 1)) 0) (\<lambda>out.
            Inr (ret + 1, out)))
          else Inr (-1, out))
       else Inl ExitCall)"

section \<open>Decoding\<close>

text \<open>\<open>0x3F & char_to_code(in[k])\<close>\<close>

definition get_code :: "bytes \<Rightarrow> nat \<Rightarrow> u32 res" where
  "get_code inp k =
     bindr (ld inp k) (\<lambda>c. bindr (char_to_code c) (\<lambda>x. Inr (0x3F AND ucast x)))"

text \<open>\<open>out[j] = (b >> k) & 0xFF\<close>\<close>

definition put_byte :: "bytes \<Rightarrow> nat \<Rightarrow> u32 \<Rightarrow> nat \<Rightarrow> bytes res" where
  "put_byte out j b k = st out j (ucast (drop_bit k b AND 0xFF))"

text \<open>\<open>b = c0 << 18;\<close> then \<open>b |= c1 << 12;\<close> \<open>b |= c2 << 6;\<close> \<open>b |= c3;\<close>\<close>

definition join2 :: "u32 \<Rightarrow> u32 \<Rightarrow> u32" where
  "join2 c0 c1 = push_bit 18 c0 OR push_bit 12 c1"

definition join3 :: "u32 \<Rightarrow> u32 \<Rightarrow> u32 \<Rightarrow> u32" where
  "join3 c0 c1 c2 = join2 c0 c1 OR push_bit 6 c2"

definition join4 :: "u32 \<Rightarrow> u32 \<Rightarrow> u32 \<Rightarrow> u32 \<Rightarrow> u32" where
  "join4 c0 c1 c2 c3 = join3 c0 c1 c2 OR c3"

definition dec_block :: "bytes \<Rightarrow> nat \<Rightarrow> bytes \<Rightarrow> bytes res" where
  "dec_block inp i out =
     bindr (get_code inp (4*i)) (\<lambda>c0.
     bindr (get_code inp (4*i + 1)) (\<lambda>c1.
     bindr (get_code inp (4*i + 2)) (\<lambda>c2.
     bindr (get_code inp (4*i + 3)) (\<lambda>c3.
     let b = join4 c0 c1 c2 c3 in
     bindr (put_byte out (3*i) b 16) (\<lambda>out.
     bindr (put_byte out (3*i + 1) b 8) (\<lambda>out.
     put_byte out (3*i + 2) b 0))))))"

function dec_loop :: "bytes \<Rightarrow> nat \<Rightarrow> nat \<Rightarrow> bytes \<Rightarrow> bytes res" where
  "dec_loop inp i full_blocks out =
     (if i < full_blocks
      then bindr (dec_block inp i out) (\<lambda>out. dec_loop inp (Suc i) full_blocks out)
      else Inr out)"
  by pat_completeness auto
termination
  by (relation "measure (\<lambda>(inp, i, n, out). n - i)") auto

declare dec_loop.simps [simp del]

definition dec_last :: "bytes \<Rightarrow> nat \<Rightarrow> int \<Rightarrow> bytes \<Rightarrow> bytes res" where
  "dec_last inp i last_bytes out =
     (if last_bytes = 1 then
        bindr (get_code inp (4*i)) (\<lambda>c0.
        bindr (get_code inp (4*i + 1)) (\<lambda>c1.
        put_byte out (3*i) (join2 c0 c1) 16))
      else if last_bytes = 2 then
        bindr (get_code inp (4*i)) (\<lambda>c0.
        bindr (get_code inp (4*i + 1)) (\<lambda>c1.
        bindr (get_code inp (4*i + 2)) (\<lambda>c2.
        let b = join3 c0 c1 c2 in
        bindr (put_byte out (3*i) b 16) (\<lambda>out.
        put_byte out (3*i + 1) b 8))))
      else Inr out)"

text \<open>
  For a negative \<open>size\<close>: a negative \<open>size % 4\<close> reaches \<open>CRIT\<close>; with \<open>size % 4 = 0\<close> nothing is read
  or written and the negative \<open>result_len\<close> is returned.
\<close>

definition b64_to_bin_nopad ::
    "bytes option \<Rightarrow> int \<Rightarrow> bytes option \<Rightarrow> int \<Rightarrow> (int \<times> bytes option) res" where
  "b64_to_bin_nopad inp sz out max_len =
     (case (out, inp) of
        (Some out', Some inp') \<Rightarrow>
          (if sz = 0 then Inr (0, out)
           else
             let full_blocks = sz sdiv 4; last_chars = sz smod 4 in
             if last_chars = 1 then Inr (-1, out)
             else if last_chars \<notin> {0, 2, 3} then Inl ExitCall
             else
               let last_bytes = (if last_chars = 0 then 0 else if last_chars = 2 then 1 else 2);
                   result_len = 3 * full_blocks + last_bytes in
               if max_len < result_len then Inr (-1, out)
               else
                 bindr (dec_loop inp' 0 (nat full_blocks) out') (\<lambda>out'.
                 bindr (dec_last inp' (nat full_blocks) last_bytes out') (\<lambda>out'.
                 Inr (result_len, Some out'))))
      | _ \<Rightarrow> Inr (-1, out))"

definition b64_to_bin ::
    "bytes option \<Rightarrow> int \<Rightarrow> bytes option \<Rightarrow> int \<Rightarrow> (int \<times> bytes option) res" where
  "b64_to_bin inp sz out max_len =
     (case inp of
        None \<Rightarrow> Inr (-1, out)
      | Some inp' \<Rightarrow>
          (if sz smod 4 = 0 \<and> 4 \<le> sz then
             bindr (ld inp' (nat (sz - 2))) (\<lambda>c2.
             if c2 = code_pad then b64_to_bin_nopad inp (sz - 2) out max_len
             else
               bindr (ld inp' (nat (sz - 1))) (\<lambda>c1.
               if c1 = code_pad then b64_to_bin_nopad inp (sz - 1) out max_len
               else b64_to_bin_nopad inp sz out max_len))
           else b64_to_bin_nopad inp sz out max_len))"

end
