(* ===== verification/Base64_Correct.thy ===== *)
theory Base64_Correct
  imports Base64
begin

unbundle bit_operations_syntax

text \<open>
  Correctness of the Base64 codec: RFC 4648 as a function on lists (\<open>b64_encode\<close>), the encoder's
  buffer loops compute it, the decoder inverts it, too small buffers and invalid characters are
  rejected the way the code does it. \<open>payload_codec\<close> is the interface the datagram threads use.
\<close>

section \<open>Specification\<close>

definition b64_alphabet :: bytes where
  "b64_alphabet = lit ''ABCDEFGHIJKLMNOPQRSTUVWXYZabcdefghijklmnopqrstuvwxyz0123456789+/''"

definition b64_char :: "u8 \<Rightarrow> u8" where
  "b64_char x = b64_alphabet ! unat x"

fun b64_digits :: "bytes \<Rightarrow> u8 list" where
  "b64_digits [] = []"
| "b64_digits [a] = [drop_bit 2 a, push_bit 4 (take_bit 2 a)]"
| "b64_digits [a, b] = [drop_bit 2 a, push_bit 4 (take_bit 2 a) OR drop_bit 4 b, push_bit 2 (take_bit 4 b)]"
| "b64_digits (a # b # c # xs) =
     [drop_bit 2 a, push_bit 4 (take_bit 2 a) OR drop_bit 4 b, push_bit 2 (take_bit 4 b) OR drop_bit 6 c,
      take_bit 6 c] @ b64_digits xs"

definition b64_nopad :: "bytes \<Rightarrow> bytes" where
  "b64_nopad xs = map b64_char (b64_digits xs)"

definition b64_encode :: "bytes \<Rightarrow> bytes" where
  "b64_encode xs = b64_nopad xs @ replicate ((3 - length xs mod 3) mod 3) code_pad"

section \<open>The two character tables\<close>

lemma u8_cases_lt:
  assumes "(x::u8) < 64" and "\<forall>n\<in>set [0..<64]. P (of_nat n :: u8)"
  shows "P x"
proof -
  have "unat x < 64" using assms(1) by (simp add: word_less_nat_alt)
  then have "unat x \<in> set [0..<64]" by simp
  with assms(2) have "P (of_nat (unat x))" by blast
  then show ?thesis by simp
qed

lemma code_to_char_b64: "x < 64 \<Longrightarrow> code_to_char x = Inr (b64_char x)"
  by (erule u8_cases_lt) code_simp

lemma char_to_code_b64: "x < 64 \<Longrightarrow> char_to_code (b64_char x) = Inr x"
  by (erule u8_cases_lt) code_simp

lemma b64_char_not_pad: "x < 64 \<Longrightarrow> b64_char x \<noteq> code_pad"
  by (erule u8_cases_lt) code_simp

lemma take_bit_6_lt: "take_bit 6 (x::u8) < 64"
proof -
  have "x AND 63 < 64"
    by (rule le_less_trans [OF word_and_le1]) simp
  moreover have "take_bit 6 x = x AND 63"
    by (simp add: take_bit_eq_mask mask_numeral)
  ultimately show ?thesis by simp
qed

lemma digit_lt:
  "drop_bit 2 (a::u8) < 64" "push_bit 4 (take_bit 2 a) < (64::u8)"
  "push_bit 4 (take_bit 2 a) OR drop_bit 4 b < (64::u8)" "push_bit 2 (take_bit 4 b) < (64::u8)"
  "push_bit 2 (take_bit 4 b) OR drop_bit 6 c < (64::u8)" "take_bit 6 (a::u8) < 64"
proof -
  have *: "take_bit 6 x = x \<Longrightarrow> x < 64" for x :: u8
    using take_bit_6_lt [of x] by simp
  show "drop_bit 2 (a::u8) < 64" "push_bit 4 (take_bit 2 a) < (64::u8)"
    "push_bit 4 (take_bit 2 a) OR drop_bit 4 b < (64::u8)" "push_bit 2 (take_bit 4 b) < (64::u8)"
    "push_bit 2 (take_bit 4 b) OR drop_bit 6 c < (64::u8)" "take_bit 6 (a::u8) < 64"
    by (rule *, rule bit_word_eqI, auto simp: bit_simps dest: bit_imp_le_length)+
qed

lemma b64_digits_lt: "\<forall>d\<in>set (b64_digits xs). d < 64"
  by (induction xs rule: b64_digits.induct) (simp_all add: digit_lt)


section \<open>Encoding computes the specification\<close>

lemma pack_sextets:
  "ucast (drop_bit 18 (pack1 a) AND 63) = drop_bit 2 a"
  "ucast (drop_bit 12 (pack1 a) AND 63) = push_bit 4 (take_bit 2 a)"
  "ucast (drop_bit 18 (pack2 a b) AND 63) = drop_bit 2 a"
  "ucast (drop_bit 12 (pack2 a b) AND 63) = push_bit 4 (take_bit 2 a) OR drop_bit 4 b"
  "ucast (drop_bit 6 (pack2 a b) AND 63) = push_bit 2 (take_bit 4 b)"
  "ucast (drop_bit 18 (pack3 a b c) AND 63) = drop_bit 2 a"
  "ucast (drop_bit 12 (pack3 a b c) AND 63) = push_bit 4 (take_bit 2 a) OR drop_bit 4 b"
  "ucast (drop_bit 6 (pack3 a b c) AND 63) = push_bit 2 (take_bit 4 b) OR drop_bit 6 c"
  "ucast (drop_bit 0 (pack3 a b c) AND 63) = take_bit 6 c"
proof -
  have 63: "(63::u32) = mask 6" and 255: "(255::u32) = mask 8" by (simp_all add: mask_numeral)
  note defs = 63 pack3_def pack2_def pack1_def 255
  show "ucast (drop_bit 18 (pack1 a) AND 63) = drop_bit 2 a"
    "ucast (drop_bit 12 (pack1 a) AND 63) = push_bit 4 (take_bit 2 a)"
    "ucast (drop_bit 18 (pack2 a b) AND 63) = drop_bit 2 a"
    "ucast (drop_bit 12 (pack2 a b) AND 63) = push_bit 4 (take_bit 2 a) OR drop_bit 4 b"
    "ucast (drop_bit 6 (pack2 a b) AND 63) = push_bit 2 (take_bit 4 b)"
    "ucast (drop_bit 18 (pack3 a b c) AND 63) = drop_bit 2 a"
    "ucast (drop_bit 12 (pack3 a b c) AND 63) = push_bit 4 (take_bit 2 a) OR drop_bit 4 b"
    "ucast (drop_bit 6 (pack3 a b c) AND 63) = push_bit 2 (take_bit 4 b) OR drop_bit 6 c"
    "ucast (drop_bit 0 (pack3 a b c) AND 63) = take_bit 6 c"
    unfolding defs
    by (rule bit_word_eqI, auto simp: bit_simps dest: bit_imp_le_length)+
qed

lemma put_code_append:
  assumes "ucast (drop_bit k b AND 63) = d" and "d < 64" and "length pre = j" and "0 < length rest"
  shows "put_code (pre @ rest) j b k = Inr (pre @ b64_char d # tl rest)"
  using assms by (auto simp: put_code_def code_to_char_b64 st_append)


lemmas put_sextet = pack_sextets [THEN put_code_append]

lemma enc_block_append:
  assumes "3*i + 2 < length inp" and "length pre = 4*i" and "4 \<le> length rest"
  shows "enc_block inp i (pre @ rest) =
    Inr (pre @ b64_nopad [inp ! (3*i), inp ! (3*i + 1), inp ! (3*i + 2)] @ drop 4 rest)"
proof -
  obtain r0 r1 r2 r3 rs where rest: "rest = r0 # r1 # r2 # r3 # rs"
    using assms(3) by (auto simp: numeral_eq_Suc Suc_le_length_iff)
  show ?thesis
    using assms put_sextet(7)[where pre = "pre @ [_]"] put_sextet(8)[where pre = "pre @ [_, _]"]
      put_sextet(9)[where pre = "pre @ [_, _, _]"]
    by (simp add: enc_block_def put_sextet(6) digit_lt rest b64_nopad_def Let_def)
qed

lemma enc_last_append0:
  "length pre = 4*i \<Longrightarrow> rest \<noteq> [] \<Longrightarrow> enc_last inp i 0 (pre @ rest) = Inr (pre @ 0 # tl rest)"
  by (simp add: enc_last_def st_append)

lemma enc_last_append2:
  assumes "length pre = 4*i" and "3*i < length inp"
  shows "enc_last inp i 2 (pre @ r0 # r1 # r2 # rs) = Inr (pre @ b64_nopad [inp ! (3*i)] @ 0 # rs)"
  using assms put_sextet(2)[where pre = "pre @ [_]"] st_append [where pre = "pre @ [_, _]"]
  by (simp add: enc_last_def put_sextet(1) digit_lt b64_nopad_def Let_def)

lemma enc_last_append3:
  assumes "length pre = 4*i" and "3*i + 1 < length inp"
  shows "enc_last inp i 3 (pre @ r0 # r1 # r2 # r3 # rs) =
    Inr (pre @ b64_nopad [inp ! (3*i), inp ! (3*i + 1)] @ 0 # rs)"
  using assms put_sextet(4)[where pre = "pre @ [_]"] put_sextet(5)[where pre = "pre @ [_, _]"]
    st_append [where pre = "pre @ [_, _, _]"]
  by (simp add: enc_last_def put_sextet(3) digit_lt b64_nopad_def Let_def)

lemma b64_nopad_Cons3: "b64_nopad (a # b # c # xs) = b64_nopad [a, b, c] @ b64_nopad xs"
  by (simp add: b64_nopad_def)

lemma take_drop_3:
  assumes "i < n" and "3*n \<le> length xs"
  shows "take (3*(n - i)) (drop (3*i) xs) =
    xs ! (3*i) # xs ! (3*i + 1) # xs ! (3*i + 2) # take (3*(n - Suc i)) (drop (3*Suc i) xs)"
proof -
  have n: "3*(n - i) = Suc (Suc (Suc (3*(n - Suc i))))" using assms(1) by simp
  have d: "drop (3*i) xs = xs ! (3*i) # xs ! (3*i + 1) # xs ! (3*i + 2) # drop (3*Suc i) xs"
    using assms drop_Cons_nth [of "3*i" xs] drop_Cons_nth [of "3*i + 1" xs]
      drop_Cons_nth [of "3*i + 2" xs] by (simp add: eval_nat_numeral)
  show ?thesis unfolding d n by simp
qed

lemma enc_loop_append:
  assumes "i \<le> n" and "3*n \<le> length inp" and "length pre = 4*i" and "4*(n - i) \<le> length rest"
  shows "enc_loop inp i n (pre @ rest) =
    Inr (pre @ b64_nopad (take (3*(n - i)) (drop (3*i) inp)) @ drop (4*(n - i)) rest)"
  using assms
proof (induction "n - i" arbitrary: i pre rest)
  case 0
  then show ?case by (simp add: enc_loop.simps b64_nopad_def)
next
  case (Suc k)
  let ?blk = "b64_nopad [inp ! (3*i), inp ! (3*i + 1), inp ! (3*i + 2)]"
  have i: "i < n" and k: "k = n - Suc i" using Suc.hyps(2) by auto
  have "enc_block inp i (pre @ rest) = Inr ((pre @ ?blk) @ drop 4 rest)"
    using Suc.prems i by (subst enc_block_append) auto
  moreover have "enc_loop inp (Suc i) n ((pre @ ?blk) @ drop 4 rest) =
    Inr ((pre @ ?blk) @ b64_nopad (take (3*(n - Suc i)) (drop (3*Suc i) inp)) @ drop (4*(n - Suc i)) (drop 4 rest))"
    using Suc.prems i by (intro Suc.hyps(1) [OF k]) (auto simp: b64_nopad_def)
  moreover have "4*(n - Suc i) + 4 = 4*(n - i)" using i by simp
  ultimately show ?case
    using i Suc.prems
    by (simp add: enc_loop.simps [of inp i n] take_drop_3 b64_nopad_Cons3 [of _ _ _ "take _ _"] add.commute)
qed


lemma b64_nopad_append: "length xs = 3*q \<Longrightarrow> b64_nopad (xs @ ys) = b64_nopad xs @ b64_nopad ys"
proof (induction q arbitrary: xs)
  case 0
  then show ?case by (simp add: b64_nopad_def)
next
  case (Suc q)
  then obtain a b c zs where xs: "xs = a # b # c # zs" and "length zs = 3*q"
    by (auto simp: numeral_eq_Suc length_Suc_conv)
  then show ?case using Suc.IH by (simp add: b64_nopad_Cons3 [of _ _ _ "_ @ _"] b64_nopad_Cons3 [of _ _ _ zs])
qed

lemma length_b64_nopad:
  "r < 3 \<Longrightarrow> length xs = 3*q + r \<Longrightarrow> length (b64_nopad xs) = 4*q + (if r = 0 then 0 else r + 1)"
proof (induction q arbitrary: xs)
  case 0
  then show ?case by (cases xs rule: b64_digits.cases) (auto simp: b64_nopad_def)
next
  case (Suc q)
  then obtain a b c zs where xs: "xs = a # b # c # zs" and "length zs = 3*q + r"
    by (auto simp: numeral_eq_Suc length_Suc_conv)
  then show ?case using Suc.IH [of zs] Suc.prems by (simp add: b64_nopad_Cons3 [of _ _ _ zs]) (simp add: b64_nopad_def)
qed

lemma length_b64_encode: "length (b64_encode xs) = 4 * ((length xs + 2) div 3)"
proof -
  define q r where "q = length xs div 3" and "r = length xs mod 3"
  have q: "length xs = 3*q + r" "r < 3" by (simp_all add: q_def r_def)
  have e: "length (b64_encode xs) = length (b64_nopad xs) + (3 - r) mod 3"
    by (simp add: b64_encode_def r_def)
  consider "r = 0" | "r = 1" | "r = 2" using q(2) by linarith
  then show ?thesis
    by cases (use length_b64_nopad [OF q(2,1)] q(1) in \<open>simp_all add: e\<close>)
qed

text \<open>The last partial block of \<open>n = 3*q + r\<close> bytes.\<close>

lemma enc_last_nopad:
  assumes "length pre = 4*q" and "n = 3*q + r" and "r < 3" and "n \<le> length inp"
    and "d = b64_nopad (drop (3*q) (take n inp))" and "length d < length rest"
  shows "enc_last inp q (if r = 0 then 0 else if r = 1 then 2 else 3) (pre @ rest) =
    Inr (pre @ d @ 0 # drop (length d + 1) rest)"
proof -
  consider "r = 0" | "r = 1" | "r = 2" using assms(3) by linarith
  then show ?thesis
  proof cases
    case 1
    then have "d = []" using assms by (simp add: b64_nopad_def)
    then show ?thesis using assms 1 by (cases rest) (simp_all add: enc_last_append0)
  next
    case 2
    then have d: "d = b64_nopad [inp ! (3*q)]" using assms(2,4,5) by (simp add: take_Suc_conv_app_nth)
    then have "2 < length rest" using assms(6) by (simp add: b64_nopad_def)
    then obtain r0 r1 r2 rs where "rest = r0 # r1 # r2 # rs"
      by (cases rest; cases "tl rest"; cases "tl (tl rest)") auto
    then show ?thesis using assms(1,2,4) 2 d
      by (simp add: enc_last_append2) (simp add: b64_nopad_def)
  next
    case 3
    then have d: "d = b64_nopad [inp ! (3*q), inp ! (3*q + 1)]" using assms(2,4,5)
      by (simp add: take_Suc_conv_app_nth)
    then have "3 < length rest" using assms(6) by (simp add: b64_nopad_def)
    then obtain r0 r1 r2 r3 rs where "rest = r0 # r1 # r2 # r3 # rs"
      by (cases rest; cases "tl rest"; cases "tl (tl rest)"; cases "tl (tl (tl rest))") auto
    then show ?thesis using assms(1,2,4) 3 d
      by (simp add: enc_last_append3) (simp add: b64_nopad_def)
  qed
qed


lemma divmod3_int:
  assumes "n = 3*q + r" and "r < (3::nat)"
  shows "int n sdiv 3 = int q" and "int n smod 3 = int r"
  using assms by (auto simp: zdiv_int [symmetric] zmod_int [symmetric])

lemma bin_to_b64_nopad_ok:
  assumes "n \<le> length inp" and "d = b64_nopad (take n inp)" and "length d < length out"
    and "int (length d) < max_len"
  shows "bin_to_b64_nopad (Some inp) (int n) (Some out) max_len =
    Inr (int (length d), Some (d @ 0 # drop (length d + 1) out))"
proof (cases "n = 0")
  case True
  then show ?thesis using assms
    by (cases out) (simp_all add: bin_to_b64_nopad_def b64_nopad_def st_def)
next
  case False
  define q r where "q = n div 3" and "r = n mod 3"
  have n: "n = 3*q + r" "r < 3" by (simp_all add: q_def r_def)
  define d1 d2 where "d1 = b64_nopad (take (3*q) inp)" and "d2 = b64_nopad (drop (3*q) (take n inp))"
  have t: "take (3*q) (take n inp) = take (3*q) inp"
    using n(1) by (simp only: take_take) (simp add: min_def)
  have len: "length (take (3*q) (take n inp)) = 3*q"
    using n(1) assms(1) unfolding t by simp
  have "d = b64_nopad (take (3*q) (take n inp) @ drop (3*q) (take n inp))"
    unfolding append_take_drop_id by (rule assms(2))
  also have "\<dots> = d1 @ d2"
    unfolding b64_nopad_append [OF len] unfolding t d1_def d2_def ..
  finally have d: "d = d1 @ d2" .
  have l1: "length d1 = 4*q"
    using length_b64_nopad [of 0 "take (3*q) inp" q] n assms(1) by (simp add: d1_def)
  have l: "length d = 4*q + (if r = 0 then 0 else r + 1)"
    using length_b64_nopad [of r "take n inp" q] n assms(1,2) by simp
  have loop: "enc_loop inp 0 q out = Inr (d1 @ drop (4*q) out)"
    using enc_loop_append [of 0 q inp "[]" out] n assms(1,3) l by (simp add: d1_def)
  have "length d2 < length (drop (4*q) out)"
    using assms(3) d l1 by simp
  then have "enc_last inp q (if r = 0 then 0 else if r = 1 then 2 else 3) (d1 @ drop (4*q) out) =
    Inr (d1 @ d2 @ 0 # drop (length d2 + 1) (drop (4*q) out))"
    using n assms(1) l1 by (intro enc_last_nopad [where n = n]) (simp_all add: d2_def)
  moreover have "length d2 + 1 + 4*q = length d + 1"
    using d l1 by simp
  moreover define res where "res = d @ 0 # drop (length d + 1) out"
  ultimately have last: "enc_last inp q (if r = 0 then 0 else if r = 1 then 2 else 3) (d1 @ drop (4*q) out) =
    Inr res"
    by (simp only: d drop_drop append_assoc)
  have r: "r = 0 \<or> r = 1 \<or> r = 2" using n by linarith
  show ?thesis
    unfolding res_def [symmetric] using False assms(4) loop last l r
    by (auto simp: bin_to_b64_nopad_def divmod3_int [OF n] Let_def)
qed

lemma bin_to_b64_nopad_small:
  assumes "n \<noteq> 0" and "n \<le> length inp" and "max_len \<le> int (length (b64_nopad (take n inp)))"
  shows "bin_to_b64_nopad (Some inp) (int n) (Some out) max_len = Inr (-1, Some out)"
proof -
  define q r where "q = n div 3" and "r = n mod 3"
  have n: "n = 3*q + r" "r < 3" by (simp_all add: q_def r_def)
  have l: "length (b64_nopad (take n inp)) = 4*q + (if r = 0 then 0 else r + 1)"
    using length_b64_nopad [of r "take n inp" q] n assms(2) by simp
  have r: "r = 0 \<or> r = 1 \<or> r = 2" using n by linarith
  then show ?thesis
    using assms(1,3) l by (auto simp: bin_to_b64_nopad_def divmod3_int [OF n] Let_def)
qed


lemma pad_two:
  "bindr (st_opt (Some (e @ x0 # x1 # x2 # xs)) (length e) p) (\<lambda>out.
   bindr (st_opt out (Suc (length e)) p) (\<lambda>out.
   bindr (st_opt out (Suc (Suc (length e))) w) f)) = f (Some (e @ p # p # w # xs))"
  by (simp add: st_opt_def st_def list_update_append)

lemma pad_one:
  "bindr (st_opt (Some (e @ x0 # x1 # xs)) (length e) p) (\<lambda>out.
   bindr (st_opt out (Suc (length e)) w) f) = f (Some (e @ p # w # xs))"
  by (simp add: st_opt_def st_def list_update_append)

text \<open>Padding. The three cases of \<open>ret % 4\<close> are the three remainders of the input length.\<close>

lemma bin_to_b64_ok:
  assumes "n \<le> length inp" and "d = b64_encode (take n inp)" and "length d < length out"
    and "int (length d) < max_len"
  shows "bin_to_b64 (Some inp) (int n) (Some out) max_len =
    Inr (int (length d), Some (d @ 0 # drop (length d + 1) out))"
proof -
  define q r where "q = n div 3" and "r = n mod 3"
  have n: "n = 3*q + r" "r < 3" by (simp_all add: q_def r_def)
  let ?e = "b64_nopad (take n inp)"
  have l: "length ?e = 4*q + (if r = 0 then 0 else r + 1)"
    using length_b64_nopad [of r "take n inp" q] n assms(1) by simp
  have d: "d = ?e @ replicate ((3 - r) mod 3) code_pad"
    using assms(1,2) n by (simp add: b64_encode_def min_def)
  have nopad: "bin_to_b64_nopad (Some inp) (int n) (Some out) max_len =
    Inr (int (length ?e), Some (?e @ 0 # drop (length ?e + 1) out))"
    using assms(1,3,4) d by (intro bin_to_b64_nopad_ok) simp_all
  consider "r = 0" | "r = 1" | "r = 2" using n by linarith
  then show ?thesis
  proof cases
    case 1
    then show ?thesis using nopad d l by (simp add: bin_to_b64_def)
  next
    case 2
    then have mod: "int (length ?e) smod 4 = 2" using l by simp
    have dd: "d = ?e @ [code_pad, code_pad]" using d 2 by (simp add: numeral_2_eq_2)
    have "drop (length ?e + 1) out = out ! (length ?e + 1) # out ! (length ?e + 2) # drop (length ?e + 3) out"
      using assms(3) dd drop_Cons_nth [of "length ?e + 1" out] drop_Cons_nth [of "length ?e + 2" out]
      by (simp add: eval_nat_numeral)
    then show ?thesis using nopad mod dd assms(4)
      by (simp add: bin_to_b64_def nat_add_distrib pad_two numeral_3_eq_3)
  next
    case 3
    then have mod: "int (length ?e) smod 4 = 3" using l by simp
    have dd: "d = ?e @ [code_pad]" using d 3 by simp
    have "drop (length ?e + 1) out = out ! (length ?e + 1) # drop (length ?e + 2) out"
      using assms(3) dd drop_Cons_nth [of "length ?e + 1" out] by (simp add: eval_nat_numeral)
    then show ?thesis using nopad mod dd assms(4)
      by (simp add: bin_to_b64_def nat_add_distrib pad_one)
  qed
qed


section \<open>Decoding inverts it\<close>

lemma get_code_b64:
  assumes "k < length inp" and "inp ! k = b64_char d" and "d < 64"
  shows "get_code inp k = Inr (ucast d)"
proof -
  have "unat d < 2 ^ 6" using assms(3) by (simp add: word_less_nat_alt)
  then have "take_bit 6 (unat d) = unat d" by (rule take_bit_nat_eq_self)
  then have "take_bit 6 d = d"
    by (simp only: unsigned_take_bit_eq [symmetric] unsigned_word_eqI)
  then have "take_bit 6 (ucast d :: u32) = ucast d"
    by (metis unsigned_take_bit_eq)
  then have "63 AND ucast d = (ucast d :: u32)"
    by (simp add: take_bit_eq_mask mask_numeral and.commute)
  then show ?thesis using assms by (simp add: get_code_def char_to_code_b64)
qed

lemma u8_bit_eqI: "(\<And>n. n \<in> {0, 1, 2, 3, 4, 5, 6, 7} \<Longrightarrow> bit x n = bit y n) \<Longrightarrow> x = (y::u8)"
  by (rule bit_word_eqI) (auto simp: numeral_eq_Suc less_Suc_eq)

lemma u8_no_bit: "8 \<le> n \<Longrightarrow> \<not> bit (x::u8) n"
  by (auto dest: bit_imp_le_length)

lemma join_bytes:
  fixes a b c :: u8
  defines "d0 \<equiv> ucast (drop_bit 2 a) :: u32"
    and "d1 \<equiv> ucast (push_bit 4 (take_bit 2 a)) :: u32"
    and "d1' \<equiv> ucast (push_bit 4 (take_bit 2 a) OR drop_bit 4 b) :: u32"
    and "d2 \<equiv> ucast (push_bit 2 (take_bit 4 b)) :: u32"
    and "d2' \<equiv> ucast (push_bit 2 (take_bit 4 b) OR drop_bit 6 c) :: u32"
    and "d3 \<equiv> ucast (take_bit 6 c) :: u32"
  shows "ucast (drop_bit 16 (join2 d0 d1) AND 0xFF) = a"
    "ucast (drop_bit 16 (join3 d0 d1' d2) AND 0xFF) = a"
    "ucast (drop_bit 8 (join3 d0 d1' d2) AND 0xFF) = b"
    "ucast (drop_bit 16 (join4 d0 d1' d2' d3) AND 0xFF) = a"
    "ucast (drop_bit 8 (join4 d0 d1' d2' d3) AND 0xFF) = b"
    "ucast (drop_bit 0 (join4 d0 d1' d2' d3) AND 0xFF) = c"
proof -
  have 255: "(255::u32) = mask 8" by (simp add: mask_numeral)
  note defs = 255 join4_def join3_def join2_def d0_def d1_def d1'_def d2_def d2'_def d3_def
  show "ucast (drop_bit 16 (join2 d0 d1) AND 0xFF) = a"
    "ucast (drop_bit 16 (join3 d0 d1' d2) AND 0xFF) = a"
    "ucast (drop_bit 8 (join3 d0 d1' d2) AND 0xFF) = b"
    "ucast (drop_bit 16 (join4 d0 d1' d2' d3) AND 0xFF) = a"
    "ucast (drop_bit 8 (join4 d0 d1' d2' d3) AND 0xFF) = b"
    "ucast (drop_bit 0 (join4 d0 d1' d2' d3) AND 0xFF) = c"
    unfolding defs
    by (rule u8_bit_eqI, elim insertE emptyE; simp add: bit_simps u8_no_bit)+
qed


lemma put_byte_eq:
  "ucast (drop_bit k b AND 0xFF) = v \<Longrightarrow> length pre = j \<Longrightarrow> rest \<noteq> [] \<Longrightarrow>
   put_byte (pre @ rest) j b k = Inr (pre @ v # tl rest)"
  by (simp add: put_byte_def st_append)

lemmas put_joined = join_bytes [THEN put_byte_eq]

lemma dec_block_append:
  assumes "drop (4*i) inp = b64_nopad [a, b, c] @ inp'" and "length pre = 3*i" and "3 \<le> length rest"
  shows "dec_block inp i (pre @ rest) = Inr (pre @ [a, b, c] @ drop 3 rest)"
proof -
  obtain r0 r1 r2 rs where rest: "rest = r0 # r1 # r2 # rs"
    using assms(3) by (auto simp: numeral_eq_Suc Suc_le_length_iff)
  have len: "4*i + 3 < length inp"
    using arg_cong [OF assms(1), of length] by (simp add: b64_nopad_def)
  have nth: "inp ! (4*i + k) = (b64_nopad [a, b, c] @ inp') ! k" for k
    using len by (simp add: assms(1) [symmetric])
  have "get_code inp (4*i) = Inr (ucast (drop_bit 2 a))"
    "get_code inp (4*i + 1) = Inr (ucast (push_bit 4 (take_bit 2 a) OR drop_bit 4 b))"
    "get_code inp (4*i + 2) = Inr (ucast (push_bit 2 (take_bit 4 b) OR drop_bit 6 c))"
    "get_code inp (4*i + 3) = Inr (ucast (take_bit 6 c))"
    using len nth [of 0] nth [of 1] nth [of 2] nth [of 3]
    by (auto intro!: get_code_b64 simp: digit_lt b64_nopad_def)
  then show ?thesis
    using assms(2) put_joined(5)[where pre = "pre @ [_]"] put_joined(6)[where pre = "pre @ [_, _]"]
    by (simp add: dec_block_def Let_def put_joined(4) rest)
qed

lemma dec_loop_append:
  assumes "i \<le> n" and "drop (4*i) inp = b64_nopad xs @ inp'" and "length xs = 3*(n - i)"
    and "length pre = 3*i" and "length xs \<le> length rest"
  shows "dec_loop inp i n (pre @ rest) = Inr (pre @ xs @ drop (length xs) rest)"
  using assms
proof (induction "n - i" arbitrary: i pre rest xs)
  case 0
  then show ?case by (simp add: dec_loop.simps)
next
  case (Suc k)
  then have i: "i < n" and k: "k = n - Suc i" by auto
  obtain a b c ys where xs: "xs = a # b # c # ys" and ys: "length ys = 3*(n - Suc i)"
    using Suc.prems(3) i by (elim length_add3E [of xs "3*(n - Suc i)", rotated]) (auto simp: Suc_diff_Suc [symmetric])
  have d: "drop (4*i) inp = b64_nopad [a, b, c] @ b64_nopad ys @ inp'"
    using Suc.prems(2) by (simp add: xs b64_nopad_Cons3 [of _ _ _ ys])
  then have "drop 4 (drop (4*i) inp) = b64_nopad ys @ inp'" by (simp add: b64_nopad_def)
  then have d': "drop (4*Suc i) inp = b64_nopad ys @ inp'" by (simp add: add.commute)
  have "dec_block inp i (pre @ rest) = Inr ((pre @ [a, b, c]) @ drop 3 rest)"
    using Suc.prems xs by (subst dec_block_append [OF d]) auto
  moreover have "dec_loop inp (Suc i) n ((pre @ [a, b, c]) @ drop 3 rest) =
      Inr ((pre @ [a, b, c]) @ ys @ drop (length ys) (drop 3 rest))"
    using Suc.prems i xs by (intro Suc.hyps(1) [OF k _ d' ys]) auto
  ultimately show ?case
    using i by (simp add: dec_loop.simps [of inp i n] xs add.commute numeral_3_eq_3)
qed

lemma dec_last_append1:
  assumes "drop (4*i) inp = b64_nopad [a] @ inp'" and "length pre = 3*i"
  shows "dec_last inp i 1 (pre @ r0 # rs) = Inr (pre @ a # rs)"
proof -
  have len: "4*i + 1 < length inp"
    using arg_cong [OF assms(1), of length] by (simp add: b64_nopad_def)
  have nth: "inp ! (4*i + k) = (b64_nopad [a] @ inp') ! k" for k
    using len by (simp add: assms(1) [symmetric])
  have "get_code inp (4*i) = Inr (ucast (drop_bit 2 a))"
    "get_code inp (4*i + 1) = Inr (ucast (push_bit 4 (take_bit 2 a)))"
    using len nth [of 0] nth [of 1] by (auto intro!: get_code_b64 simp: digit_lt b64_nopad_def)
  then show ?thesis using assms(2) by (simp add: dec_last_def put_joined(1))
qed

lemma dec_last_append2:
  assumes "drop (4*i) inp = b64_nopad [a, b] @ inp'" and "length pre = 3*i"
  shows "dec_last inp i 2 (pre @ r0 # r1 # rs) = Inr (pre @ a # b # rs)"
proof -
  have len: "4*i + 2 < length inp"
    using arg_cong [OF assms(1), of length] by (simp add: b64_nopad_def)
  have nth: "inp ! (4*i + k) = (b64_nopad [a, b] @ inp') ! k" for k
    using len by (simp add: assms(1) [symmetric])
  have "get_code inp (4*i) = Inr (ucast (drop_bit 2 a))"
    "get_code inp (4*i + 1) = Inr (ucast (push_bit 4 (take_bit 2 a) OR drop_bit 4 b))"
    "get_code inp (4*i + 2) = Inr (ucast (push_bit 2 (take_bit 4 b)))"
    using len nth [of 0] nth [of 1] nth [of 2]
    by (auto intro!: get_code_b64 simp: digit_lt b64_nopad_def)
  then show ?thesis using assms(2) put_joined(3)[where pre = "pre @ [_]"]
    by (simp add: dec_last_def Let_def put_joined(2))
qed


lemma divmod4_int:
  assumes "n = 4*q + r" and "r < (4::nat)"
  shows "int n sdiv 4 = int q" and "int n smod 4 = int r"
  using assms by (auto simp: zdiv_int [symmetric] zmod_int [symmetric])

lemma b64_to_bin_nopad_ok:
  assumes "inp = b64_nopad xs @ inp'" and "n = length (b64_nopad xs)"
    and "length xs \<le> length out" and "int (length xs) \<le> max_len"
  shows "b64_to_bin_nopad (Some inp) (int n) (Some out) max_len =
    Inr (int (length xs), Some (xs @ drop (length xs) out))"
proof -
  define q r where "q = length xs div 3" and "r = length xs mod 3"
  have q: "length xs = 3*q + r" "r < 3" by (simp_all add: q_def r_def)
  define ys zs where "ys = take (3*q) xs" and "zs = drop (3*q) xs"
  have xs: "xs = ys @ zs" and ly: "length ys = 3*q" and lz: "length zs = r"
    using q by (simp_all add: ys_def zs_def)
  have n: "n = 4*q + (if r = 0 then 0 else r + 1)"
    using length_b64_nopad [OF q(2,1)] assms(2) by simp
  have b: "b64_nopad xs = b64_nopad ys @ b64_nopad zs"
    unfolding xs by (rule b64_nopad_append [OF ly])
  have lb: "length (b64_nopad ys) = 4*q"
    using length_b64_nopad [of 0 ys q] ly by simp
  have loop: "dec_loop inp 0 q out = Inr (ys @ drop (3*q) out)"
    using dec_loop_append [of 0 q inp ys "b64_nopad zs @ inp'" "[]" out] assms(1,3) b ly xs by simp
  have last: "drop (4*q) inp = b64_nopad zs @ inp'"
    using assms(1) b lb by simp
  consider "r = 0" | "r = 1" | "r = 2" using q(2) by linarith
  then show ?thesis
  proof cases
    case 1
    then show ?thesis using loop assms(4) n q xs lz
      by (auto simp: b64_to_bin_nopad_def dec_last_def dec_loop.simps divmod4_int [of _ q 0])
  next
    case 2
    obtain a where zs: "zs = [a]" using lz 2 by (auto simp: length_Suc_conv)
    obtain r0 where "drop (3*q) out = r0 # drop (Suc (3*q)) out"
      using assms(3) q 2 drop_Cons_nth [of "3*q" out] by auto
    then show ?thesis
      using loop assms(4) n q xs zs 2 dec_last_append1 [OF last [unfolded zs], of ys] ly
      by (auto simp: b64_to_bin_nopad_def divmod4_int [of _ q 2])
  next
    case 3
    obtain a b where zs: "zs = [a, b]" using lz 3 by (auto simp: length_Suc_conv numeral_2_eq_2)
    obtain r0 r1 where "drop (3*q) out = r0 # r1 # drop (Suc (Suc (3*q))) out"
      using assms(3) q 3 drop_Cons_nth [of "3*q" out] drop_Cons_nth [of "Suc (3*q)" out] by auto
    then show ?thesis
      using loop assms(4) n q xs zs 3 dec_last_append2 [OF last [unfolded zs], of ys] ly
      by (auto simp: b64_to_bin_nopad_def divmod4_int [of _ q 3])
  qed
qed


text \<open>The padded decoder on padded text.\<close>

lemma b64_to_bin_ok:
  assumes "inp = b64_encode xs @ inp'" and "n = length (b64_encode xs)"
    and "length xs \<le> length out" and "int (length xs) \<le> max_len"
  shows "b64_to_bin (Some inp) (int n) (Some out) max_len =
    Inr (int (length xs), Some (xs @ drop (length xs) out))"
proof -
  define q r where "q = length xs div 3" and "r = length xs mod 3"
  have q: "length xs = 3*q + r" "r < 3" by (simp_all add: q_def r_def)
  let ?e = "b64_nopad xs"
  have l: "length ?e = 4*q + (if r = 0 then 0 else r + 1)"
    using length_b64_nopad [OF q(2,1)] .
  have e: "b64_encode xs = ?e @ replicate ((3 - r) mod 3) code_pad"
    by (simp add: b64_encode_def r_def)
  have npad: "c \<in> set ?e \<Longrightarrow> c \<noteq> code_pad" for c
    using b64_digits_lt [of xs] b64_char_not_pad by (auto simp: b64_nopad_def)
  have nopad: "inp = ?e @ inp'' \<Longrightarrow> b64_to_bin_nopad (Some inp) (int (length ?e)) (Some out) max_len =
    Inr (int (length xs), Some (xs @ drop (length xs) out))" for inp''
    using b64_to_bin_nopad_ok [OF _ refl assms(3,4)] .
  consider "r = 0" | "r = 1" | "r = 2" using q(2) by linarith
  then show ?thesis
  proof cases
    case 1
    then have n: "n = 4*q" and inp: "inp = ?e @ inp'" using assms(1,2) e l by simp_all
    have "0 < q \<Longrightarrow> inp ! nat (4 * int q - 2) = ?e ! (4*q - 2)"
      "0 < q \<Longrightarrow> inp ! nat (4 * int q - 1) = ?e ! (4*q - 1)"
      using inp l 1 by (auto simp: nth_append nat_diff_distrib nat_mult_distrib)
    then show ?thesis using nopad [OF inp] n l 1 inp
      npad [OF nth_mem, of "4*q - 2"] npad [OF nth_mem, of "4*q - 1"]
      by (auto simp: b64_to_bin_def divmod4_int [of _ q 0])
  next
    case 2
    then have n: "n = 4*q + 4" and inp: "inp = ?e @ [code_pad, code_pad] @ inp'"
      using assms(1,2) e l by (simp_all add: numeral_2_eq_2)
    have nt: "nat (int n - 2) = length ?e" using n l 2 by simp
    have "inp ! length ?e = code_pad" unfolding inp by (simp add: nth_append)
    then show ?thesis using nopad [OF inp] n l 2 inp nt
      by (simp add: b64_to_bin_def divmod4_int [of _ "q + 1" 0])
  next
    case 3
    then have n: "n = 4*q + 4" and inp: "inp = ?e @ [code_pad] @ inp'"
      using assms(1,2) e l by simp_all
    have nt: "nat (int n - 1) = length ?e" "nat (int n - 2) = length ?e - 1" using n l 3 by simp_all
    have "inp ! length ?e = code_pad" unfolding inp by (simp add: nth_append)
    moreover have "inp ! (length ?e - 1) \<noteq> code_pad"
      using npad [OF nth_mem, of "length ?e - 1"] l 3 unfolding inp by (simp add: nth_append)
    ultimately show ?thesis using nopad [OF inp] n l 3 inp nt
      by (simp add: b64_to_bin_def divmod4_int [of _ "q + 1" 0] add.commute)
  qed
qed


section \<open>Buffers and characters the codec rejects\<close>

lemma bin_to_b64_small:
  assumes "n \<noteq> 0" and "n \<le> length inp" and "max_len \<le> int (length out)"
    and "max_len \<le> int (length (b64_encode (take n inp)))"
  shows "\<exists>out'. bin_to_b64 (Some inp) (int n) (Some out) max_len = Inr (-1, Some out')"
proof (cases "max_len \<le> int (length (b64_nopad (take n inp)))")
  case True
  with assms(1,2) show ?thesis by (simp add: bin_to_b64_def bin_to_b64_nopad_small)
next
  case False
  define q r where "q = n div 3" and "r = n mod 3"
  have n: "n = 3*q + r" "r < 3" by (simp_all add: q_def r_def)
  let ?e = "b64_nopad (take n inp)"
  have l: "length ?e = 4*q + (if r = 0 then 0 else r + 1)"
    using length_b64_nopad [of r "take n inp" q] n assms(2) by simp
  have d: "b64_encode (take n inp) = ?e @ replicate ((3 - r) mod 3) code_pad"
    using assms(2) n by (simp add: b64_encode_def min_def)
  have nopad: "bin_to_b64_nopad (Some inp) (int n) (Some out) max_len =
    Inr (int (length ?e), Some (?e @ 0 # drop (length ?e + 1) out))"
    using assms False by (intro bin_to_b64_nopad_ok) simp_all
  consider "r = 0" | "r = 1" | "r = 2" using n by linarith
  then show ?thesis
  proof cases
    case 1
    then show ?thesis using assms(4) False d by simp
  next
    case 2
    then have "int (length ?e) smod 4 = 2" using l by simp
    then show ?thesis using nopad assms(4) d 2 by (simp add: bin_to_b64_def)
  next
    case 3
    then have "int (length ?e) smod 4 = 3" using l by simp
    then show ?thesis using nopad assms(4) d 3 by (simp add: bin_to_b64_def)
  qed
qed

definition b64_ok :: "u8 \<Rightarrow> bool" where
  "b64_ok x \<longleftrightarrow> 65 \<le> x \<and> x \<le> 90 \<or> 97 \<le> x \<and> x \<le> 122 \<or> 48 \<le> x \<and> x \<le> 57 \<or> x = code_62 \<or> x = code_63"

lemma get_code_if:
  obtains f where "\<And>k. k < length inp \<Longrightarrow>
    get_code inp k = (if b64_ok (inp ! k) then Inr (f k) else Inl ExitCall)"
proof
  show "get_code inp k = (if b64_ok (inp ! k) then Inr (projr (get_code inp k)) else Inl ExitCall)"
    if "k < length inp" for k
    using that by (simp add: get_code_def char_to_code_def b64_ok_def)
qed

lemma dec_block_bad:
  assumes "4*i + 3 < length inp" and "j < 4" and "\<not> b64_ok (inp ! (4*i + j))"
  shows "dec_block inp i out = Inl ExitCall"
proof -
  obtain f where f: "\<And>k. k < length inp \<Longrightarrow>
    get_code inp k = (if b64_ok (inp ! k) then Inr (f k) else Inl ExitCall)"
    using get_code_if by blast
  have "j = 0 \<or> j = 1 \<or> j = 2 \<or> j = 3" using assms(2) by linarith
  then show ?thesis
    by (elim disjE; use assms(1,3) in \<open>simp add: dec_block_def f\<close>)
qed

lemma dec_block_good:
  assumes "4*i + 3 < length inp" and "3*i + 2 < length out" and "\<forall>j<4. b64_ok (inp ! (4*i + j))"
  shows "\<exists>out'. dec_block inp i out = Inr out' \<and> length out' = length out"
proof -
  obtain f where f: "\<And>k. k < length inp \<Longrightarrow>
    get_code inp k = (if b64_ok (inp ! k) then Inr (f k) else Inl ExitCall)"
    using get_code_if by blast
  have "b64_ok (inp ! (4*i))" "b64_ok (inp ! (4*i + 1))" "b64_ok (inp ! (4*i + 2))" "b64_ok (inp ! (4*i + 3))"
    using assms(3) [rule_format, of 0] assms(3) [rule_format, of 1] assms(3) [rule_format, of 2]
      assms(3) [rule_format, of 3] by simp_all
  then show ?thesis using assms(1,2)
    by (simp add: dec_block_def put_byte_def Let_def st_Inr f)
qed

lemma dec_loop_bad:
  assumes "4*n \<le> length inp" and "3*n \<le> length out" and "4*i \<le> k" and "k < 4*n" and "\<not> b64_ok (inp ! k)"
  shows "dec_loop inp i n out = Inl ExitCall"
  using assms
proof (induction inp i n out rule: dec_loop.induct)
  case (1 inp i n out)
  then have i: "i < n" by simp
  show ?case
  proof (cases "\<forall>j<4. b64_ok (inp ! (4*i + j))")
    case True
    then obtain out' where out': "dec_block inp i out = Inr out'" "length out' = length out"
      using dec_block_good [of i inp out] 1 i by auto
    have "4 * Suc i \<le> k"
    proof (rule ccontr)
      assume "\<not> 4 * Suc i \<le> k"
      then have "k - 4*i < 4" and "4*i + (k - 4*i) = k" using 1(4) by auto
      then show False using True 1(6) by (metis (no_types))
    qed
    then show ?thesis using 1(1) [OF i, of out'] 1 out' i by (simp add: dec_loop.simps [of inp i n out])
  next
    case False
    then show ?thesis using dec_block_bad [of i inp _ out] 1 i
      by (auto simp: dec_loop.simps [of inp i n out])
  qed
qed

lemma b64_to_bin_nopad_exit:
  assumes "n \<le> length inp" and "k < 4 * (n div 4)" and "\<not> b64_ok (inp ! k)" and "n mod 4 \<noteq> 1"
    and "max_len \<le> int (length out)" and "3 * int n \<le> 4 * max_len"
  shows "b64_to_bin_nopad (Some inp) (int n) (Some out) max_len = Inl ExitCall"
proof -
  define q r where "q = n div 4" and "r = n mod 4"
  have n: "n = 4*q + r" "r < 4" by (simp_all add: q_def r_def)
  have "r \<noteq> 1" using assms(4) by (simp add: r_def)
  then have "r = 0 \<or> r = 2 \<or> r = 3" using n(2) by linarith
  moreover have "dec_loop inp 0 q out = Inl ExitCall"
    using assms(1-3,5,6) n by (intro dec_loop_bad [of q inp out 0 k]) (simp_all add: q_def [symmetric])
  moreover have "0 < q" using assms(2) by (simp add: q_def)
  ultimately show ?thesis
    using assms(6) n by (auto simp: b64_to_bin_nopad_def divmod4_int [OF n])
qed


section \<open>The interface of the codec\<close>

text \<open>
  What a caller relies on: encoding a block into a buffer that is big enough leaves the text, a NUL
  and the untouched rest; decoding a block that starts with the text of \<open>xs\<close> gives \<open>xs\<close> back.
\<close>

locale payload_codec =
  fixes encode :: "bytes option \<Rightarrow> int \<Rightarrow> bytes option \<Rightarrow> int \<Rightarrow> (int \<times> bytes option) res"
    and decode :: "bytes option \<Rightarrow> int \<Rightarrow> bytes option \<Rightarrow> int \<Rightarrow> (int \<times> bytes option) res"
    and text_of :: "bytes \<Rightarrow> bytes"
  assumes encode_ok: "n \<le> length inp \<Longrightarrow> length (text_of (take n inp)) < length out \<Longrightarrow>
      int (length (text_of (take n inp))) < max_len \<Longrightarrow>
      encode (Some inp) (int n) (Some out) max_len =
        Inr (int (length (text_of (take n inp))),
          Some (text_of (take n inp) @ 0 # drop (length (text_of (take n inp)) + 1) out))"
    and decode_ok: "length xs \<le> length out \<Longrightarrow> int (length xs) \<le> max_len \<Longrightarrow>
      decode (Some (text_of xs @ rest)) (int (length (text_of xs))) (Some out) max_len =
        Inr (int (length xs), Some (xs @ drop (length xs) out))"
begin

lemma decode_encode:
  assumes "n \<le> length inp" and "length (text_of (take n inp)) < length text_buf"
    and "int (length (text_of (take n inp))) < text_len"
    and "n \<le> length bin_buf" and "int n \<le> bin_len"
  shows "bindr (encode (Some inp) (int n) (Some text_buf) text_len) (\<lambda>(m, txt).
           decode txt m (Some bin_buf) bin_len) =
         Inr (int n, Some (take n inp @ drop n bin_buf))"
  using assms decode_ok [of "take n inp" bin_buf bin_len]
  by (simp add: encode_ok min_def)

lemma encode_keeps_length:
  assumes "n \<le> length inp" and "length (text_of (take n inp)) < length out"
    and "int (length (text_of (take n inp))) < max_len"
    and "encode (Some inp) (int n) (Some out) max_len = Inr (m, Some out')"
  shows "length out' = length out"
  using assms by (auto simp: encode_ok)

end

interpretation b64: payload_codec bin_to_b64 b64_to_bin b64_encode
  by unfold_locales (simp add: bin_to_b64_ok, rule b64_to_bin_ok [OF refl refl])

section \<open>Properties\<close>

text \<open>
  C19. on any block of \<open>n\<close> bytes and any output buffer with room for the text and its NUL,
  \<open>bin_to_b64\<close> writes exactly the padded RFC 4648 text of the block, terminates it, touches nothing
  behind it and returns its length, \<open>4 * ceil(n / 3)\<close>.
\<close>

theorem bin_to_b64_is_rfc4648:
  assumes "n \<le> length inp" and "4 * ((n + 2) div 3) < length out"
    and "int (4 * ((n + 2) div 3)) < max_len"
  shows "bin_to_b64 (Some inp) (int n) (Some out) max_len =
    Inr (int (4 * ((n + 2) div 3)),
      Some (b64_encode (take n inp) @ 0 # drop (4 * ((n + 2) div 3) + 1) out))"
  using b64.encode_ok [of n inp out max_len] assms by (simp add: length_b64_encode min_def)

theorem bin_to_b64_is_rfc4648_witness:
  "bin_to_b64 (Some [77, 97]) (int 2) (Some (replicate 6 9)) 6 =
    Inr (4, Some ([84, 87, 69, 61] @ 0 # drop 5 (replicate 6 9)))"
proof -
  have "b64_encode (take 2 [77, 97]) = [84, 87, 69, 61]" by code_simp
  then show ?thesis
    using bin_to_b64_is_rfc4648 [of 2 "[77, 97]" "replicate 6 9" 6] by simp
qed

text \<open>
  C11. decoding with \<open>b64_to_bin\<close> what \<open>bin_to_b64\<close> produced gives the original bytes and their
  number, for every length and every content.
\<close>

theorem base64_roundtrip:
  assumes "n \<le> length inp" and "4 * ((n + 2) div 3) < length text_buf"
    and "int (4 * ((n + 2) div 3)) < text_len" and "n \<le> length bin_buf" and "int n \<le> bin_len"
  shows "bindr (bin_to_b64 (Some inp) (int n) (Some text_buf) text_len) (\<lambda>(m, txt).
           b64_to_bin txt m (Some bin_buf) bin_len) =
         Inr (int n, Some (take n inp @ drop n bin_buf))"
  using assms by (intro b64.decode_encode) (simp_all add: length_b64_encode min_def)

theorem base64_roundtrip_witness:
  "bindr (bin_to_b64 (Some [1, 2, 255, 7]) (int 4) (Some (replicate 9 0)) 9) (\<lambda>(m, txt).
      b64_to_bin txt m (Some (replicate 5 8)) 5) = Inr (int 4, Some [1, 2, 255, 7, 8])"
  using base64_roundtrip [of 4 "[1, 2, 255, 7]" "replicate 9 0" 9 "replicate 5 8" 5] by simp

text \<open>
  with a caller that keeps the contract (\<open>max_len\<close> is the size of the output buffer), the encoder
  never writes outside the buffer and never exits: it returns either the text or -1, and -1
  exactly when the buffer has no room for the padded text and its NUL.
\<close>

theorem bin_to_b64_never_overruns:
  assumes "0 < n" and "n \<le> length inp"
  shows "\<exists>r out'. bin_to_b64 (Some inp) (int n) (Some out) (int (length out)) = Inr (r, Some out') \<and>
    (r = -1 \<longleftrightarrow> length out \<le> 4 * ((n + 2) div 3))"
proof (cases "length out \<le> 4 * ((n + 2) div 3)")
  case True
  then show ?thesis using assms bin_to_b64_small [of n inp "int (length out)" out]
    by (simp add: length_b64_encode min_def)
next
  case False
  then show ?thesis using assms b64.encode_ok [of n inp out "int (length out)"]
    by (simp add: length_b64_encode min_def)
qed

theorem bin_to_b64_never_overruns_witness:
  "\<exists>r out'. bin_to_b64 (Some [5, 6]) (int 2) (Some [0, 0, 0, 0]) (int 4) = Inr (r, Some out') \<and> r = -1"
  using bin_to_b64_never_overruns [of 2 "[5, 6]" "[0, 0, 0, 0]"] by simp

text \<open>
  a character outside the alphabet anywhere in the full blocks of the text makes the decoder
  call \<open>exit(EXIT_FAILURE)\<close> instead of returning an error, whatever the rest of the text is.
\<close>

theorem b64_invalid_char_exits:
  assumes "n \<le> length inp" and "k < 4 * (n div 4)" and "n mod 4 \<noteq> 1"
    and "\<not> (65 \<le> inp ! k \<and> inp ! k \<le> 90 \<or> 97 \<le> inp ! k \<and> inp ! k \<le> 122 \<or>
            48 \<le> inp ! k \<and> inp ! k \<le> 57 \<or> inp ! k = code_62 \<or> inp ! k = code_63)"
    and "max_len \<le> int (length out)" and "3 * int n \<le> 4 * max_len"
  shows "b64_to_bin_nopad (Some inp) (int n) (Some out) max_len = Inl ExitCall"
  using assms by (intro b64_to_bin_nopad_exit [of n inp k]) (simp_all add: b64_ok_def)

theorem b64_invalid_char_exits_witness:
  "b64_to_bin_nopad (Some [65, 42, 65, 65]) (int 4) (Some [0, 0, 0]) 3 = Inl ExitCall"
  using b64_invalid_char_exits [of 4 "[65, 42, 65, 65]" 1 3 "[0, 0, 0]"]
  by (simp add: code_62_def code_63_def)

end
