(* ===== verification/Doubles.thy ===== *)
theory Doubles
  imports Complex_Main "HOL-Library.Log_Nat" Fwd_Prelude
begin

text \<open>
  The C \<open>double\<close> (IEEE 754 binary64) as far as the forwarder uses it: exact rational values, the two
  infinities and NaN; multiplication and division by a constant round to the nearest value, ties to
  even. The sign of zero is not kept. Conversions to integer types truncate, and a value the type
  cannot hold is \<open>Inl BadConversion\<close>.
\<close>

section \<open>Values and rounding\<close>

datatype dbl = Fin rat | Infinity bool | NaN  \<comment> \<open>\<open>Infinity True\<close> is the negative one\<close>

text \<open>The \<open>e\<close> with \<open>2^e \<le> x < 2^(e+1)\<close>, for positive \<open>x\<close>.\<close>

definition expo :: "rat \<Rightarrow> int" where
  "expo x = (let (a, b) = quotient_of x; e = bitlen a - bitlen b in
     if 2 powi e \<le> x then e else e - 1)"

definition round_half_even :: "rat \<Rightarrow> int" where
  "round_half_even q =
     (let f = \<lfloor>q\<rfloor>; d = q - of_int f in
      if d < 1 / 2 then f else if 1 / 2 < d then f + 1 else if even f then f else f + 1)"

text \<open>53 significant bits, exponents down to \<open>-1074\<close>; beyond \<open>(2^53 - 1) * 2^971\<close> is infinity.\<close>

definition round_dbl :: "rat \<Rightarrow> dbl" where
  "round_dbl x =
     (if x = 0 then Fin 0
      else
        let e = max (expo \<bar>x\<bar> - 52) (-1074); n = round_half_even (x / 2 powi e) in
        if 971 < e \<or> e = 971 \<and> 2 ^ 53 \<le> \<bar>n\<bar> then Infinity (x < 0)
        else Fin (of_int n * 2 powi e))"

text \<open>The C \<open>float\<close> (binary32): 24 significant bits, exponents down to \<open>-149\<close>.\<close>

definition round_flt :: "rat \<Rightarrow> dbl" where
  "round_flt x =
     (if x = 0 then Fin 0
      else
        let e = max (expo \<bar>x\<bar> - 23) (-149); n = round_half_even (x / 2 powi e) in
        if 104 < e \<or> e = 104 \<and> 2 ^ 24 \<le> \<bar>n\<bar> then Infinity (x < 0)
        else Fin (of_int n * 2 powi e))"

definition dbl_to_flt :: "dbl \<Rightarrow> dbl" where
  "dbl_to_flt d = (case d of Fin x \<Rightarrow> round_flt x | _ \<Rightarrow> d)"

text \<open>Multiplication and division by a positive constant.\<close>

definition dbl_mul :: "dbl \<Rightarrow> rat \<Rightarrow> dbl" where
  "dbl_mul d c = (case d of Fin x \<Rightarrow> round_dbl (x * c) | _ \<Rightarrow> d)"

definition dbl_div :: "dbl \<Rightarrow> rat \<Rightarrow> dbl" where
  "dbl_div d c = (case d of Fin x \<Rightarrow> round_dbl (x / c) | _ \<Rightarrow> d)"

text \<open>Sum and difference, and the quotient of a positive constant; an exact zero divisor counts as \<open>+0\<close>.\<close>

definition dbl_neg :: "dbl \<Rightarrow> dbl" where
  "dbl_neg d = (case d of Fin x \<Rightarrow> Fin (- x) | Infinity s \<Rightarrow> Infinity (\<not> s) | NaN \<Rightarrow> NaN)"

definition dbl_add :: "dbl \<Rightarrow> dbl \<Rightarrow> dbl" where
  "dbl_add d e =
     (case (d, e) of
        (Fin x, Fin y) \<Rightarrow> round_dbl (x + y)
      | (Infinity s, Infinity t) \<Rightarrow> if s = t then Infinity s else NaN
      | (Infinity s, Fin _) \<Rightarrow> Infinity s
      | (Fin _, Infinity t) \<Rightarrow> Infinity t
      | _ \<Rightarrow> NaN)"

definition dbl_sub :: "dbl \<Rightarrow> dbl \<Rightarrow> dbl" where
  "dbl_sub d e = dbl_add d (dbl_neg e)"

definition dbl_quot :: "rat \<Rightarrow> dbl \<Rightarrow> dbl" where
  "dbl_quot c d = (case d of Fin x \<Rightarrow> if x = 0 then Infinity False else round_dbl (c / x) | Infinity _ \<Rightarrow> Fin 0 | NaN \<Rightarrow> NaN)"

section \<open>Conversion to integers\<close>

definition trunc :: "rat \<Rightarrow> int" where
  "trunc x = (if x < 0 then - \<lfloor>- x\<rfloor> else \<lfloor>x\<rfloor>)"

definition dbl_to_int :: "int \<Rightarrow> int \<Rightarrow> dbl \<Rightarrow> int res" where
  "dbl_to_int lo hi d =
     (case d of
        Fin x \<Rightarrow> (let n = trunc x in if lo \<le> n \<and> n \<le> hi then Inr n else Inl BadConversion)
      | _ \<Rightarrow> Inl BadConversion)"

definition dbl_to_u8 :: "dbl \<Rightarrow> u8 res" where
  "dbl_to_u8 d = bindr (dbl_to_int 0 255 d) (\<lambda>n. Inr (word_of_int n))"

definition dbl_to_s8 :: "dbl \<Rightarrow> u8 res" where
  "dbl_to_s8 d = bindr (dbl_to_int (-128) 127 d) (\<lambda>n. Inr (word_of_int n))"

definition dbl_to_u16 :: "dbl \<Rightarrow> u16 res" where
  "dbl_to_u16 d = bindr (dbl_to_int 0 65535 d) (\<lambda>n. Inr (word_of_int n))"

definition dbl_to_s16 :: "dbl \<Rightarrow> u16 res" where
  "dbl_to_s16 d = bindr (dbl_to_int (-32768) 32767 d) (\<lambda>n. Inr (word_of_int n))"

definition dbl_to_u32 :: "dbl \<Rightarrow> u32 res" where
  "dbl_to_u32 d = bindr (dbl_to_int 0 4294967295 d) (\<lambda>n. Inr (word_of_int n))"

definition dbl_to_s32 :: "dbl \<Rightarrow> u32 res" where
  "dbl_to_s32 d = bindr (dbl_to_int (-2147483648) 2147483647 d) (\<lambda>n. Inr (word_of_int n))"

definition dbl_to_u64 :: "dbl \<Rightarrow> u64 res" where
  "dbl_to_u64 d = bindr (dbl_to_int 0 18446744073709551615 d) (\<lambda>n. Inr (word_of_int n))"

section \<open>Rounding lemmas\<close>

lemma trunc_of_int [simp]: "trunc (of_int n) = n"
  by (simp add: trunc_def)

lemma round_half_even_unique:
  assumes "\<bar>q - of_int m\<bar> < 1 / 2"
  shows "round_half_even q = m"
proof (cases "of_int m \<le> q")
  case True
  then have "\<lfloor>q\<rfloor> = m" using assms by (intro floor_unique) auto
  then show ?thesis using assms True by (simp add: round_half_even_def Let_def)
next
  case False
  then have "\<lfloor>q\<rfloor> = m - 1" using assms by (intro floor_unique) auto
  then show ?thesis using assms False by (auto simp: round_half_even_def Let_def)
qed

lemma round_half_even_near: "\<bar>q - of_int (round_half_even q)\<bar> \<le> 1 / 2"
proof -
  have "of_int \<lfloor>q\<rfloor> \<le> q" "q < of_int \<lfloor>q\<rfloor> + 1" by linarith+
  then show ?thesis by (auto simp: round_half_even_def Let_def abs_le_iff)
qed

lemma bitlen_powi:
  assumes "0 < n"
  shows "2 powi (bitlen n - 1) \<le> (of_int n :: rat)" and "(of_int n :: rat) < 2 powi (bitlen n)"
proof -
  have "1 \<le> bitlen n" using assms bitlen_eq_zero_iff [of n] bitlen_nonneg [of n] by linarith
  then have e: "2 powi (bitlen n - 1) = (of_int (2 ^ nat (bitlen n - 1)) :: rat)"
      "2 powi (bitlen n) = (of_int (2 ^ nat (bitlen n)) :: rat)"
    by (simp_all add: power_int_def)
  show "2 powi (bitlen n - 1) \<le> (of_int n :: rat)" "(of_int n :: rat) < 2 powi (bitlen n)"
    unfolding e of_int_le_iff of_int_less_iff using bitlen_bounds [OF assms] by auto
qed

lemma expo_bounds:
  assumes "0 < x"
  shows "2 powi (expo x) \<le> x" and "x < 2 powi (expo x + 1)"
proof -
  obtain a b where q: "quotient_of x = (a, b)" by force
  have b: "0 < b" and x: "x = of_int a / of_int b"
    using quotient_of_denom_pos [OF q] quotient_of_div [OF q] by auto
  have a: "0 < a"
    using assms b by (simp add: x zero_less_divide_iff)
  define e where "e = bitlen a - bitlen b"
  have "2 powi (e - 1) * of_int b \<le> (2 :: rat) powi (e - 1) * 2 powi (bitlen b)"
    using bitlen_powi(2) [OF b] by (intro mult_left_mono) auto
  also have "\<dots> = 2 powi (bitlen a - 1)"
    by (simp add: e_def flip: power_int_add)
  also have "\<dots> \<le> of_int a"
    by (rule bitlen_powi(1) [OF a])
  finally have lo: "2 powi (e - 1) \<le> x"
    using b by (simp add: x pos_le_divide_eq)
  have "of_int a < (2 powi (bitlen a) :: rat)"
    by (rule bitlen_powi(2) [OF a])
  also have "\<dots> = 2 powi (e + 1) * 2 powi (bitlen b - 1)"
    by (simp add: e_def flip: power_int_add)
  also have "\<dots> \<le> 2 powi (e + 1) * of_int b"
    using bitlen_powi(1) [OF b] by (intro mult_left_mono) auto
  finally have hi: "x < 2 powi (e + 1)"
    using b by (simp add: x pos_divide_less_eq)
  have "expo x = (if 2 powi e \<le> x then e else e - 1)"
    by (simp add: expo_def q e_def Let_def)
  then show "2 powi (expo x) \<le> x" and "x < 2 powi (expo x + 1)"
    using lo hi by auto
qed

lemma expo_eq:
  assumes "2 powi k \<le> x" and "x < 2 powi (k + 1)"
  shows "expo x = k"
proof -
  have "0 < x" using assms(1) zero_less_power_int [of "2 :: rat" k] by linarith
  then have b: "2 powi (expo x) \<le> x" "x < 2 powi (expo x + 1)" by (rule expo_bounds)+
  have "\<not> expo x + 1 \<le> k"
    using power_int_increasing [of "expo x + 1" k "2 :: rat"] assms(1) b(2) by auto
  moreover have "\<not> k + 1 \<le> expo x"
    using power_int_increasing [of "k + 1" "expo x" "2 :: rat"] assms(2) b(1) by auto
  ultimately show ?thesis by simp
qed

text \<open>Rounding a positive value whose exponent is known and in the normal range.\<close>

lemma round_dbl_normal:
  assumes "2 powi k \<le> x" and "x < 2 powi (k + 1)" and "- 1022 \<le> k" and "k \<le> 1000"
  shows "round_dbl x = Fin (of_int (round_half_even (x / 2 powi (k - 52))) * 2 powi (k - 52))"
proof -
  have "0 < x" using assms(1) zero_less_power_int [of "2 :: rat" k] by linarith
  moreover from this have "max (expo \<bar>x\<bar> - 52) (-1074) = k - 52"
    using assms(3) expo_eq [OF assms(1,2)] by simp
  ultimately show ?thesis
    using assms(4) unfolding round_dbl_def Let_def by auto
qed

lemma round_dbl_near:
  assumes "2 powi k \<le> x" and "x < 2 powi (k + 1)" and "- 1022 \<le> k" and "k \<le> 1000"
  shows "\<exists>y. round_dbl x = Fin y \<and> \<bar>y - x\<bar> \<le> 2 powi (k - 53)"
proof -
  let ?u = "2 powi (k - 52) :: rat"
  let ?n = "of_int (round_half_even (x / ?u)) :: rat"
  have "\<bar>x / ?u - ?n\<bar> * ?u \<le> 1 / 2 * ?u"
    using round_half_even_near [of "x / ?u"] by (intro mult_right_mono) auto
  moreover have "\<bar>x / ?u - ?n\<bar> * ?u = \<bar>(x / ?u - ?n) * ?u\<bar>"
    by (simp add: abs_mult)
  moreover have "(x / ?u - ?n) * ?u = x - ?n * ?u"
    by (simp add: left_diff_distrib)
  moreover have "1 / 2 * ?u = 2 powi (k - 53)"
    using power_int_add [of "2 :: rat" "k - 53" 1] by simp
  ultimately have "\<bar>?n * ?u - x\<bar> \<le> 2 powi (k - 53)"
    by (simp add: abs_minus_commute)
  then show ?thesis
    using round_dbl_normal [OF assms] by blast
qed

text \<open>A value closer than half a unit in the last place to an integer rounds to it.\<close>

lemma round_dbl_to_int:
  assumes "2 powi k \<le> x" and "x < 2 powi (k + 1)" and "0 \<le> k" and "k \<le> 52"
    and "\<bar>x - of_int n\<bar> < 2 powi (k - 53)"
  shows "round_dbl x = Fin (of_int n)"
proof -
  define s where "s = nat (52 - k)"
  have u: "2 powi (k - 52) = (1 / 2 ^ s :: rat)" and h: "2 powi (k - 53) = (1 / 2 ^ s / 2 :: rat)"
    using assms(4) by (auto simp: s_def power_int_def nat_diff_distrib' field_simps
        simp flip: power_Suc nat_add_distrib)
  have "x / (1 / 2 ^ s) - of_int (n * 2 ^ s) = (x - of_int n) * 2 ^ s"
    by (simp add: left_diff_distrib)
  then have "\<bar>x / (1 / 2 ^ s) - of_int (n * 2 ^ s)\<bar> = \<bar>x - of_int n\<bar> * 2 ^ s"
    by (simp only: abs_mult) simp
  also have "\<dots> < 1 / 2 ^ s / 2 * 2 ^ s"
    using assms(5) unfolding h by (intro mult_strict_right_mono) auto
  also have "\<dots> = 1 / 2" by simp
  finally have "round_half_even (x / (1 / 2 ^ s)) = n * 2 ^ s"
    by (rule round_half_even_unique)
  then show ?thesis
    using round_dbl_normal [OF assms(1,2)] assms(3,4) by (simp add: u)
qed

section \<open>Megahertz to hertz\<close>

lemma mhz_step:
  fixes hz k :: int
  assumes k: "8 \<le> k" "k \<le> 9"
    and lo: "2 powi k * 1000000 \<le> (of_int hz :: rat)" and hi: "of_int hz < (2 powi (k + 1) * 1000000 :: rat)"
    and lo2: "2 powi (k + 20) + 1 \<le> (of_int hz :: rat)" and hi2: "of_int hz + 1 \<le> (2 powi (k + 21) :: rat)"
  shows "dbl_mul (round_dbl (of_int hz / 1000000)) 1000000 = Fin (of_int hz)"
proof -
  let ?x = "of_int hz / 1000000 :: rat"
  have "2 powi k \<le> ?x" "?x < 2 powi (k + 1)"
    using lo hi by (simp_all add: pos_le_divide_eq pos_divide_less_eq)
  then obtain y where y: "round_dbl ?x = Fin y" "\<bar>y - ?x\<bar> \<le> 2 powi (k - 53)"
    using round_dbl_near [of k ?x] k by auto
  have "\<bar>y * 1000000 - of_int hz\<bar> = \<bar>(y - ?x) * 1000000\<bar>"
    by (simp add: left_diff_distrib)
  also have "\<dots> \<le> 2 powi (k - 53) * 1000000"
    using y(2) by (simp add: abs_mult)
  also have "\<dots> < 2 powi (k - 53) * 2 powi 20"
    by (intro mult_strict_left_mono) simp_all
  also have "\<dots> = 2 powi (k + 20 - 53)"
    using power_int_add [of "2 :: rat" "k - 53" 20] by (simp add: algebra_simps)
  finally have err: "\<bar>y * 1000000 - of_int hz\<bar> < 2 powi (k + 20 - 53)" .
  have small: "2 powi (k + 20 - 53) \<le> (1 :: rat)"
    using power_int_increasing [of "k + 20 - 53" 0 "2 :: rat"] k by simp
  have "2 powi (k + 20) \<le> y * 1000000" "y * 1000000 < 2 powi (k + 20 + 1)"
    using err small lo2 hi2 by (simp_all add: abs_less_iff add.commute [of 21 k])
  then have "round_dbl (y * 1000000) = Fin (of_int hz)"
    using err k by (intro round_dbl_to_int [of "k + 20"]) auto
  then show ?thesis by (simp add: dbl_mul_def y(1))
qed

text \<open>
  A frequency of whole hertz, written in megahertz, comes back exactly, although the decimal fraction is
  not a binary one; for frequencies whose two roundings stay clear of a power of two.
\<close>

lemma mhz_to_hz_exact:
  assumes "269000000 \<le> hz \<and> hz < 512000000 \<or> 537000000 \<le> hz \<and> hz < 1024000000"
  shows "dbl_mul (round_dbl (of_int hz / 1000000)) 1000000 = Fin (of_int hz)"
  using assms
proof
  assume h: "269000000 \<le> hz \<and> hz < 512000000"
  have "of_int 269000000 \<le> (of_int hz :: rat)" "of_int hz \<le> (of_int 511999999 :: rat)"
    unfolding of_int_le_iff using h by linarith+
  then show ?thesis by (intro mhz_step [of 8]) simp_all
next
  assume h: "537000000 \<le> hz \<and> hz < 1024000000"
  have "of_int 537000000 \<le> (of_int hz :: rat)" "of_int hz \<le> (of_int 1023999999 :: rat)"
    unfolding of_int_le_iff using h by linarith+
  then show ?thesis by (intro mhz_step [of 9]) simp_all
qed

end
