(* ===== verification/Hal.thy ===== *)
theory Hal
  imports Doubles
begin

text \<open>
  The concentrator library (\<open>loragw_hal.h\<close>, \<open>loragw_gps.h\<close>) is not part of the repository. Of its
  packet structure this theory has the fields the forwarder reads or writes, at the width of the
  casts in the code; its constants and functions are a record \<open>hal\<close> that the definitions which use
  them take as a parameter. \<open>hal_example\<close> is one instance, for the witnesses.
\<close>

record lgw_pkt_tx =
  freq_hz :: u32
  tx_mode :: u8
  count_us :: u32
  rf_chain :: u8
  rf_power :: u8      \<comment> \<open>\<open>int8_t\<close>, read with \<open>sint\<close>\<close>
  modulation :: u8
  bandwidth :: u8
  datarate :: u32
  coderate :: u8
  invert_pol :: bool
  f_dev :: u8
  preamble :: u16
  no_crc :: bool
  no_header :: bool
  pkt_size :: u16
  payload :: bytes

text \<open>\<open>memset (&pkt, 0, sizeof pkt)\<close> for a packet whose payload array has \<open>n\<close> bytes.\<close>

definition pkt_zero :: "nat \<Rightarrow> lgw_pkt_tx" where
  "pkt_zero n = \<lparr>freq_hz = 0, tx_mode = 0, count_us = 0, rf_chain = 0, rf_power = 0,
     modulation = 0, bandwidth = 0, datarate = 0, coderate = 0, invert_pol = False, f_dev = 0,
     preamble = 0, no_crc = False, no_header = False, pkt_size = 0, payload = replicate n 0\<rparr>"

text \<open>The GPS time reference (\<open>struct tref\<close>): seconds and nanoseconds of UTC and GPS time.\<close>

record tref =
  systime :: int
  tref_count_us :: u32
  tref_utc :: "int \<times> int"
  tref_gps :: "int \<times> int"
  xtal_err :: dbl

record hal =
  hal_IMMEDIATE :: u8
  hal_TIMESTAMPED :: u8
  hal_ON_GPS :: u8
  hal_MOD_LORA :: u8
  hal_MOD_FSK :: u8
  hal_BW_125KHZ :: u8
  hal_BW_250KHZ :: u8
  hal_BW_500KHZ :: u8
  hal_DR_LORA :: "nat \<Rightarrow> u32"  \<comment> \<open>\<open>DR_LORA_SF7\<close> to \<open>DR_LORA_SF12\<close>\<close>
  hal_CR_LORA :: "nat \<Rightarrow> u8"  \<comment> \<open>\<open>CR_LORA_4_5\<close> to \<open>CR_LORA_4_8\<close>, by the denominator\<close>
  hal_TX_EMITTING :: u8
  hal_TX_SCHEDULED :: u8
  hal_payload_max :: nat  \<comment> \<open>\<open>sizeof txpkt.payload\<close>\<close>
  lgw_time_on_air :: "lgw_pkt_tx \<Rightarrow> u32"  \<comment> \<open>in ms\<close>
  lgw_gps2cnt :: "tref \<Rightarrow> int \<times> int \<Rightarrow> u32 option"  \<comment> \<open>\<open>None\<close>: not \<open>LGW_GPS_SUCCESS\<close>\<close>

definition hal_example :: hal where
  "hal_example = \<lparr>hal_IMMEDIATE = 0, hal_TIMESTAMPED = 1, hal_ON_GPS = 2, hal_MOD_LORA = 16,
     hal_MOD_FSK = 32, hal_BW_125KHZ = 3, hal_BW_250KHZ = 2, hal_BW_500KHZ = 1,
     hal_DR_LORA = (\<lambda>sf. 2 ^ (sf - 6)), hal_CR_LORA = (\<lambda>d. of_nat (d - 4)),
     hal_TX_EMITTING = 2, hal_TX_SCHEDULED = 3,
     hal_payload_max = 4, lgw_time_on_air = (\<lambda>p. 50),
     lgw_gps2cnt = (\<lambda>r t. Some (word_of_int ((fst t - fst (tref_gps r)) * 1000000)))\<rparr>"

end
