(* ===== verification/Jit_Queue.thy ===== *)
theory Jit_Queue
  imports Hal
begin

text \<open>
  \<open>lora_pkt_fwd/src/jitqueue.c\<close>: the just-in-time queue of packets to transmit. The queue is the C
  structure: two 8-bit counters and an array of nodes (\<open>JIT_QUEUE_MAX\<close> of them after
  \<open>jit_queue_init\<close>). Each operation is one critical section of \<open>mx_jit_queue\<close>, so it is a function from
  queue to queue. Timestamps are 32-bit microsecond counters that roll over. Log output is left
  out. An access outside the node array is \<open>Inl OutOfBounds\<close>.
\<close>

section \<open>Data\<close>

definition JIT_QUEUE_MAX :: nat where "JIT_QUEUE_MAX = 32"
definition JIT_NUM_BEACON_IN_QUEUE :: nat where "JIT_NUM_BEACON_IN_QUEUE = 3"

datatype jit_pkt_type =
  JIT_PKT_TYPE_DOWNLINK_CLASS_A
| JIT_PKT_TYPE_DOWNLINK_CLASS_B
| JIT_PKT_TYPE_DOWNLINK_CLASS_C
| JIT_PKT_TYPE_BEACON

datatype jit_error =
  JIT_ERROR_OK
| JIT_ERROR_TOO_LATE
| JIT_ERROR_TOO_EARLY
| JIT_ERROR_FULL
| JIT_ERROR_EMPTY
| JIT_ERROR_COLLISION_PACKET
| JIT_ERROR_COLLISION_BEACON
| JIT_ERROR_TX_FREQ
| JIT_ERROR_TX_POWER
| JIT_ERROR_GPS_UNLOCKED
| JIT_ERROR_INVALID

record jit_node =
  pkt :: lgw_pkt_tx
  pkt_type :: jit_pkt_type
  pre_delay :: u32
  post_delay :: u32

record jit_queue =
  num_pkt :: u8
  num_beacon :: u8
  nodes :: "jit_node list"

text \<open>\<open>memset (node, 0, sizeof node)\<close>: enumeration value 0 is class A.\<close>

definition node_zero :: "nat \<Rightarrow> jit_node" where
  "node_zero n = \<lparr>pkt = pkt_zero n, pkt_type = JIT_PKT_TYPE_DOWNLINK_CLASS_A,
     pre_delay = 0, post_delay = 0\<rparr>"

definition TX_START_DELAY :: u32 where "TX_START_DELAY = 1500"
definition TX_MARGIN_DELAY :: u32 where "TX_MARGIN_DELAY = 1000"
definition TX_JIT_DELAY :: u32 where "TX_JIT_DELAY = 30000"
definition TX_MAX_ADVANCE_DELAY :: u32 where  \<comment> \<open>a \<open>double\<close> in C, compared exactly\<close>
  "TX_MAX_ADVANCE_DELAY = (of_nat JIT_NUM_BEACON_IN_QUEUE + 1) * 128 * 1000000"
definition BEACON_GUARD :: u32 where "BEACON_GUARD = 3000000"
definition BEACON_RESERVED :: u32 where "BEACON_RESERVED = 2120000"

lemmas jit_consts = JIT_QUEUE_MAX_def JIT_NUM_BEACON_IN_QUEUE_def TX_START_DELAY_def
  TX_MARGIN_DELAY_def TX_JIT_DELAY_def TX_MAX_ADVANCE_DELAY_def BEACON_GUARD_def BEACON_RESERVED_def

section \<open>Tests and initialisation\<close>

definition jit_queue_is_full :: "jit_queue \<Rightarrow> bool" where
  "jit_queue_is_full q \<longleftrightarrow> unat (num_pkt q) = JIT_QUEUE_MAX"

definition jit_queue_is_empty :: "jit_queue \<Rightarrow> bool" where
  "jit_queue_is_empty q \<longleftrightarrow> num_pkt q = 0"

definition jit_queue_init :: "hal \<Rightarrow> jit_queue" where
  "jit_queue_init H = \<lparr>num_pkt = 0, num_beacon = 0,
     nodes = replicate JIT_QUEUE_MAX (node_zero (hal_payload_max H))\<rparr>"

section \<open>Sorting\<close>

text \<open>
  \<open>compare\<close> converts both counters to \<open>int\<close> and subtracts: the two's complement result, that is the
  signed reading of the 32-bit difference. The subtraction overflows \<open>int\<close> (undefined in C, wrap on
  the targets) when the two signed readings are more than \<open>2^31 - 1\<close> apart.
\<close>

definition compare_nodes :: "jit_node \<Rightarrow> jit_node \<Rightarrow> int" where
  "compare_nodes p q = sint (count_us (pkt p) - count_us (pkt q))"

text \<open>
  \<open>qsort_r\<close> of the C library, as a stable insertion sort by the comparison function.
  \<open>qsort_r_unique\<close> in \<open>Jit_Invariant\<close> shows that on the queues that occur every sorting
  permutation is this one.
\<close>

fun insort_by :: "('a \<Rightarrow> 'a \<Rightarrow> int) \<Rightarrow> 'a \<Rightarrow> 'a list \<Rightarrow> 'a list" where
  "insort_by cmp x [] = [x]"
| "insort_by cmp x (y # ys) = (if cmp x y \<le> 0 then x # y # ys else y # insort_by cmp x ys)"

definition qsort_r :: "('a \<Rightarrow> 'a \<Rightarrow> int) \<Rightarrow> 'a list \<Rightarrow> 'a list" where
  "qsort_r cmp xs = foldr (insort_by cmp) xs []"

definition jit_sort_queue :: "jit_queue \<Rightarrow> jit_queue res" where
  "jit_sort_queue q =
     (if num_pkt q = 0 then Inr q
      else if unat (num_pkt q) \<le> length (nodes q) then
        Inr (q\<lparr>nodes := qsort_r compare_nodes (take (unat (num_pkt q)) (nodes q))
                       @ drop (unat (num_pkt q)) (nodes q)\<rparr>)
      else Inl OutOfBounds)"

section \<open>Collision test\<close>

definition jit_collision_test :: "u32 \<Rightarrow> u32 \<Rightarrow> u32 \<Rightarrow> u32 \<Rightarrow> u32 \<Rightarrow> u32 \<Rightarrow> bool" where
  "jit_collision_test p1_count_us p1_pre_delay p1_post_delay p2_count_us p2_pre_delay p2_post_delay \<longleftrightarrow>
     p1_count_us - p2_count_us \<le> p1_pre_delay + p2_post_delay + TX_MARGIN_DELAY \<or>
     p2_count_us - p1_count_us \<le> p2_pre_delay + p1_post_delay + TX_MARGIN_DELAY"

section \<open>Enqueue\<close>

text \<open>\<open>uint32_t t = time->tv_sec * 1000000UL + time->tv_usec\<close>\<close>

definition time_us_of :: "timeval \<Rightarrow> u32" where
  "time_us_of t = word_of_int (tv_sec t * 1000000 + tv_usec t)"

text \<open>The pre and post delays of a packet type (the first \<open>switch\<close>).\<close>

definition packet_delays :: "hal \<Rightarrow> lgw_pkt_tx \<Rightarrow> jit_pkt_type \<Rightarrow> u32 \<times> u32" where
  "packet_delays H p ty =
     (case ty of
        JIT_PKT_TYPE_BEACON \<Rightarrow> (TX_START_DELAY + BEACON_GUARD + TX_JIT_DELAY, BEACON_RESERVED)
      | _ \<Rightarrow> (TX_START_DELAY + TX_JIT_DELAY, lgw_time_on_air H p * 1000))"

text \<open>First loop of the immediate case: does the ASAP time collide with one of the \<open>k\<close> nodes?\<close>

fun asap_collides :: "u32 \<Rightarrow> u32 \<Rightarrow> u32 \<Rightarrow> jit_node list \<Rightarrow> nat \<Rightarrow> bool res" where
  "asap_collides t pre post ns 0 = Inr False"
| "asap_collides t pre post [] (Suc k) = Inl OutOfBounds"
| "asap_collides t pre post (n # ns) (Suc k) =
     (if jit_collision_test t pre post (count_us (pkt n)) (pre_delay n) (post_delay n)
      then Inr True else asap_collides t pre post ns k)"

text \<open>
  Second loop: the first slot behind a node that does not collide with the next node, or the one
  behind the last node.
\<close>

fun asap_slot :: "u32 \<Rightarrow> u32 \<Rightarrow> jit_node list \<Rightarrow> nat \<Rightarrow> u32 \<Rightarrow> u32 res" where
  "asap_slot pre post ns 0 t = Inr t"
| "asap_slot pre post [] (Suc k) t = Inl OutOfBounds"
| "asap_slot pre post (n # ns) (Suc k) t =
     (let t' = count_us (pkt n) + post_delay n + pre + TX_JIT_DELAY + TX_MARGIN_DELAY in
      if k = 0 then Inr t'
      else case ns of
        [] \<Rightarrow> Inl OutOfBounds
      | m # _ \<Rightarrow>
          (if jit_collision_test t' pre post (count_us (pkt m)) (pre_delay m) (post_delay m)
           then asap_slot pre post ns k t' else Inr t'))"

text \<open>
  \<open>asap_count_us = time_us + 1E6\<close>: the sum is a \<open>double\<close>, and its conversion back to \<open>uint32_t\<close> is
  undefined when it does not fit.
\<close>

definition asap_margin :: "u32 \<Rightarrow> u32 res" where
  "asap_margin time_us =
     (if uint time_us + 1000000 < 2 ^ 32 then Inr (time_us + 1000000) else Inl BadConversion)"

definition asap_count_us :: "jit_queue \<Rightarrow> u32 \<Rightarrow> u32 \<Rightarrow> u32 \<Rightarrow> u32 res" where
  "asap_count_us q time_us pre post =
     bindr (asap_margin time_us) (\<lambda>t.
     if num_pkt q = 0 then Inr t
     else
       bindr (asap_collides t pre post (nodes q) (unat (num_pkt q))) (\<lambda>collides.
       if \<not> collides then Inr t
       else asap_slot pre post (nodes q) (unat (num_pkt q)) t))"

text \<open>Criterion 3: the first of the \<open>k\<close> nodes the packet overlaps with decides the error.\<close>

definition target_pre_delay :: "jit_pkt_type \<Rightarrow> jit_node \<Rightarrow> u32" where
  "target_pre_delay ty n =
     (if (ty = JIT_PKT_TYPE_DOWNLINK_CLASS_A \<or> ty = JIT_PKT_TYPE_DOWNLINK_CLASS_C)
         \<and> pkt_type n = JIT_PKT_TYPE_BEACON
      then TX_START_DELAY else pre_delay n)"

fun overlap_error :: "u32 \<Rightarrow> u32 \<Rightarrow> u32 \<Rightarrow> jit_pkt_type \<Rightarrow> jit_node list \<Rightarrow> nat \<Rightarrow> jit_error option res" where
  "overlap_error c pre post ty ns 0 = Inr None"
| "overlap_error c pre post ty [] (Suc k) = Inl OutOfBounds"
| "overlap_error c pre post ty (n # ns) (Suc k) =
     (if jit_collision_test c pre post (count_us (pkt n)) (target_pre_delay ty n) (post_delay n)
      then Inr (Some (if pkt_type n = JIT_PKT_TYPE_BEACON
                      then JIT_ERROR_COLLISION_BEACON else JIT_ERROR_COLLISION_PACKET))
      else overlap_error c pre post ty ns k)"

text \<open>The insertion at the end of the queue and the sort.\<close>

definition insert_node :: "jit_queue \<Rightarrow> jit_node \<Rightarrow> jit_queue res" where
  "insert_node q n =
     bindr (st (nodes q) (unat (num_pkt q)) n) (\<lambda>ns.
     jit_sort_queue (q\<lparr>nodes := ns,
       num_beacon := (if pkt_type n = JIT_PKT_TYPE_BEACON then num_beacon q + 1 else num_beacon q),
       num_pkt := num_pkt q + 1\<rparr>))"

text \<open>
  \<open>packet\<close> is a pointer: \<open>None\<close> is NULL, and the caller's packet is returned because the immediate
  case writes its \<open>tx_mode\<close> and \<open>count_us\<close>, also when the packet is then rejected.
\<close>

definition jit_enqueue ::
    "hal \<Rightarrow> jit_queue \<Rightarrow> timeval \<Rightarrow> lgw_pkt_tx option \<Rightarrow> jit_pkt_type
     \<Rightarrow> (jit_error \<times> jit_queue \<times> lgw_pkt_tx option) res" where
  "jit_enqueue H q time packet ty =
     (case packet of
        None \<Rightarrow> Inr (JIT_ERROR_INVALID, q, None)
      | Some p0 \<Rightarrow>
          if jit_queue_is_full q then Inr (JIT_ERROR_FULL, q, Some p0)
          else
            let time_us = time_us_of time; (pre, post) = packet_delays H p0 ty in
            bindr
              (if ty = JIT_PKT_TYPE_DOWNLINK_CLASS_C
               then bindr (asap_count_us q time_us pre post) (\<lambda>t.
                      Inr (p0\<lparr>tx_mode := hal_TIMESTAMPED H, count_us := t\<rparr>))
               else Inr p0) (\<lambda>p.
            if count_us p - time_us \<le> TX_START_DELAY + TX_MARGIN_DELAY + TX_JIT_DELAY
            then Inr (JIT_ERROR_TOO_LATE, q, Some p)
            else if (ty = JIT_PKT_TYPE_DOWNLINK_CLASS_A \<or> ty = JIT_PKT_TYPE_DOWNLINK_CLASS_B)
                    \<and> TX_MAX_ADVANCE_DELAY < count_us p - time_us
            then Inr (JIT_ERROR_TOO_EARLY, q, Some p)
            else
              bindr (overlap_error (count_us p) pre post ty (nodes q) (unat (num_pkt q))) (\<lambda>err.
              case err of
                Some e \<Rightarrow> Inr (e, q, Some p)
              | None \<Rightarrow>
                  bindr (insert_node q \<lparr>pkt = p, pkt_type = ty, pre_delay = pre, post_delay = post\<rparr>)
                    (\<lambda>q'. Inr (JIT_ERROR_OK, q', Some p)))))"

section \<open>Dequeue\<close>

text \<open>
  After \<open>num_pkt--\<close>: the node at \<open>index\<close> is replaced with the last node, whose place is zeroed, and the
  queue is sorted (\<open>jit_dequeue\<close> and the purge of \<open>jit_peek\<close> share these lines). The length of the
  zeroed payload array is that of the array it clears.
\<close>

definition remove_node :: "jit_queue \<Rightarrow> nat \<Rightarrow> jit_queue res" where
  "remove_node q i =
     bindr (ld (nodes q) i) (\<lambda>n.
     let q1 = q\<lparr>num_pkt := num_pkt q - 1,
                num_beacon := (if pkt_type n = JIT_PKT_TYPE_BEACON
                               then num_beacon q - 1 else num_beacon q)\<rparr>;
         l = unat (num_pkt q1) in
     bindr (ld (nodes q1) l) (\<lambda>last.
     bindr (st (nodes q1) i last) (\<lambda>ns.
     bindr (st ns l (node_zero (length (payload (pkt last))))) (\<lambda>ns.
     jit_sort_queue (q1\<lparr>nodes := ns\<rparr>)))))"

definition jit_dequeue ::
    "jit_queue \<Rightarrow> int \<Rightarrow> lgw_pkt_tx option \<Rightarrow> jit_pkt_type
     \<Rightarrow> (jit_error \<times> jit_queue \<times> lgw_pkt_tx option \<times> jit_pkt_type) res" where
  "jit_dequeue q index packet ty =
     (case packet of
        None \<Rightarrow> Inr (JIT_ERROR_INVALID, q, None, ty)
      | Some p0 \<Rightarrow>
          if index < 0 \<or> int JIT_QUEUE_MAX \<le> index then Inr (JIT_ERROR_INVALID, q, Some p0, ty)
          else if jit_queue_is_empty q then Inr (JIT_ERROR_EMPTY, q, Some p0, ty)
          else
            bindr (ld (nodes q) (nat index)) (\<lambda>n.
            bindr (remove_node q (nat index)) (\<lambda>q'.
            Inr (JIT_ERROR_OK, q', Some (pkt n), pkt_type n))))"

section \<open>Peek\<close>

lemma insort_by_length [simp]: "length (insort_by cmp x xs) = Suc (length xs)"
  by (induction xs) auto

lemma qsort_r_length [simp]: "length (qsort_r cmp xs) = length xs"
  unfolding qsort_r_def by (induction xs) auto

lemma jit_sort_queue_num: "jit_sort_queue q = Inr q' \<Longrightarrow> num_pkt q' = num_pkt q"
  by (auto simp: jit_sort_queue_def split: if_splits)

lemma remove_node_num: "remove_node q i = Inr q' \<Longrightarrow> num_pkt q' = num_pkt q - 1"
  by (auto simp: remove_node_def Let_def bindr_eq_Inr_iff dest: jit_sort_queue_num)

lemma unat_minus_one_less: "0 < unat (w :: u8) \<Longrightarrow> unat (w - 1) < unat w"
  by (metis diff_less less_numeral_extra(1) unat_eq_zero unat_minus_one less_irrefl)

text \<open>
  The search loop with its variables \<open>i\<close> and \<open>idx_highest_priority\<close>. After a purge the code sets
  \<open>i = 0\<close> and continues, so the loop's increment makes the next index 1; \<open>idx\<close> keeps its value.
\<close>

function peek_scan :: "u32 \<Rightarrow> nat \<Rightarrow> int \<Rightarrow> jit_queue \<Rightarrow> (int \<times> jit_queue) res" where
  "peek_scan time_us i idx q =
     (if i < unat (num_pkt q) then
        bindr (ld (nodes q) i) (\<lambda>n.
        if TX_MAX_ADVANCE_DELAY \<le> count_us (pkt n) - time_us then
          bindr (remove_node q i) (\<lambda>q'. peek_scan time_us 1 idx q')
        else if idx = -1 then peek_scan time_us (Suc i) (int i) q
        else
          bindr (ld (nodes q) (nat idx)) (\<lambda>h.
          if count_us (pkt n) - time_us < count_us (pkt h) - time_us
          then peek_scan time_us (Suc i) (int i) q
          else peek_scan time_us (Suc i) idx q))
      else Inr (idx, q))"
  by pat_completeness auto
termination
  by (relation "measures [\<lambda>(t, i, idx, q). unat (num_pkt q), \<lambda>(t, i, idx, q). unat (num_pkt q) - i]")
    (auto dest!: remove_node_num simp: unat_minus_one_less)

declare peek_scan.simps [simp del]

text \<open>
  \<open>time\<close> and \<open>pkt_idx\<close> are pointers; the value behind \<open>pkt_idx\<close> is passed and returned. With
  \<open>idx_highest_priority = -1\<close> the final test reads \<open>nodes[-1]\<close>.
\<close>

definition jit_peek ::
    "jit_queue \<Rightarrow> timeval option \<Rightarrow> int option \<Rightarrow> (jit_error \<times> jit_queue \<times> int option) res" where
  "jit_peek q time pkt_idx =
     (case (time, pkt_idx) of
        (Some t, Some _) \<Rightarrow>
          (if jit_queue_is_empty q then Inr (JIT_ERROR_EMPTY, q, pkt_idx)
           else
             let time_us = time_us_of t in
             bindr (peek_scan time_us 0 (-1) q) (\<lambda>(idx, q').
             if idx < 0 then Inl OutOfBounds
             else
               bindr (ld (nodes q') (nat idx)) (\<lambda>h.
               if count_us (pkt h) - time_us < TX_JIT_DELAY
               then Inr (JIT_ERROR_OK, q', Some idx)
               else Inr (JIT_ERROR_OK, q', Some (-1)))))
      | _ \<Rightarrow> Inr (JIT_ERROR_INVALID, q, pkt_idx))"

end
