(* ===== verification/Jit_Invariant.thy ===== *)
theory Jit_Invariant
  imports Jit_Queue "HOL-Library.Multiset"
begin

text \<open>
  What the just-in-time queue keeps. \<open>live\<close> is the part of the node array that holds packets.
  \<open>jit_wf\<close>: the counters agree with the array and the free slots are cleared. \<open>separated\<close>: no two
  queued transmissions overlap, with the start-up delay and the margin between them on the clock face
  of the 32-bit counter, as far as their stored airtimes leave the sums below \<open>2^32\<close>. \<open>outdated\<close>: what \<open>jit_peek\<close> drops.
\<close>

section \<open>The invariant\<close>

definition live :: "jit_queue \<Rightarrow> jit_node list" where
  "live q = take (unat (num_pkt q)) (nodes q)"

definition is_beacon :: "jit_node \<Rightarrow> bool" where
  "is_beacon n \<longleftrightarrow> pkt_type n = JIT_PKT_TYPE_BEACON"

definition beacons :: "jit_node list \<Rightarrow> nat" where
  "beacons ns = length (filter is_beacon ns)"

definition jit_wf :: "jit_queue \<Rightarrow> bool" where
  "jit_wf q \<longleftrightarrow> length (nodes q) = JIT_QUEUE_MAX \<and> unat (num_pkt q) \<le> JIT_QUEUE_MAX \<and>
     unat (num_beacon q) = beacons (live q) \<and>
     list_all (\<lambda>n. n = node_zero (length (payload (pkt n)))) (drop (unat (num_pkt q)) (nodes q))"

definition delays_ok :: "jit_node \<Rightarrow> bool" where
  "delays_ok n \<longleftrightarrow>
     unat (pre_delay n) = (if is_beacon n then 3031500 else 31500) \<and>
     (is_beacon n \<longrightarrow> unat (post_delay n) = 2120000)"

text \<open>
  The stored airtime \<open>post_delay\<close> is \<open>lgw_time_on_air * 1000\<close> in 32 bits. \<open>reserve_fits\<close>: the sums the
  collision test makes with it do not wrap, that is, it is below 71.5 minutes. \<open>short_air\<close>: it is at
  most 1000 s, which the search for a class C slot needs.
\<close>

definition reserve_fits :: "jit_node \<Rightarrow> bool" where
  "reserve_fits n \<longleftrightarrow> unat (post_delay n) + 3032500 < 2 ^ 32"

definition short_air :: "jit_node \<Rightarrow> bool" where
  "short_air n \<longleftrightarrow> unat (post_delay n) \<le> 1000000000"

text \<open>
  All times are numbers of microseconds: 1500 for the start of a transmission, 30000 for the jitter of
  the just-in-time thread, 1000 of margin, 3 s of guard and 2.12 s of reservation for a beacon.
  \<open>a\<close> starts after the end of \<open>b\<close> on the clock face, by more than the margin and the lead-in \<open>a\<close> needs.
  The guard time before a beacon is not part of it: class A and C downlinks may use it.
\<close>

definition lead_in :: "jit_node \<Rightarrow> nat" where
  "lead_in n = (if is_beacon n then 1500 else 31500)"

definition clear_of :: "jit_node \<Rightarrow> jit_node \<Rightarrow> bool" where
  "clear_of a b \<longleftrightarrow> (reserve_fits b \<longrightarrow>
     unat (post_delay b) + lead_in a + 1000 < unat (count_us (pkt a) - count_us (pkt b)))"

definition no_overlap :: "jit_node \<Rightarrow> jit_node \<Rightarrow> bool" where
  "no_overlap a b \<longleftrightarrow> count_us (pkt a) \<noteq> count_us (pkt b) \<and> clear_of a b \<and> clear_of b a"

definition separated :: "jit_node list \<Rightarrow> bool" where
  "separated ns \<longleftrightarrow> sorted_wrt no_overlap ns"

definition jit_inv :: "jit_queue \<Rightarrow> bool" where
  "jit_inv q \<longleftrightarrow> jit_wf q \<and> separated (live q) \<and> list_all delays_ok (live q)"

definition outdated :: "u32 \<Rightarrow> jit_node \<Rightarrow> bool" where
  "outdated t n \<longleftrightarrow> TX_MAX_ADVANCE_DELAY \<le> count_us (pkt n) - t"

named_theorems jit_inv_simps "unfolding the invariant"

lemmas [jit_inv_simps] = jit_inv_def jit_wf_def separated_def

section \<open>Sorting\<close>

lemma insort_by_mset [simp]: "mset (insort_by cmp x xs) = add_mset x (mset xs)"
  by (induction xs) auto

lemma qsort_r_mset [simp]: "mset (qsort_r cmp xs) = mset xs"
  unfolding qsort_r_def by (induction xs) auto

lemma qsort_r_set [simp]: "set (qsort_r cmp xs) = set xs"
  by (metis qsort_r_mset set_mset_mset)

lemma sorted_wrt_sym_mset:
  assumes "\<And>a b. R a b \<Longrightarrow> R b a" and "mset xs = mset ys" and "sorted_wrt R xs"
  shows "sorted_wrt R ys"
  using assms(2,3)
proof (induction ys arbitrary: xs)
  case Nil
  then show ?case by simp
next
  case (Cons y ys)
  have "y \<in> set xs"
    using Cons.prems(1) by (metis list.set_intros(1) set_mset_mset)
  then obtain as bs where xs: "xs = as @ y # bs"
    by (meson split_list)
  have "mset (as @ bs) = mset ys"
    using Cons.prems(1) by (simp add: xs)
  moreover have "sorted_wrt R (as @ bs)"
    using Cons.prems(2) by (simp add: xs sorted_wrt_append)
  ultimately have "sorted_wrt R ys"
    by (rule Cons.IH)
  moreover have "\<forall>z \<in> set (as @ bs). R y z"
    using Cons.prems(2) assms(1) by (auto simp: xs sorted_wrt_append)
  then have "\<forall>z \<in> set ys. R y z"
    using \<open>mset (as @ bs) = mset ys\<close> by (metis set_mset_mset)
  ultimately show ?case by simp
qed

lemma no_overlap_sym: "no_overlap a b \<Longrightarrow> no_overlap b a"
  by (auto simp: no_overlap_def)

lemma separated_mset: "mset xs = mset ys \<Longrightarrow> separated xs \<Longrightarrow> separated ys"
  unfolding separated_def by (rule sorted_wrt_sym_mset [OF no_overlap_sym])

lemma list_all_mset: "mset xs = mset ys \<Longrightarrow> list_all P xs \<longleftrightarrow> list_all P ys"
  by (metis list_all_iff set_mset_mset)

lemma beacons_mset: "mset xs = mset ys \<Longrightarrow> beacons xs = beacons ys"
  unfolding beacons_def by (metis mset_filter size_mset)

lemma beacons_simps [simp]:
  "beacons [] = 0" "beacons (n # ns) = (if is_beacon n then Suc (beacons ns) else beacons ns)"
  "beacons (ms @ ns) = beacons ms + beacons ns"
  by (simp_all add: beacons_def)

lemma beacons_le_length: "beacons ns \<le> length ns"
  by (simp add: beacons_def)

section \<open>The live part under the operations\<close>

lemma jit_sort_queue_wf:
  assumes "unat (num_pkt q) \<le> length (nodes q)"
  shows "\<exists>q'. jit_sort_queue q = Inr q' \<and> num_pkt q' = num_pkt q \<and> num_beacon q' = num_beacon q \<and>
           live q' = qsort_r compare_nodes (live q) \<and> length (nodes q') = length (nodes q) \<and>
           drop (unat (num_pkt q')) (nodes q') = drop (unat (num_pkt q)) (nodes q)"
proof (cases "num_pkt q = 0")
  case True
  then show ?thesis by (simp add: jit_sort_queue_def live_def qsort_r_def)
next
  case False
  then show ?thesis using assms by (simp add: jit_sort_queue_def live_def)
qed

lemma length_live: "jit_wf q \<Longrightarrow> length (live q) = unat (num_pkt q)"
  by (simp add: live_def jit_wf_def)

lemma nodes_live: "i < unat (num_pkt q) \<Longrightarrow> nodes q ! i = live q ! i"
  by (simp add: live_def)

lemma unat_u8_plus1: "unat (w :: u8) < 255 \<Longrightarrow> unat (w + 1) = Suc (unat w)"
  by (simp add: unat_word_ariths)

lemma unat_u8_minus1: "0 < unat (w :: u8) \<Longrightarrow> unat (w - 1) = unat w - 1"
  by (metis unat_eq_zero unat_minus_one less_irrefl)

lemma jit_queue_init_wf: "jit_wf (jit_queue_init H)"
  by (simp add: jit_wf_def jit_queue_init_def live_def jit_consts node_zero_def pkt_zero_def
      list_all_iff)

lemma insert_node_wf:
  assumes "jit_wf q" and "\<not> jit_queue_is_full q"
  shows "\<exists>q'. insert_node q n = Inr q' \<and> jit_wf q' \<and> num_pkt q' = num_pkt q + 1 \<and>
           live q' = qsort_r compare_nodes (live q @ [n])"
proof -
  let ?k = "unat (num_pkt q)"
  have len: "length (nodes q) = 32" and k: "?k < 32"
    using assms by (auto simp: jit_wf_def jit_queue_is_full_def jit_consts)
  have k1: "unat (num_pkt q + 1) = Suc ?k"
    using k by (simp add: unat_u8_plus1)
  define q1 where "q1 = q\<lparr>nodes := (nodes q)[?k := n],
    num_beacon := (if is_beacon n then num_beacon q + 1 else num_beacon q), num_pkt := num_pkt q + 1\<rparr>"
  have ins: "insert_node q n = jit_sort_queue q1"
    using len k by (simp add: insert_node_def q1_def st_Inr is_beacon_def)
  obtain q' where q': "jit_sort_queue q1 = Inr q'" "num_pkt q' = num_pkt q1"
      "num_beacon q' = num_beacon q1" "live q' = qsort_r compare_nodes (live q1)"
      "length (nodes q') = length (nodes q1)"
      "drop (unat (num_pkt q')) (nodes q') = drop (unat (num_pkt q1)) (nodes q1)"
    using jit_sort_queue_wf [of q1] len k k1 by (auto simp: q1_def)
  have live1: "live q1 = live q @ [n]"
    using len k k1 by (simp add: live_def q1_def take_Suc_conv_app_nth)
  have blt: "beacons (live q) < 255"
    using beacons_le_length [of "live q"] length_live [OF assms(1)] k by simp
  have "unat (num_beacon q') = beacons (live q')"
  proof -
    have "beacons (live q') = beacons (live q @ [n])"
      by (rule beacons_mset) (simp add: q'(4) live1)
    moreover have "num_beacon q' = (if is_beacon n then num_beacon q + 1 else num_beacon q)"
      by (simp add: q'(3) q1_def)
    moreover have "unat (num_beacon q) = beacons (live q)"
      using assms(1) by (simp add: jit_wf_def)
    ultimately show ?thesis
      using blt by (simp add: unat_u8_plus1)
  qed
  moreover have "list_all (\<lambda>n. n = node_zero (length (payload (pkt n)))) (drop (Suc ?k) (nodes q))"
    using assms(1) set_drop_subset_set_drop [of ?k "Suc ?k" "nodes q"]
    by (auto simp: jit_wf_def list_all_iff)
  ultimately have "jit_wf q'"
    using q'(2,5,6) k k1 len by (simp add: jit_wf_def q1_def jit_consts)
  then show ?thesis
    using ins q' live1 by (auto simp: q1_def)
qed

lemma mset_remove_swap:
  assumes "i < length xs"
  shows "mset (take (length xs - 1) (xs[i := last xs])) + {#xs ! i#} = mset xs"
proof -
  have ne: "xs \<noteq> []" using assms by auto
  show ?thesis
  proof (cases "i = length xs - 1")
    case True
    then have "take (length xs - 1) (xs[i := last xs]) = butlast xs"
      by (simp add: butlast_conv_take)
    moreover have "xs ! i = last xs"
      using True ne by (simp add: last_conv_nth)
    ultimately show ?thesis
      using ne by (metis append_butlast_last_id mset.simps mset_append)
  next
    case False
    then have i: "i < length (butlast xs)" using assms by simp
    have "take (length xs - 1) (xs[i := last xs]) = (butlast xs)[i := last xs]"
      by (simp add: butlast_conv_take take_update_swap)
    moreover have "mset ((butlast xs)[i := last xs]) + {#butlast xs ! i#} = add_mset (last xs) (mset (butlast xs))"
      using i by (simp add: mset_update)
    moreover have "butlast xs ! i = xs ! i"
      using i by (simp add: nth_butlast)
    moreover have "add_mset (last xs) (mset (butlast xs)) = mset xs"
      using ne by (metis append_butlast_last_id mset_append union_commute mset_single_iff_right add_mset_add_single)
    ultimately show ?thesis by simp
  qed
qed

lemma drop_update_ge: "i < k \<Longrightarrow> drop k (xs[i := v]) = drop k xs"
  by (simp add: drop_update_cancel)

lemma remove_node_wf:
  assumes wf: "jit_wf q" and i: "i < unat (num_pkt q)"
  shows "\<exists>q'. remove_node q i = Inr q' \<and> jit_wf q' \<and> num_pkt q' = num_pkt q - 1 \<and>
           mset (live q') + {#live q ! i#} = mset (live q)"
proof -
  let ?k = "unat (num_pkt q)"
  have len: "length (nodes q) = 32" and k: "?k \<le> 32"
    using wf by (auto simp: jit_wf_def jit_consts)
  have k1: "unat (num_pkt q - 1) = ?k - 1"
    using i by (simp add: unat_u8_minus1)
  define n where "n = nodes q ! i"
  define lst where "lst = nodes q ! (?k - 1)"
  define q1 where "q1 = q\<lparr>num_pkt := num_pkt q - 1,
    num_beacon := (if is_beacon n then num_beacon q - 1 else num_beacon q),
    nodes := (nodes q)[i := lst, ?k - 1 := node_zero (length (payload (pkt lst)))]\<rparr>"
  have rm: "remove_node q i = jit_sort_queue q1"
    using len i k by (simp add: remove_node_def Let_def k1 st_Inr n_def lst_def q1_def is_beacon_def)
  have q1_le: "unat (num_pkt q1) \<le> length (nodes q1)"
    using len k k1 by (simp add: q1_def)
  obtain q' where q': "jit_sort_queue q1 = Inr q'" "num_pkt q' = num_pkt q1"
      "num_beacon q' = num_beacon q1" "live q' = qsort_r compare_nodes (live q1)"
      "length (nodes q') = length (nodes q1)"
      "drop (unat (num_pkt q')) (nodes q') = drop (unat (num_pkt q1)) (nodes q1)"
    using jit_sort_queue_wf [OF q1_le] by auto
  have lenl: "length (live q) = ?k" by (rule length_live [OF wf])
  have lst_live: "last (live q) = lst"
    using i lenl by (simp add: last_conv_nth lst_def nodes_live flip: length_greater_0_conv)
  have "live q1 = take (length (live q) - 1) ((live q)[i := last (live q)])"
    using i len k lenl unfolding lst_live
    by (simp add: live_def q1_def k1 take_update_swap list_update_beyond min_def)
  then have m: "mset (live q1) + {#live q ! i#} = mset (live q)"
    using mset_remove_swap [of i "live q"] i lenl by simp
  have n_live: "n = live q ! i"
    using i by (simp add: n_def nodes_live)
  have "beacons (live q) = beacons (live q1 @ [n])"
    by (rule beacons_mset) (simp add: m [symmetric] n_live)
  moreover have "num_beacon q' = (if is_beacon n then num_beacon q - 1 else num_beacon q)"
    by (simp add: q'(3) q1_def)
  moreover have "unat (num_beacon q) = beacons (live q)"
    using wf by (simp add: jit_wf_def)
  moreover have "beacons (live q') = beacons (live q1)"
    by (rule beacons_mset) (simp add: q'(4))
  ultimately have b: "unat (num_beacon q') = beacons (live q')"
    by (simp add: unat_u8_minus1 split: if_splits)
  have "drop (?k - 1) (nodes q1) = node_zero (length (payload (pkt lst))) # drop ?k (nodes q)"
    using i len k drop_Cons_nth [of "?k - 1" "nodes q1"] by (simp add: q1_def drop_update_ge)
  then have "list_all (\<lambda>n. n = node_zero (length (payload (pkt n)))) (drop (?k - 1) (nodes q1))"
    using wf by (simp add: jit_wf_def node_zero_def pkt_zero_def)
  then have "jit_wf q'"
    using q'(2,5,6) k k1 len b by (simp add: jit_wf_def q1_def jit_consts)
  then show ?thesis
    using rm q' m by (auto simp: q1_def)
qed

section \<open>Collisions and separation\<close>

lemma unat_add_small:
  "unat (a :: u32) + unat b < 2 ^ 32 \<Longrightarrow> unat (a + b) = unat a + unat b"
  by (simp add: unat_word_ariths)

text \<open>Without a collision the two packets are apart by their delays, as natural numbers.\<close>

lemma no_collisionD:
  assumes "\<not> jit_collision_test c pre post c' pre' post'"
  shows "unat pre + unat post' + 1000 < 2 ^ 32 \<Longrightarrow> unat pre + unat post' + 1000 < unat (c - c')"
    and "unat pre' + unat post + 1000 < 2 ^ 32 \<Longrightarrow> unat pre' + unat post + 1000 < unat (c' - c)"
    and "c \<noteq> c'"
proof -
  show "unat pre + unat post' + 1000 < unat (c - c')" if "unat pre + unat post' + 1000 < 2 ^ 32"
  proof -
    have "unat (pre + post' + TX_MARGIN_DELAY) = unat pre + unat post' + 1000"
      using that by (simp add: unat_add_small TX_MARGIN_DELAY_def)
    then show ?thesis
      using assms by (auto simp: jit_collision_test_def word_le_nat_alt)
  qed
  show "unat pre' + unat post + 1000 < unat (c' - c)" if "unat pre' + unat post + 1000 < 2 ^ 32"
  proof -
    have "unat (pre' + post + TX_MARGIN_DELAY) = unat pre' + unat post + 1000"
      using that by (simp add: unat_add_small TX_MARGIN_DELAY_def)
    then show ?thesis
      using assms by (auto simp: jit_collision_test_def word_le_nat_alt)
  qed
  show "c \<noteq> c'" using assms by (auto simp: jit_collision_test_def)
qed

lemma collision_sym:
  "jit_collision_test c pre post c' pre' post' = jit_collision_test c' pre' post' c pre post"
  by (auto simp: jit_collision_test_def)

section \<open>Enqueue\<close>

text \<open>The test criterion 3 makes against one queued node.\<close>

definition overlaps :: "u32 \<Rightarrow> u32 \<Rightarrow> u32 \<Rightarrow> jit_pkt_type \<Rightarrow> jit_node \<Rightarrow> bool" where
  "overlaps c pre post ty n =
     jit_collision_test c pre post (count_us (pkt n)) (target_pre_delay ty n) (post_delay n)"

definition overlap_kind :: "jit_node \<Rightarrow> jit_error" where
  "overlap_kind n = (if is_beacon n then JIT_ERROR_COLLISION_BEACON else JIT_ERROR_COLLISION_PACKET)"

lemma overlap_error_find:
  "k \<le> length ns \<Longrightarrow>
   overlap_error c pre post ty ns k =
     Inr (map_option overlap_kind (find (overlaps c pre post ty) (take k ns)))"
  by (induction c pre post ty ns k rule: overlap_error.induct)
    (auto simp: overlaps_def overlap_kind_def is_beacon_def)

lemma asap_collides_any:
  "k \<le> length ns \<Longrightarrow>
   asap_collides t pre post ns k =
     Inr (\<exists>n \<in> set (take k ns). jit_collision_test t pre post (count_us (pkt n)) (pre_delay n) (post_delay n))"
  by (induction t pre post ns k rule: asap_collides.induct) auto

lemma asap_slot_returns: "k \<le> length ns \<Longrightarrow> \<exists>t'. asap_slot pre post ns k t = Inr t'"
  by (induction pre post ns k t rule: asap_slot.induct)
    (auto simp: Let_def split: list.split)

lemma asap_count_us_returns:
  assumes "jit_wf q" and "uint time_us + 1000000 < 2 ^ 32"
  shows "\<exists>t. asap_count_us q time_us pre post = Inr t"
  using assms asap_slot_returns [of "unat (num_pkt q)" "nodes q" pre post]
  by (auto simp: asap_count_us_def asap_margin_def asap_collides_any jit_wf_def)

definition new_node :: "hal \<Rightarrow> lgw_pkt_tx \<Rightarrow> lgw_pkt_tx \<Rightarrow> jit_pkt_type \<Rightarrow> jit_node" where
  "new_node H p0 p ty = \<lparr>pkt = p, pkt_type = ty, pre_delay = fst (packet_delays H p0 ty),
     post_delay = snd (packet_delays H p0 ty)\<rparr>"

text \<open>Whether the packet, with its timestamp decided, is accepted.\<close>

definition acceptable :: "hal \<Rightarrow> jit_queue \<Rightarrow> u32 \<Rightarrow> jit_node \<Rightarrow> bool" where
  "acceptable H q time_us n \<longleftrightarrow>
     TX_START_DELAY + TX_MARGIN_DELAY + TX_JIT_DELAY < count_us (pkt n) - time_us \<and>
     (pkt_type n = JIT_PKT_TYPE_DOWNLINK_CLASS_A \<or> pkt_type n = JIT_PKT_TYPE_DOWNLINK_CLASS_B
       \<longrightarrow> count_us (pkt n) - time_us \<le> TX_MAX_ADVANCE_DELAY) \<and>
     (\<forall>m \<in> set (live q). \<not> overlaps (count_us (pkt n)) (pre_delay n) (post_delay n) (pkt_type n) m)"

text \<open>The packet as criteria 1 to 3 see it.\<close>

definition dated_packet :: "hal \<Rightarrow> jit_queue \<Rightarrow> u32 \<Rightarrow> lgw_pkt_tx \<Rightarrow> jit_pkt_type \<Rightarrow> lgw_pkt_tx res" where
  "dated_packet H q time_us p0 ty =
     (if ty = JIT_PKT_TYPE_DOWNLINK_CLASS_C
      then bindr (asap_count_us q time_us (fst (packet_delays H p0 ty)) (snd (packet_delays H p0 ty)))
             (\<lambda>t. Inr (p0\<lparr>tx_mode := hal_TIMESTAMPED H, count_us := t\<rparr>))
      else Inr p0)"

lemma find_None_all: "find P xs = None \<longleftrightarrow> (\<forall>x \<in> set xs. \<not> P x)"
  by (induction xs) auto

lemma jit_enqueue_outcome:
  assumes wf: "jit_wf q" and nf: "\<not> jit_queue_is_full q"
    and dated: "dated_packet H q (time_us_of t) p0 ty = Inr p"
  shows "\<exists>e q'. jit_enqueue H q t (Some p0) ty = Inr (e, q', Some p) \<and>
     (e = JIT_ERROR_OK \<longleftrightarrow> acceptable H q (time_us_of t) (new_node H p0 p ty)) \<and>
     (e = JIT_ERROR_OK \<longrightarrow> insert_node q (new_node H p0 p ty) = Inr q') \<and>
     (e \<noteq> JIT_ERROR_OK \<longrightarrow> q' = q)"
proof -
  obtain pre post where d: "packet_delays H p0 ty = (pre, post)" by force
  have k: "unat (num_pkt q) \<le> length (nodes q)" using wf by (simp add: jit_wf_def)
  obtain q' where ins: "insert_node q (new_node H p0 p ty) = Inr q'"
    using insert_node_wf [OF wf nf] by blast
  have ins': "insert_node q \<lparr>pkt = p, pkt_type = ty, pre_delay = pre, post_delay = post\<rparr> = Inr q'"
    using ins by (simp add: new_node_def d)
  have p: "(if ty = JIT_PKT_TYPE_DOWNLINK_CLASS_C
            then bindr (asap_count_us q (time_us_of t) pre post)
                   (\<lambda>t. Inr (p0\<lparr>tx_mode := hal_TIMESTAMPED H, count_us := t\<rparr>)) else Inr p0) = Inr p"
    using dated by (simp only: dated_packet_def d fst_conv snd_conv)
  note eq = overlap_error_find [OF k, of "count_us p" pre post ty, folded live_def]
  show ?thesis
  proof (cases "find (overlaps (count_us p) pre post ty) (live q)")
    case None
    then have "\<forall>m \<in> set (live q). \<not> overlaps (count_us p) pre post ty m"
      by (simp add: find_None_all)
    then show ?thesis
      unfolding jit_enqueue_def Let_def option.case d prod.case p bindr_Inr eq None
      by (auto simp: nf ins' d new_node_def acceptable_def)
  next
    case (Some m)
    then have "m \<in> set (live q)" "overlaps (count_us p) pre post ty m"
      by (auto simp: find_Some_iff)
    then have "\<not> acceptable H q (time_us_of t) (new_node H p0 p ty)"
      by (auto simp: acceptable_def new_node_def d)
    then show ?thesis
      unfolding jit_enqueue_def Let_def option.case d prod.case p bindr_Inr eq Some
      by (auto simp: nf overlap_kind_def)
  qed
qed

lemma new_node_delays [simp]: "delays_ok (new_node H p0 p ty)"
  by (cases ty) (simp_all add: delays_ok_def new_node_def packet_delays_def is_beacon_def jit_consts)

lemma new_node_short:
  assumes "lgw_time_on_air H p0 \<le> 1000000"
  shows "short_air (new_node H p0 p ty)"
proof -
  have "unat (lgw_time_on_air H p0) \<le> 1000000"
    using assms by (simp add: word_le_nat_alt)
  then have "unat (lgw_time_on_air H p0 * 1000) \<le> 1000000000"
    by (simp add: unat_word_ariths)
  then show ?thesis
    by (cases ty) (simp_all add: short_air_def new_node_def packet_delays_def jit_consts)
qed

lemma short_air_fits: "short_air n \<Longrightarrow> reserve_fits n"
  by (simp add: short_air_def reserve_fits_def)

lemma delays_ok_bounds:
  assumes "delays_ok n"
  shows "31500 \<le> unat (pre_delay n)" "unat (pre_delay n) \<le> 3031500"
  using assms by (auto simp: delays_ok_def jit_consts word_le_nat_alt)

lemma target_pre_bounds:
  assumes "delays_ok n"
  shows "lead_in n \<le> unat (target_pre_delay ty n)" "unat (target_pre_delay ty n) \<le> unat (pre_delay n)"
  using assms
  by (auto simp: delays_ok_def target_pre_delay_def lead_in_def is_beacon_def jit_consts word_le_nat_alt)

lemma lead_in_bound: "delays_ok n \<Longrightarrow> lead_in n \<le> unat (pre_delay n)"
  using target_pre_bounds [of n JIT_PKT_TYPE_DOWNLINK_CLASS_A] by simp

lemma not_overlaps_no_overlap:
  assumes n: "delays_ok n" and m: "delays_ok m"
    and free: "\<not> overlaps (count_us (pkt n)) (pre_delay n) (post_delay n) ty m"
  shows "no_overlap n m"
proof -
  note nc = no_collisionD [OF free [unfolded overlaps_def]]
  have "clear_of n m"
    using nc(1) delays_ok_bounds [OF n] lead_in_bound [OF n] by (auto simp: clear_of_def reserve_fits_def)
  moreover have "clear_of m n"
    using nc(2) delays_ok_bounds [OF m] target_pre_bounds [OF m, of ty]
    by (auto simp: clear_of_def reserve_fits_def)
  ultimately show ?thesis
    using nc(3) by (simp add: no_overlap_def)
qed

lemma acceptable_inv:
  assumes "jit_inv q" and "acceptable H q t n" and "delays_ok n"
  shows "separated (live q @ [n])" and "list_all delays_ok (live q @ [n])"
proof -
  have "no_overlap n m" if "m \<in> set (live q)" for m
    using that assms not_overlaps_no_overlap [of n m "pkt_type n"]
    by (auto simp: jit_inv_def list_all_iff acceptable_def)
  then show "separated (live q @ [n])"
    using assms(1) by (auto simp: jit_inv_def separated_def sorted_wrt_append intro: no_overlap_sym)
  show "list_all delays_ok (live q @ [n])"
    using assms by (simp add: jit_inv_def)
qed

lemma insert_node_inv:
  assumes inv: "jit_inv q" and "\<not> jit_queue_is_full q" and acc: "acceptable H q t n" "delays_ok n"
    and ins: "insert_node q n = Inr q'"
  shows "jit_inv q'" and "mset (live q') = add_mset n (mset (live q))"
proof -
  have q': "jit_wf q'" "live q' = qsort_r compare_nodes (live q @ [n])"
    using insert_node_wf [of q n] assms by (auto simp: jit_inv_def)
  then have m: "mset (live q @ [n]) = mset (live q')"
    by simp
  then show "mset (live q') = add_mset n (mset (live q))"
    by simp
  show "jit_inv q'"
    unfolding jit_inv_def
    using q'(1) separated_mset [OF m] list_all_mset [OF m] acceptable_inv [OF inv acc] by simp
qed

lemma sub_inv:
  assumes "jit_inv q" and "jit_wf q'" and "mset (live q') \<subseteq># mset (live q)"
  shows "jit_inv q'"
proof -
  obtain rest where "mset (live q) = mset (live q') + mset rest"
    using assms(3) by (metis ex_mset mset_subset_eq_exists_conv)
  then have m: "mset (live q) = mset (live q' @ rest)" by simp
  then have "separated (live q' @ rest)" "list_all delays_ok (live q' @ rest)"
    using assms(1) separated_mset [OF m] list_all_mset [OF m] by (auto simp: jit_inv_def)
  then show ?thesis
    using assms(2) by (simp add: jit_inv_def separated_def sorted_wrt_append)
qed

lemma jit_queue_init_inv: "jit_inv (jit_queue_init H)"
  using jit_queue_init_wf [of H] by (simp add: jit_inv_def separated_def live_def jit_queue_init_def)

text \<open>What one call of \<open>jit_enqueue\<close> does, when it returns.\<close>

lemma jit_enqueue_cases:
  assumes wf: "jit_wf q" and ret: "jit_enqueue H q t packet ty = Inr (e, q', packet')"
  shows "(e \<noteq> JIT_ERROR_OK \<and> q' = q) \<or>
    (\<exists>p0 p. packet = Some p0 \<and> packet' = Some p \<and> e = JIT_ERROR_OK \<and> \<not> jit_queue_is_full q \<and>
       dated_packet H q (time_us_of t) p0 ty = Inr p \<and>
       acceptable H q (time_us_of t) (new_node H p0 p ty) \<and>
       insert_node q (new_node H p0 p ty) = Inr q')"
proof (cases packet)
  case None
  then show ?thesis using ret by (simp add: jit_enqueue_def)
next
  case (Some p0)
  show ?thesis
  proof (cases "jit_queue_is_full q")
    case True
    then show ?thesis using ret Some by (simp add: jit_enqueue_def)
  next
    case nf: False
    obtain p where p: "dated_packet H q (time_us_of t) p0 ty = Inr p"
      using ret nf unfolding jit_enqueue_def Some dated_packet_def
      by (auto simp: Let_def bindr_eq_Inr_iff split: prod.splits if_splits)
    show ?thesis
      using jit_enqueue_outcome [OF wf nf p] ret p nf Some by auto
  qed
qed

section \<open>Dequeue\<close>

lemma jit_dequeue_live:
  assumes inv: "jit_inv q" and i: "i < unat (num_pkt q)"
  shows "\<exists>q'. jit_dequeue q (int i) (Some p0) ty0 =
             Inr (JIT_ERROR_OK, q', Some (pkt (live q ! i)), pkt_type (live q ! i)) \<and>
           jit_inv q' \<and> add_mset (live q ! i) (mset (live q')) = mset (live q)"
proof -
  have wf: "jit_wf q" using inv by (simp add: jit_inv_def)
  obtain q' where q': "remove_node q i = Inr q'" "jit_wf q'"
      "mset (live q') + {#live q ! i#} = mset (live q)"
    using remove_node_wf [OF wf i] by blast
  have "jit_inv q'"
    using sub_inv [OF inv q'(2)] q'(3) [symmetric] by simp
  moreover have "i < length (nodes q)" "i < 32" "num_pkt q \<noteq> 0"
    using wf i by (auto simp: jit_wf_def JIT_QUEUE_MAX_def)
  ultimately show ?thesis
    using q' i by (simp add: jit_dequeue_def jit_queue_is_empty_def JIT_QUEUE_MAX_def nodes_live)
qed

section \<open>Peek\<close>

text \<open>How far ahead of time \<open>t\<close> a packet lies; the first node with the smallest distance.\<close>

definition lead :: "u32 \<Rightarrow> jit_node \<Rightarrow> u32" where
  "lead t n = count_us (pkt n) - t"

definition first_min :: "u32 \<Rightarrow> jit_node list \<Rightarrow> nat \<Rightarrow> bool" where
  "first_min t ns k \<longleftrightarrow> k < length ns \<and> (\<forall>j < length ns. lead t (ns ! k) \<le> lead t (ns ! j)) \<and>
     (\<forall>j < k. lead t (ns ! k) < lead t (ns ! j))"

lemma peek_scan_fresh:
  assumes "jit_wf q" and "\<forall>n \<in> set (live q). \<not> outdated t n" and "i \<le> unat (num_pkt q)"
    and "0 < unat (num_pkt q)"
    and "if i = 0 then idx = -1 else \<exists>k. idx = int k \<and> first_min t (take i (live q)) k"
  shows "\<exists>k. peek_scan t i idx q = Inr (int k, q) \<and> first_min t (live q) k"
  using assms(3,5)
proof (induction "unat (num_pkt q) - i" arbitrary: i idx)
  case 0
  then have "i = unat (num_pkt q)" "i \<noteq> 0" using assms(4) by auto
  then show ?case
    using 0 length_live [OF assms(1)] by (auto simp: peek_scan.simps)
next
  case (Suc m)
  have i: "i < unat (num_pkt q)" using Suc.hyps(2) by simp
  have len: "length (live q) = unat (num_pkt q)" by (rule length_live [OF assms(1)])
  have lenn: "unat (num_pkt q) \<le> length (nodes q)" using assms(1) by (simp add: jit_wf_def)
  have out: "\<not> TX_MAX_ADVANCE_DELAY \<le> count_us (pkt (nodes q ! i)) - t"
    using assms(2) i len nodes_live [OF i] by (metis nth_mem outdated_def)
  have il: "ld (nodes q) i = Inr (nodes q ! i)" using i lenn by simp
  have tk: "take (Suc i) (live q) = take i (live q) @ [live q ! i]"
    using i len by (simp add: take_Suc_conv_app_nth)
  show ?case
  proof (cases "i = 0")
    case True
    then have "idx = -1" using Suc.prems by simp
    moreover have "first_min t (take (Suc i) (live q)) 0"
      using True i len by (auto simp: first_min_def)
    then have "\<exists>k. peek_scan t (Suc i) 0 q = Inr (int k, q) \<and> first_min t (live q) k"
      using Suc.hyps(1) [of "Suc i" 0] Suc.hyps(2) i by auto
    moreover have "peek_scan t i idx q = peek_scan t (Suc i) (int i) q"
      using i out \<open>idx = -1\<close> by (subst peek_scan.simps) (simp add: il)
    ultimately show ?thesis using True by simp
  next
    case False
    then obtain k where k: "idx = int k" "first_min t (take i (live q)) k"
      using Suc.prems by auto
    have kl: "k < i" using k(2) by (simp add: first_min_def)
    let ?idx = "if lead t (live q ! i) < lead t (live q ! k) then i else k"
    have "first_min t (take (Suc i) (live q)) ?idx"
      using k(2) kl i len by (auto simp: first_min_def tk nth_append less_Suc_eq)
    then have "\<exists>k. peek_scan t (Suc i) (int ?idx) q = Inr (int k, q) \<and> first_min t (live q) k"
      using Suc.hyps(1) [of "Suc i" "int ?idx"] Suc.hyps(2) i by auto
    moreover have "peek_scan t i idx q = peek_scan t (Suc i) (int ?idx) q"
      using i lenn out kl k(1) by (subst peek_scan.simps) (auto simp: lead_def nodes_live)
    ultimately show ?thesis by simp
  qed
qed

lemma peek_scan_returns:
  assumes "jit_wf q" and "idx = -1 \<or> 0 \<le> idx \<and> idx < int JIT_QUEUE_MAX"
  shows "\<exists>k q' d. peek_scan t i idx q = Inr (k, q') \<and> jit_wf q' \<and>
           (k = -1 \<or> 0 \<le> k \<and> k < int JIT_QUEUE_MAX) \<and>
           mset (live q) = mset (live q') + d \<and> (\<forall>n \<in># d. outdated t n)"
  using assms
proof (induction t i idx q rule: peek_scan.induct)
  case (1 t i idx q)
  show ?case
  proof (cases "i < unat (num_pkt q)")
    case False
    then show ?thesis
      using 1(5,6) by (subst peek_scan.simps) auto
  next
    case i: True
    have lenn: "unat (num_pkt q) \<le> length (nodes q)" "length (nodes q) = JIT_QUEUE_MAX"
      using 1(5) by (auto simp: jit_wf_def)
    have ld_i: "ld (nodes q) i = Inr (nodes q ! i)" using i lenn by simp
    show ?thesis
    proof (cases "TX_MAX_ADVANCE_DELAY \<le> count_us (pkt (nodes q ! i)) - t")
      case out: True
      obtain q1 where q1: "remove_node q i = Inr q1" "jit_wf q1"
          "mset (live q1) + {#live q ! i#} = mset (live q)"
        using remove_node_wf [OF 1(5) i] by blast
      have step: "peek_scan t i idx q = peek_scan t 1 idx q1"
        using i out by (subst peek_scan.simps) (simp add: ld_i q1(1))
      obtain k q' d where *: "peek_scan t 1 idx q1 = Inr (k, q')" "jit_wf q'"
          "k = -1 \<or> 0 \<le> k \<and> k < int JIT_QUEUE_MAX"
          "mset (live q1) = mset (live q') + d" "\<forall>n \<in># d. outdated t n"
        using 1(1) [OF i ld_i out q1(1) q1(2) 1(6)] by blast
      have "mset (live q) = mset (live q') + add_mset (live q ! i) d"
        using q1(3) *(4) by simp
      moreover have "\<forall>n \<in># add_mset (live q ! i) d. outdated t n"
        using out nodes_live [OF i] *(5) by (auto simp: outdated_def)
      ultimately show ?thesis
        using step *(1-3) by (intro exI [of _ k] exI [of _ q'] exI [of _ "add_mset (live q ! i) d"]) simp
    next
      case fresh: False
      have i32: "int i = -1 \<or> 0 \<le> int i \<and> int i < int JIT_QUEUE_MAX"
        using i lenn by simp
      show ?thesis
      proof (cases "idx = -1")
        case True
        then have "peek_scan t i idx q = peek_scan t (Suc i) (int i) q"
          using i fresh by (subst peek_scan.simps) (simp add: ld_i)
        then show ?thesis
          using 1(2) [OF i ld_i fresh True 1(5) i32] by simp
      next
        case False
        then have ld_h: "ld (nodes q) (nat idx) = Inr (nodes q ! nat idx)"
          using 1(6) lenn by (intro ld_Inr) (simp add: nat_less_iff)
        show ?thesis
        proof (cases "count_us (pkt (nodes q ! i)) - t < count_us (pkt (nodes q ! nat idx)) - t")
          case True
          then have "peek_scan t i idx q = peek_scan t (Suc i) (int i) q"
            using i fresh False by (subst peek_scan.simps) (simp add: ld_i ld_h)
          then show ?thesis
            using 1(3) [OF i ld_i fresh False ld_h True 1(5) i32] by simp
        next
          case less: False
          then have "peek_scan t i idx q = peek_scan t (Suc i) idx q"
            using i fresh False by (subst peek_scan.simps) (simp add: ld_i ld_h)
          then show ?thesis
            using 1(4) [OF i ld_i fresh False ld_h less 1(5,6)] by simp
        qed
      qed
    qed
  qed
qed

lemma peek_scan_all_outdated:
  assumes "jit_wf q" and "\<forall>n \<in> set (live q). outdated t n"
  shows "\<exists>q'. peek_scan t i (-1) q = Inr (-1, q')"
  using assms
proof (induction "unat (num_pkt q)" arbitrary: i q rule: less_induct)
  case less
  show ?case
  proof (cases "i < unat (num_pkt q)")
    case False
    then show ?thesis by (subst peek_scan.simps) auto
  next
    case i: True
    have ld_i: "ld (nodes q) i = Inr (live q ! i)" "i < length (live q)"
      using i less.prems(1) by (auto simp: jit_wf_def nodes_live length_live [OF less.prems(1)])
    obtain q1 where q1: "remove_node q i = Inr q1" "jit_wf q1" "num_pkt q1 = num_pkt q - 1"
        "mset (live q1) + {#live q ! i#} = mset (live q)"
      using remove_node_wf [OF less.prems(1) i] by blast
    have "TX_MAX_ADVANCE_DELAY \<le> count_us (pkt (live q ! i)) - t"
      using less.prems(2) ld_i(2) by (auto simp: outdated_def)
    then have step: "peek_scan t i (-1) q = peek_scan t 1 (-1) q1"
      using i by (subst peek_scan.simps) (simp add: ld_i(1) q1(1))
    have "set (live q1) \<subseteq> set (live q)"
      using q1(4) by (metis mset_subset_eq_add_left set_mset_mono set_mset_mset)
    then have "\<exists>q'. peek_scan t 1 (-1) q1 = Inr (-1, q')"
      using less.hyps [of q1 1] less.prems(2) q1(2,3) i by (auto simp: unat_u8_minus1)
    then show ?thesis using step by simp
  qed
qed

section \<open>Order\<close>

text \<open>
  Timestamps within half a turn of the clock after \<open>b\<close>: there the signed difference \<open>compare\<close> uses
  orders packets by their distance from \<open>b\<close>.
\<close>

definition in_window :: "u32 \<Rightarrow> jit_node \<Rightarrow> bool" where
  "in_window b n \<longleftrightarrow> lead b n < 2 ^ 31"

lemma sint_diff_small:
  fixes a b :: u32
  assumes "a < 2 ^ 31" and "b < 2 ^ 31"
  shows "sint (a - b) = uint a - uint b"
proof -
  have a: "uint a < 2147483648" and b: "uint b < 2147483648"
    using assms by (simp_all add: word_less_def)
  have "a - b = word_of_int (uint a - uint b)"
    by simp
  then have "sint (a - b) = signed_take_bit 31 (uint a - uint b)"
    by (simp only: signed_of_int) simp
  also have "\<dots> = uint a - uint b"
  proof (rule signed_take_bit_int_eq_self)
    have "- 2147483648 \<le> uint a - uint b" "uint a - uint b < 2147483648"
      using a b uint_ge_0 [of a] uint_ge_0 [of b] by linarith+
    then show "- (2 ^ 31) \<le> uint a - uint b" "uint a - uint b < 2 ^ 31"
      by simp_all
  qed
  finally show ?thesis .
qed

lemma compare_nodes_window:
  assumes "in_window b x" and "in_window b y"
  shows "compare_nodes x y \<le> 0 \<longleftrightarrow> lead b x \<le> lead b y"
proof -
  have "count_us (pkt x) - count_us (pkt y) = lead b x - lead b y"
    by (simp add: lead_def)
  then show ?thesis
    using sint_diff_small [of "lead b x" "lead b y"] assms
    by (simp add: compare_nodes_def in_window_def word_le_def)
qed

lemma insort_by_sorted:
  assumes "\<And>y. y \<in> set ys \<Longrightarrow> cmp x y \<le> 0 \<longleftrightarrow> f x \<le> (f y :: 'b :: linorder)"
    and "sorted_wrt (\<lambda>a b. f a \<le> f b) ys"
  shows "sorted_wrt (\<lambda>a b. f a \<le> f b) (insort_by cmp x ys)"
  using assms
proof (induction ys)
  case (Cons y ys)
  have "set (insort_by cmp x ys) = insert x (set ys)"
    by (metis insort_by_mset set_mset_add_mset_insert set_mset_mset)
  with Cons show ?case by fastforce
qed simp

lemma qsort_r_sorted:
  assumes "\<And>x y. x \<in> set xs \<Longrightarrow> y \<in> set xs \<Longrightarrow> cmp x y \<le> 0 \<longleftrightarrow> f x \<le> (f y :: 'b :: linorder)"
  shows "sorted_wrt (\<lambda>a b. f a \<le> f b) (qsort_r cmp xs)"
  using assms
proof (induction xs)
  case (Cons x xs)
  then have "sorted_wrt (\<lambda>a b. f a \<le> f b) (qsort_r cmp xs)" by simp
  then show ?case
    using insort_by_sorted [of "qsort_r cmp xs" cmp x f] Cons.prems
    by (simp add: qsort_r_def [symmetric] qsort_r_def [of cmp "x # xs"] del: qsort_r_set)
      (metis qsort_r_set list.set_intros qsort_r_def)
qed (simp add: qsort_r_def)

text \<open>The queue in transmission order as seen from \<open>b\<close>.\<close>

definition ordered_from :: "u32 \<Rightarrow> jit_node list \<Rightarrow> bool" where
  "ordered_from b ns \<longleftrightarrow> list_all (in_window b) ns \<and> sorted_wrt (\<lambda>m n. lead b m \<le> lead b n) ns"

lemma qsort_r_ordered:
  assumes "list_all (in_window b) ns"
  shows "ordered_from b (qsort_r compare_nodes ns)"
proof -
  have "compare_nodes x y \<le> 0 \<longleftrightarrow> lead b x \<le> lead b y" if "x \<in> set ns" "y \<in> set ns" for x y
    using assms that by (intro compare_nodes_window) (auto simp: list_all_iff)
  then have "sorted_wrt (\<lambda>m n. lead b m \<le> lead b n) (qsort_r compare_nodes ns)"
    by (rule qsort_r_sorted)
  then show ?thesis
    using assms by (simp add: ordered_from_def list_all_iff)
qed

lemma separated_distinct_leads: "separated ns \<Longrightarrow> distinct (map (lead b) ns)"
  by (induction ns) (auto simp: separated_def no_overlap_def lead_def)

text \<open>
  On separated packets within a window the order is strict, so what \<open>qsort_r\<close> returns does not depend
  on the algorithm: every permutation that its comparison function accepts as sorted is this one.
\<close>

lemma qsort_r_unique:
  assumes win: "list_all (in_window b) ns" and "separated ns"
    and m: "mset ms = mset ns" and sorted: "sorted_wrt (\<lambda>x y. compare_nodes x y \<le> 0) ms"
  shows "ms = qsort_r compare_nodes ns"
proof -
  let ?qs = "qsort_r compare_nodes ns"
  have set: "set ms = set ns" using m by (metis set_mset_mset)
  have dist: "distinct (map (lead b) ns)" by (rule separated_distinct_leads [OF assms(2)])
  have dm: "distinct (map (lead b) ms)"
    using m dist by (metis mset_map mset_eq_imp_distinct_iff)
  have dq: "distinct (map (lead b) ?qs)"
    using dist by (metis qsort_r_mset mset_map mset_eq_imp_distinct_iff)
  have "sorted_wrt (\<lambda>x y. lead b x \<le> lead b y) ms"
    using sorted_wrt_mono_rel [OF _ sorted, of "\<lambda>x y. lead b x \<le> lead b y"]
      compare_nodes_window [of b] win set by (auto simp: list_all_iff)
  then have "sorted (map (lead b) ms)" by (simp add: sorted_wrt_map)
  moreover have "sorted (map (lead b) ?qs)"
    using qsort_r_ordered [OF win] by (simp add: sorted_wrt_map ordered_from_def)
  ultimately have "map (lead b) ms = map (lead b) ?qs"
    using dm dq set by (intro sorted_distinct_set_unique) auto
  moreover have "inj_on (lead b) (set ms \<union> set ?qs)"
    using dm set by (simp add: distinct_map)
  ultimately show ?thesis by (metis map_inj_on)
qed

end
