(* ===== verification/Jit_Class_C.thy ===== *)
theory Jit_Class_C
  imports Jit_Invariant
begin

text \<open>
  The search for a slot that \<open>jit_enqueue\<close> makes for an immediate (class C) downlink: on a queue that
  lies in order after the current time it always finds one, and criteria 1 to 3 then accept it.
\<close>

section \<open>The slot the search returns\<close>

definition slot_behind :: "u32 \<Rightarrow> jit_node \<Rightarrow> u32" where
  "slot_behind pre n = count_us (pkt n) + post_delay n + pre + TX_JIT_DELAY + TX_MARGIN_DELAY"

definition full_collision :: "u32 \<Rightarrow> u32 \<Rightarrow> u32 \<Rightarrow> jit_node \<Rightarrow> bool" where
  "full_collision t pre post n = jit_collision_test t pre post (count_us (pkt n)) (pre_delay n) (post_delay n)"

lemma asap_slot_behind:
  assumes "0 < k" and "k \<le> length ns"
  shows "\<exists>j < k. asap_slot pre post ns k t = Inr (slot_behind pre (ns ! j)) \<and>
           (Suc j < k \<longrightarrow> \<not> full_collision (slot_behind pre (ns ! j)) pre post (ns ! Suc j))"
  using assms
proof (induction ns arbitrary: k t)
  case (Cons n ns)
  obtain k' where k: "k = Suc k'" using Cons.prems by (cases k) auto
  show ?case
  proof (cases ns)
    case Nil
    then show ?thesis using Cons.prems k by (simp add: slot_behind_def)
  next
    case (Cons m rest)
    show ?thesis
    proof (cases "k' = 0 \<or> \<not> full_collision (slot_behind pre n) pre post m")
      case True
      then show ?thesis
        using k Cons by (intro exI [of _ 0]) (auto simp: slot_behind_def full_collision_def Let_def)
    next
      case False
      then have "asap_slot pre post (n # ns) k t = asap_slot pre post ns k' (slot_behind pre n)"
        using k Cons by (auto simp: slot_behind_def full_collision_def Let_def)
      moreover obtain j where "j < k'" "asap_slot pre post ns k' (slot_behind pre n) = Inr (slot_behind pre (ns ! j))"
          "Suc j < k' \<longrightarrow> \<not> full_collision (slot_behind pre (ns ! j)) pre post (ns ! Suc j)"
        using Cons.IH [of k'] False Cons.prems k by auto
      ultimately show ?thesis
        using k by (intro exI [of _ "Suc j"]) simp
    qed
  qed
qed simp

section \<open>Distances from now as natural numbers\<close>

lemma unat_diff_le: "b \<le> (a :: u32) \<Longrightarrow> unat (a - b) = unat a - unat b"
  by (rule unat_sub)

lemma unat_diff_gt: "(a :: u32) < b \<Longrightarrow> unat (a - b) = 2 ^ 32 - (unat b - unat a)"
  by (simp add: unat_sub_if' word_le_nat_alt word_less_nat_alt)

lemma count_diff_leads: "count_us (pkt m) - count_us (pkt n) = lead t m - lead t n"
  by (simp add: lead_def)

lemma ordered_clear:
  assumes "separated ns" and "ordered_from t ns" and "i < j" and "j < length ns"
    and "reserve_fits (ns ! i)"
  shows "unat (lead t (ns ! i)) + unat (post_delay (ns ! i)) + lead_in (ns ! j) + 1000
           < unat (lead t (ns ! j))"
proof -
  have "lead t (ns ! i) \<le> lead t (ns ! j)"
    using assms by (auto simp: ordered_from_def sorted_wrt_iff_nth_less)
  moreover have "clear_of (ns ! j) (ns ! i)"
    using assms by (auto simp: separated_def sorted_wrt_iff_nth_less no_overlap_def)
  ultimately show ?thesis
    using assms(5) by (simp add: clear_of_def count_diff_leads [where t = t] unat_diff_le word_le_nat_alt)
qed

section \<open>The slot is free\<close>

text \<open>Two packets, one \<open>d\<close> after the other, do not collide when \<open>d\<close> covers the delays.\<close>

lemma apart_no_collision:
  assumes d: "unat (c - c') = d" and "0 < d"
    and "unat pre + unat post' + 1000 < d"
    and "unat pre' + unat post + 1000 < 2 ^ 32 - d"
  shows "\<not> jit_collision_test c pre post c' pre' post'"
proof -
  have "c' - c = 0 - (c - c')" by simp
  then have "unat (c' - c) = 2 ^ 32 - d"
    using assms(1,2) unat_sub_if' [of 0 "c - c'"] by simp
  moreover have "unat (pre + post' + TX_MARGIN_DELAY) = unat pre + unat post' + 1000"
      "unat (pre' + post + TX_MARGIN_DELAY) = unat pre' + unat post + 1000"
    using assms(2-4) unsigned_less [of "c - c'"] d by (simp_all add: unat_add_small TX_MARGIN_DELAY_def)
  ultimately show ?thesis
    using assms by (simp add: jit_collision_test_def word_le_nat_alt not_le)
qed

text \<open>The guard time criterion 3 uses is at most the one the search uses.\<close>

lemma full_collision_mono:
  assumes "\<not> full_collision t pre post n" and "delays_ok n" and "unat pre \<le> 3031500"
    and "unat post \<le> 1000000000" and short: "short_air n"
  shows "\<not> overlaps t pre post ty n"
proof -
  have "unat pre + unat (post_delay n) + 1000 < unat (t - count_us (pkt n))"
      "unat (pre_delay n) + unat post + 1000 < unat (count_us (pkt n) - t)"
    using no_collisionD [OF assms(1) [unfolded full_collision_def]] delays_ok_bounds [OF assms(2)] assms(3,4)
      short [unfolded short_air_def]
    by auto
  moreover have "unat (target_pre_delay ty n) \<le> unat (pre_delay n)"
    by (rule target_pre_bounds(2) [OF assms(2)])
  moreover have "unat (pre + post_delay n + TX_MARGIN_DELAY) = unat pre + unat (post_delay n) + 1000"
      "unat (target_pre_delay ty n + post + TX_MARGIN_DELAY) = unat (target_pre_delay ty n) + unat post + 1000"
    using calculation delays_ok_bounds [OF assms(2)] assms(3,4) short [unfolded short_air_def]
    by (simp_all add: unat_add_small TX_MARGIN_DELAY_def)
  ultimately show ?thesis
    by (simp add: overlaps_def jit_collision_test_def word_le_nat_alt not_le)
qed

definition class_C_pre :: u32 where "class_C_pre = TX_START_DELAY + TX_JIT_DELAY"

lemma unat_class_C_pre [simp]: "unat class_C_pre = 31500"
  by (simp add: class_C_pre_def jit_consts)

lemma slot_behind_lead:
  assumes "short_air n" and "in_window t n"
  shows "unat (slot_behind class_C_pre n - t) = unat (lead t n) + unat (post_delay n) + 62500"
proof -
  have "slot_behind class_C_pre n - t = lead t n + (post_delay n + 62500)"
    by (simp add: slot_behind_def class_C_pre_def lead_def jit_consts)
  moreover have "unat (post_delay n + 62500) = unat (post_delay n) + 62500"
    using assms(1) [unfolded short_air_def] by (simp add: unat_add_small)
  moreover have "unat (lead t n) < 2147483648"
    using assms(2) by (simp add: in_window_def word_less_nat_alt)
  ultimately show ?thesis
    using assms(1) [unfolded short_air_def] by (simp add: unat_add_small)
qed

lemma slot_is_free:
  assumes sep: "separated ns" and ord: "ordered_from t ns" and del: "list_all delays_ok ns"
    and short: "list_all short_air ns" and j: "j < length ns"
    and nocol: "Suc j < length ns \<longrightarrow>
      \<not> full_collision (slot_behind class_C_pre (ns ! j)) class_C_pre post (ns ! Suc j)"
    and post: "unat post \<le> 1000000000" and i: "i < length ns"
  shows "\<not> overlaps (slot_behind class_C_pre (ns ! j)) class_C_pre post JIT_PKT_TYPE_DOWNLINK_CLASS_C (ns ! i)"
proof -
  let ?s = "slot_behind class_C_pre (ns ! j)"
  define v where "v = unat (?s - t)"
  have dok: "delays_ok (ns ! k)" "in_window t (ns ! k)" "short_air (ns ! k)" if "k < length ns" for k
    using that del ord short by (auto simp: list_all_length ordered_from_def)
  have v: "v = unat (lead t (ns ! j)) + unat (post_delay (ns ! j)) + 62500"
    using slot_behind_lead dok j by (simp add: v_def)
  have win: "unat (lead t (ns ! k)) < 2147483648" if "k < length ns" for k
    using dok(2) [OF that] by (simp add: in_window_def word_less_nat_alt)
  have diff: "?s - count_us (pkt (ns ! k)) = (?s - t) - lead t (ns ! k)" for k
    by (simp add: lead_def)
  have pres: "unat (target_pre_delay JIT_PKT_TYPE_DOWNLINK_CLASS_C (ns ! k)) \<le> 31500"
      "31500 \<le> unat (pre_delay (ns ! k))" "unat (post_delay (ns ! k)) \<le> 1000000000"
      "unat (pre_delay (ns ! k)) \<le> 3031500" if "k < length ns" for k
    using dok [OF that] delays_ok_bounds [OF dok(1) [OF that]]
    by (auto simp: short_air_def target_pre_delay_def delays_ok_def is_beacon_def jit_consts)
  show ?thesis
  proof (cases "i \<le> j")
    case True
    have "unat (lead t (ns ! i)) + unat (post_delay (ns ! i)) + 62500 \<le> v"
      using ordered_clear [OF sep ord, of i j] short_air_fits [OF dok(3) [OF i]] True j by (cases "i = j") (auto simp: v)
    moreover have "unat (?s - count_us (pkt (ns ! i))) = v - unat (lead t (ns ! i))"
      using calculation by (simp add: diff unat_diff_le v_def word_le_nat_alt)
    ultimately show ?thesis
      unfolding overlaps_def
      using pres [OF i] pres [OF j] win [OF j] post
      by (intro apart_no_collision [OF refl]) (auto simp: v)
  next
    case False
    then have sj: "Suc j < length ns" "Suc j \<le> i" using i by auto
    note nc = nocol [rule_format, OF sj(1)]
    have gap: "unat (lead t (ns ! j)) + unat (post_delay (ns ! j)) + lead_in (ns ! Suc j) + 1000
        < unat (lead t (ns ! Suc j))"
      using ordered_clear [OF sep ord, of j "Suc j"] short_air_fits [OF dok(3) [OF j]] sj by simp
    have far: "32500 + unat (post_delay (ns ! Suc j)) < unat (?s - count_us (pkt (ns ! Suc j)))"
        "32500 + unat post < unat (count_us (pkt (ns ! Suc j)) - ?s)"
      using no_collisionD [OF nc [unfolded full_collision_def]] pres [OF sj(1)] post by auto
    have before: "v < unat (lead t (ns ! Suc j))"
    proof (rule ccontr)
      assume "\<not> ?thesis"
      then have "unat (?s - count_us (pkt (ns ! Suc j))) = v - unat (lead t (ns ! Suc j))"
        by (simp add: diff unat_diff_le v_def word_le_nat_alt)
      then have "32500 + unat (post_delay (ns ! Suc j)) < v - unat (lead t (ns ! Suc j))"
        using far(1) by simp
      then show False
        using gap v dok(1) [OF sj(1)]
        by (cases "is_beacon (ns ! Suc j)") (auto simp: lead_in_def delays_ok_def jit_consts)
    qed
    have inv_diff: "unat (count_us (pkt (ns ! k)) - ?s) = unat (lead t (ns ! k)) - v"
      if "v < unat (lead t (ns ! k))" for k
    proof -
      have "count_us (pkt (ns ! k)) - ?s = lead t (ns ! k) - (?s - t)"
        by (simp add: lead_def)
      then show ?thesis
        using that unat_diff_le [of "?s - t" "lead t (ns ! k)"]
        by (simp only: v_def word_le_nat_alt less_imp_le)
    qed
    have "unat (lead t (ns ! Suc j)) \<le> unat (lead t (ns ! i))"
      using ordered_clear [OF sep ord, of "Suc j" i] short_air_fits [OF dok(3) [OF sj(1)]] sj i by (cases "i = Suc j") auto
    then have "32500 + unat post < unat (lead t (ns ! i)) - v" "v < unat (lead t (ns ! i))"
      using far(2) inv_diff [OF before] before by auto
    then show ?thesis
      unfolding overlaps_def
      using collision_sym pres [OF i] win [OF i] post inv_diff [of i]
      by (subst collision_sym, intro apart_no_collision [OF refl]) auto
  qed
qed

end
