(* ===== verification/Jit_Properties.thy ===== *)
theory Jit_Properties
  imports Jit_Class_C
begin

text \<open>
  What the just-in-time queue promises its callers: the invariant of every reachable queue, what
  \<open>jit_enqueue\<close>, \<open>jit_dequeue\<close> and \<open>jit_peek\<close> do to the set of queued packets, and where \<open>jit_peek\<close>
  leaves the array.
\<close>

section \<open>Reachable queues\<close>


lemma jit_enqueue_inv:
  assumes "jit_inv q" and "jit_enqueue H q t p ty = Inr (e, q', p')"
  shows "jit_inv q'"
  using jit_enqueue_cases [OF _ assms(2)] assms(1)
  by (auto simp: jit_inv_def [of q] intro: insert_node_inv(1) [of q])




lemma jit_peek_effect:
  assumes inv: "jit_inv q" and ret: "jit_peek q (Some t) (Some k) = Inr (e, q', k')"
  shows "jit_inv q' \<and> (\<exists>d. mset (live q) = mset (live q') + d \<and> (\<forall>n \<in># d. outdated (time_us_of t) n))"
proof (cases "jit_queue_is_empty q")
  case True
  then show ?thesis using assms by (auto simp: jit_peek_def intro: exI [of _ "{#}"])
next
  case False
  have wf: "jit_wf q" using inv by (simp add: jit_inv_def)
  obtain i q1 d where s: "peek_scan (time_us_of t) 0 (-1) q = Inr (i, q1)" "jit_wf q1"
      "mset (live q) = mset (live q1) + d" "\<forall>n \<in># d. outdated (time_us_of t) n"
    using peek_scan_returns [OF wf, of "-1" "time_us_of t" 0] by auto
  have "q' = q1"
    using ret False s(1) by (auto simp: jit_peek_def Let_def bindr_eq_Inr_iff split: if_splits)
  then show ?thesis
    using s(2-4) sub_inv [OF inv s(2)] by auto
qed






text \<open>Two downlinks 100 ms apart and one that would overlap, on the example HAL.\<close>

definition downlink_at :: "u32 \<Rightarrow> lgw_pkt_tx" where
  "downlink_at c = (pkt_zero 4)\<lparr>count_us := c\<rparr>"

definition class_a :: "jit_queue \<Rightarrow> u32 \<Rightarrow> (jit_error \<times> jit_queue \<times> lgw_pkt_tx option) res" where
  "class_a q c = jit_enqueue hal_example q \<lparr>tv_sec = 0, tv_usec = 0\<rparr> (Some (downlink_at c))
     JIT_PKT_TYPE_DOWNLINK_CLASS_A"

lemma hal_example_airtime: "lgw_time_on_air hal_example p \<le> 1000000"
  by (simp add: hal_example_def)

definition demo_queue :: jit_queue where
  "demo_queue = (case class_a (jit_queue_init hal_example) 3000000 of
     Inr (_, q1, _) \<Rightarrow> (case class_a q1 2000000 of Inr (_, q2, _) \<Rightarrow> q2 | Inl _ \<Rightarrow> q1)
   | Inl _ \<Rightarrow> jit_queue_init hal_example)"


lemma class_a_inv: "class_a q c = Inr (e, q', p') \<Longrightarrow> jit_inv q \<Longrightarrow> jit_inv q'"
  unfolding class_a_def using jit_enqueue_inv by blast



lemma demo_queue_num: "unat (num_pkt demo_queue) = 2"
  by code_simp

lemma demo_queue_inv: "jit_inv demo_queue"
  unfolding demo_queue_def by (simp split: sum.split) (meson jit_queue_init_inv class_a_inv)

lemma demo_queue_not_full: "\<not> jit_queue_is_full demo_queue"
  by (simp add: jit_queue_is_full_def demo_queue_num JIT_QUEUE_MAX_def)

lemma demo_queue_nodes:
  obtains m n where "live demo_queue = [m, n]" "count_us (pkt m) = 2000000" "count_us (pkt n) = 3000000"
    "post_delay m = 50000" "post_delay n = 50000" "\<not> is_beacon m" "\<not> is_beacon n"
proof -
  have "map (\<lambda>n. (count_us (pkt n), post_delay n, is_beacon n)) (live demo_queue)
      = [(2000000, 50000, False), (3000000, 50000, False)]"
    by code_simp
  then show ?thesis using that by (auto simp: map_eq_Cons_conv)
qed

lemma demo_queue_short: "list_all short_air (live demo_queue)"
  by (rule demo_queue_nodes) (simp add: short_air_def)


section \<open>Enqueue\<close>

text \<open>
  When a packet may be queued, in numbers of microseconds on the clock face: \<open>unat (a - b)\<close> is how far
  \<open>a\<close> lies after \<open>b\<close>. A downlink needs 31.5 ms before its start (1.5 ms to start, 30 ms of jitter), a
  beacon 3 s of guard time more, which class A and C downlinks need not leave to a queued beacon.
\<close>

definition needs_before :: "jit_pkt_type \<Rightarrow> nat" where
  "needs_before ty = (if ty = JIT_PKT_TYPE_BEACON then 3031500 else 31500)"

definition left_before :: "jit_pkt_type \<Rightarrow> jit_node \<Rightarrow> nat" where
  "left_before ty n =
     (if is_beacon n then
        (if ty = JIT_PKT_TYPE_DOWNLINK_CLASS_A \<or> ty = JIT_PKT_TYPE_DOWNLINK_CLASS_C then 1500 else 3031500)
      else 31500)"

definition stays :: "hal \<Rightarrow> lgw_pkt_tx \<Rightarrow> jit_pkt_type \<Rightarrow> nat" where
  "stays H p ty = (if ty = JIT_PKT_TYPE_BEACON then 2120000 else 1000 * unat (lgw_time_on_air H p))"

definition room_for :: "hal \<Rightarrow> lgw_pkt_tx \<Rightarrow> jit_pkt_type \<Rightarrow> jit_node \<Rightarrow> bool" where
  "room_for H p ty n \<longleftrightarrow>
     unat (post_delay n) + needs_before ty + 1000 < unat (count_us p - count_us (pkt n)) \<and>
     stays H p ty + left_before ty n + 1000 < unat (count_us (pkt n) - count_us p)"

definition enqueue_verdict :: "hal \<Rightarrow> jit_queue \<Rightarrow> u32 \<Rightarrow> lgw_pkt_tx \<Rightarrow> jit_pkt_type \<Rightarrow> jit_error" where
  "enqueue_verdict H q now p ty =
     (if length (live q) = 32 then JIT_ERROR_FULL
      else if unat (count_us p - now) \<le> 32500 then JIT_ERROR_TOO_LATE
      else if ty \<noteq> JIT_PKT_TYPE_BEACON \<and> 512000000 < unat (count_us p - now) then JIT_ERROR_TOO_EARLY
      else case filter (\<lambda>n. \<not> room_for H p ty n) (live q) of
        [] \<Rightarrow> JIT_ERROR_OK
      | n # _ \<Rightarrow> if is_beacon n then JIT_ERROR_COLLISION_BEACON else JIT_ERROR_COLLISION_PACKET)"

lemma find_filter: "find P xs = (case filter P xs of [] \<Rightarrow> None | x # _ \<Rightarrow> Some x)"
  by (induction xs) auto

lemma unat_packet_delays:
  assumes "stays H p ty + 3032500 < 2 ^ 32" and "packet_delays H p ty = (pre, post)"
  shows "unat pre = needs_before ty" "unat post = stays H p ty"
  using assms by (auto simp: packet_delays_def needs_before_def stays_def jit_consts unat_word_ariths
      mult.commute split: jit_pkt_type.splits if_splits)

lemma unat_target_pre: "delays_ok n \<Longrightarrow> unat (target_pre_delay ty n) = left_before ty n"
  by (auto simp: target_pre_delay_def left_before_def delays_ok_def is_beacon_def jit_consts)

lemma overlaps_iff_no_room:
  assumes fits: "stays H p ty + 3032500 < 2 ^ 32" and d: "packet_delays H p ty = (pre, post)"
    and n: "delays_ok n" "reserve_fits n"
  shows "overlaps (count_us p) pre post ty n \<longleftrightarrow> \<not> room_for H p ty n"
proof -
  note u = unat_packet_delays [OF fits d] unat_target_pre [OF n(1), of ty]
  have "unat (pre + post_delay n + TX_MARGIN_DELAY) = needs_before ty + unat (post_delay n) + 1000"
      "unat (target_pre_delay ty n + post + TX_MARGIN_DELAY) = left_before ty n + stays H p ty + 1000"
    using fits n(2) by (simp_all add: unat_add_small TX_MARGIN_DELAY_def reserve_fits_def u needs_before_def
        left_before_def)
  then show ?thesis
    by (auto simp: overlaps_def jit_collision_test_def room_for_def word_le_nat_alt)
qed

lemma jit_enqueue_verdict:
  assumes inv: "jit_inv q" and ty: "ty \<noteq> JIT_PKT_TYPE_DOWNLINK_CLASS_C"
    and short: "list_all reserve_fits (live q)" and fits: "stays H p ty + 3032500 < 2 ^ 32"
    and nf: "\<not> jit_queue_is_full q"
  shows "\<exists>q'. jit_enqueue H q t (Some p) ty = Inr (enqueue_verdict H q (time_us_of t) p ty, q', Some p) \<and>
     (enqueue_verdict H q (time_us_of t) p ty = JIT_ERROR_OK \<longrightarrow> insert_node q (new_node H p p ty) = Inr q') \<and>
     (enqueue_verdict H q (time_us_of t) p ty \<noteq> JIT_ERROR_OK \<longrightarrow> q' = q)"
proof -
  have wf: "jit_wf q" using inv by (simp add: jit_inv_def)
  obtain pre post where d: "packet_delays H p ty = (pre, post)" by force
  have k: "unat (num_pkt q) \<le> length (nodes q)" using wf by (simp add: jit_wf_def)
  obtain q' where ins: "insert_node q (new_node H p p ty) = Inr q'"
    using insert_node_wf [OF wf nf] by blast
  have ins': "insert_node q \<lparr>pkt = p, pkt_type = ty, pre_delay = pre, post_delay = post\<rparr> = Inr q'"
    using ins by (simp add: new_node_def d)
  have len: "length (live q) \<noteq> 32"
    using nf by (simp add: jit_queue_is_full_def length_live [OF wf] JIT_QUEUE_MAX_def)
  have late: "count_us p - time_us_of t \<le> TX_START_DELAY + TX_MARGIN_DELAY + TX_JIT_DELAY \<longleftrightarrow>
      unat (count_us p - time_us_of t) \<le> 32500"
    by (simp add: jit_consts word_le_nat_alt)
  have early: "(ty = JIT_PKT_TYPE_DOWNLINK_CLASS_A \<or> ty = JIT_PKT_TYPE_DOWNLINK_CLASS_B) \<and>
      TX_MAX_ADVANCE_DELAY < count_us p - time_us_of t \<longleftrightarrow>
      ty \<noteq> JIT_PKT_TYPE_BEACON \<and> 512000000 < unat (count_us p - time_us_of t)"
    using ty by (cases ty) (simp_all add: jit_consts word_less_nat_alt)
  have "filter (overlaps (count_us p) pre post ty) (live q) = filter (\<lambda>n. \<not> room_for H p ty n) (live q)"
    using overlaps_iff_no_room [OF fits d] inv short by (auto simp: jit_inv_def list_all_iff intro: filter_cong)
  note ov = overlap_error_find [OF k, of "count_us p" pre post ty, folded live_def] find_filter this
  have C: "(ty = JIT_PKT_TYPE_DOWNLINK_CLASS_C) = False" and full: "jit_queue_is_full q = False"
      "(length (live q) = 32) = False"
    using ty nf len by simp_all
  show ?thesis
  proof (cases "filter (\<lambda>n. \<not> room_for H p ty n) (live q)")
    case Nil
    show ?thesis
      unfolding jit_enqueue_def Let_def option.case d prod.case late early ov enqueue_verdict_def Nil list.case
        C full if_False bindr_Inr option.map ins'
      by (auto simp: ins)
  next
    case (Cons m ms)
    show ?thesis
      unfolding jit_enqueue_def Let_def option.case d prod.case late early ov enqueue_verdict_def Cons list.case
        C full if_False bindr_Inr option.map
      by (auto simp: overlap_kind_def)
  qed
qed

text \<open>
  C6. For every class A, class B or beacon packet, on a full queue too, \<open>jit_enqueue\<close> returns the verdict
  of the rule above: full, too late (at most 32.5 ms ahead), too far ahead (a downlink more than 512 s
  ahead), colliding with the first queued packet that leaves it no room, else accepted. An accepted
  packet is queued with its type and airtime and nothing is lost; else the queue is unchanged. The
  airtimes, of the packet and of those queued, are below 71.5 minutes, so that no sum wraps.
\<close>

theorem jit_enqueue_accepts_iff:
  assumes "jit_inv q" and "ty \<noteq> JIT_PKT_TYPE_DOWNLINK_CLASS_C"
    and "list_all reserve_fits (live q)" and "stays H p ty + 3032500 < 2 ^ 32"
  shows "\<exists>q' n. jit_enqueue H q t (Some p) ty = Inr (enqueue_verdict H q (time_us_of t) p ty, q', Some p) \<and>
     (if enqueue_verdict H q (time_us_of t) p ty = JIT_ERROR_OK
      then mset (live q') = add_mset n (mset (live q)) \<and> pkt n = p \<and> pkt_type n = ty \<and>
           unat (post_delay n) = stays H p ty \<and> unat (pre_delay n) = needs_before ty
      else q' = q)"
proof (cases "jit_queue_is_full q")
  case True
  moreover have "length (live q) = 32"
    using True assms(1) length_live [of q] by (simp add: jit_queue_is_full_def jit_inv_def JIT_QUEUE_MAX_def)
  ultimately show ?thesis by (simp add: jit_enqueue_def enqueue_verdict_def)
next
  case nf: False
  have wf: "jit_wf q" using assms(1) by (simp add: jit_inv_def)
  let ?n = "new_node H p p ty"
  have "unat (post_delay ?n) = stays H p ty" "unat (pre_delay ?n) = needs_before ty"
    using unat_packet_delays [OF assms(4) surjective_pairing] by (simp_all add: new_node_def)
  moreover obtain q' where
      "jit_enqueue H q t (Some p) ty = Inr (enqueue_verdict H q (time_us_of t) p ty, q', Some p)"
      "enqueue_verdict H q (time_us_of t) p ty = JIT_ERROR_OK \<longrightarrow> insert_node q ?n = Inr q'"
      "enqueue_verdict H q (time_us_of t) p ty \<noteq> JIT_ERROR_OK \<longrightarrow> q' = q"
    using jit_enqueue_verdict [OF assms nf] by blast
  ultimately show ?thesis
    using insert_node_wf [OF wf nf, of ?n]
    by (intro exI [of _ q'] exI [of _ ?n]) (auto simp: new_node_def)
qed

theorem jit_enqueue_accepts_iff_witness:
  "(\<exists>q'. jit_enqueue hal_example demo_queue \<lparr>tv_sec = 0, tv_usec = 0\<rparr> (Some (downlink_at 2500000))
       JIT_PKT_TYPE_DOWNLINK_CLASS_A = Inr (JIT_ERROR_OK, q', Some (downlink_at 2500000))) \<and>
   jit_enqueue hal_example demo_queue \<lparr>tv_sec = 0, tv_usec = 0\<rparr> (Some (downlink_at 2010000))
       JIT_PKT_TYPE_DOWNLINK_CLASS_A = Inr (JIT_ERROR_COLLISION_PACKET, demo_queue, Some (downlink_at 2010000))"
proof -
  let ?A = JIT_PKT_TYPE_DOWNLINK_CLASS_A and ?t = "\<lparr>tv_sec = 0, tv_usec = 0\<rparr>"
  obtain m n where mn: "live demo_queue = [m, n]" "count_us (pkt m) = 2000000" "count_us (pkt n) = 3000000"
      "post_delay m = 50000" "post_delay n = 50000" "\<not> is_beacon m" "\<not> is_beacon n"
    by (rule demo_queue_nodes)
  have short: "list_all reserve_fits (live demo_queue)"
      "stays hal_example (downlink_at c) ?A = 50000" "stays hal_example (downlink_at c) ?A + 3032500 < 2 ^ 32" for c
    by (simp_all add: mn reserve_fits_def stays_def hal_example_def)
  have v: "enqueue_verdict hal_example demo_queue 0 (downlink_at 2500000) ?A = JIT_ERROR_OK"
      "enqueue_verdict hal_example demo_queue 0 (downlink_at 2010000) ?A = JIT_ERROR_COLLISION_PACKET"
    by (simp_all add: enqueue_verdict_def mn room_for_def downlink_at_def needs_before_def left_before_def
        short(2) [unfolded downlink_at_def])
  show ?thesis
    using jit_enqueue_accepts_iff [OF demo_queue_inv, of ?A hal_example "downlink_at 2500000" ?t]
      jit_enqueue_accepts_iff [OF demo_queue_inv, of ?A hal_example "downlink_at 2010000" ?t] short(1) short(3)
    by (auto simp: time_us_of_def v)
qed

section \<open>Immediate downlinks\<close>

lemma packet_delays_class_C:
  "packet_delays H p JIT_PKT_TYPE_DOWNLINK_CLASS_C = (class_C_pre, lgw_time_on_air H p * 1000)"
  by (simp add: packet_delays_def class_C_pre_def)

lemma asap_is_free:
  assumes inv: "jit_inv q" and short: "list_all short_air (live q)"
    and post: "unat post \<le> 1000000000" and ord: "ordered_from tu (live q)" and early: "uint tu + 1000000 < 2 ^ 32"
  shows "\<exists>s. asap_count_us q tu class_C_pre post = Inr s \<and>
     TX_START_DELAY + TX_MARGIN_DELAY + TX_JIT_DELAY < s - tu \<and>
     (\<forall>m \<in> set (live q). \<not> overlaps s class_C_pre post JIT_PKT_TYPE_DOWNLINK_CLASS_C m)"
proof -
  have len: "length (live q) = unat (num_pkt q)" "unat (num_pkt q) \<le> length (nodes q)"
    using inv length_live by (auto simp: jit_inv_def jit_wf_def)
  have del: "list_all delays_ok (live q)" and sep: "separated (live q)"
    using inv by (auto simp: jit_inv_def)
  have asap: "asap_margin tu = Inr (tu + 1000000)"
    using early by (simp add: asap_margin_def)
  show ?thesis
  proof (cases "num_pkt q = 0 \<or> (\<forall>n \<in> set (live q). \<not> full_collision (tu + 1000000) class_C_pre post n)")
    case True
    then have "asap_count_us q tu class_C_pre post = Inr (tu + 1000000)"
      using len by (auto simp: asap_count_us_def asap asap_collides_any full_collision_def live_def)
    moreover have "\<not> overlaps (tu + 1000000) class_C_pre post JIT_PKT_TYPE_DOWNLINK_CLASS_C m"
      if "m \<in> set (live q)" for m
    proof -
      have "delays_ok m" "short_air m" "\<not> full_collision (tu + 1000000) class_C_pre post m"
        using True that del short by (auto simp: list_all_iff live_def)
      then show ?thesis
        using post by (auto dest: full_collision_mono)
    qed
    ultimately show ?thesis by (simp add: jit_consts)
  next
    case False
    then obtain j where j: "j < length (live q)"
        "asap_slot class_C_pre post (nodes q) (unat (num_pkt q)) (tu + 1000000)
           = Inr (slot_behind class_C_pre (live q ! j))"
        "Suc j < length (live q) \<longrightarrow>
           \<not> full_collision (slot_behind class_C_pre (live q ! j)) class_C_pre post (live q ! Suc j)"
      using asap_slot_behind [of "unat (num_pkt q)" "nodes q" class_C_pre post "tu + 1000000"] len
      by (auto simp: nodes_live unat_gt_0)
    have "asap_count_us q tu class_C_pre post = Inr (slot_behind class_C_pre (live q ! j))"
      using False len j(2)
      by (auto simp: asap_count_us_def asap asap_collides_any full_collision_def live_def)
    moreover have "\<not> overlaps (slot_behind class_C_pre (live q ! j)) class_C_pre post
        JIT_PKT_TYPE_DOWNLINK_CLASS_C m" if "m \<in> set (live q)" for m
      using slot_is_free [OF sep ord del short j(1,3) post] that by (auto simp: in_set_conv_nth)
    moreover have "unat (slot_behind class_C_pre (live q ! j) - tu) \<ge> 62500"
      using slot_behind_lead [of "live q ! j" tu] j(1) short ord
      by (simp add: list_all_length ordered_from_def)
    ultimately show ?thesis
      by (auto simp: jit_consts word_less_nat_alt)
  qed
qed

text \<open>
  C7. An immediate (class C) downlink is scheduled whenever the queue has room and lies in order after
  the current time, the airtimes of the packet and of those queued are at most 1000 s, and the counter
  is not in the last second before its roll-over: \<open>jit_enqueue\<close> then finds it a free slot and accepts it
  with a timestamp.
\<close>

theorem class_C_always_scheduled:
  assumes "jit_inv q" and "\<not> jit_queue_is_full q" and "ordered_from (time_us_of t) (live q)"
    and "list_all short_air (live q)" and "lgw_time_on_air H p \<le> 1000000"
    and "uint (time_us_of t) + 1000000 < 2 ^ 32"
  shows "\<exists>q' p'. jit_enqueue H q t (Some p) JIT_PKT_TYPE_DOWNLINK_CLASS_C = Inr (JIT_ERROR_OK, q', Some p') \<and>
     tx_mode p' = hal_TIMESTAMPED H \<and> payload p' = payload p \<and>
     mset (live q') = add_mset (new_node H p p' JIT_PKT_TYPE_DOWNLINK_CLASS_C) (mset (live q))"
proof -
  let ?C = JIT_PKT_TYPE_DOWNLINK_CLASS_C
  have wf: "jit_wf q" using assms(1) by (simp add: jit_inv_def)
  have "short_air (new_node H p p ?C)" by (rule new_node_short [OF assms(5)])
  then have post: "unat (lgw_time_on_air H p * 1000) \<le> 1000000000"
    by (simp add: short_air_def new_node_def packet_delays_class_C)
  obtain s where s: "asap_count_us q (time_us_of t) class_C_pre (lgw_time_on_air H p * 1000) = Inr s"
      "TX_START_DELAY + TX_MARGIN_DELAY + TX_JIT_DELAY < s - time_us_of t"
      "\<forall>m \<in> set (live q). \<not> overlaps s class_C_pre (lgw_time_on_air H p * 1000) ?C m"
    using asap_is_free [OF assms(1,4) post assms(3,6)] by blast
  define p' where "p' = p\<lparr>tx_mode := hal_TIMESTAMPED H, count_us := s\<rparr>"
  have "dated_packet H q (time_us_of t) p ?C = Inr p'"
    by (simp add: dated_packet_def packet_delays_class_C s(1) p'_def)
  moreover have "acceptable H q (time_us_of t) (new_node H p p' ?C)"
    using s(2,3) by (simp add: acceptable_def new_node_def packet_delays_class_C p'_def)
  ultimately obtain q' where "jit_enqueue H q t (Some p) ?C = Inr (JIT_ERROR_OK, q', Some p')"
      "insert_node q (new_node H p p' ?C) = Inr q'"
    using jit_enqueue_outcome [OF wf assms(2)] by blast
  then show ?thesis
    using insert_node_wf [OF wf assms(2), of "new_node H p p' ?C"] by (auto simp: p'_def)
qed

theorem class_C_always_scheduled_witness:
  "\<exists>q' p'. jit_enqueue hal_example demo_queue \<lparr>tv_sec = 1, tv_usec = 0\<rparr> (Some (downlink_at 0))
       JIT_PKT_TYPE_DOWNLINK_CLASS_C = Inr (JIT_ERROR_OK, q', Some p') \<and> tx_mode p' = 1"
proof -
  have t: "time_us_of \<lparr>tv_sec = 1, tv_usec = 0\<rparr> = 1000000" by (simp add: time_us_of_def)
  have o: "ordered_from 1000000 (live demo_queue)" by code_simp
  then show ?thesis
    using class_C_always_scheduled [OF demo_queue_inv demo_queue_not_full _ demo_queue_short hal_example_airtime,
        of "\<lparr>tv_sec = 1, tv_usec = 0\<rparr>" "downlink_at 0"] t o
    by (auto simp: hal_example_def)
qed

section \<open>Dequeue\<close>

text \<open>
  \<open>jit_dequeue\<close> of a queued packet returns that packet and its type, removes it and no other, and
  keeps the invariant.
\<close>

theorem jit_dequeue_removes:
  assumes "jit_inv q" and "i < unat (num_pkt q)"
  shows "\<exists>q'. jit_dequeue q (int i) (Some p0) ty0 =
             Inr (JIT_ERROR_OK, q', Some (pkt (live q ! i)), pkt_type (live q ! i)) \<and>
           jit_inv q' \<and> mset (live q) = add_mset (live q ! i) (mset (live q'))"
  using jit_dequeue_live [OF assms] by metis

theorem jit_dequeue_removes_witness:
  "\<exists>q' p. jit_dequeue demo_queue 1 (Some (downlink_at 0)) JIT_PKT_TYPE_BEACON =
       Inr (JIT_ERROR_OK, q', Some p, JIT_PKT_TYPE_DOWNLINK_CLASS_A) \<and> count_us p = 3000000"
proof -
  have "pkt_type (live demo_queue ! 1) = JIT_PKT_TYPE_DOWNLINK_CLASS_A \<and>
      count_us (pkt (live demo_queue ! 1)) = 3000000"
    by code_simp
  then show ?thesis
    using jit_dequeue_removes [OF demo_queue_inv, of 1 "downlink_at 0" JIT_PKT_TYPE_BEACON]
      demo_queue_num by auto
qed

section \<open>Peek\<close>

lemma jit_peek_due:
  assumes "jit_wf q" and "num_pkt q \<noteq> 0" and "\<forall>n \<in> set (live q). \<not> outdated (time_us_of t) n"
  shows "\<exists>i. first_min (time_us_of t) (live q) i \<and>
     jit_peek q (Some t) (Some k) =
       Inr (JIT_ERROR_OK, q,
            Some (if lead (time_us_of t) (live q ! i) < TX_JIT_DELAY then int i else -1))"
proof -
  have pos: "0 < unat (num_pkt q)" using assms(2) by (simp add: unat_gt_0)
  obtain i where i: "peek_scan (time_us_of t) 0 (-1) q = Inr (int i, q)" "first_min (time_us_of t) (live q) i"
    using peek_scan_fresh [OF assms(1,3) _ pos, of 0 "-1"] by auto
  have "i < unat (num_pkt q)" "i < length (nodes q)"
    using i(2) assms(1) length_live [OF assms(1)] by (auto simp: first_min_def jit_wf_def)
  then show ?thesis
    using i assms(2)
    by (intro exI [of _ i]) (simp add: jit_peek_def jit_queue_is_empty_def lead_def nodes_live)
qed

text \<open>
  C20. While no queued packet is outdated, \<open>jit_peek\<close> leaves the queue alone and returns the packet that
  is due next: the first of those with the smallest lead over the current time, if that lead is
  below the 30 ms delay, and -1 otherwise.
\<close>

theorem jit_peek_earliest:
  assumes "jit_wf q" and "num_pkt q \<noteq> 0" and "\<forall>n \<in> set (live q). \<not> outdated (time_us_of t) n"
  shows "\<exists>i. first_min (time_us_of t) (live q) i \<and>
     jit_peek q (Some t) (Some k) =
       Inr (JIT_ERROR_OK, q,
            Some (if lead (time_us_of t) (live q ! i) < TX_JIT_DELAY then int i else -1))"
  using assms by (rule jit_peek_due)

lemma first_min_le: "first_min t ns i \<Longrightarrow> j < length ns \<Longrightarrow> lead t (ns ! i) \<le> lead t (ns ! j)"
  by (simp add: first_min_def)

lemma first_min_length: "first_min t ns i \<Longrightarrow> i < length ns"
  by (simp add: first_min_def)

lemma demo_queue_wf: "jit_wf demo_queue"
  using demo_queue_inv by (simp add: jit_inv_def)

theorem jit_peek_earliest_witness:
  "jit_peek demo_queue (Some \<lparr>tv_sec = 1, tv_usec = 990000\<rparr>) (Some 7) = Inr (JIT_ERROR_OK, demo_queue, Some 0)"
proof -
  have t: "time_us_of \<lparr>tv_sec = 1, tv_usec = 990000\<rparr> = 1990000" by (simp add: time_us_of_def)
  have "\<forall>n \<in> set (live demo_queue). \<not> outdated 1990000 n" "num_pkt demo_queue \<noteq> 0"
      "map (lead 1990000) (live demo_queue) = [10000, 1010000]"
    by code_simp+
  then have "(if lead 1990000 (live demo_queue ! i) < TX_JIT_DELAY then int i else -1) = 0"
      if "first_min 1990000 (live demo_queue) i" for i
    using that first_min_le [OF that, of 0] first_min_length [OF that]
    by (auto simp: jit_consts map_eq_Cons_conv less_Suc_eq nth_Cons')
  then show ?thesis
    using jit_peek_earliest [OF demo_queue_wf, of "\<lparr>tv_sec = 1, tv_usec = 990000\<rparr>" 7] t
      \<open>\<forall>n \<in> set (live demo_queue). \<not> outdated 1990000 n\<close> \<open>num_pkt demo_queue \<noteq> 0\<close> by auto
qed

lemma jit_peek_keeps:
  assumes inv: "jit_inv q" and ret: "jit_peek q (Some t) (Some k) = Inr (JIT_ERROR_OK, q', Some k')"
    and clock: "TX_JIT_DELAY \<le> 0 - time_us_of t"
  shows "jit_inv q' \<and> (\<exists>d. mset (live q) = mset (live q') + d \<and> (\<forall>n \<in># d. outdated (time_us_of t) n)) \<and>
     (k' = -1 \<or> 0 \<le> k' \<and> k' < int (unat (num_pkt q')) \<and>
        lead (time_us_of t) (live q' ! nat k') < TX_JIT_DELAY)"
proof -
  have "k' = -1 \<or> 0 \<le> k' \<and> k' < int (length (nodes q')) \<and>
      lead (time_us_of t) (nodes q' ! nat k') < TX_JIT_DELAY"
    using ret by (auto simp: jit_peek_def Let_def bindr_eq_Inr_iff lead_def ld_def split: if_splits)
  moreover have "k' < int (unat (num_pkt q'))"
    if k': "0 \<le> k'" "k' < int (length (nodes q'))" "lead (time_us_of t) (nodes q' ! nat k') < TX_JIT_DELAY"
  proof (rule ccontr)
    assume "\<not> ?thesis"
    then have i: "unat (num_pkt q') \<le> nat k'" "nat k' < length (nodes q')"
      using k' by linarith+
    then have "nodes q' ! nat k' = drop (unat (num_pkt q')) (nodes q') ! (nat k' - unat (num_pkt q'))"
      by simp
    also have "\<dots> \<in> set (drop (unat (num_pkt q')) (nodes q'))"
      using i by (intro nth_mem) simp
    finally have "nodes q' ! nat k' \<in> set (drop (unat (num_pkt q')) (nodes q'))" .
    then have "count_us (pkt (nodes q' ! nat k')) = 0"
      using jit_peek_effect [OF inv ret]
      by (auto simp: jit_inv_def jit_wf_def list_all_iff node_zero_def pkt_zero_def)
        (metis jit_node.select_convs(1) lgw_pkt_tx.select_convs(3))
    then show False
      using k'(3) clock by (simp add: lead_def not_le [symmetric])
  qed
  ultimately show ?thesis
    using jit_peek_effect [OF inv ret] by (auto simp: nodes_live nat_less_iff)
qed

text \<open>
  Whatever \<open>jit_peek\<close> drops was outdated: it keeps every packet that is due within the next
  512 s, and the invariant; and the index it returns is -1 or that of a queued packet due within
  30 ms (unless the counter is within 30 ms of its roll-over).
\<close>

theorem jit_peek_drops_outdated_only:
  assumes inv: "jit_inv q" and ret: "jit_peek q (Some t) (Some k) = Inr (JIT_ERROR_OK, q', Some k')"
    and clock: "TX_JIT_DELAY \<le> 0 - time_us_of t"
  shows "jit_inv q' \<and> (\<exists>d. mset (live q) = mset (live q') + d \<and> (\<forall>n \<in># d. outdated (time_us_of t) n)) \<and>
     (k' = -1 \<or> 0 \<le> k' \<and> k' < int (unat (num_pkt q')) \<and>
        lead (time_us_of t) (live q' ! nat k') < TX_JIT_DELAY)"
  using assms by (rule jit_peek_keeps)

text \<open>Three packets at 1 s, 2 s and 3 s: at 2.98 s the first is dropped and the third is due.\<close>

definition demo_queue3 :: jit_queue where
  "demo_queue3 = (case class_a demo_queue 1000000 of Inr (_, q, _) \<Rightarrow> q | Inl _ \<Rightarrow> demo_queue)"

lemma demo_queue3_inv: "jit_inv demo_queue3"
  unfolding demo_queue3_def by (simp split: sum.split) (meson demo_queue_inv class_a_inv)

theorem jit_peek_drops_outdated_only_witness:
  "\<exists>q' d. jit_peek demo_queue3 (Some \<lparr>tv_sec = 2, tv_usec = 980000\<rparr>) (Some 7) = Inr (JIT_ERROR_OK, q', Some 1)
     \<and> jit_inv q' \<and> size d = 1 \<and> mset (live demo_queue3) = mset (live q') + d
     \<and> (\<forall>n \<in># d. outdated 2980000 n)"
proof -
  let ?t = "\<lparr>tv_sec = 2, tv_usec = 980000\<rparr>"
  have t: "time_us_of ?t = 2980000" by (simp add: time_us_of_def)
  have "(case jit_peek demo_queue3 (Some ?t) (Some 7) of
      Inr (e, q', k') \<Rightarrow> e = JIT_ERROR_OK \<and> length (live q') = 2 \<and> k' = Some 1 | Inl _ \<Rightarrow> False)" "length (live demo_queue3) = 3"
    by code_simp+
  then obtain q' where q': "jit_peek demo_queue3 (Some ?t) (Some 7) = Inr (JIT_ERROR_OK, q', Some 1)"
      "length (live q') = 2"
    by (auto split: sum.splits prod.splits)
  moreover have "TX_JIT_DELAY \<le> 0 - time_us_of ?t" by (simp add: t jit_consts)
  ultimately obtain d where d: "jit_inv q'" "mset (live demo_queue3) = mset (live q') + d"
      "\<forall>n \<in># d. outdated 2980000 n"
    using jit_peek_drops_outdated_only [OF demo_queue3_inv] t by metis
  have "size (mset (live demo_queue3)) = size (mset (live q') + d)"
    by (simp only: d(2))
  then have "size d = 1"
    using \<open>length (live demo_queue3) = 3\<close> q'(2) by simp
  then show ?thesis using q'(1) d by (intro exI [of _ q'] exI [of _ d] conjI)
qed

text \<open>
  C21. When every queued packet is outdated, \<open>jit_peek\<close> purges them, is left with index -1, and its
  final test reads \<open>nodes[-1]\<close>, outside the array.
\<close>

theorem jit_peek_all_outdated_out_of_bounds:
  assumes "jit_wf q" and "num_pkt q \<noteq> 0" and "\<forall>n \<in> set (live q). outdated (time_us_of t) n"
  shows "jit_peek q (Some t) (Some k) = Inl OutOfBounds"
proof -
  obtain q' where "peek_scan (time_us_of t) 0 (-1) q = Inr (-1, q')"
    using peek_scan_all_outdated [OF assms(1,3)] by blast
  then show ?thesis
    using assms(2) by (simp add: jit_peek_def jit_queue_is_empty_def)
qed

theorem jit_peek_all_outdated_out_of_bounds_witness:
  "jit_peek demo_queue (Some \<lparr>tv_sec = 4, tv_usec = 0\<rparr>) (Some 7) = Inl OutOfBounds"
proof -
  have "time_us_of \<lparr>tv_sec = 4, tv_usec = 0\<rparr> = 4000000" by (simp add: time_us_of_def)
  moreover have "num_pkt demo_queue \<noteq> 0" "\<forall>n \<in> set (live demo_queue). outdated 4000000 n"
    by code_simp+
  ultimately show ?thesis
    using jit_peek_all_outdated_out_of_bounds [OF demo_queue_wf] by simp
qed

section \<open>Order\<close>

text \<open>
  While the timestamps lie within half a turn of the counter after some instant \<open>b\<close>, every
  accepted packet leaves the queue in transmission order, also across the roll-over.
\<close>

theorem jit_enqueue_keeps_order:
  assumes "jit_wf q" and "list_all (in_window b) (live q)"
    and "jit_enqueue H q t (Some p) ty = Inr (JIT_ERROR_OK, q', Some p')" and "lead b (new_node H p p' ty) < 2 ^ 31"
  shows "ordered_from b (live q')"
proof -
  have nf: "\<not> jit_queue_is_full q" and ins: "insert_node q (new_node H p p' ty) = Inr q'"
    using jit_enqueue_cases [OF assms(1,3)] by auto
  then have "live q' = qsort_r compare_nodes (live q @ [new_node H p p' ty])"
    using insert_node_wf [OF assms(1) nf, of "new_node H p p' ty"] by auto
  moreover have "list_all (in_window b) (live q @ [new_node H p p' ty])"
    using assms(2,4) by (simp add: in_window_def)
  ultimately show ?thesis
    using qsort_r_ordered by simp
qed

text \<open>A packet beyond the roll-over is queued first, then one before it.\<close>

definition before_wrap :: timeval where
  "before_wrap = \<lparr>tv_sec = 4293, tv_usec = 900000\<rparr>"

definition wrap_queue :: jit_queue where
  "wrap_queue = (case jit_enqueue hal_example (jit_queue_init hal_example) before_wrap
       (Some (downlink_at 100000)) JIT_PKT_TYPE_DOWNLINK_CLASS_A of
     Inr (_, q, _) \<Rightarrow> q | Inl _ \<Rightarrow> jit_queue_init hal_example)"

lemma wrap_queue_wf: "jit_wf wrap_queue"
proof -
  have "jit_inv wrap_queue"
    unfolding wrap_queue_def
    by (simp split: sum.split) (meson jit_enqueue_inv jit_queue_init_inv)
  then show ?thesis by (simp add: jit_inv_def)
qed

theorem jit_enqueue_keeps_order_witness:
  "\<exists>q'. jit_enqueue hal_example wrap_queue before_wrap (Some (downlink_at 4294900000))
      JIT_PKT_TYPE_DOWNLINK_CLASS_A = Inr (JIT_ERROR_OK, q', Some (downlink_at 4294900000)) \<and>
     map (\<lambda>n. count_us (pkt n)) (live q') = [4294900000, 100000] \<and> ordered_from 4293900000 (live q')"
proof -
  let ?r = "jit_enqueue hal_example wrap_queue before_wrap (Some (downlink_at 4294900000))
      JIT_PKT_TYPE_DOWNLINK_CLASS_A"
  have "(case ?r of Inr (e, q', p') \<Rightarrow> e = JIT_ERROR_OK \<and>
      map (\<lambda>n. count_us (pkt n)) (live q') = [4294900000, 100000] \<and>
      p' = Some (downlink_at 4294900000) | Inl _ \<Rightarrow> False)"
    and win: "list_all (in_window 4293900000) (live wrap_queue)"
    by code_simp+
  then obtain q' where q': "?r = Inr (JIT_ERROR_OK, q', Some (downlink_at 4294900000))"
      "map (\<lambda>n. count_us (pkt n)) (live q') = [4294900000, 100000]"
    by (auto split: sum.splits prod.splits)
  moreover have "ordered_from 4293900000 (live q')"
    by (rule jit_enqueue_keeps_order [OF wrap_queue_wf win q'(1)])
      (simp add: lead_def new_node_def downlink_at_def)
  ultimately show ?thesis by (intro exI [of _ q'] conjI)
qed

end
