(* ===== verification/Timersync.thy ===== *)
theory Timersync
  imports Jit_Queue
begin

text \<open>
  \<open>lora_pkt_fwd/src/timersync.c\<close>: the offset between the Unix clock and the concentrator's 1 MHz
  counter. The state is \<open>offset_unix_concent\<close>; \<open>gettimeofday\<close> and \<open>lgw_get_trigcnt\<close> are inputs.
  \<open>tv_sec\<close> and \<open>tv_usec\<close> are \<open>long\<close>s that stay far from their limits and are modelled as \<open>int\<close>.
\<close>

section \<open>Definitions\<close>

definition timersub :: "timeval \<Rightarrow> timeval \<Rightarrow> timeval" where
  "timersub a b =
     (let s = tv_sec a - tv_sec b; u = tv_usec a - tv_usec b in
      if u < 0 then \<lparr>tv_sec = s - 1, tv_usec = u + 1000000\<rparr> else \<lparr>tv_sec = s, tv_usec = u\<rparr>)"

text \<open>\<open>concent_time\<close> is a pointer: the result is the return value and what it points to afterwards.\<close>

definition get_concentrator_time ::
    "timeval \<Rightarrow> timeval option \<Rightarrow> timeval \<Rightarrow> int \<times> timeval option" where
  "get_concentrator_time offset_unix_concent concent_time unix_time =
     (case concent_time of
        None \<Rightarrow> (-1, None)
      | Some _ \<Rightarrow>
          let local_timeval = timersub unix_time offset_unix_concent in
          (0, Some \<lparr>tv_sec = tv_sec local_timeval, tv_usec = tv_usec local_timeval\<rparr>))"

text \<open>
  The calls to the concentrator that \<open>set_concentrator_time\<close> makes: GPS mode of the counter is off
  while the counter is read. A failed \<open>lgw_get_trigcnt\<close> (\<open>None\<close>) leaves the count at 0; its status is
  not looked at.
\<close>

datatype concent_call = Reg_W_Gps_En int | Get_Trigcnt

definition counter_timeval :: "u32 \<Rightarrow> timeval" where
  "counter_timeval c = (let s = uint c div 1000000 in \<lparr>tv_sec = s, tv_usec = uint c - s * 1000000\<rparr>)"

definition set_concentrator_time ::
    "timeval \<Rightarrow> timeval \<Rightarrow> u32 option \<Rightarrow> timeval \<times> timeval \<times> concent_call list" where
  "set_concentrator_time offset_unix_concent unix_timeval trigcnt =
     (let sx1301_timecount = (case trigcnt of None \<Rightarrow> 0 | Some c \<Rightarrow> c);
          concentrator_timeval = counter_timeval sx1301_timecount;
          offset_previous = offset_unix_concent;
          offset = timersub unix_timeval concentrator_timeval;
          offset_drift = timersub offset offset_previous
      in (offset, offset_drift, [Reg_W_Gps_En 0, Get_Trigcnt, Reg_W_Gps_En 1]))"

text \<open>
  \<open>thread_timersync\<close>: per turn of the loop the two stop flags as the condition reads them, and what the
  clock and the counter return after the minute's wait.
\<close>

fun thread_timersync :: "timeval \<Rightarrow> (bool \<times> bool \<times> timeval \<times> u32 option) list \<Rightarrow> timeval" where
  "thread_timersync offset [] = offset"
| "thread_timersync offset ((exit_sig, quit_sig, unix, trig) # turns) =
     (if \<not> exit_sig \<and> \<not> quit_sig
      then thread_timersync (fst (set_concentrator_time offset unix trig)) turns
      else offset)"

section \<open>Lemmas\<close>

definition total_us :: "timeval \<Rightarrow> int" where
  "total_us t = tv_sec t * 1000000 + tv_usec t"

definition normal_time :: "timeval \<Rightarrow> bool" where
  "normal_time t \<longleftrightarrow> 0 \<le> tv_usec t \<and> tv_usec t < 1000000"

lemma total_us_timersub [simp]: "total_us (timersub a b) = total_us a - total_us b"
  by (simp add: total_us_def timersub_def Let_def algebra_simps)

lemma normal_timersub: "normal_time a \<Longrightarrow> normal_time b \<Longrightarrow> normal_time (timersub a b)"
  by (simp add: normal_time_def timersub_def Let_def)

lemma total_us_counter [simp]: "total_us (counter_timeval c) = uint c"
  by (simp add: total_us_def counter_timeval_def Let_def)

lemma normal_counter: "normal_time (counter_timeval c)"
  by (simp add: normal_time_def counter_timeval_def Let_def minus_div_mult_eq_mod)

lemma time_us_of_total: "time_us_of t = word_of_int (total_us t)"
  by (simp add: time_us_of_def total_us_def)

lemma set_concentrator_time_offset:
  "fst (set_concentrator_time off u (Some c)) = timersub u (counter_timeval c)"
  by (simp add: set_concentrator_time_def Let_def)

section \<open>Properties\<close>

text \<open>
  C25. After a synchronisation at Unix time \<open>u\<close> with the counter at \<open>c\<close>, \<open>get_concentrator_time\<close> at
  Unix time \<open>v\<close> gives the normalised time that is \<open>c\<close> plus the microseconds elapsed from \<open>u\<close> to \<open>v\<close>,
  and the 32-bit time the JIT queue computes from it is the counter itself, roll-over included.
\<close>

theorem concentrator_clock_follows_counter:
  assumes "normal_time u" and "normal_time v"
  shows "\<exists>t. get_concentrator_time (fst (set_concentrator_time off u (Some c))) (Some t0) v = (0, Some t) \<and>
     normal_time t \<and> total_us t = uint c + (total_us v - total_us u) \<and>
     time_us_of t = c + word_of_int (total_us v - total_us u)"
proof -
  let ?t = "timersub v (timersub u (counter_timeval c))"
  have "total_us ?t = uint c + (total_us v - total_us u)"
    by simp
  moreover have "time_us_of ?t = c + word_of_int (total_us v - total_us u)"
    unfolding time_us_of_total calculation by simp
  moreover have "normal_time ?t"
    using assms by (intro normal_timersub normal_counter)
  moreover have "get_concentrator_time (fst (set_concentrator_time off u (Some c))) (Some t0) v = (0, Some ?t)"
    by (cases ?t) (simp add: get_concentrator_time_def set_concentrator_time_offset Let_def)
  ultimately show ?thesis by blast
qed

text \<open>50 ms before the roll-over of the counter, read 100 ms later.\<close>

theorem concentrator_clock_follows_counter_witness:
  "\<exists>t. get_concentrator_time
         (fst (set_concentrator_time \<lparr>tv_sec = 0, tv_usec = 0\<rparr> \<lparr>tv_sec = 1500000000, tv_usec = 950000\<rparr>
                 (Some 4294917296)))
         (Some \<lparr>tv_sec = 0, tv_usec = 0\<rparr>) \<lparr>tv_sec = 1500000001, tv_usec = 50000\<rparr> = (0, Some t) \<and>
       time_us_of t = 50000"
  using concentrator_clock_follows_counter [of "\<lparr>tv_sec = 1500000000, tv_usec = 950000\<rparr>"
      "\<lparr>tv_sec = 1500000001, tv_usec = 50000\<rparr>" "\<lparr>tv_sec = 0, tv_usec = 0\<rparr>" 4294917296
      "\<lparr>tv_sec = 0, tv_usec = 0\<rparr>"]
  by (auto simp: normal_time_def total_us_def)

end
