(* ===== verification/Crc16.thy ===== *)
theory Crc16
  imports Fwd_Prelude
begin

unbundle bit_operations_syntax

text \<open>
  \<open>crc16\<close> of \<open>lora_pkt_fwd.c\<close>: the checksum of the beacon frame. A NULL pointer is \<open>None\<close>.
\<close>

section \<open>Definitions\<close>

definition crc_poly :: u16 where "crc_poly = 0x1021"
definition init_val :: u16 where "init_val = 0"

definition crc_shift :: "u16 \<Rightarrow> u16" where
  "crc_shift x = (if x AND 0x8000 \<noteq> 0 then push_bit 1 x XOR crc_poly else push_bit 1 x)"

fun crc_bits :: "nat \<Rightarrow> u16 \<Rightarrow> u16" where
  "crc_bits 0 x = x"
| "crc_bits (Suc j) x = crc_bits j (crc_shift x)"

definition crc_byte :: "u16 \<Rightarrow> u8 \<Rightarrow> u16" where
  "crc_byte x b = crc_bits 8 (x XOR push_bit 8 (ucast b))"

fun crc_loop :: "bytes \<Rightarrow> nat \<Rightarrow> u16 \<Rightarrow> u16 res" where
  "crc_loop data 0 x = Inr x"
| "crc_loop [] (Suc n) x = Inl OutOfBounds"
| "crc_loop (b # data) (Suc n) x = crc_loop data n (crc_byte x b)"

definition crc16 :: "bytes option \<Rightarrow> nat \<Rightarrow> u16 res" where
  "crc16 data sz = (case data of None \<Rightarrow> Inr 0 | Some bs \<Rightarrow> crc_loop bs sz init_val)"

section \<open>Lemmas\<close>

lemma crc_loop_foldl: "n \<le> length bs \<Longrightarrow> crc_loop bs n x = Inr (foldl crc_byte x (take n bs))"
  by (induction bs n x rule: crc_loop.induct) auto

lemma crc16_foldl: "n \<le> length bs \<Longrightarrow> crc16 (Some bs) n = Inr (foldl crc_byte 0 (take n bs))"
  by (simp add: crc16_def crc_loop_foldl init_val_def)

text \<open>The shift register loses no information: its low bit is the bit that was shifted out.\<close>

lemma top_bit: "x AND 0x8000 \<noteq> 0 \<longleftrightarrow> bit (x :: u16) 15"
  using and_exp_eq_0_iff_not_bit [of x 15] by simp

lemma bit_double: "bit (x * 2 :: u16) n \<longleftrightarrow> 0 < n \<and> n < 16 \<and> bit x (n - 1)"
proof -
  have "x * 2 = push_bit 1 x" by simp
  then show ?thesis by (simp only: bit_push_bit_iff) auto
qed

lemma bit_crc_shift:
  "n < 16 \<Longrightarrow> bit (crc_shift x) n \<longleftrightarrow> ((0 < n \<and> bit x (n - 1)) \<noteq> (bit x 15 \<and> bit crc_poly n))"
  by (auto simp: crc_shift_def top_bit bit_double bit_xor_iff)

lemma bit_poly_0: "bit crc_poly 0"
  by (simp add: crc_poly_def)

lemma crc_shift_inj: "inj crc_shift"
proof (rule injI)
  fix x y assume eq: "crc_shift x = crc_shift y"
  have top: "bit x 15 = bit y 15"
    using bit_crc_shift [of 0 x] bit_crc_shift [of 0 y] eq bit_poly_0 by simp
  show "x = y"
  proof (rule bit_word_eqI)
    fix n assume "n < LENGTH(16)"
    then have n: "n < 16" by simp
    show "bit x n = bit y n"
    proof (cases "n = 15")
      case True
      then show ?thesis using top by simp
    next
      case False
      then have "Suc n < 16" using n by simp
      then show ?thesis
        using bit_crc_shift [of "Suc n" x] bit_crc_shift [of "Suc n" y] eq top by auto
    qed
  qed
qed

lemma crc_bits_inj: "crc_bits n x = crc_bits n y \<Longrightarrow> x = y"
  by (induction n arbitrary: x y) (auto dest: injD [OF crc_shift_inj])

lemma xor_cancel_right: "x XOR c = y XOR c \<Longrightarrow> x = (y :: u16)"
  by (auto simp: bit_eq_iff bit_simps)

lemma xor_cancel_left: "c XOR x = c XOR y \<Longrightarrow> x = (y :: u16)"
  by (auto simp: bit_eq_iff bit_simps)

lemma crc_byte_inj_state: "crc_byte x b = crc_byte y b \<Longrightarrow> x = y"
  unfolding crc_byte_def by (drule crc_bits_inj) (rule xor_cancel_right)

lemma crc_byte_inj_byte:
  assumes "crc_byte x a = crc_byte x b"
  shows "a = b"
proof -
  have "push_bit 8 (ucast a) = (push_bit 8 (ucast b) :: u16)"
    using assms unfolding crc_byte_def by (blast dest: crc_bits_inj xor_cancel_left)
  then have eq: "bit (push_bit 8 (ucast a) :: u16) (8 + n) = bit (push_bit 8 (ucast b) :: u16) (8 + n)" for n
    by simp
  show ?thesis
  proof (rule bit_word_eqI)
    fix n assume "n < LENGTH(8)"
    then show "bit a n = bit b n"
      using eq [of n] by (simp add: bit_push_bit_iff bit_unsigned_iff)
  qed
qed

lemma foldl_crc_inj: "foldl crc_byte x bs = foldl crc_byte y bs \<Longrightarrow> x = y"
  by (induction bs arbitrary: x y) (auto dest: crc_byte_inj_state)

section \<open>Properties\<close>

text \<open>
  C24. A change of any one byte of the data changes the checksum, whatever the length.
\<close>

theorem crc16_detects_byte_error:
  assumes "i < n" and "n \<le> length data" and "b \<noteq> data ! i"
  shows "\<exists>x y. crc16 (Some data) n = Inr x \<and> crc16 (Some (data[i := b])) n = Inr y \<and> x \<noteq> y"
proof -
  let ?pre = "take i data" and ?post = "drop (Suc i) (take n data)"
  have 1: "take n data = ?pre @ data ! i # ?post"
    using assms id_take_nth_drop [of i "take n data"] by (simp add: min_def)
  have 2: "take n (data[i := b]) = ?pre @ b # ?post"
    using assms upd_conv_take_nth_drop [of i "take n data" b] by (simp add: take_update_swap min_def)
  have "foldl crc_byte 0 (?pre @ data ! i # ?post) \<noteq> foldl crc_byte 0 (?pre @ b # ?post)"
    using assms(3) by (auto dest!: foldl_crc_inj crc_byte_inj_byte)
  then show ?thesis
    using assms crc16_foldl [of n data] crc16_foldl [of n "data[i := b]"] 1 2 by auto
qed

theorem crc16_detects_byte_error_witness:
  "\<exists>x y. crc16 (Some [1, 2, 3]) 3 = Inr x \<and> crc16 (Some [1, 9, 3]) 3 = Inr y \<and> x \<noteq> y"
  using crc16_detects_byte_error [of 1 3 "[1, 2, 3]" 9] by simp

end
