(* ===== verification/Tx_Ack.thy ===== *)
theory Tx_Ack
  imports Jit_Queue
begin

unbundle bit_operations_syntax

text \<open>
  \<open>send_tx_ack\<close> of \<open>lora_pkt_fwd.c\<close>: the TX_ACK datagram that answers a PULL_RESP, and the downstream
  counters. \<open>net_mac_h\<close> and \<open>net_mac_l\<close> hold the gateway's 64-bit address in network order, so the
  four bytes a \<open>uint32_t\<close> store puts in the buffer are the big-endian ones. The datagram is handed
  to \<open>send\<close>, which is \<open>mem_send\<close> in \<open>lora_comms.cc\<close>: the model returns it.
\<close>

section \<open>Protocol\<close>

definition PROTOCOL_VERSION :: u8 where "PROTOCOL_VERSION = 2"
definition PKT_PUSH_DATA :: u8 where "PKT_PUSH_DATA = 0"
definition PKT_PUSH_ACK :: u8 where "PKT_PUSH_ACK = 1"
definition PKT_PULL_DATA :: u8 where "PKT_PULL_DATA = 2"
definition PKT_PULL_RESP :: u8 where "PKT_PULL_RESP = 3"
definition PKT_PULL_ACK :: u8 where "PKT_PULL_ACK = 4"
definition PKT_TX_ACK :: u8 where "PKT_TX_ACK = 5"

lemmas protocol_consts = PROTOCOL_VERSION_def PKT_PUSH_DATA_def PKT_PUSH_ACK_def PKT_PULL_DATA_def
  PKT_PULL_RESP_def PKT_PULL_ACK_def PKT_TX_ACK_def

definition be32 :: "u32 \<Rightarrow> bytes" where
  "be32 w = [ucast (drop_bit 24 w), ucast (drop_bit 16 w), ucast (drop_bit 8 w), ucast w]"

text \<open>\<open>htonl((uint32_t)(0xFFFFFFFF & (lgwm >> 32)))\<close> and \<open>htonl((uint32_t)(0xFFFFFFFF & lgwm))\<close> as stored.\<close>

definition net_mac_h :: "u64 \<Rightarrow> bytes" where
  "net_mac_h lgwm = be32 (ucast (0xFFFFFFFF AND drop_bit 32 lgwm))"

definition net_mac_l :: "u64 \<Rightarrow> bytes" where
  "net_mac_l lgwm = be32 (ucast (0xFFFFFFFF AND lgwm))"

section \<open>Downstream counters\<close>

record meas_dw =
  meas_dw_pull_sent :: u32
  meas_dw_ack_rcv :: u32
  meas_dw_dgram_rcv :: u32
  meas_dw_network_byte :: u32
  meas_dw_payload_byte :: u32
  meas_nb_tx_ok :: u32
  meas_nb_tx_fail :: u32
  meas_nb_tx_requested :: u32
  meas_nb_tx_rejected_collision_packet :: u32
  meas_nb_tx_rejected_collision_beacon :: u32
  meas_nb_tx_rejected_too_late :: u32
  meas_nb_tx_rejected_too_early :: u32
  meas_nb_beacon_queued :: u32
  meas_nb_beacon_sent :: u32
  meas_nb_beacon_rejected :: u32

definition meas_dw_zero :: meas_dw where
  "meas_dw_zero = \<lparr>meas_dw_pull_sent = 0, meas_dw_ack_rcv = 0, meas_dw_dgram_rcv = 0,
     meas_dw_network_byte = 0, meas_dw_payload_byte = 0, meas_nb_tx_ok = 0, meas_nb_tx_fail = 0,
     meas_nb_tx_requested = 0, meas_nb_tx_rejected_collision_packet = 0,
     meas_nb_tx_rejected_collision_beacon = 0, meas_nb_tx_rejected_too_late = 0,
     meas_nb_tx_rejected_too_early = 0, meas_nb_beacon_queued = 0, meas_nb_beacon_sent = 0,
     meas_nb_beacon_rejected = 0\<rparr>"

section \<open>The datagram\<close>

definition ack_error_name :: "jit_error \<Rightarrow> string" where
  "ack_error_name error =
     (case error of
        JIT_ERROR_FULL \<Rightarrow> ''\"COLLISION_PACKET\"''
      | JIT_ERROR_COLLISION_PACKET \<Rightarrow> ''\"COLLISION_PACKET\"''
      | JIT_ERROR_TOO_LATE \<Rightarrow> ''\"TOO_LATE\"''
      | JIT_ERROR_TOO_EARLY \<Rightarrow> ''\"TOO_EARLY\"''
      | JIT_ERROR_COLLISION_BEACON \<Rightarrow> ''\"COLLISION_BEACON\"''
      | JIT_ERROR_TX_FREQ \<Rightarrow> ''\"TX_FREQ\"''
      | JIT_ERROR_TX_POWER \<Rightarrow> ''\"TX_POWER\"''
      | JIT_ERROR_GPS_UNLOCKED \<Rightarrow> ''\"GPS_UNLOCKED\"''
      | _ \<Rightarrow> ''\"UNKNOWN\"'')"

definition ack_error_stats :: "jit_error \<Rightarrow> meas_dw \<Rightarrow> meas_dw" where
  "ack_error_stats error m =
     (case error of
        JIT_ERROR_FULL \<Rightarrow>
          m\<lparr>meas_nb_tx_rejected_collision_packet := meas_nb_tx_rejected_collision_packet m + 1\<rparr>
      | JIT_ERROR_COLLISION_PACKET \<Rightarrow>
          m\<lparr>meas_nb_tx_rejected_collision_packet := meas_nb_tx_rejected_collision_packet m + 1\<rparr>
      | JIT_ERROR_TOO_LATE \<Rightarrow> m\<lparr>meas_nb_tx_rejected_too_late := meas_nb_tx_rejected_too_late m + 1\<rparr>
      | JIT_ERROR_TOO_EARLY \<Rightarrow> m\<lparr>meas_nb_tx_rejected_too_early := meas_nb_tx_rejected_too_early m + 1\<rparr>
      | JIT_ERROR_COLLISION_BEACON \<Rightarrow>
          m\<lparr>meas_nb_tx_rejected_collision_beacon := meas_nb_tx_rejected_collision_beacon m + 1\<rparr>
      | _ \<Rightarrow> m)"

definition send_tx_ack :: "u64 \<Rightarrow> u8 \<Rightarrow> u8 \<Rightarrow> jit_error \<Rightarrow> meas_dw \<Rightarrow> (bytes \<times> meas_dw) res" where
  "send_tx_ack lgwm token_h token_l error m =
     (let buff_ack = replicate 64 0 in
      bindr (st buff_ack 0 PROTOCOL_VERSION) (\<lambda>buff_ack.
      bindr (st buff_ack 1 token_h) (\<lambda>buff_ack.
      bindr (st buff_ack 2 token_l) (\<lambda>buff_ack.
      bindr (st buff_ack 3 PKT_TX_ACK) (\<lambda>buff_ack.
      bindr (memcpy buff_ack 4 (net_mac_h lgwm)) (\<lambda>buff_ack.
      bindr (memcpy buff_ack 8 (net_mac_l lgwm)) (\<lambda>buff_ack.
      bindr
        (if error \<noteq> JIT_ERROR_OK then
           bindr (put_bytes buff_ack 12 (lit ''{\"txpk_ack\":{'')) (\<lambda>(buff_ack, buff_index).
           bindr (put_bytes buff_ack buff_index (lit ''\"error\":'')) (\<lambda>(buff_ack, buff_index).
           bindr (put_bytes buff_ack buff_index (lit (ack_error_name error))) (\<lambda>(buff_ack, buff_index).
           bindr (put_bytes buff_ack buff_index (lit ''}}'')) (\<lambda>(buff_ack, buff_index).
           Inr (buff_ack, buff_index, ack_error_stats error m)))))
         else Inr (buff_ack, 12, m)) (\<lambda>(buff_ack, buff_index, m).
      bindr (st buff_ack buff_index 0) (\<lambda>buff_ack.
      Inr (take buff_index buff_ack, m))))))))))"

section \<open>Properties\<close>

definition ack_header :: "u64 \<Rightarrow> u8 \<Rightarrow> u8 \<Rightarrow> bytes" where
  "ack_header lgwm h l = [PROTOCOL_VERSION, h, l, PKT_TX_ACK] @ net_mac_h lgwm @ net_mac_l lgwm"

definition ack_json :: "jit_error \<Rightarrow> bytes" where
  "ack_json e = (if e = JIT_ERROR_OK then []
     else lit (''{\"txpk_ack\":{\"error\":'' @ ack_error_name e @ ''}}''))"

lemma length_be32 [simp]: "length (be32 w) = 4"
  by (simp add: be32_def)

lemma ack_error_name_length: "length (ack_error_name e) \<le> 18"
  by (cases e) (simp_all add: ack_error_name_def)

lemma ack_buffer: "replicate 64 (0 :: u8) = [0, 0, 0, 0, 0, 0, 0, 0, 0, 0, 0, 0] @ replicate 52 0"
  using replicate_add [of 12 52 "0 :: u8"] by (simp add: numeral_eq_Suc)

lemma ack_header_stored:
  "bindr (st (replicate 64 0) 0 PROTOCOL_VERSION) (\<lambda>b. bindr (st b 1 h) (\<lambda>b. bindr (st b 2 l) (\<lambda>b.
   bindr (st b 3 PKT_TX_ACK) (\<lambda>b. bindr (memcpy b 4 (net_mac_h lgwm)) (\<lambda>b.
   bindr (memcpy b 8 (net_mac_l lgwm)) f)))))
   = f (ack_header lgwm h l @ replicate 52 0)"
  by (simp add: ack_buffer st_def memcpy_def ack_header_def net_mac_h_def net_mac_l_def be32_def
      numeral_eq_Suc)

lemma length_ack_header: "length (ack_header lgwm h l) = 12"
  by (simp add: ack_header_def net_mac_h_def net_mac_l_def)

lemma send_tx_ack_eq:
  "send_tx_ack lgwm h l e m =
     Inr (ack_header lgwm h l @ ack_json e, if e = JIT_ERROR_OK then m else ack_error_stats e m)"
proof -
  define pre where "pre = ack_header lgwm h l"
  have pre: "length pre = 12" by (simp add: pre_def length_ack_header)
  have len: "length (ack_error_name e) \<le> 18" by (rule ack_error_name_length)
  show ?thesis
    unfolding send_tx_ack_def Let_def ack_header_stored pre_def [symmetric]
    using len
    by (cases "e = JIT_ERROR_OK")
      (simp_all add: put_bytes_ok put_bytes_ok [OF pre] st_append pre ack_json_def del: append_assoc,
       simp_all add: lit_def)
qed

text \<open>
  For every error code \<open>send_tx_ack\<close> stays inside its 64-byte buffer and sends the 12-byte header
  (version, the token of the request, TX_ACK, the gateway address) followed by nothing for OK and
  by the JSON error report otherwise; exactly the matching rejection counter is incremented.
\<close>

theorem send_tx_ack_datagram:
  "send_tx_ack lgwm h l e m =
     Inr (ack_header lgwm h l @ ack_json e, if e = JIT_ERROR_OK then m else ack_error_stats e m)
   \<and> length (ack_header lgwm h l @ ack_json e) \<le> 53"
  using ack_error_name_length [of e]
  by (simp add: send_tx_ack_eq length_ack_header ack_json_def)

end
