(* ===== verification/Json.thy ===== *)
theory Json
  imports Doubles
begin

unbundle bit_operations_syntax

text \<open>
  \<open>lora_pkt_fwd/src/parson.c\<close>: the JSON library that reads the configuration files and the PULL_RESP
  datagrams. A JSON value is a tree; an object keeps its members in insertion order. A C string is
  the list of its bytes up to the terminating NUL, and the cursor \<open>const char **string\<close> is the rest
  of that list, so \<open>**string\<close> of the empty rest is NUL. \<open>malloc\<close> is taken to succeed; what the
  library frees is left to the tree. \<open>isspace\<close> and \<open>strtod\<close> are those of the C locale.
\<close>

section \<open>Values\<close>

datatype json_value =
  JSONNull
| JSONString bytes
| JSONNumber dbl
| JSONObject "(bytes \<times> json_value) list"
| JSONArray "json_value list"
| JSONBoolean bool

type_synonym json_object = "(bytes \<times> json_value) list"

definition OBJECT_MAX_CAPACITY :: nat where "OBJECT_MAX_CAPACITY = 960"
definition ARRAY_MAX_CAPACITY :: nat where "ARRAY_MAX_CAPACITY = 122880"
definition MAX_NESTING :: nat where "MAX_NESTING = 19"

section \<open>Access\<close>

definition json_value_get_object :: "json_value option \<Rightarrow> json_object option" where
  "json_value_get_object v = (case v of Some (JSONObject ms) \<Rightarrow> Some ms | _ \<Rightarrow> None)"

definition json_value_get_array :: "json_value option \<Rightarrow> json_value list option" where
  "json_value_get_array v = (case v of Some (JSONArray vs) \<Rightarrow> Some vs | _ \<Rightarrow> None)"

definition json_value_get_string :: "json_value option \<Rightarrow> bytes option" where
  "json_value_get_string v = (case v of Some (JSONString s) \<Rightarrow> Some s | _ \<Rightarrow> None)"

definition json_value_get_number :: "json_value option \<Rightarrow> dbl" where
  "json_value_get_number v = (case v of Some (JSONNumber d) \<Rightarrow> d | _ \<Rightarrow> Fin 0)"

definition json_value_get_boolean :: "json_value option \<Rightarrow> int" where
  "json_value_get_boolean v = (case v of Some (JSONBoolean b) \<Rightarrow> (if b then 1 else 0) | _ \<Rightarrow> -1)"

text \<open>The loop compares length and bytes of each name; the first match counts.\<close>

fun json_object_nget_value :: "json_object \<Rightarrow> bytes \<Rightarrow> json_value option" where
  "json_object_nget_value [] name = None"
| "json_object_nget_value ((n, v) # ms) name =
     (if length n \<noteq> length name then json_object_nget_value ms name
      else if n = name then Some v
      else json_object_nget_value ms name)"

definition json_object_get_value :: "json_object option \<Rightarrow> bytes \<Rightarrow> json_value option" where
  "json_object_get_value obj name =
     (case obj of None \<Rightarrow> None | Some ms \<Rightarrow> json_object_nget_value ms name)"

definition json_object_get_string :: "json_object option \<Rightarrow> bytes \<Rightarrow> bytes option" where
  "json_object_get_string obj name = json_value_get_string (json_object_get_value obj name)"

definition json_object_get_number :: "json_object option \<Rightarrow> bytes \<Rightarrow> dbl" where
  "json_object_get_number obj name = json_value_get_number (json_object_get_value obj name)"

definition json_object_get_object :: "json_object option \<Rightarrow> bytes \<Rightarrow> json_object option" where
  "json_object_get_object obj name = json_value_get_object (json_object_get_value obj name)"

definition json_object_get_array :: "json_object option \<Rightarrow> bytes \<Rightarrow> json_value list option" where
  "json_object_get_array obj name = json_value_get_array (json_object_get_value obj name)"

definition json_object_get_boolean :: "json_object option \<Rightarrow> bytes \<Rightarrow> int" where
  "json_object_get_boolean obj name = json_value_get_boolean (json_object_get_value obj name)"

text \<open>The part before the first dot and, if there is a dot, the part behind it.\<close>

fun split_dot :: "bytes \<Rightarrow> bytes \<times> bytes option" where
  "split_dot [] = ([], None)"
| "split_dot (c # cs) =
     (if c = of_char CHR ''.'' then ([], Some cs) else (let (a, b) = split_dot cs in (c # a, b)))"

lemma split_dot_shorter: "split_dot s = (a, Some b) \<Longrightarrow> length b < length s"
  by (induction s arbitrary: a) (auto split: if_splits prod.splits)

text \<open>
  \<open>strchr\<close> is applied before the NULL test of the object, and a NULL object still walks the rest of
  the name.
\<close>

function json_object_dotget_value :: "json_object option \<Rightarrow> bytes \<Rightarrow> json_value option" where
  "json_object_dotget_value obj name =
     (case split_dot name of
        (n, None) \<Rightarrow> json_object_get_value obj n
      | (n, Some rest) \<Rightarrow>
          json_object_dotget_value
            (json_value_get_object (case obj of None \<Rightarrow> None | Some ms \<Rightarrow> json_object_nget_value ms n)) rest)"
  by pat_completeness auto
termination
  by (relation "measure (\<lambda>(obj, name). length name)") (auto dest: split_dot_shorter [OF sym])

declare json_object_dotget_value.simps [simp del]

definition json_object_dotget_string :: "json_object option \<Rightarrow> bytes \<Rightarrow> bytes option" where
  "json_object_dotget_string obj name = json_value_get_string (json_object_dotget_value obj name)"

definition json_object_dotget_number :: "json_object option \<Rightarrow> bytes \<Rightarrow> dbl" where
  "json_object_dotget_number obj name = json_value_get_number (json_object_dotget_value obj name)"

definition json_object_get_count :: "json_object option \<Rightarrow> nat" where
  "json_object_get_count obj = (case obj of None \<Rightarrow> 0 | Some ms \<Rightarrow> length ms)"

definition json_array_get_count :: "json_value list option \<Rightarrow> nat" where
  "json_array_get_count a = (case a of None \<Rightarrow> 0 | Some vs \<Rightarrow> length vs)"

definition json_array_get_value :: "json_value list option \<Rightarrow> nat \<Rightarrow> json_value option" where
  "json_array_get_value a i =
     (if json_array_get_count a \<le> i then None else case a of None \<Rightarrow> None | Some vs \<Rightarrow> Some (vs ! i))"

section \<open>Construction\<close>

text \<open>
  An object and an array carry a capacity beside their members: a new one has capacity 0, and a full
  one is resized to twice its capacity, at least 15, unless that exceeds the maximum. The value tree
  holds the members only, so the operations that add a member take the capacity and return the new
  one. The resize itself keeps the members. The capacity matters: a parsed object is trimmed to
  exactly its members (\<open>parson.c\<close>, lines 619-620 and 657-658), so one with more than 480 members takes
  no further member, although 960 are allowed.
\<close>

definition STARTING_CAPACITY :: nat where "STARTING_CAPACITY = 15"

definition grown_capacity :: "nat \<Rightarrow> nat \<Rightarrow> nat \<Rightarrow> nat option" where
  "grown_capacity limit capacity count =
     (if capacity \<le> count then
        (let new_capacity = max (capacity * 2) STARTING_CAPACITY in
         if limit < new_capacity then None else Some new_capacity)
      else Some capacity)"

definition json_object_add ::
    "nat \<Rightarrow> json_object \<Rightarrow> bytes \<Rightarrow> json_value \<Rightarrow> (nat \<times> json_object) option" where
  "json_object_add capacity ms name v =
     (case grown_capacity OBJECT_MAX_CAPACITY capacity (length ms) of
        None \<Rightarrow> None
      | Some capacity \<Rightarrow>
          if json_object_get_value (Some ms) name \<noteq> None then None
          else Some (capacity, ms @ [(name, v)]))"

definition json_array_add :: "nat \<Rightarrow> json_value list \<Rightarrow> json_value \<Rightarrow> (nat \<times> json_value list) option" where
  "json_array_add capacity vs v =
     (case grown_capacity ARRAY_MAX_CAPACITY capacity (length vs) of
        None \<Rightarrow> None
      | Some capacity \<Rightarrow> Some (capacity, vs @ [v]))"

text \<open>A capacity that has grown has room, and stays within the limit.\<close>

lemma grown_capacityD:
  assumes "grown_capacity limit capacity n = Some c" and "n \<le> capacity" and "capacity \<le> limit"
  shows "n < c" and "c \<le> limit"
  using assms by (auto simp: grown_capacity_def Let_def STARTING_CAPACITY_def split: if_splits)

text \<open>
  The capacities of an object or array built from empty: 0 and 15 doubled, up to the limit. Then the
  limit itself, which is 15 doubled some number of times, is the only obstacle.
\<close>

definition grows_to :: "nat \<Rightarrow> nat \<Rightarrow> bool" where
  "grows_to limit capacity \<longleftrightarrow> capacity = 0 \<or> 15 \<le> capacity \<and> (\<exists>k. limit = capacity * 2 ^ k)"

lemma grows_to_0 [simp]: "grows_to limit 0"
  by (simp add: grows_to_def)

lemma grows_to_le: "grows_to limit capacity \<Longrightarrow> capacity \<le> limit"
  by (auto simp: grows_to_def)

lemma grows_to_step:
  assumes "grows_to limit capacity" and "n \<le> capacity" and "n < limit" and "\<exists>k. limit = 15 * 2 ^ k"
  obtains c where "grown_capacity limit capacity n = Some c" and "grows_to limit c" and "n < c"
proof (cases "capacity \<le> n")
  case False
  with assms(1) show ?thesis by (intro that [of capacity]) (auto simp: grown_capacity_def)
next
  case True
  show ?thesis
  proof (cases "capacity = 0")
    case True
    with assms show ?thesis
      by (intro that [of 15]) (auto simp: grown_capacity_def Let_def STARTING_CAPACITY_def grows_to_def)
  next
    case False
    with assms(1) obtain k where k: "limit = capacity * 2 ^ k" "15 \<le> capacity" by (auto simp: grows_to_def)
    from k(1) True assms(2,3) have "k \<noteq> 0" by (cases k) auto
    then obtain j where "k = Suc j" by (cases k) auto
    with k True assms(2) show ?thesis
      by (intro that [of "capacity * 2"])
        (auto simp: grown_capacity_def Let_def STARTING_CAPACITY_def grows_to_def)
  qed
qed

lemma grows_object: "\<exists>k. OBJECT_MAX_CAPACITY = 15 * 2 ^ k"
  by (rule exI [of _ 6]) (simp add: OBJECT_MAX_CAPACITY_def)

lemma grows_array: "\<exists>k. ARRAY_MAX_CAPACITY = 15 * 2 ^ k"
  by (rule exI [of _ 13]) (simp add: ARRAY_MAX_CAPACITY_def)

end
