(* ===== verification/Json_Parse.thy ===== *)
theory Json_Parse
  imports Json
begin

unbundle bit_operations_syntax

text \<open>
  The parser of \<open>parson.c\<close>: comments, strings with their escapes, numbers and the recursive descent.
  The three mutually recursive functions of the descent take fuel; \<open>Json_Correct\<close> shows that twice the length of the text plus one
  is enough.
\<close>

section \<open>The cursor\<close>

definition asc :: "char \<Rightarrow> u8" where "asc c = of_char c"

text \<open>For evaluation: the codes as numerals.\<close>

lemma asc_numerals [code_unfold]:
  "asc CHR ''('' = 40" "asc CHR '')'' = 41" "asc CHR ''+'' = 43" "asc CHR '','' = 44"
  "asc CHR ''-'' = 45" "asc CHR ''.'' = 46" "asc CHR ''/'' = 47" "asc CHR ''0'' = 48"
  "asc CHR '':'' = 58" "asc CHR ''X'' = 88" "asc CHR ''b'' = 98" "asc CHR ''e'' = 101"
  "asc CHR ''f'' = 102" "asc CHR ''n'' = 110" "asc CHR ''r'' = 114" "asc CHR ''t'' = 116"
  "asc CHR ''u'' = 117" "asc CHR ''x'' = 120" "asc CHR 0x22 = 34" "asc CHR 0x5B = 91"
  "asc CHR 0x5C = 92" "asc CHR 0x5D = 93" "asc CHR 0x7B = 123" "asc CHR 0x7D = 125"
  by (simp_all add: asc_def)

definition cur :: "bytes \<Rightarrow> u8" where  \<comment> \<open>\<open>**string\<close>\<close>
  "cur s = (case s of [] \<Rightarrow> 0 | c # _ \<Rightarrow> c)"

definition char_at :: "bytes \<Rightarrow> nat \<Rightarrow> u8" where  \<comment> \<open>\<open>string[i]\<close> up to and including the NUL\<close>
  "char_at s i = cur (drop i s)"

definition isspace :: "u8 \<Rightarrow> bool" where
  "isspace c \<longleftrightarrow> c = 32 \<or> 9 \<le> c \<and> c \<le> 13"

definition isdigit :: "u8 \<Rightarrow> bool" where
  "isdigit c \<longleftrightarrow> 48 \<le> c \<and> c \<le> 57"

definition isxdigit :: "u8 \<Rightarrow> bool" where
  "isxdigit c \<longleftrightarrow> isdigit c \<or> 65 \<le> c \<and> c \<le> 70 \<or> 97 \<le> c \<and> c \<le> 102"

definition skip_whitespaces :: "bytes \<Rightarrow> bytes" where
  "skip_whitespaces s = dropWhile isspace s"

section \<open>Comments\<close>

definition is_prefix :: "bytes \<Rightarrow> bytes \<Rightarrow> bool" where  \<comment> \<open>\<open>strncmp (string, token, len) == 0\<close>\<close>
  "is_prefix token s \<longleftrightarrow> take (length token) s = token"

fun strstr :: "bytes \<Rightarrow> bytes \<Rightarrow> nat option" where
  "strstr [] tok = (if tok = [] then Some 0 else None)"
| "strstr (c # s) tok =
     (if is_prefix tok (c # s) then Some 0 else map_option Suc (strstr s tok))"

text \<open>
  \<open>remove_comments\<close> with its flags \<open>in_string\<close> and \<open>escaped\<close>. A comment is overwritten with blanks; the
  end token is searched for behind the start token, and without one only the start token is
  overwritten and the rest stays as it is. The cursor then stands on the last blank, so \<open>escaped\<close> is
  cleared and the scan goes on behind it.
\<close>

lemma strstr_bound: "strstr s tok = Some p \<Longrightarrow> p + length tok \<le> length s"
  by (induction s arbitrary: p)
    (auto simp: is_prefix_def split: if_splits dest!: arg_cong [where f = length])

function remove_comments_from :: "bytes \<Rightarrow> bytes \<Rightarrow> bool \<Rightarrow> bool \<Rightarrow> bytes \<Rightarrow> bytes" where
  "remove_comments_from st_tok end_tok in_string escaped [] = []"
| "remove_comments_from st_tok end_tok in_string escaped (c # s) =
     (if c = asc CHR 0x5C \<and> \<not> escaped then
        c # remove_comments_from st_tok end_tok in_string True s
      else if c = asc CHR 0x22 \<and> \<not> escaped then
        c # remove_comments_from st_tok end_tok (\<not> in_string) False s
      else if \<not> in_string \<and> st_tok \<noteq> [] \<and> is_prefix st_tok (c # s) then
        (let rest = drop (length st_tok) (c # s) in
         case strstr rest end_tok of
           None \<Rightarrow> replicate (length st_tok) 32 @ rest
         | Some p \<Rightarrow>
             replicate (length st_tok + p + length end_tok) 32 @
             remove_comments_from st_tok end_tok in_string False (drop (p + length end_tok) rest))
      else c # remove_comments_from st_tok end_tok in_string False s)"
  by pat_completeness auto
termination
  by (relation "measure (\<lambda>(a, b, i, e, s). length s)") (auto simp: Suc_le_eq neq_Nil_conv)

definition remove_comments :: "bytes \<Rightarrow> string \<Rightarrow> string \<Rightarrow> bytes" where
  "remove_comments s start_token end_token =
     (if start_token = [] \<or> end_token = [] then s
      else remove_comments_from (lit start_token) (lit end_token) False False s)"

section \<open>Strings\<close>

fun skip_to_quote :: "bytes \<Rightarrow> bytes" where
  "skip_to_quote [] = []"
| "skip_to_quote (c # s) =
     (if c = asc CHR 0x22 then s
      else if c = asc CHR 0x5C then (case s of [] \<Rightarrow> [] | d # s' \<Rightarrow> skip_to_quote s')
      else skip_to_quote s)"

definition skip_quotes :: "bytes \<Rightarrow> bytes" where
  "skip_quotes s = skip_to_quote (tl s)"

definition is_utf16_hex :: "bytes \<Rightarrow> bool" where
  "is_utf16_hex s \<longleftrightarrow> isxdigit (char_at s 0) \<and> isxdigit (char_at s 1) \<and> isxdigit (char_at s 2) \<and> isxdigit (char_at s 3)"

definition hex_digit :: "u8 \<Rightarrow> u32" where
  "hex_digit c = (if isdigit c then ucast c - 48 else if c \<le> 70 then ucast c - 55 else ucast c - 87)"

text \<open>\<open>sscanf (s, "%4x", &cp)\<close> on four hexadecimal digits.\<close>

definition scan_4x :: "bytes \<Rightarrow> u32" where
  "scan_4x s = ((hex_digit (char_at s 0) * 16 + hex_digit (char_at s 1)) * 16 + hex_digit (char_at s 2)) * 16
                 + hex_digit (char_at s 3)"

text \<open>
  \<open>parse_utf_16\<close> from the \<open>u\<close> of an escape: the UTF-8 bytes written and how many characters the caller's
  increment leaves behind.
\<close>

definition parse_utf_16 :: "bytes \<Rightarrow> (bytes \<times> nat) option" where
  "parse_utf_16 unprocessed =
     (let s = tl unprocessed in
      if \<not> is_utf16_hex s then None
      else
        let cp = scan_4x s in
        if cp < 0x80 then Some ([ucast cp], 5)
        else if cp < 0x800 then
          Some ([ucast ((drop_bit 6 cp AND 0x1F) OR 0xC0), ucast ((cp AND 0x3F) OR 0x80)], 5)
        else if cp < 0xD800 \<or> 0xDFFF < cp then
          Some ([ucast ((drop_bit 12 cp AND 0x0F) OR 0xE0), ucast ((drop_bit 6 cp AND 0x3F) OR 0x80),
                 ucast ((cp AND 0x3F) OR 0x80)], 5)
        else if 0xD800 \<le> cp \<and> cp \<le> 0xDBFF then
          let lead = cp; s = drop 4 s in
          if cur s \<noteq> asc CHR 0x5C \<or> char_at s 1 \<noteq> asc CHR ''u'' \<or> \<not> is_utf16_hex (drop 2 s)
          then None
          else
            let trail = scan_4x (drop 2 s) in
            if trail < 0xDC00 \<or> 0xDFFF < trail then None
            else
              let cp = (push_bit 10 ((lead - 0xD800) AND 0x3FF) OR ((trail - 0xDC00) AND 0x3FF)) + 0x10000 in
              Some ([ucast ((drop_bit 18 cp AND 0x07) OR 0xF0), ucast ((drop_bit 12 cp AND 0x3F) OR 0x80),
                     ucast ((drop_bit 6 cp AND 0x3F) OR 0x80), ucast ((cp AND 0x3F) OR 0x80)], 11)
        else None)"

definition simple_escape :: "u8 \<Rightarrow> u8 option" where
  "simple_escape c =
     (if c = asc CHR 0x22 then Some (asc CHR 0x22)
      else if c = asc CHR 0x5C then Some (asc CHR 0x5C)
      else if c = asc CHR ''/'' then Some (asc CHR ''/'')
      else if c = asc CHR ''b'' then Some 8
      else if c = asc CHR ''f'' then Some 12
      else if c = asc CHR ''n'' then Some 10
      else if c = asc CHR ''r'' then Some 13
      else if c = asc CHR ''t'' then Some 9
      else None)"

text \<open>\<open>left\<close> is \<open>len - (input_ptr - input)\<close>; the result is what has been written to the output.\<close>

function process_chars :: "bytes \<Rightarrow> nat \<Rightarrow> bytes option" where
  "process_chars input left =
     (if input = [] \<or> left = 0 then Some []
      else if cur input = asc CHR 0x5C then
        (case simple_escape (char_at input 1) of
           Some c \<Rightarrow> map_option (\<lambda>out. c # out) (process_chars (drop 2 input) (left - 2))
         | None \<Rightarrow>
             if char_at input 1 = asc CHR ''u'' then
               (case parse_utf_16 (tl input) of
                  None \<Rightarrow> None
                | Some (bs, n) \<Rightarrow>
                    map_option (\<lambda>out. bs @ out) (process_chars (drop (Suc n) input) (left - Suc n)))
             else None)
      else if cur input < 0x20 then None
      else map_option (\<lambda>out. cur input # out) (process_chars (tl input) (left - 1)))"
  by pat_completeness auto
termination
  by (relation "measure (\<lambda>(input, left). length input)") auto

declare process_chars.simps [simp del]

text \<open>The users of the result see a C string: it ends at the first NUL.\<close>

definition process_string :: "bytes \<Rightarrow> nat \<Rightarrow> bytes option" where
  "process_string input len = map_option (takeWhile (\<lambda>c. c \<noteq> 0)) (process_chars input len)"

definition get_quoted_string :: "bytes \<Rightarrow> bytes option \<times> bytes" where
  "get_quoted_string s =
     (let s' = skip_quotes s in
      if s' = [] then (None, s')
      else (process_string (tl s) (length s - length s' - 2), s'))"

section \<open>Numbers\<close>

text \<open>
  \<open>strtod\<close> on a text that starts with a digit or a minus sign: the value and the number of characters
  converted. The value of a hexadecimal number is left as \<open>NaN\<close>: \<open>is_decimal\<close> rejects every text with
  an \<open>x\<close>, so it is never used.
\<close>

definition digit_value :: "bytes \<Rightarrow> int" where
  "digit_value ds = foldl (\<lambda>n d. n * 10 + uint (d - 48)) 0 ds"

definition lower :: "u8 \<Rightarrow> u8" where
  "lower c = (if 65 \<le> c \<and> c \<le> 90 then c + 32 else c)"

definition is_prefix_nocase :: "bytes \<Rightarrow> bytes \<Rightarrow> bool" where
  "is_prefix_nocase token s \<longleftrightarrow> map lower (take (length token) s) = token"

definition is_nan_char :: "u8 \<Rightarrow> bool" where
  "is_nan_char c \<longleftrightarrow> isdigit c \<or> 65 \<le> c \<and> c \<le> 90 \<or> 97 \<le> c \<and> c \<le> 122 \<or> c = 95"

definition scan_exponent :: "bytes \<Rightarrow> int \<times> nat" where
  "scan_exponent s =
     (if lower (cur s) = asc CHR ''e'' then
        (let sg = cur (tl s); signed = (sg = asc CHR ''-'' \<or> sg = asc CHR ''+'');
             ds = takeWhile isdigit (if signed then drop 2 s else tl s) in
         if ds = [] then (0, 0)
         else (if sg = asc CHR ''-'' then - digit_value ds else digit_value ds,
               1 + (if signed then 1 else 0) + length ds))
      else (0, 0))"

definition strtod_unsigned :: "bytes \<Rightarrow> dbl \<times> nat" where
  "strtod_unsigned s =
     (if is_prefix_nocase (lit ''infinity'') s then (Infinity False, 8)
      else if is_prefix_nocase (lit ''inf'') s then (Infinity False, 3)
      else if is_prefix_nocase (lit ''nan'') s then
        (NaN, let cs = takeWhile is_nan_char (drop 4 s) in
              if char_at s 3 = asc CHR ''('' \<and> char_at s (4 + length cs) = asc CHR '')'' then 5 + length cs else 3)
      else if is_prefix_nocase (lit ''0x'') s \<and>
              (isxdigit (char_at s 2) \<or> char_at s 2 = asc CHR ''.'' \<and> isxdigit (char_at s 3)) then
        (NaN, 2 + length (takeWhile isxdigit (drop 2 s)))
      else
        (let ds = takeWhile isdigit s; s1 = drop (length ds) s;
             dot = (cur s1 = asc CHR ''.'');
             fs = (if dot then takeWhile isdigit (tl s1) else []) in
         if ds = [] \<and> fs = [] then (Fin 0, 0)
         else
           (let n = length ds + (if dot then 1 else 0) + length fs;
                (ex, en) = scan_exponent (drop n s) in
            (round_dbl (of_int (digit_value (ds @ fs)) * 10 powi (ex - int (length fs))), n + en))))"

definition strtod :: "bytes \<Rightarrow> dbl \<times> nat" where
  "strtod s =
     (if cur s = asc CHR ''-'' then
        (let (d, n) = strtod_unsigned (tl s) in if n = 0 then (Fin 0, 0) else (dbl_neg d, Suc n))
      else strtod_unsigned s)"

definition is_decimal :: "bytes \<Rightarrow> nat \<Rightarrow> bool" where
  "is_decimal s len \<longleftrightarrow>
     \<not> (1 < len \<and> char_at s 0 = asc CHR ''0'' \<and> char_at s 1 \<noteq> asc CHR ''.'') \<and>
     \<not> (2 < len \<and> is_prefix (lit ''-0'') s \<and> char_at s 2 \<noteq> asc CHR ''.'') \<and>
     (\<forall>c \<in> set (take len s). c \<noteq> asc CHR ''x'' \<and> c \<noteq> asc CHR ''X'')"

definition parse_number_value :: "bytes \<Rightarrow> (json_value \<times> bytes) option" where
  "parse_number_value s =
     (let (number, n) = strtod s in
      if is_decimal s n then Some (JSONNumber number, drop n s) else None)"

section \<open>The descent\<close>

definition parse_boolean_value :: "bytes \<Rightarrow> (json_value \<times> bytes) option" where
  "parse_boolean_value s =
     (if is_prefix (lit ''true'') s then Some (JSONBoolean True, drop 4 s)
      else if is_prefix (lit ''false'') s then Some (JSONBoolean False, drop 5 s)
      else None)"

definition parse_null_value :: "bytes \<Rightarrow> (json_value \<times> bytes) option" where
  "parse_null_value s = (if is_prefix (lit ''null'') s then Some (JSONNull, drop 4 s) else None)"

definition parse_string_value :: "bytes \<Rightarrow> (json_value \<times> bytes) option" where
  "parse_string_value s =
     (case get_quoted_string s of (None, _) \<Rightarrow> None | (Some str, s') \<Rightarrow> Some (JSONString str, s'))"

text \<open>
  Outer \<open>None\<close>: out of fuel. Inner \<open>None\<close>: the NULL of a syntax error. \<open>parse_members\<close> and \<open>parse_items\<close>
  are the \<open>while\<close> loops of \<open>parse_object_value\<close> and \<open>parse_array_value\<close> and what follows them;
  \<open>cap\<close> is the capacity of the object or array being filled, which starts at 0. At the closing bracket
  the capacity is trimmed to the number of members; the tree does not record it, see \<open>json_object_add\<close>.
  The key is read by \<open>get_quoted_string\<close> without a test that it starts with a quote.
\<close>

fun parse_value :: "nat \<Rightarrow> bytes \<Rightarrow> nat \<Rightarrow> (json_value \<times> bytes) option option"
  and parse_members :: "nat \<Rightarrow> nat \<Rightarrow> json_object \<Rightarrow> bytes \<Rightarrow> nat \<Rightarrow> (json_value \<times> bytes) option option"
  and parse_items :: "nat \<Rightarrow> nat \<Rightarrow> json_value list \<Rightarrow> bytes \<Rightarrow> nat \<Rightarrow> (json_value \<times> bytes) option option" where
  "parse_value 0 s nesting = None"
| "parse_value (Suc fuel) s nesting =
     (if MAX_NESTING < nesting then Some None
      else
        let s = skip_whitespaces s; c = cur s in
        if c = asc CHR 0x7B then
          (let s = skip_whitespaces (tl s) in
           if cur s = asc CHR 0x7D then Some (Some (JSONObject [], tl s))
           else parse_members fuel 0 [] s (nesting + 1))
        else if c = asc CHR 0x5B then
          (let s = skip_whitespaces (tl s) in
           if cur s = asc CHR 0x5D then Some (Some (JSONArray [], tl s))
           else parse_items fuel 0 [] s (nesting + 1))
        else if c = asc CHR 0x22 then Some (parse_string_value s)
        else if c = asc CHR ''f'' \<or> c = asc CHR ''t'' then Some (parse_boolean_value s)
        else if c = asc CHR ''-'' \<or> isdigit c then Some (parse_number_value s)
        else if c = asc CHR ''n'' then Some (parse_null_value s)
        else Some None)"
| "parse_members 0 cap obj s nesting = None"
| "parse_members (Suc fuel) cap obj s nesting =
     (if s = [] then Some None
      else
        let (key, s) = get_quoted_string s; s = skip_whitespaces s in
        case key of
          None \<Rightarrow> Some None
        | Some k \<Rightarrow>
            if cur s \<noteq> asc CHR '':'' then Some None
            else
              (case parse_value fuel (tl s) nesting of
                 None \<Rightarrow> None
               | Some None \<Rightarrow> Some None
               | Some (Some (v, s)) \<Rightarrow>
                   (case json_object_add cap obj k v of
                      None \<Rightarrow> Some None
                    | Some (cap, obj) \<Rightarrow>
                        let s = skip_whitespaces s in
                        if cur s = asc CHR '','' then
                          parse_members fuel cap obj (skip_whitespaces (tl s)) nesting
                        else if cur s = asc CHR 0x7D then Some (Some (JSONObject obj, tl s))
                        else Some None)))"
| "parse_items 0 cap arr s nesting = None"
| "parse_items (Suc fuel) cap arr s nesting =
     (if s = [] then Some None
      else
        (case parse_value fuel s nesting of
           None \<Rightarrow> None
         | Some None \<Rightarrow> Some None
         | Some (Some (v, s)) \<Rightarrow>
             (case json_array_add cap arr v of
                None \<Rightarrow> Some None
              | Some (cap, arr) \<Rightarrow>
                  let s = skip_whitespaces s in
                  if cur s = asc CHR '','' then
                    parse_items fuel cap arr (skip_whitespaces (tl s)) nesting
                  else if cur s = asc CHR 0x5D then Some (Some (JSONArray arr, tl s))
                  else Some None)))"

text \<open>
  The string is scanned from its start, whatever follows the value is ignored. The fuel is twice the
  length of the text plus one.
\<close>

definition json_parse_string_with_comments :: "bytes \<Rightarrow> json_value option option" where
  "json_parse_string_with_comments str =
     (let s = remove_comments (remove_comments str ''/*'' ''*/'') ''//'' [CHR 0x0A];
          s = skip_whitespaces s in
      if cur s \<noteq> asc CHR 0x7B \<and> cur s \<noteq> asc CHR 0x5B then Some None
      else map_option (map_option fst) (parse_value (2 * length s + 1) s 0))"

end
