(* ===== verification/Json_Correct.thy ===== *)
theory Json_Correct
  imports Json_Parse
begin

text \<open>
  What the JSON parser guarantees: it always returns, what it returns is a proper tree (distinct member
  names, strings without NUL, bounded nesting), and member access by dotted names.
\<close>

section \<open>The parser moves forward\<close>

lemma skip_whitespaces_le: "length (skip_whitespaces s) \<le> length s"
  by (simp add: skip_whitespaces_def length_dropWhile_le)

lemma skip_to_quote_le: "length (skip_to_quote s) \<le> length s"
  by (induction s rule: skip_to_quote.induct) (auto split: list.split simp: le_SucI)

lemma skip_quotes_less: "s \<noteq> [] \<Longrightarrow> length (skip_quotes s) < length s"
  using skip_to_quote_le [of "tl s"] by (cases s) (auto simp: skip_quotes_def)

lemma get_quoted_string_less: "s \<noteq> [] \<Longrightarrow> get_quoted_string s = (k, s') \<Longrightarrow> length s' < length s"
  using skip_quotes_less by (auto simp: get_quoted_string_def Let_def split: if_splits)

lemma parse_leaf_le:
  "parse_string_value s = Some (v, s') \<Longrightarrow> length s' \<le> length s"
  "parse_boolean_value s = Some (v, s') \<Longrightarrow> length s' \<le> length s"
  "parse_number_value s = Some (v, s') \<Longrightarrow> length s' \<le> length s"
  "parse_null_value s = Some (v, s') \<Longrightarrow> length s' \<le> length s"
proof -
  show "parse_string_value s = Some (v, s') \<Longrightarrow> length s' \<le> length s"
  proof (cases "s = []")
    case False
    then show "parse_string_value s = Some (v, s') \<Longrightarrow> length s' \<le> length s"
      using get_quoted_string_less [OF False] by (fastforce simp: parse_string_value_def split: prod.splits option.splits)
  next
    case True
    then show "parse_string_value s = Some (v, s') \<Longrightarrow> length s' \<le> length s"
      by (simp add: parse_string_value_def get_quoted_string_def skip_quotes_def)
  qed
qed (auto simp: parse_boolean_value_def parse_number_value_def parse_null_value_def split: if_splits prod.splits)

text \<open>One level of the descent, seen from a successful result.\<close>

lemma parse_valueE:
  assumes "parse_value fuel s nesting = Some (Some (v, s'))"
  obtains (empty_object) "nesting \<le> MAX_NESTING" "v = JSONObject []" "length s' \<le> length s"
  | (object) f r where "nesting \<le> MAX_NESTING" "fuel = Suc f" "length r \<le> length s"
      "parse_members f 0 [] r (nesting + 1) = Some (Some (v, s'))"
  | (empty_array) "nesting \<le> MAX_NESTING" "v = JSONArray []" "length s' \<le> length s"
  | (array) f r where "nesting \<le> MAX_NESTING" "fuel = Suc f" "length r \<le> length s"
      "parse_items f 0 [] r (nesting + 1) = Some (Some (v, s'))"
  | (str) r where "nesting \<le> MAX_NESTING" "length r \<le> length s" "parse_string_value r = Some (v, s')"
  | (bool) r where "nesting \<le> MAX_NESTING" "length r \<le> length s" "parse_boolean_value r = Some (v, s')"
  | (number) r where "nesting \<le> MAX_NESTING" "length r \<le> length s" "parse_number_value r = Some (v, s')"
  | (null) r where "nesting \<le> MAX_NESTING" "length r \<le> length s" "parse_null_value r = Some (v, s')"
proof -
  let ?s = "skip_whitespaces s" and ?r = "skip_whitespaces (tl (skip_whitespaces s))"
  have le: "length ?s \<le> length s" "length ?r \<le> length s" "length (tl ?r) \<le> length s"
    using skip_whitespaces_le [of s] skip_whitespaces_le [of "tl ?s"] by auto
  obtain f where f: "fuel = Suc f" and n: "nesting \<le> MAX_NESTING"
    using assms by (cases fuel) (auto split: if_splits)
  let ?c = "cur ?s"
  note eq = assms [unfolded f]
  show thesis
  proof (cases "?c = asc CHR 0x7B")
    case obj: True
    show thesis
    proof (cases "cur ?r = asc CHR 0x7D")
      case True
      then show thesis using eq n le obj by (intro empty_object) (auto simp: Let_def)
    next
      case False
      then show thesis using eq n le obj by (intro object [OF n f le(2)]) (simp add: Let_def)
    qed
  next
    case no: False
    show thesis
    proof (cases "?c = asc CHR 0x5B")
      case arr: True
      show thesis
      proof (cases "cur ?r = asc CHR 0x5D")
        case True
        then show thesis using eq n le no arr by (intro empty_array) (auto simp: Let_def)
      next
        case False
        then show thesis using eq n le no arr by (intro array [OF n f le(2)]) (simp add: Let_def)
      qed
    next
      case no2: False
      have "parse_string_value ?s = Some (v, s') \<or> parse_boolean_value ?s = Some (v, s') \<or>
          parse_number_value ?s = Some (v, s') \<or> parse_null_value ?s = Some (v, s')"
        using eq n no no2 by (simp add: Let_def split: if_splits)
      then show thesis
        using str [OF n le(1)] bool [OF n le(1)] number [OF n le(1)] null [OF n le(1)] by blast
    qed
  qed
qed

lemma parse_membersE:
  assumes "parse_members fuel cap obj s nesting = Some (Some (v, s'))"
  obtains (member) f k r x r' cap' obj' where "fuel = Suc f" "s \<noteq> []" "length r < length s"
      "fst (get_quoted_string s) = Some k" "parse_value f r nesting = Some (Some (x, r'))"
      "json_object_add cap obj k x = Some (cap', obj')"
      "(\<exists>r''. length r'' \<le> length r' \<and> parse_members f cap' obj' r'' nesting = Some (Some (v, s'))) \<or>
       v = JSONObject obj' \<and> length s' \<le> length r'"
proof -
  obtain f where f: "fuel = Suc f" and ne: "s \<noteq> []"
    using assms by (cases fuel) (auto split: if_splits)
  obtain ko s1 where q: "get_quoted_string s = (ko, s1)" by force
  then obtain k where k: "ko = Some k"
    using assms f ne by (cases ko) (auto simp: Let_def)
  let ?r = "tl (skip_whitespaces s1)"
  have r: "length ?r < length s"
    using get_quoted_string_less [OF ne q] skip_whitespaces_le [of s1] by simp
  obtain x r' where x: "parse_value f ?r nesting = Some (Some (x, r'))"
    using assms f ne q k by (auto simp: Let_def split: if_splits option.splits)
  obtain cap' obj' where o: "json_object_add cap obj k x = Some (cap', obj')"
    using assms f ne q k x by (auto simp: Let_def split: if_splits option.splits)
  let ?w = "skip_whitespaces r'"
  have "length (skip_whitespaces (tl ?w)) \<le> length r'" "length (tl ?w) \<le> length r'"
    using skip_whitespaces_le [of r'] skip_whitespaces_le [of "tl ?w"] by auto
  moreover have "parse_members f cap' obj' (skip_whitespaces (tl ?w)) nesting = Some (Some (v, s')) \<or>
      v = JSONObject obj' \<and> s' = tl ?w"
    using assms f ne q k x o by (auto simp: Let_def split: if_splits)
  ultimately show thesis
    using f ne r q k x o by (intro member [of f ?r k x r' cap' obj']) auto
qed

lemma parse_itemsE:
  assumes "parse_items fuel cap arr s nesting = Some (Some (v, s'))"
  obtains (item) f x r' cap' arr' where "fuel = Suc f" "s \<noteq> []"
      "parse_value f s nesting = Some (Some (x, r'))" "json_array_add cap arr x = Some (cap', arr')"
      "(\<exists>r''. length r'' \<le> length r' \<and> parse_items f cap' arr' r'' nesting = Some (Some (v, s'))) \<or>
       v = JSONArray arr' \<and> length s' \<le> length r'"
proof -
  obtain f where f: "fuel = Suc f" and ne: "s \<noteq> []"
    using assms by (cases fuel) (auto split: if_splits)
  obtain x r' where x: "parse_value f s nesting = Some (Some (x, r'))"
    using assms f ne by (auto simp: Let_def split: if_splits option.splits)
  obtain cap' arr' where o: "json_array_add cap arr x = Some (cap', arr')"
    using assms f ne x by (auto simp: Let_def split: if_splits option.splits)
  let ?w = "skip_whitespaces r'"
  have "length (skip_whitespaces (tl ?w)) \<le> length r'" "length (tl ?w) \<le> length r'"
    using skip_whitespaces_le [of r'] skip_whitespaces_le [of "tl ?w"] by auto
  moreover have "parse_items f cap' arr' (skip_whitespaces (tl ?w)) nesting = Some (Some (v, s')) \<or>
      v = JSONArray arr' \<and> s' = tl ?w"
    using assms f ne x o by (auto simp: Let_def split: if_splits)
  ultimately show thesis
    using f ne x o by (intro item [of f x r' cap' arr']) auto
qed

lemma parse_le:
  "(\<forall>s n v s'. parse_value fuel s n = Some (Some (v, s')) \<longrightarrow> length s' \<le> length s) \<and>
   (\<forall>cap obj s n v s'. parse_members fuel cap obj s n = Some (Some (v, s')) \<longrightarrow> length s' \<le> length s) \<and>
   (\<forall>cap arr s n v s'. parse_items fuel cap arr s n = Some (Some (v, s')) \<longrightarrow> length s' \<le> length s)"
proof (induction fuel)
  case 0
  then show ?case by simp
next
  case (Suc fuel)
  have "length s' \<le> length s" if "parse_value (Suc fuel) s n = Some (Some (v, s'))" for s n v s'
    using that Suc by (cases rule: parse_valueE) (fastforce dest: parse_leaf_le)+
  moreover have "length s' \<le> length s" if "parse_members (Suc fuel) cap obj s n = Some (Some (v, s'))"
    for cap obj s n v s'
    using that Suc by (cases rule: parse_membersE) (fastforce intro: order_trans less_imp_le)
  moreover have "length s' \<le> length s" if "parse_items (Suc fuel) cap arr s n = Some (Some (v, s'))"
    for cap arr s n v s'
    using that Suc by (cases rule: parse_itemsE) (fastforce intro: order_trans)
  ultimately show ?case by blast
qed

section \<open>The parser returns\<close>

lemma cur_non_nul: "cur s = asc c \<Longrightarrow> asc c \<noteq> 0 \<Longrightarrow> s \<noteq> []"
  by (auto simp: cur_def)

lemma asc_brackets: "asc CHR 0x7B \<noteq> 0" "asc CHR 0x5B \<noteq> 0" "asc CHR '','' \<noteq> 0" "asc CHR '':'' \<noteq> 0"
  by (simp_all add: asc_def)

lemma length_tl_cur: "cur s = asc c \<Longrightarrow> asc c \<noteq> 0 \<Longrightarrow> Suc (length (tl s)) = length s"
  by (cases s) (auto simp: cur_def)

lemma parse_value_total_step:
  assumes "\<And>cap obj s n. 2 * length s < fuel \<Longrightarrow> parse_members fuel cap obj s n \<noteq> None"
    and "\<And>cap arr s n. 2 * length s + 1 < fuel \<Longrightarrow> parse_items fuel cap arr s n \<noteq> None"
    and "2 * length s < Suc fuel"
  shows "parse_value (Suc fuel) s n \<noteq> None"
proof -
  let ?s = "skip_whitespaces s" and ?r = "skip_whitespaces (tl (skip_whitespaces s))"
  have r: "2 * length ?r + 1 < fuel" if "cur ?s = asc c" "asc c \<noteq> 0" for c
    using length_tl_cur [OF that] skip_whitespaces_le [of s] skip_whitespaces_le [of "tl ?s"] assms(3)
    by simp
  have "parse_members fuel 0 [] ?r (n + 1) \<noteq> None" if "cur ?s = asc CHR 0x7B"
    using r [OF that asc_brackets(1)] assms(1) [of ?r] by simp
  moreover have "parse_items fuel 0 [] ?r (n + 1) \<noteq> None" if "cur ?s = asc CHR 0x5B"
    using r [OF that asc_brackets(2)] assms(2) [of ?r] by simp
  ultimately show ?thesis
    by (simp add: Let_def)
qed

lemma parse_members_total_step:
  assumes "\<And>s n. 2 * length s < fuel \<Longrightarrow> parse_value fuel s n \<noteq> None"
    and "\<And>cap obj s n. 2 * length s < fuel \<Longrightarrow> parse_members fuel cap obj s n \<noteq> None"
    and len: "2 * length s < Suc fuel"
  shows "parse_members (Suc fuel) cap obj s n \<noteq> None"
proof (cases "s = []")
  case False
  obtain k s1 where q: "get_quoted_string s = (k, s1)" by force
  let ?v = "tl (skip_whitespaces s1)"
  have v: "length ?v < length s"
    using get_quoted_string_less [OF False q] skip_whitespaces_le [of s1] by simp
  then obtain r where r: "parse_value fuel ?v n = Some r"
    using assms(1) [of ?v n] len by auto
  have "parse_members fuel cap' obj' (skip_whitespaces (tl (skip_whitespaces r'))) n \<noteq> None"
    if "r = Some (x, r')" for x r' cap' obj'
  proof -
    have "length r' \<le> length ?v"
      using r that parse_le [of fuel] by blast
    then have "length (skip_whitespaces (tl (skip_whitespaces r'))) < length s"
      using v skip_whitespaces_le [of r'] skip_whitespaces_le [of "tl (skip_whitespaces r')"] by simp
    then show ?thesis using assms(2) len by simp
  qed
  then show ?thesis
    using False q r by (auto simp: Let_def split: option.split)
qed simp

lemma parse_items_total_step:
  assumes "\<And>s n. 2 * length s < fuel \<Longrightarrow> parse_value fuel s n \<noteq> None"
    and "\<And>cap arr s n. 2 * length s + 1 < fuel \<Longrightarrow> parse_items fuel cap arr s n \<noteq> None"
    and len: "2 * length s + 1 < Suc fuel"
  shows "parse_items (Suc fuel) cap arr s n \<noteq> None"
proof (cases "s = []")
  case False
  obtain r where r: "parse_value fuel s n = Some r"
    using assms(1) [of s n] len by auto
  have "parse_items fuel cap' arr' (skip_whitespaces (tl (skip_whitespaces r'))) n \<noteq> None"
    if "r = Some (x, r')" and comma: "cur (skip_whitespaces r') = asc CHR '',''" for x r' cap' arr'
  proof -
    have "length r' \<le> length s"
      using r that(1) parse_le [of fuel] by blast
    then have "length (skip_whitespaces (tl (skip_whitespaces r'))) < length s"
      using length_tl_cur [OF comma asc_brackets(3)] skip_whitespaces_le [of r']
        skip_whitespaces_le [of "tl (skip_whitespaces r')"] by simp
    then show ?thesis using assms(2) len by simp
  qed
  then show ?thesis
    using False r by (auto simp: Let_def split: option.split)
qed simp

lemma parse_total:
  "(\<forall>s n. 2 * length s < fuel \<longrightarrow> parse_value fuel s n \<noteq> None) \<and>
   (\<forall>cap obj s n. 2 * length s < fuel \<longrightarrow> parse_members fuel cap obj s n \<noteq> None) \<and>
   (\<forall>cap arr s n. 2 * length s + 1 < fuel \<longrightarrow> parse_items fuel cap arr s n \<noteq> None)"
proof (induction fuel)
  case (Suc fuel)
  then have IHv: "2 * length s < fuel \<Longrightarrow> parse_value fuel s n \<noteq> None"
    and IHm: "2 * length s < fuel \<Longrightarrow> parse_members fuel cap obj s n \<noteq> None"
    and IHi: "2 * length s + 1 < fuel \<Longrightarrow> parse_items fuel cap arr s n \<noteq> None" for cap obj arr s n
    by blast+
  show ?case
    using parse_value_total_step [OF IHm IHi] parse_members_total_step [OF IHv IHm] parse_items_total_step [OF IHv IHi]
    by simp
qed simp

section \<open>What it returns is well formed\<close>

text \<open>
  At most \<open>d\<close> levels of objects and arrays, member names are distinct and within the capacity, and no
  string or name contains a NUL.
\<close>

fun json_ok :: "nat \<Rightarrow> json_value \<Rightarrow> bool" where
  "json_ok d (JSONObject ms) =
     (0 < d \<and> distinct (map fst ms) \<and> length ms \<le> OBJECT_MAX_CAPACITY \<and>
      (\<forall>m \<in> set ms. 0 \<notin> set (fst m) \<and> json_ok (d - 1) (snd m)))"
| "json_ok d (JSONArray vs) =
     (0 < d \<and> length vs \<le> ARRAY_MAX_CAPACITY \<and> (\<forall>v \<in> set vs. json_ok (d - 1) v))"
| "json_ok d (JSONString s) = (0 \<notin> set s)"
| "json_ok d (JSONNumber x) = True"
| "json_ok d (JSONBoolean b) = True"
| "json_ok d JSONNull = True"

lemma get_quoted_string_no_nul: "fst (get_quoted_string s) = Some k \<Longrightarrow> 0 \<notin> set k"
  by (auto simp: get_quoted_string_def process_string_def Let_def split: if_splits dest: set_takeWhileD)

lemma parse_leaf_ok:
  "parse_string_value s = Some (v, s') \<Longrightarrow> json_ok d v"
  "parse_boolean_value s = Some (v, s') \<Longrightarrow> json_ok d v"
  "parse_number_value s = Some (v, s') \<Longrightarrow> json_ok d v"
  "parse_null_value s = Some (v, s') \<Longrightarrow> json_ok d v"
  using get_quoted_string_no_nul [of s]
  by (auto simp: parse_string_value_def parse_boolean_value_def parse_number_value_def parse_null_value_def
      split: if_splits prod.splits option.splits)

lemma nget_value_None: "json_object_nget_value ms name = None \<longleftrightarrow> name \<notin> fst ` set ms"
  by (induction ms name rule: json_object_nget_value.induct) auto

lemma json_object_add_ok:
  assumes "json_object_add cap ms k x = Some (cap', ms')" and "json_ok d (JSONObject ms)" and "0 \<notin> set k"
    and "json_ok (d - 1) x" and "length ms \<le> cap" "cap \<le> OBJECT_MAX_CAPACITY"
  shows "json_ok d (JSONObject ms') \<and> length ms' \<le> cap' \<and> cap' \<le> OBJECT_MAX_CAPACITY"
  using assms grown_capacityD [of OBJECT_MAX_CAPACITY cap "length ms" cap']
  by (auto simp: json_object_add_def json_object_get_value_def nget_value_None split: if_splits option.splits)

lemma json_array_add_ok:
  assumes "json_array_add cap vs x = Some (cap', vs')" and "json_ok d (JSONArray vs)" and "json_ok (d - 1) x"
    and "length vs \<le> cap" "cap \<le> ARRAY_MAX_CAPACITY"
  shows "json_ok d (JSONArray vs') \<and> length vs' \<le> cap' \<and> cap' \<le> ARRAY_MAX_CAPACITY"
  using assms grown_capacityD [of ARRAY_MAX_CAPACITY cap "length vs" cap']
  by (auto simp: json_array_add_def split: option.splits)

lemma parse_ok:
  "(\<forall>s n v s'. parse_value fuel s n = Some (Some (v, s')) \<longrightarrow> json_ok (20 - n) v) \<and>
   (\<forall>cap obj s n v s'. json_ok (21 - n) (JSONObject obj) \<longrightarrow> length obj \<le> cap \<longrightarrow> cap \<le> OBJECT_MAX_CAPACITY \<longrightarrow>
      parse_members fuel cap obj s n = Some (Some (v, s')) \<longrightarrow> json_ok (21 - n) v) \<and>
   (\<forall>cap arr s n v s'. json_ok (21 - n) (JSONArray arr) \<longrightarrow> length arr \<le> cap \<longrightarrow> cap \<le> ARRAY_MAX_CAPACITY \<longrightarrow>
      parse_items fuel cap arr s n = Some (Some (v, s')) \<longrightarrow> json_ok (21 - n) v)"
proof (induction fuel)
  case (Suc fuel)
  then have IHv: "\<And>s n v s'. parse_value fuel s n = Some (Some (v, s')) \<Longrightarrow> json_ok (20 - n) v"
    and IHm: "\<And>cap obj s n v s'. json_ok (21 - n) (JSONObject obj) \<Longrightarrow> length obj \<le> cap \<Longrightarrow> cap \<le> OBJECT_MAX_CAPACITY \<Longrightarrow>
      parse_members fuel cap obj s n = Some (Some (v, s')) \<Longrightarrow> json_ok (21 - n) v"
    and IHi: "\<And>cap arr s n v s'. json_ok (21 - n) (JSONArray arr) \<Longrightarrow> length arr \<le> cap \<Longrightarrow> cap \<le> ARRAY_MAX_CAPACITY \<Longrightarrow>
      parse_items fuel cap arr s n = Some (Some (v, s')) \<Longrightarrow> json_ok (21 - n) v"
    by blast+
  have "json_ok (20 - n) v" if "parse_value (Suc fuel) s n = Some (Some (v, s'))" for s n v s'
    using that
  proof (cases rule: parse_valueE)
    case (object f r)
    then show ?thesis using IHm [of "n + 1" "[]" 0 r v s'] by (simp add: MAX_NESTING_def)
  next
    case (array f r)
    then show ?thesis using IHi [of "n + 1" "[]" 0 r v s'] by (simp add: MAX_NESTING_def)
  qed (auto simp: MAX_NESTING_def dest: parse_leaf_ok)
  moreover have "json_ok (21 - n) v"
    if ok: "json_ok (21 - n) (JSONObject obj)" and cap: "length obj \<le> cap" "cap \<le> OBJECT_MAX_CAPACITY"
      and "parse_members (Suc fuel) cap obj s n = Some (Some (v, s'))"
    for cap obj s n v s'
    using that(4)
  proof (cases rule: parse_membersE)
    case (member f k r x r' cap' obj')
    have "json_ok (21 - n) (JSONObject obj') \<and> length obj' \<le> cap' \<and> cap' \<le> OBJECT_MAX_CAPACITY"
      using json_object_add_ok [OF member(6) ok get_quoted_string_no_nul [OF member(4)] _ cap]
        IHv [of r n x r'] member(1,5) by simp
    then show ?thesis using member(1,7) IHm by auto
  qed
  moreover have "json_ok (21 - n) v"
    if ok: "json_ok (21 - n) (JSONArray arr)" and cap: "length arr \<le> cap" "cap \<le> ARRAY_MAX_CAPACITY"
      and "parse_items (Suc fuel) cap arr s n = Some (Some (v, s'))"
    for cap arr s n v s'
    using that(4)
  proof (cases rule: parse_itemsE)
    case (item f x r' cap' arr')
    have "json_ok (21 - n) (JSONArray arr') \<and> length arr' \<le> cap' \<and> cap' \<le> ARRAY_MAX_CAPACITY"
      using json_array_add_ok [OF item(4) ok _ cap] IHv [of s n x r'] item(1,3) by simp
    then show ?thesis using item(1,5) IHi by auto
  qed
  ultimately show ?case by blast
qed simp

section \<open>Properties\<close>

text \<open>
  C15. \<open>json_parse_string_with_comments\<close> returns for every text, and the value it returns has at most 20
  levels of nesting, distinct member names in every object, sizes within the capacities and no NUL
  in any string.
\<close>

theorem json_parse_returns_well_formed:
  "\<exists>r. json_parse_string_with_comments str = Some r \<and> (case r of None \<Rightarrow> True | Some v \<Rightarrow> json_ok 20 v)"
proof -
  have total: "parse_value (2 * length s + 1) s 0 \<noteq> None" for s
    by (rule parse_total [THEN conjunct1, rule_format]) simp
  have ok: "json_ok 20 v" if "parse_value (2 * length s + 1) s 0 = Some (Some (v, s'))" for s v s'
    using parse_ok [THEN conjunct1, rule_format, OF that] by simp
  define s where
    "s = skip_whitespaces (remove_comments (remove_comments str ''/*'' ''*/'') ''//'' [CHR 0x0A])"
  have res: "json_parse_string_with_comments str =
      (if cur s \<noteq> asc CHR 0x7B \<and> cur s \<noteq> asc CHR 0x5B then Some None
       else map_option (map_option fst) (parse_value (2 * length s + 1) s 0))"
    unfolding json_parse_string_with_comments_def Let_def s_def ..
  obtain r where r: "parse_value (2 * length s + 1) s 0 = Some r"
    using total [of s] by blast
  show ?thesis
  proof (cases r)
    case None
    then show ?thesis unfolding res r by simp
  next
    case (Some p)
    then have "json_ok 20 (fst p)"
      using ok [of s "fst p" "snd p"] r by simp
    then show ?thesis unfolding res r Some by simp
  qed
qed

text \<open>
  The parser does not test that a member name starts with a quote: whatever stands there is skipped.
\<close>

lemma member_name_quote_unchecked: "get_quoted_string (c # s) = get_quoted_string (asc CHR 0x22 # s)"
  by (simp add: get_quoted_string_def skip_quotes_def Let_def)

text \<open>
  A member is added to an object whose capacity can grow, or need not; it is found under its name, every
  other name finds what it found before, and a name that is already there is refused.
\<close>

theorem json_object_add_lookup:
  assumes "length ms < capacity \<or> 2 * capacity \<le> 960" and "json_object_get_value (Some ms) name = None"
  shows "\<exists>capacity' ms'. json_object_add capacity ms name v = Some (capacity', ms') \<and> json_object_get_value (Some ms') name = Some v \<and>
     (\<forall>n. n \<noteq> name \<longrightarrow> json_object_get_value (Some ms') n = json_object_get_value (Some ms) n) \<and>
     json_object_add capacity' ms' name w = None"
proof -
  have app: "json_object_nget_value (ms @ [(name, v)]) n =
      (case json_object_nget_value ms n of Some x \<Rightarrow> Some x | None \<Rightarrow> if n = name then Some v else None)" for n
    by (induction ms n rule: json_object_nget_value.induct) auto
  then show ?thesis
    using assms by (auto simp: json_object_add_def json_object_get_value_def grown_capacity_def OBJECT_MAX_CAPACITY_def
        STARTING_CAPACITY_def Let_def split: option.split)
qed

theorem json_object_add_lookup_witness:
  "\<exists>capacity' ms'. json_object_add 1 [([97], JSONNull)] [98] (JSONBoolean True) = Some (capacity', ms') \<and>
     json_object_get_value (Some ms') [98] = Some (JSONBoolean True)"
  using json_object_add_lookup [of "[([97], JSONNull)]" 1 "[98]" "JSONBoolean True" JSONNull]
  by (auto simp: json_object_get_value_def)

end
