(* ===== verification/Downlink.thy ===== *)
theory Downlink
  imports Json_Parse Base64 Timersync Tx_Ack
begin

unbundle bit_operations_syntax

text \<open>
  The part of \<open>thread_down\<close> (\<open>lora_pkt_fwd.c\<close>) that handles one PULL_RESP datagram: the JSON object
  \<open>txpk\<close> becomes a packet, the packet is checked against what the radio can do and put into the JIT
  queue, and the outcome is acknowledged. Each \<open>continue\<close> of the loop body is a value of \<open>txp\<close>.
\<close>

section \<open>Outcomes\<close>

text \<open>
  \<open>Abort\<close>: a warning and \<open>continue\<close>. \<open>Nack e\<close>: \<open>send_tx_ack\<close> with \<open>e\<close> and \<open>continue\<close>. \<open>Go\<close>: on with the next
  field.
\<close>

datatype 'a txp = Abort | Nack jit_error | Go 'a

definition andthen :: "'a txp res \<Rightarrow> ('a \<Rightarrow> 'b txp res) \<Rightarrow> 'b txp res" where
  "andthen m f =
     bindr m (\<lambda>r. case r of Abort \<Rightarrow> Inr Abort | Nack e \<Rightarrow> Inr (Nack e) | Go x \<Rightarrow> f x)"

lemma andthen_simps [simp, res_simps]:
  "andthen (Inl e) f = Inl e" "andthen (Inr Abort) f = Inr Abort"
  "andthen (Inr (Nack n)) f = Inr (Nack n)" "andthen (Inr (Go x)) f = f x"
  by (simp_all add: andthen_def)

lemma andthen_eq_Go: "andthen m f = Inr (Go y) \<longleftrightarrow> (\<exists>x. m = Inr (Go x) \<and> f x = Inr (Go y))"
  by (cases m) (auto simp: andthen_def split: txp.split)

lemma andthen_cong [fundef_cong]:
  "m = m' \<Longrightarrow> (\<And>x. m' = Inr (Go x) \<Longrightarrow> f x = g x) \<Longrightarrow> andthen m f = andthen m' g"
  unfolding andthen_def by (rule bindr_cong) (auto split: txp.split)

text \<open>A mandatory field.\<close>

definition need :: "'a option \<Rightarrow> 'a txp res" where
  "need v = (case v of None \<Rightarrow> Inr Abort | Some x \<Rightarrow> Inr (Go x))"

text \<open>A conversion of a number, which may be undefined.\<close>

definition conv :: "'a res \<Rightarrow> 'a txp res" where
  "conv r = bindr r (\<lambda>x. Inr (Go x))"

section \<open>Gateway state the handler uses\<close>

record gateway =
  gw_lgwm :: u64
  gw_antenna_gain :: u8  \<comment> \<open>\<open>int8_t\<close>\<close>
  gw_gps_enabled :: bool
  gw_gps_ref_valid :: bool
  gw_time_reference :: tref
  gw_txlut :: "u8 list"  \<comment> \<open>\<open>txlut.lut[i].rf_power\<close> for \<open>i < txlut.size\<close>\<close>
  gw_tx_freq_min :: "u32 list"  \<comment> \<open>\<open>LGW_RF_CHAIN_NB\<close> entries\<close>
  gw_tx_freq_max :: "u32 list"

section \<open>When to send\<close>

text \<open>
  \<open>x3 = modf ((double)x2 / 1E3, &x4)\<close>: seconds from the integer part, nanoseconds from the fraction
  times \<open>1E9\<close>.
\<close>

definition gps_time_of_ms :: "u64 \<Rightarrow> (int \<times> int) res" where
  "gps_time_of_ms x2 =
     (case dbl_div (round_dbl (of_int (uint x2))) 1000 of
        Fin q \<Rightarrow>
          bindr (dbl_to_int (- (2 ^ 63)) (2 ^ 63 - 1) (dbl_mul (Fin (q - of_int (trunc q))) 1000000000)) (\<lambda>ns.
          Inr (trunc q, ns))
      | _ \<Rightarrow> Inl BadConversion)"

text \<open>The packet with its \<open>count_us\<close>, whether it is sent immediately, and its class.\<close>

definition parse_target_time ::
    "hal \<Rightarrow> gateway \<Rightarrow> json_object option \<Rightarrow> lgw_pkt_tx \<Rightarrow> (lgw_pkt_tx \<times> bool \<times> jit_pkt_type) txp res" where
  "parse_target_time H gw txpk_obj txpkt =
     (if json_object_get_boolean txpk_obj (lit ''imme'') = 1 then
        Inr (Go (txpkt, True, JIT_PKT_TYPE_DOWNLINK_CLASS_C))
      else
        case json_object_get_value txpk_obj (lit ''tmst'') of
          Some val \<Rightarrow>
            andthen (conv (dbl_to_u32 (json_value_get_number (Some val)))) (\<lambda>t.
            Inr (Go (txpkt\<lparr>count_us := t\<rparr>, False, JIT_PKT_TYPE_DOWNLINK_CLASS_A)))
        | None \<Rightarrow>
            andthen (need (json_object_get_value txpk_obj (lit ''tmms''))) (\<lambda>val.
            if \<not> gw_gps_enabled gw then Inr (Nack JIT_ERROR_GPS_UNLOCKED)
            else if \<not> gw_gps_ref_valid gw then Inr (Nack JIT_ERROR_GPS_UNLOCKED)
            else
              andthen (conv (dbl_to_u64 (json_value_get_number (Some val)))) (\<lambda>x2.
              andthen (conv (gps_time_of_ms x2)) (\<lambda>gps_tx.
              andthen (need (lgw_gps2cnt H (gw_time_reference gw) gps_tx)) (\<lambda>t.
              Inr (Go (txpkt\<lparr>count_us := t\<rparr>, False, JIT_PKT_TYPE_DOWNLINK_CLASS_B)))))))"

section \<open>Modulation\<close>

text \<open>
  One \<open>%nhd\<close> conversion of \<open>sscanf\<close>: blanks are skipped, then at most \<open>w\<close> characters, an optional sign
  and at least one digit.
\<close>

definition scan_hd :: "nat \<Rightarrow> bytes \<Rightarrow> (int \<times> bytes) option" where
  "scan_hd w s0 =
     (let s = skip_whitespaces s0; signed = (cur s = asc CHR ''-'' \<or> cur s = asc CHR ''+'');
          body = (if signed then take (w - 1) (tl s) else take w s);
          ds = takeWhile isdigit body in
      if ds = [] then None
      else Some (if cur s = asc CHR ''-'' then - digit_value ds else digit_value ds,
                 drop (length ds + (if signed then 1 else 0)) s))"

text \<open>\<open>sscanf (str, "SF%2hdBW%3hd", &x0, &x1) == 2\<close>\<close>

definition scan_datr :: "bytes \<Rightarrow> (int \<times> int) option" where
  "scan_datr str =
     (if \<not> is_prefix (lit ''SF'') str then None
      else case scan_hd 2 (drop 2 str) of
        None \<Rightarrow> None
      | Some (x0, s) \<Rightarrow>
          if \<not> is_prefix (lit ''BW'') s then None
          else case scan_hd 3 (drop 2 s) of None \<Rightarrow> None | Some (x1, _) \<Rightarrow> Some (x0, x1))"

definition coderate_of :: "hal \<Rightarrow> bytes \<Rightarrow> u8 option" where
  "coderate_of H str =
     (if str = lit ''4/5'' then Some (hal_CR_LORA H 5)
      else if str = lit ''4/6'' then Some (hal_CR_LORA H 6)
      else if str = lit ''2/3'' then Some (hal_CR_LORA H 6)
      else if str = lit ''4/7'' then Some (hal_CR_LORA H 7)
      else if str = lit ''4/8'' then Some (hal_CR_LORA H 8)
      else if str = lit ''1/2'' then Some (hal_CR_LORA H 8)
      else None)"

definition spreading_of :: "hal \<Rightarrow> int \<Rightarrow> u32 option" where
  "spreading_of H x0 = (if 7 \<le> x0 \<and> x0 \<le> 12 then Some (hal_DR_LORA H (nat x0)) else None)"

definition bandwidth_of :: "hal \<Rightarrow> int \<Rightarrow> u8 option" where
  "bandwidth_of H x1 =
     (if x1 = 125 then Some (hal_BW_125KHZ H) else if x1 = 250 then Some (hal_BW_250KHZ H)
      else if x1 = 500 then Some (hal_BW_500KHZ H) else None)"

definition MIN_LORA_PREAMB :: int where "MIN_LORA_PREAMB = 6"
definition STD_LORA_PREAMB :: int where "STD_LORA_PREAMB = 8"
definition MIN_FSK_PREAMB :: int where "MIN_FSK_PREAMB = 3"
definition STD_FSK_PREAMB :: int where "STD_FSK_PREAMB = 5"

definition parse_preamble :: "json_object option \<Rightarrow> int \<Rightarrow> int \<Rightarrow> u16 txp res" where
  "parse_preamble txpk_obj min_preamb std_preamb =
     (case json_object_get_value txpk_obj (lit ''prea'') of
        None \<Rightarrow> Inr (Go (word_of_int std_preamb))
      | Some val \<Rightarrow>
          andthen (conv (dbl_to_int (-2147483648) 2147483647 (json_value_get_number (Some val)))) (\<lambda>i.
          Inr (Go (if min_preamb \<le> i then word_of_int i else word_of_int min_preamb))))"

definition parse_lora :: "hal \<Rightarrow> json_object option \<Rightarrow> lgw_pkt_tx \<Rightarrow> lgw_pkt_tx txp res" where
  "parse_lora H txpk_obj txpkt =
     andthen (need (json_object_get_string txpk_obj (lit ''datr''))) (\<lambda>str.
     andthen (need (scan_datr str)) (\<lambda>(x0, x1).
     andthen (need (spreading_of H x0)) (\<lambda>dr.
     andthen (need (bandwidth_of H x1)) (\<lambda>bw.
     andthen (need (json_object_get_string txpk_obj (lit ''codr''))) (\<lambda>codr.
     andthen (need (coderate_of H codr)) (\<lambda>cr.
     let ipol = (case json_object_get_value txpk_obj (lit ''ipol'') of
                   None \<Rightarrow> invert_pol txpkt
                 | Some val \<Rightarrow> json_value_get_boolean (Some val) \<noteq> 0) in
     andthen (parse_preamble txpk_obj MIN_LORA_PREAMB STD_LORA_PREAMB) (\<lambda>pre.
     Inr (Go (txpkt\<lparr>modulation := hal_MOD_LORA H, datarate := dr, bandwidth := bw, coderate := cr,
                     invert_pol := ipol, preamble := pre\<rparr>)))))))))"

definition parse_fsk :: "hal \<Rightarrow> json_object option \<Rightarrow> lgw_pkt_tx \<Rightarrow> lgw_pkt_tx txp res" where
  "parse_fsk H txpk_obj txpkt =
     andthen (need (json_object_get_value txpk_obj (lit ''datr''))) (\<lambda>val.
     andthen (conv (dbl_to_u32 (json_value_get_number (Some val)))) (\<lambda>dr.
     andthen (need (json_object_get_value txpk_obj (lit ''fdev''))) (\<lambda>val.
     andthen (conv (dbl_to_u8 (dbl_div (json_value_get_number (Some val)) 1000))) (\<lambda>fd.
     andthen (parse_preamble txpk_obj MIN_FSK_PREAMB STD_FSK_PREAMB) (\<lambda>pre.
     Inr (Go (txpkt\<lparr>modulation := hal_MOD_FSK H, datarate := dr, f_dev := fd, preamble := pre\<rparr>)))))))"

section \<open>The packet\<close>

text \<open>
  From the \<open>txpk\<close> object to the packet. \<open>i != txpkt.size\<close> after \<open>b64_to_bin\<close> only logs a warning, so a
  text that does not decode leaves the payload zero and the packet goes on.
\<close>

definition parse_payload :: "json_object option \<Rightarrow> lgw_pkt_tx \<Rightarrow> lgw_pkt_tx txp res" where
  "parse_payload txpk_obj txpkt =
     andthen (need (json_object_get_value txpk_obj (lit ''size''))) (\<lambda>val.
     andthen (conv (dbl_to_u16 (json_value_get_number (Some val)))) (\<lambda>sz.
     andthen (need (json_object_get_string txpk_obj (lit ''data''))) (\<lambda>str.
     andthen (conv (b64_to_bin (Some (str @ [0])) (int (length str)) (Some (payload txpkt))
                      (int (length (payload txpkt))))) (\<lambda>(i, out).
     Inr (Go (txpkt\<lparr>pkt_size := sz,
                     payload := (case out of None \<Rightarrow> payload txpkt | Some bs \<Rightarrow> bs)\<rparr>))))))"

definition parse_rf :: "gateway \<Rightarrow> json_object option \<Rightarrow> lgw_pkt_tx \<Rightarrow> lgw_pkt_tx txp res" where
  "parse_rf gw txpk_obj txpkt =
     (let txpkt = (case json_object_get_value txpk_obj (lit ''ncrc'') of
                     None \<Rightarrow> txpkt
                   | Some val \<Rightarrow> txpkt\<lparr>no_crc := json_value_get_boolean (Some val) \<noteq> 0\<rparr>) in
      andthen (need (json_object_get_value txpk_obj (lit ''freq''))) (\<lambda>val.
      andthen (conv (dbl_to_u32 (dbl_mul (json_value_get_number (Some val)) 1000000))) (\<lambda>hz.
      andthen (need (json_object_get_value txpk_obj (lit ''rfch''))) (\<lambda>val.
      andthen (conv (dbl_to_u8 (json_value_get_number (Some val)))) (\<lambda>chain.
      let txpkt = txpkt\<lparr>freq_hz := hz, rf_chain := chain\<rparr> in
      (case json_object_get_value txpk_obj (lit ''powe'') of
         None \<Rightarrow> Inr (Go txpkt)
       | Some val \<Rightarrow>
           andthen (conv (dbl_to_s8 (json_value_get_number (Some val)))) (\<lambda>p.
           Inr (Go (txpkt\<lparr>rf_power := p - gw_antenna_gain gw\<rparr>)))))))))"

definition parse_txpk ::
    "hal \<Rightarrow> gateway \<Rightarrow> json_object option \<Rightarrow> (lgw_pkt_tx \<times> jit_pkt_type) txp res" where
  "parse_txpk H gw txpk_obj =
     andthen (parse_target_time H gw txpk_obj (pkt_zero (hal_payload_max H)))
       (\<lambda>(txpkt, sent_immediate, downlink_type).
     andthen (parse_rf gw txpk_obj txpkt) (\<lambda>txpkt.
     andthen (need (json_object_get_string txpk_obj (lit ''modu''))) (\<lambda>str.
     andthen (if str = lit ''LORA'' then parse_lora H txpk_obj txpkt
              else if str = lit ''FSK'' then parse_fsk H txpk_obj txpkt
              else Inr Abort) (\<lambda>txpkt.
     andthen (parse_payload txpk_obj txpkt) (\<lambda>txpkt.
     Inr (Go (txpkt\<lparr>tx_mode := (if sent_immediate then hal_IMMEDIATE H else hal_TIMESTAMPED H)\<rparr>,
              downlink_type)))))))"

section \<open>Checks and the queue\<close>

definition check_tx :: "gateway \<Rightarrow> lgw_pkt_tx \<Rightarrow> jit_error res" where
  "check_tx gw txpkt =
     bindr (ld (gw_tx_freq_min gw) (unat (rf_chain txpkt))) (\<lambda>lo.
     bindr (if freq_hz txpkt < lo then Inr True
            else bindr (ld (gw_tx_freq_max gw) (unat (rf_chain txpkt))) (\<lambda>hi. Inr (hi < freq_hz txpkt)))
       (\<lambda>bad_freq.
     Inr (if bad_freq then JIT_ERROR_TX_FREQ
          else if rf_power txpkt \<in> set (gw_txlut gw) then JIT_ERROR_OK
          else JIT_ERROR_TX_POWER)))"

text \<open>
  One PULL_RESP of \<open>length msg\<close> bytes, received with the JIT queue, the clock offset and the counters as
  they are; \<open>unix_time\<close> is what \<open>gettimeofday\<close> returns. The result has the datagram sent back, if any.
\<close>

definition handle_pull_resp ::
    "hal \<Rightarrow> gateway \<Rightarrow> timeval \<Rightarrow> timeval \<Rightarrow> bytes \<Rightarrow> jit_queue \<Rightarrow> meas_dw
     \<Rightarrow> (jit_queue \<times> meas_dw \<times> bytes option) res" where
  "handle_pull_resp H gw offset unix_time msg q m =
     (let token_h = msg ! 1; token_l = msg ! 2; text = takeWhile (\<lambda>c. c \<noteq> 0) (drop 4 msg) in
      case json_parse_string_with_comments text of
        Some (Some root_val) \<Rightarrow>
          (case json_object_get_object (json_value_get_object (Some root_val)) (lit ''txpk'') of
             None \<Rightarrow> Inr (q, m, None)
           | Some txpk_obj \<Rightarrow>
               bindr (parse_txpk H gw (Some txpk_obj)) (\<lambda>r.
               case r of
                 Abort \<Rightarrow> Inr (q, m, None)
               | Nack e \<Rightarrow>
                   bindr (send_tx_ack (gw_lgwm gw) token_h token_l e m) (\<lambda>(ack, m). Inr (q, m, Some ack))
               | Go (txpkt, downlink_type) \<Rightarrow>
                   let m = m\<lparr>meas_dw_dgram_rcv := meas_dw_dgram_rcv m + 1,
                             meas_dw_network_byte := meas_dw_network_byte m + of_nat (length msg),
                             meas_dw_payload_byte := meas_dw_payload_byte m + ucast (pkt_size txpkt)\<rparr> in
                   bindr (check_tx gw txpkt) (\<lambda>e.
                   bindr
                     (if e \<noteq> JIT_ERROR_OK then Inr (e, q, m)
                      else
                        (case get_concentrator_time offset (Some unix_time) unix_time of
                           (_, None) \<Rightarrow> Inl NullDeref
                         | (_, Some now) \<Rightarrow>
                             bindr (jit_enqueue H q now (Some txpkt) downlink_type) (\<lambda>(e, q, _).
                             Inr (e, q, m\<lparr>meas_nb_tx_requested := meas_nb_tx_requested m + 1\<rparr>)))) (\<lambda>(e, q, m).
                   bindr (send_tx_ack (gw_lgwm gw) token_h token_l e m) (\<lambda>(ack, m).
                   Inr (q, m, Some ack))))))
      | _ \<Rightarrow> Inr (q, m, None))"

end
