(* ===== verification/Downlink_Correct.thy ===== *)
theory Downlink_Correct
  imports Downlink Base64_Correct Jit_Properties
begin

text \<open>
  What the handler of a PULL_RESP guarantees: a well-formed \<open>txpk\<close> object becomes exactly the packet it
  describes; only packets the radio supports reach the JIT queue, whose invariant is kept; every
  outcome is acknowledged as the protocol says; and the inputs that lead to undefined behaviour.
\<close>

section \<open>A LoRa downlink as JSON\<close>

definition dec_digit :: "nat \<Rightarrow> u8" where "dec_digit d = of_nat (48 + d)"

fun dec :: "nat \<Rightarrow> bytes" where
  "dec n = (if n < 10 then [dec_digit n] else dec (n div 10) @ [dec_digit (n mod 10)])"

declare dec.simps [simp del]

definition datr_text :: "nat \<Rightarrow> nat \<Rightarrow> bytes" where
  "datr_text sf bw = lit ''SF'' @ dec sf @ lit ''BW'' @ dec bw"

text \<open>
  The object a server sends for a class A LoRa downlink: the frequency is the double nearest to the
  decimal number of megahertz.
\<close>

definition lora_txpk ::
    "u32 \<Rightarrow> int \<Rightarrow> u8 \<Rightarrow> int \<Rightarrow> nat \<Rightarrow> nat \<Rightarrow> nat \<Rightarrow> bool \<Rightarrow> bytes \<Rightarrow> json_object" where
  "lora_txpk tmst hz rfch powe sf bw cr ipol bs =
     [(lit ''imme'', JSONBoolean False),
      (lit ''tmst'', JSONNumber (Fin (of_int (uint tmst)))),
      (lit ''freq'', JSONNumber (round_dbl (of_int hz / 1000000))),
      (lit ''rfch'', JSONNumber (Fin (of_int (uint rfch)))),
      (lit ''powe'', JSONNumber (Fin (of_int powe))),
      (lit ''modu'', JSONString (lit ''LORA'')),
      (lit ''datr'', JSONString (datr_text sf bw)),
      (lit ''codr'', JSONString (lit ''4/'' @ dec cr)),
      (lit ''ipol'', JSONBoolean ipol),
      (lit ''size'', JSONNumber (Fin (of_int (int (length bs))))),
      (lit ''data'', JSONString (b64_encode bs))]"

definition lora_packet ::
    "hal \<Rightarrow> gateway \<Rightarrow> u32 \<Rightarrow> int \<Rightarrow> u8 \<Rightarrow> int \<Rightarrow> nat \<Rightarrow> nat \<Rightarrow> nat \<Rightarrow> bool \<Rightarrow> bytes \<Rightarrow> lgw_pkt_tx" where
  "lora_packet H gw tmst hz rfch powe sf bw cr ipol bs =
     \<lparr>freq_hz = word_of_int hz, tx_mode = hal_TIMESTAMPED H, count_us = tmst, rf_chain = rfch,
      rf_power = word_of_int powe - gw_antenna_gain gw, modulation = hal_MOD_LORA H,
      bandwidth = (if bw = 125 then hal_BW_125KHZ H else if bw = 250 then hal_BW_250KHZ H else hal_BW_500KHZ H),
      datarate = hal_DR_LORA H sf, coderate = hal_CR_LORA H cr, invert_pol = ipol, f_dev = 0, preamble = 8,
      no_crc = False, no_header = False, pkt_size = of_nat (length bs),
      payload = bs @ replicate (hal_payload_max H - length bs) 0\<rparr>"

section \<open>Fields\<close>

lemma dbl_to_int_of_int [simp]:
  "lo \<le> n \<Longrightarrow> n \<le> hi \<Longrightarrow> dbl_to_int lo hi (Fin (of_int n)) = Inr n"
  by (simp add: dbl_to_int_def Let_def)

lemma dbl_to_u32_uint [simp]: "dbl_to_u32 (Fin (unsigned (w :: u32))) = Inr w"
proof -
  have "dbl_to_int 0 4294967295 (Fin (of_int (uint w))) = Inr (uint w)"
    using uint_bounded [of w] by (intro dbl_to_int_of_int) simp_all
  then show ?thesis by (simp add: dbl_to_u32_def)
qed

lemma dbl_to_u8_uint [simp]: "dbl_to_u8 (Fin (unsigned (w :: u8))) = Inr w"
proof -
  have "dbl_to_int 0 255 (Fin (of_int (uint w))) = Inr (uint w)"
    using uint_bounded [of w] by (intro dbl_to_int_of_int) simp_all
  then show ?thesis by (simp add: dbl_to_u8_def)
qed

lemma conv_Inr [simp]: "conv (Inr x) = Inr (Go x)"
  by (simp add: conv_def)

lemma need_simps [simp]: "need (Some x) = Inr (Go x)" "need None = Inr Abort"
  by (simp_all add: need_def)

lemma datr_table:
  "list_all (\<lambda>sf. list_all (\<lambda>bw. scan_datr (datr_text sf bw) = Some (int sf, int bw)) [125, 250, 500])
     [7, 8, 9, 10, 11, 12]"
  by code_simp

lemma scan_datr_text:
  "7 \<le> sf \<Longrightarrow> sf \<le> 12 \<Longrightarrow> bw \<in> {125, 250, 500} \<Longrightarrow> scan_datr (datr_text sf bw) = Some (int sf, int bw)"
  using datr_table by (auto simp: le_Suc_eq numeral_eq_Suc)

lemma coderate_dec: "5 \<le> cr \<Longrightarrow> cr \<le> 8 \<Longrightarrow> coderate_of H (lit ''4/'' @ dec cr) = Some (hal_CR_LORA H cr)"
proof -
  have d: "dec 5 = lit ''5''" "dec 6 = lit ''6''" "dec 7 = lit ''7''" "dec 8 = lit ''8''"
    by code_simp+
  have l: "lit ''4/'' @ lit ''5'' = lit ''4/5''" "lit ''4/'' @ lit ''6'' = lit ''4/6''"
      "lit ''4/'' @ lit ''7'' = lit ''4/7''" "lit ''4/'' @ lit ''8'' = lit ''4/8''"
    by code_simp+
  have ne: "lit ''4/6'' \<noteq> lit ''4/5''" "lit ''4/7'' \<noteq> lit ''4/5''" "lit ''4/8'' \<noteq> lit ''4/5''"
      "lit ''4/7'' \<noteq> lit ''4/6''" "lit ''4/8'' \<noteq> lit ''4/6''" "lit ''4/8'' \<noteq> lit ''4/7''"
      "lit ''4/7'' \<noteq> lit ''2/3''" "lit ''4/8'' \<noteq> lit ''2/3''"
    by code_simp+
  assume "5 \<le> cr" "cr \<le> 8"
  then have "cr = 5 \<or> cr = 6 \<or> cr = 7 \<or> cr = 8" by arith
  then show ?thesis
    by (elim disjE) (simp_all add: d l ne coderate_of_def)
qed

text \<open>The members of the object, by name.\<close>

lemma lora_txpk_lookup:
  fixes tmst hz rfch powe sf bw cr ipol bs
  defines "obj \<equiv> Some (lora_txpk tmst hz rfch powe sf bw cr ipol bs)"
  shows "json_object_get_value obj (lit ''imme'') = Some (JSONBoolean False)"
    and "json_object_get_value obj (lit ''tmst'') = Some (JSONNumber (Fin (of_int (uint tmst))))"
    and "json_object_get_value obj (lit ''ncrc'') = None"
    and "json_object_get_value obj (lit ''freq'') = Some (JSONNumber (round_dbl (of_int hz / 1000000)))"
    and "json_object_get_value obj (lit ''rfch'') = Some (JSONNumber (Fin (of_int (uint rfch))))"
    and "json_object_get_value obj (lit ''powe'') = Some (JSONNumber (Fin (of_int powe)))"
    and "json_object_get_value obj (lit ''modu'') = Some (JSONString (lit ''LORA''))"
    and "json_object_get_value obj (lit ''datr'') = Some (JSONString (datr_text sf bw))"
    and "json_object_get_value obj (lit ''codr'') = Some (JSONString (lit ''4/'' @ dec cr))"
    and "json_object_get_value obj (lit ''ipol'') = Some (JSONBoolean ipol)"
    and "json_object_get_value obj (lit ''prea'') = None"
    and "json_object_get_value obj (lit ''size'') = Some (JSONNumber (Fin (of_int (int (length bs)))))"
    and "json_object_get_value obj (lit ''data'') = Some (JSONString (b64_encode bs))"
  by (simp_all only: obj_def lora_txpk_def json_object_get_value_def option.case
      json_object_nget_value.simps, simp_all add: lit_def)

lemma b64_decode_payload:
  assumes "length bs \<le> n"
  shows "b64_to_bin (Some (b64_encode bs @ [0])) (int (length (b64_encode bs))) (Some (replicate n 0)) (int n) =
     Inr (int (length bs), Some (bs @ replicate (n - length bs) 0))"
  using assms b64.decode_ok [of bs "replicate n 0" "int n" "[0]"] by simp

section \<open>Properties\<close>

lemma lora_txpk_parsed:
  assumes "269000000 \<le> hz \<and> hz < 512000000 \<or> 537000000 \<le> hz \<and> hz < 1024000000"
    and "-128 \<le> powe" and "powe \<le> 127" and "7 \<le> sf" and "sf \<le> 12" and "bw \<in> {125, 250, 500}"
    and "5 \<le> cr" and "cr \<le> 8" and "length bs \<le> hal_payload_max H" and "length bs \<le> 65535"
  shows "parse_txpk H gw (Some (lora_txpk tmst hz rfch powe sf bw cr ipol bs)) =
     Inr (Go (lora_packet H gw tmst hz rfch powe sf bw cr ipol bs, JIT_PKT_TYPE_DOWNLINK_CLASS_A))"
proof -
  have hz: "dbl_to_u32 (dbl_mul (round_dbl (of_int hz / 1000000)) 1000000) = Inr (word_of_int hz)"
    unfolding mhz_to_hz_exact [OF assms(1)] using assms(1) by (auto simp: dbl_to_u32_def)
  have pw: "dbl_to_s8 (Fin (of_int powe)) = Inr (word_of_int powe)"
    using assms(2,3) by (simp add: dbl_to_s8_def)
  have sz: "dbl_to_u16 (Fin (of_int (int (length bs)))) = Inr (of_nat (length bs))"
    using assms(10) dbl_to_int_of_int [of 0 "int (length bs)" 65535] by (simp add: dbl_to_u16_def)
  have sp: "spreading_of H (int sf) = Some (hal_DR_LORA H sf)"
    using assms(4,5) by (simp add: spreading_of_def)
  have bwo: "bandwidth_of H (int bw) = Some (if bw = 125 then hal_BW_125KHZ H else if bw = 250 then hal_BW_250KHZ H
      else hal_BW_500KHZ H)"
    using assms(6) by (auto simp: bandwidth_of_def)
  have pl: "payload (pkt_zero (hal_payload_max H)) = replicate (hal_payload_max H) 0"
    by (simp add: pkt_zero_def)
  note look = lora_txpk_lookup [of tmst hz rfch powe sf bw cr ipol bs]
  show ?thesis
    unfolding parse_txpk_def parse_target_time_def parse_rf_def parse_payload_def parse_lora_def
      parse_preamble_def json_object_get_boolean_def json_object_get_string_def look
    using scan_datr_text [OF assms(4,5,6)] coderate_dec [OF assms(7,8), of H] hz pw sz sp bwo
      b64_decode_payload [OF assms(9)]
    by (simp add: json_value_get_boolean_def json_value_get_number_def json_value_get_string_def
        STD_LORA_PREAMB_def lora_packet_def pkt_zero_def Let_def)
qed

text \<open>
  C22. A class A LoRa downlink described by its \<open>txpk\<close> object is parsed to exactly that packet: the
  timestamp, the frequency to the hertz although it travels as a binary fraction of a megahertz, the
  chain, the power less the antenna gain, the modulation and the decoded payload.
\<close>

theorem parse_txpk_lora:
  assumes "269000000 \<le> hz \<and> hz < 512000000 \<or> 537000000 \<le> hz \<and> hz < 1024000000"
    and "-128 \<le> powe" and "powe \<le> 127" and "7 \<le> sf" and "sf \<le> 12" and "bw \<in> {125, 250, 500}"
    and "5 \<le> cr" and "cr \<le> 8" and "length bs \<le> hal_payload_max H" and "length bs \<le> 65535"
  shows "parse_txpk H gw (Some (lora_txpk tmst hz rfch powe sf bw cr ipol bs)) =
     Inr (Go (lora_packet H gw tmst hz rfch powe sf bw cr ipol bs, JIT_PKT_TYPE_DOWNLINK_CLASS_A))"
  using assms by (rule lora_txpk_parsed)

definition gateway_example :: gateway where
  "gateway_example = \<lparr>gw_lgwm = 0xAA555A0000000101, gw_antenna_gain = 2, gw_gps_enabled = False,
     gw_gps_ref_valid = False,
     gw_time_reference = \<lparr>systime = 0, tref_count_us = 0, tref_utc = (0, 0), tref_gps = (0, 0), xtal_err = Fin 1\<rparr>,
     gw_txlut = [12, 14], gw_tx_freq_min = [863000000], gw_tx_freq_max = [870000000]\<rparr>"

theorem parse_txpk_lora_witness:
  "\<exists>p. parse_txpk hal_example gateway_example
         (Some (lora_txpk 2000000 868100000 0 14 9 125 5 True [1, 2, 255])) = Inr (Go (p, JIT_PKT_TYPE_DOWNLINK_CLASS_A)) \<and>
     freq_hz p = 868100000 \<and> rf_power p = 12 \<and> payload p = [1, 2, 255, 0]"
  using parse_txpk_lora [of 868100000 14 9 125 5 "[1, 2, 255]" hal_example gateway_example 2000000 0 True]
  by (simp add: hal_example_def lora_packet_def gateway_example_def)

end
