(* ===== verification/Downlink_Safety.thy ===== *)
theory Downlink_Safety
  imports Downlink_Correct Jit_Properties
begin

text \<open>
  Which packets of a PULL_RESP reach the JIT queue, that every outcome is acknowledged, and the request
  whose antenna index leads out of the table of frequency limits.
\<close>

lemma check_tx_OK:
  assumes "check_tx gw p = Inr JIT_ERROR_OK"
  shows "unat (rf_chain p) < length (gw_tx_freq_min gw)"
    and "gw_tx_freq_min gw ! unat (rf_chain p) \<le> freq_hz p"
    and "freq_hz p \<le> gw_tx_freq_max gw ! unat (rf_chain p)" and "rf_power p \<in> set (gw_txlut gw)"
  using assms by (auto simp: check_tx_def bindr_eq_Inr_iff ld_def split: if_splits)

lemma dated_packet_rf:
  assumes "dated_packet H q t p0 ty = Inr p"
  shows "rf_chain p = rf_chain p0" "freq_hz p = freq_hz p0" "rf_power p = rf_power p0"
  using assms by (auto simp: dated_packet_def bindr_eq_Inr_iff split: if_splits)

text \<open>What a queued packet must satisfy for this gateway.\<close>

definition radio_supports :: "gateway \<Rightarrow> lgw_pkt_tx \<Rightarrow> bool" where
  "radio_supports gw p \<longleftrightarrow> unat (rf_chain p) < length (gw_tx_freq_min gw) \<and>
     gw_tx_freq_min gw ! unat (rf_chain p) \<le> freq_hz p \<and>
     freq_hz p \<le> gw_tx_freq_max gw ! unat (rf_chain p) \<and> rf_power p \<in> set (gw_txlut gw)"

lemma jit_enqueue_supported:
  assumes inv: "jit_inv q" and chk: "check_tx gw p0 = Inr JIT_ERROR_OK"
    and enq: "jit_enqueue H q now (Some p0) ty = Inr (e, q', p')"
  shows "jit_inv q'" and "e \<noteq> JIT_ERROR_OK \<Longrightarrow> q' = q"
    and "e = JIT_ERROR_OK \<Longrightarrow> \<exists>n. mset (live q') = add_mset n (mset (live q)) \<and> radio_supports gw (pkt n)"
proof -
  have wf: "jit_wf q" using inv by (simp add: jit_inv_def)
  show "jit_inv q'" by (rule jit_enqueue_inv [OF inv enq])
  show "e \<noteq> JIT_ERROR_OK \<Longrightarrow> q' = q" using jit_enqueue_cases [OF wf enq] by auto
  assume "e = JIT_ERROR_OK"
  then obtain p where p: "\<not> jit_queue_is_full q" "dated_packet H q (time_us_of now) p0 ty = Inr p"
      "insert_node q (new_node H p0 p ty) = Inr q'"
    using jit_enqueue_cases [OF wf enq] by auto
  have "mset (live q') = add_mset (new_node H p0 p ty) (mset (live q))"
    using insert_node_wf [OF wf p(1), of "new_node H p0 p ty"] p(3) by auto
  moreover have "radio_supports gw (pkt (new_node H p0 p ty))"
    using check_tx_OK [OF chk] dated_packet_rf [OF p(2)] by (simp add: radio_supports_def new_node_def)
  ultimately show "\<exists>n. mset (live q') = add_mset n (mset (live q)) \<and> radio_supports gw (pkt n)" by blast
qed

lemma pull_resp_cases:
  assumes "jit_inv q" and "handle_pull_resp H gw off now msg q m = Inr (q', m', ack)"
  shows "jit_inv q' \<and> (ack = None \<longrightarrow> q' = q \<and> m' = m) \<and>
    (q' \<noteq> q \<longrightarrow> ack = Some (ack_header (gw_lgwm gw) (msg ! 1) (msg ! 2)) \<and>
       (\<exists>n. mset (live q') = add_mset n (mset (live q)) \<and> radio_supports gw (pkt n)))"
proof -
  define str where "str = takeWhile (\<lambda>c. c \<noteq> 0) (drop 4 msg)"
  note ret = assms(2) [unfolded handle_pull_resp_def Let_def, folded str_def]
  show ?thesis
  proof (cases "\<exists>root obj p ty. json_parse_string_with_comments str = Some (Some root) \<and>
      json_object_get_object (json_value_get_object (Some root)) (lit ''txpk'') = Some obj \<and>
      parse_txpk H gw (Some obj) = Inr (Go (p, ty))")
    case False
    then have "q' = q \<and> (ack = None \<longrightarrow> m' = m)"
      using ret by (auto simp: bindr_def send_tx_ack_eq split: option.splits sum.splits txp.splits)
    then show ?thesis using assms(1) by simp
  next
    case True
    then obtain root obj p ty where j: "json_parse_string_with_comments str = Some (Some root)"
        "json_object_get_object (json_value_get_object (Some root)) (lit ''txpk'') = Some obj"
        "parse_txpk H gw (Some obj) = Inr (Go (p, ty))" by blast
    obtain e where e: "check_tx gw p = Inr e"
      using ret j by (auto simp: bindr_eq_Inr_iff)
    show ?thesis
    proof (cases "e = JIT_ERROR_OK")
      case False
      then have "q' = q \<and> ack \<noteq> None"
        using ret j e by (auto simp: bindr_eq_Inr_iff send_tx_ack_eq)
      then show ?thesis using assms(1) by auto
    next
      case True
      then obtain now' e2 p' where enq: "jit_enqueue H q now' (Some p) ty = Inr (e2, q', p')"
          "ack = Some (ack_header (gw_lgwm gw) (msg ! 1) (msg ! 2) @ ack_json e2)"
        using ret j e by (auto simp: bindr_eq_Inr_iff send_tx_ack_eq get_concentrator_time_def Let_def)
      show ?thesis
        using jit_enqueue_supported [OF assms(1) e [unfolded True] enq(1)] enq(2)
        by (cases "e2 = JIT_ERROR_OK") (auto simp: ack_json_def)
    qed
  qed
qed


text \<open>
  C2. Handling a PULL_RESP, whatever its text, keeps the JIT queue's invariant, and the queue changes only by one packet
  that the radio supports (frequency within the range of its chain, power in the gain table); that
  packet is acknowledged without error under the token of the request. Without an acknowledgement
  nothing has changed.
\<close>

theorem pull_resp_queues_only_supported:
  assumes "jit_inv q" and "handle_pull_resp H gw off now msg q m = Inr (q', m', ack)"
  shows "jit_inv q' \<and> (ack = None \<longrightarrow> q' = q \<and> m' = m) \<and>
    (q' \<noteq> q \<longrightarrow> ack = Some (ack_header (gw_lgwm gw) (msg ! 1) (msg ! 2)) \<and>
       (\<exists>n. mset (live q') = add_mset n (mset (live q)) \<and> radio_supports gw (pkt n)))"
  using assms by (rule pull_resp_cases)

section \<open>An antenna index outside the table\<close>

text \<open>A datagram's text, with \<open>#\<close> for the quotes.\<close>

definition quoted :: "string \<Rightarrow> bytes" where
  "quoted s = map (\<lambda>c. if c = 35 then 34 else c) (lit s)"

definition demo_text :: bytes where
  "demo_text = quoted (''{#txpk#:{#imme#:false,#tmst#:2000000,#freq#:868.1,#rfch#:1,#powe#:14,'' @
     ''#modu#:#LORA#,#datr#:#SF9BW125#,#codr#:#4/5#,#ipol#:true,#size#:2,#data#:#AQI=#}}'')"

definition demo_members :: json_object where
  "demo_members = [(lit ''txpk'', JSONObject (lora_txpk 2000000 868100000 1 14 9 125 5 True [1, 2]))]"

definition demo_msg :: bytes where
  "demo_msg = [2, 7, 8, 3] @ demo_text"

lemma demo_msg_parsed:
  "json_parse_string_with_comments (takeWhile (\<lambda>c. c \<noteq> 0) (drop 4 demo_msg)) = Some (Some (JSONObject demo_members))"
  by code_simp

text \<open>
  C23. A request that is legal but for its \<open>rfch\<close>: an index at or above the number of entries of
  \<open>tx_freq_min\<close> is not rejected, the handler reads outside the array.
\<close>

theorem pull_resp_bad_chain_out_of_bounds:
  assumes "269000000 \<le> hz \<and> hz < 512000000 \<or> 537000000 \<le> hz \<and> hz < 1024000000"
    and "-128 \<le> powe" and "powe \<le> 127" and "7 \<le> sf" and "sf \<le> 12" and "bw \<in> {125, 250, 500}"
    and "5 \<le> cr" and "cr \<le> 8" and "length bs \<le> hal_payload_max H" and "length bs \<le> 65535"
    and "json_parse_string_with_comments (takeWhile (\<lambda>c. c \<noteq> 0) (drop 4 msg)) = Some (Some (JSONObject members))"
    and "json_object_get_object (Some members) (lit ''txpk'') =
           Some (lora_txpk tmst hz rfch powe sf bw cr ipol bs)"
    and "length (gw_tx_freq_min gw) \<le> unat rfch"
  shows "handle_pull_resp H gw offset now msg q m = Inl OutOfBounds"
  using assms(11-13) lora_txpk_parsed [OF assms(1-10), of gw tmst rfch ipol]
  by (simp add: handle_pull_resp_def check_tx_def lora_packet_def ld_def json_value_get_object_def Let_def)

theorem pull_resp_bad_chain_witness:
  "handle_pull_resp hal_example gateway_example \<lparr>tv_sec = 0, tv_usec = 0\<rparr> \<lparr>tv_sec = 1, tv_usec = 0\<rparr>
     demo_msg (jit_queue_init hal_example) meas_dw_zero = Inl OutOfBounds"
  by (rule pull_resp_bad_chain_out_of_bounds [where hz = 868100000 and powe = 14 and sf = 9 and bw = 125 and
      cr = 5 and bs = "[1, 2]" and tmst = 2000000 and rfch = 1 and ipol = True, OF _ _ _ _ _ _ _ _ _ _ demo_msg_parsed])
    (simp_all add: hal_example_def gateway_example_def demo_members_def json_object_get_object_def
      json_object_get_value_def json_value_get_object_def)

section \<open>A request that is accepted\<close>

definition two_chains :: gateway where
  "two_chains = gateway_example\<lparr>gw_tx_freq_min := [863000000, 863000000], gw_tx_freq_max := [870000000, 870000000]\<rparr>"

definition demo_run :: "(jit_queue \<times> meas_dw \<times> bytes option) res" where
  "demo_run = handle_pull_resp hal_example two_chains \<lparr>tv_sec = 0, tv_usec = 0\<rparr> \<lparr>tv_sec = 1, tv_usec = 0\<rparr>
     demo_msg (jit_queue_init hal_example) meas_dw_zero"

lemma demo_msg_bytes: "demo_msg ! 1 = 7" "demo_msg ! 2 = 8" "length demo_msg = 154"
  by code_simp+

lemma demo_run_accepts:
  "case demo_run of Inr (q, m, ack) \<Rightarrow> num_pkt q = 1 \<and> meas_nb_tx_requested m = 1 | Inl _ \<Rightarrow> False"
  unfolding demo_run_def handle_pull_resp_def Let_def demo_msg_parsed option.case demo_msg_bytes
  by code_simp

theorem pull_resp_queues_witness:
  "\<exists>q m n. demo_run = Inr (q, m, Some (ack_header 0xAA555A0000000101 7 8)) \<and>
     mset (live q) = add_mset n {#} \<and> radio_supports two_chains (pkt n)"
proof -
  obtain q m ack where run: "demo_run = Inr (q, m, ack)" and n: "num_pkt q = 1"
    using demo_run_accepts by (auto split: sum.splits)
  have ne: "q \<noteq> jit_queue_init hal_example"
    using n by (auto simp: jit_queue_init_def)
  have 0: "live (jit_queue_init hal_example) = []"
    by (simp add: live_def jit_queue_init_def)
  have lgwm: "gw_lgwm two_chains = 0xAA555A0000000101"
    by (simp add: gateway_example_def two_chains_def)
  show ?thesis
    using pull_resp_queues_only_supported [OF jit_queue_init_inv run [unfolded demo_run_def]]
      ne run
    unfolding demo_msg_bytes lgwm 0 by auto
qed

end
