(* ===== verification/Wait_Queue.thy ===== *)
theory Wait_Queue
  imports Fwd_Prelude
begin

text \<open>
  \<open>WaitQueue\<close>, \<open>Queue\<close> and \<open>LogQueue\<close> of \<open>lora_comms.cc\<close>. Every method runs under the queue's mutex, so it
  is one atomic step up to the point where it sleeps on a condition variable. A condition variable is
  the set of the threads that sleep on it: \<open>notify_all\<close> empties it. A method that sleeps is split in the
  step that enters it (\<open>enqueue\<close>, \<open>dequeue\<close>) and the step that runs when the thread wakes up
  (\<open>enqueue_wake\<close>, \<open>dequeue_wake\<close>), which may sleep again.
\<close>

section \<open>State\<close>

text \<open>\<open>errno\<close> of a call that returns -1.\<close>

datatype errno = EAGAIN | EBADF | EMFILE | ENOPROTOOPT | EFAULT | EINVAL

text \<open>What a method does next: it returns, or its thread sleeps.\<close>

datatype 'r outcome = Returned 'r | Asleep

record wait_queue =
  send_cv :: "nat set"
  recv_cv :: "nat set"
  wq :: "bytes list"  \<comment> \<open>\<open>q\<close>, front first\<close>
  wsize :: int  \<comment> \<open>\<open>size\<close>\<close>
  wclosed :: bool  \<comment> \<open>\<open>closed\<close>\<close>
  send_buflen :: nat

type_synonym duration = int  \<comment> \<open>microseconds\<close>

section \<open>WaitQueue\<close>

definition maybe_reset :: "bool \<Rightarrow> 'a wait_queue_scheme \<Rightarrow> 'a wait_queue_scheme" where
  "maybe_reset test Q = (if test then Q\<lparr>wclosed := False\<rparr> else Q)"

definition maybe_close :: "bool \<Rightarrow> 'a wait_queue_scheme \<Rightarrow> 'a wait_queue_scheme" where
  "maybe_close test Q =
     (if test then Q\<lparr>wq := [], wsize := 0, wclosed := True, send_cv := {}, recv_cv := {}\<rparr> else Q)"

text \<open>
  \<open>wait\<close>: what it returns (\<open>None\<close> for 0), or that the thread goes to sleep; \<open>expired\<close> says that the
  \<open>timeout\<close> of a sleeping thread has passed.
\<close>

definition wait_on :: "duration \<Rightarrow> bool \<Rightarrow> bool \<Rightarrow> 'a wait_queue_scheme \<Rightarrow> errno option outcome" where
  "wait_on timeout expired pred Q =
     (if timeout < 0 then
        (if wclosed Q \<or> pred then Returned (if wclosed Q then Some EBADF else None) else Asleep)
      else if timeout = 0 then Returned (Some EAGAIN)
      else if wclosed Q \<or> pred then Returned (if wclosed Q then Some EBADF else None)
      else if expired then Returned (Some EAGAIN)
      else Asleep)"

definition wait_for_hwm :: "int \<Rightarrow> duration \<Rightarrow> bool \<Rightarrow> 'a wait_queue_scheme \<Rightarrow> errno option outcome" where
  "wait_for_hwm hwm timeout expired Q = wait_on timeout expired (wsize Q < hwm) Q"

definition wait_for_not_empty :: "duration \<Rightarrow> bool \<Rightarrow> 'a wait_queue_scheme \<Rightarrow> errno option outcome" where
  "wait_for_not_empty timeout expired Q = wait_on timeout expired (wq Q \<noteq> []) Q"

text \<open>After the wait: sleep on the condition variable, fail, or go on with the action.\<close>

definition after_hwm ::
    "nat \<Rightarrow> ('a wait_queue_scheme \<Rightarrow> (errno + int) \<times> 'a wait_queue_scheme) \<Rightarrow> errno option outcome
     \<Rightarrow> 'a wait_queue_scheme \<Rightarrow> (errno + int) outcome \<times> 'a wait_queue_scheme" where
  "after_hwm t action w Q =
     (case w of
        Asleep \<Rightarrow> (Asleep, Q\<lparr>send_cv := insert t (send_cv Q)\<rparr>)
      | Returned (Some err) \<Rightarrow> (Returned (Inl err), Q)
      | Returned None \<Rightarrow> (let (r, Q) = action Q in (Returned r, Q)))"

definition after_not_empty ::
    "nat \<Rightarrow> ('a wait_queue_scheme \<Rightarrow> 'r \<times> 'a wait_queue_scheme) \<Rightarrow> errno option outcome
     \<Rightarrow> 'a wait_queue_scheme \<Rightarrow> (errno + 'r) outcome \<times> 'a wait_queue_scheme" where
  "after_not_empty t action w Q =
     (case w of
        Asleep \<Rightarrow> (Asleep, Q\<lparr>recv_cv := insert t (recv_cv Q)\<rparr>)
      | Returned (Some err) \<Rightarrow> (Returned (Inl err), Q)
      | Returned None \<Rightarrow> (let (r, Q) = action Q in (Returned (Inr r), Q)))"

definition enqueue ::
    "nat \<Rightarrow> int \<Rightarrow> duration \<Rightarrow> ('a wait_queue_scheme \<Rightarrow> (errno + int) \<times> 'a wait_queue_scheme)
     \<Rightarrow> 'a wait_queue_scheme \<Rightarrow> (errno + int) outcome \<times> 'a wait_queue_scheme" where
  "enqueue t hwm timeout action Q =
     (if wclosed Q then (Returned (Inl EBADF), Q)
      else if hwm = 0 then (Returned (Inr 0), Q)
      else if 0 < hwm \<and> hwm \<le> wsize Q then after_hwm t action (wait_for_hwm hwm timeout False Q) Q
      else (let (r, Q) = action Q in (Returned r, Q)))"

definition enqueue_wake ::
    "nat \<Rightarrow> int \<Rightarrow> duration \<Rightarrow> bool \<Rightarrow> ('a wait_queue_scheme \<Rightarrow> (errno + int) \<times> 'a wait_queue_scheme)
     \<Rightarrow> 'a wait_queue_scheme \<Rightarrow> (errno + int) outcome \<times> 'a wait_queue_scheme" where
  "enqueue_wake t hwm timeout expired action Q =
     (let Q = Q\<lparr>send_cv := send_cv Q - {t}\<rparr> in
      after_hwm t action (wait_for_hwm hwm timeout expired Q) Q)"

text \<open>
  \<open>wait_for_not_empty\<close> is virtual: \<open>wait_ne\<close> is the override of the queue at hand, which may change the
  queue before it waits.
\<close>

definition dequeue ::
    "nat \<Rightarrow> duration \<Rightarrow>
     (duration \<Rightarrow> 'a wait_queue_scheme \<Rightarrow> errno option outcome \<times> 'a wait_queue_scheme) \<Rightarrow>
     ('a wait_queue_scheme \<Rightarrow> 'r \<times> 'a wait_queue_scheme)
     \<Rightarrow> 'a wait_queue_scheme \<Rightarrow> (errno + 'r) outcome \<times> 'a wait_queue_scheme" where
  "dequeue t timeout wait_ne action Q =
     (if wclosed Q then (Returned (Inl EBADF), Q)
      else if wq Q = [] then (let (w, Q) = wait_ne timeout Q in after_not_empty t action w Q)
      else (let (r, Q) = action Q in (Returned (Inr r), Q)))"

definition dequeue_wake ::
    "nat \<Rightarrow> duration \<Rightarrow> bool \<Rightarrow> ('a wait_queue_scheme \<Rightarrow> 'r \<times> 'a wait_queue_scheme)
     \<Rightarrow> 'a wait_queue_scheme \<Rightarrow> (errno + 'r) outcome \<times> 'a wait_queue_scheme" where
  "dequeue_wake t timeout expired action Q =
     (let Q = Q\<lparr>recv_cv := recv_cv Q - {t}\<rparr> in
      after_not_empty t action (wait_for_not_empty timeout expired Q) Q)"

section \<open>Queue\<close>

definition queue_new :: "nat \<Rightarrow> wait_queue" where
  "queue_new buflen =
     \<lparr>send_cv = {}, recv_cv = {}, wq = [], wsize = 0, wclosed = False, send_buflen = buflen\<rparr>"

definition queue_reset :: "wait_queue \<Rightarrow> wait_queue" where
  "queue_reset Q = maybe_reset True Q"

definition queue_close :: "wait_queue \<Rightarrow> wait_queue" where
  "queue_close Q = maybe_close True Q"

text \<open>The lambda of \<open>send\<close>; the caller's buffer \<open>buf\<close> has at least \<open>len\<close> bytes.\<close>

definition push_msg :: "bytes \<Rightarrow> nat \<Rightarrow> 'a wait_queue_scheme \<Rightarrow> (errno + int) \<times> 'a wait_queue_scheme" where
  "push_msg buf len Q =
     (let len2 = min (send_buflen Q) len in
      (Inr (int len2),
       Q\<lparr>wq := wq Q @ [take len2 buf], wsize := wsize Q + int len2, recv_cv := {}\<rparr>))"

text \<open>
  The lambda of \<open>recv\<close>, with the bytes it copies to \<open>buf\<close>. \<open>el\<close> is a reference to the front, and
  \<open>el.size()\<close> is read after \<open>q.pop()\<close> has destroyed it: \<open>stale el\<close> is what the freed vector then holds.
\<close>

definition pop_msg :: "(bytes \<Rightarrow> int) \<Rightarrow> nat \<Rightarrow> 'a wait_queue_scheme \<Rightarrow> bytes \<times> 'a wait_queue_scheme" where
  "pop_msg stale len Q =
     (let el = hd (wq Q); r = min (length el) len in
      (take r el, Q\<lparr>wq := tl (wq Q), wsize := wsize Q - stale el, send_cv := {}\<rparr>))"

definition queue_send ::
    "nat \<Rightarrow> bytes \<Rightarrow> nat \<Rightarrow> int \<Rightarrow> duration \<Rightarrow> 'a wait_queue_scheme
     \<Rightarrow> (errno + int) outcome \<times> 'a wait_queue_scheme" where
  "queue_send t buf len hwm timeout Q = enqueue t hwm timeout (push_msg buf len) Q"

definition queue_send_wake ::
    "nat \<Rightarrow> bytes \<Rightarrow> nat \<Rightarrow> int \<Rightarrow> duration \<Rightarrow> bool \<Rightarrow> 'a wait_queue_scheme
     \<Rightarrow> (errno + int) outcome \<times> 'a wait_queue_scheme" where
  "queue_send_wake t buf len hwm timeout expired Q = enqueue_wake t hwm timeout expired (push_msg buf len) Q"

definition queue_recv ::
    "(bytes \<Rightarrow> int) \<Rightarrow> nat \<Rightarrow> nat \<Rightarrow> duration \<Rightarrow> wait_queue \<Rightarrow> (errno + bytes) outcome \<times> wait_queue" where
  "queue_recv stale t len timeout Q =
     dequeue t timeout (\<lambda>timeout Q. (wait_for_not_empty timeout False Q, Q)) (pop_msg stale len) Q"

definition queue_recv_wake ::
    "(bytes \<Rightarrow> int) \<Rightarrow> nat \<Rightarrow> nat \<Rightarrow> duration \<Rightarrow> bool \<Rightarrow> 'a wait_queue_scheme
     \<Rightarrow> (errno + bytes) outcome \<times> 'a wait_queue_scheme" where
  "queue_recv_wake stale t len timeout expired Q = dequeue_wake t timeout expired (pop_msg stale len) Q"

section \<open>LogQueue\<close>

record log_queue = wait_queue +
  close_pending :: bool
  write_hwm :: int
  write_timeout :: duration

definition log_new :: log_queue where
  "log_new = \<lparr>send_cv = {}, recv_cv = {}, wq = [], wsize = 0, wclosed = False, send_buflen = 1024,
     close_pending = False, write_hwm = -1, write_timeout = -1\<rparr>"

definition log_reset :: "log_queue \<Rightarrow> log_queue" where
  "log_reset Q = maybe_reset True (Q\<lparr>close_pending := False\<rparr>)"

definition log_close :: "bool \<Rightarrow> log_queue \<Rightarrow> log_queue" where
  "log_close immediately Q = (let Q = Q\<lparr>close_pending := True\<rparr> in maybe_close (immediately \<or> wq Q = []) Q)"

text \<open>
  \<open>write\<close>: \<open>vsnprintf\<close> formats to \<open>text\<close>, or fails with a negative number; it stores the first
  \<open>send_buflen\<close> bytes and a NUL, and returns the length of the whole text.
\<close>

definition log_write ::
    "nat \<Rightarrow> int + bytes \<Rightarrow> log_queue \<Rightarrow> (errno + int) outcome \<times> log_queue" where
  "log_write t formatted Q =
     (case formatted of
        Inl n \<Rightarrow> (Returned (Inr n), Q)
      | Inr text \<Rightarrow>
          if text = [] then (Returned (Inr 0), Q)
          else queue_send t (take (send_buflen Q) text @ [0]) (length text) (write_hwm Q) (write_timeout Q) Q)"

definition set_write_hwm :: "int \<Rightarrow> log_queue \<Rightarrow> log_queue" where
  "set_write_hwm hwm Q = Q\<lparr>write_hwm := hwm\<rparr>"

definition set_write_timeout :: "duration \<Rightarrow> log_queue \<Rightarrow> log_queue" where
  "set_write_timeout timeout Q = Q\<lparr>write_timeout := timeout\<rparr>"

definition set_max_msg_size :: "nat \<Rightarrow> log_queue \<Rightarrow> log_queue" where
  "set_max_msg_size max_size Q = Q\<lparr>send_buflen := max_size\<rparr>"

definition get_max_msg_size :: "log_queue \<Rightarrow> nat" where
  "get_max_msg_size Q = send_buflen Q"

text \<open>The override: a pending close takes effect when a reader finds the queue empty.\<close>

definition log_wait_for_not_empty ::
    "duration \<Rightarrow> log_queue \<Rightarrow> errno option outcome \<times> log_queue" where
  "log_wait_for_not_empty timeout Q =
     (if close_pending Q then (Returned (Some EBADF), Q\<lparr>wclosed := True\<rparr>)
      else (wait_for_not_empty timeout False Q, Q))"

definition log_recv ::
    "(bytes \<Rightarrow> int) \<Rightarrow> nat \<Rightarrow> nat \<Rightarrow> duration \<Rightarrow> log_queue \<Rightarrow> (errno + bytes) outcome \<times> log_queue" where
  "log_recv stale t len timeout Q = dequeue t timeout log_wait_for_not_empty (pop_msg stale len) Q"

end
