(* ===== verification/Comms.thy ===== *)
theory Comms
  imports Wait_Queue
begin

text \<open>
  The rest of \<open>lora_comms.cc\<close>: the two links between the forwarder and the program around it, the calls
  that stand for sockets, signals, sleeping and logging inside the forwarder (\<open>mem_*\<close>), and the interface
  of the library. All globals of the file are one record. A call that may block returns an \<open>outcome\<close>;
  \<open>t\<close> is the calling thread.
\<close>

section \<open>Link\<close>

definition to_microseconds :: "timeval option \<Rightarrow> duration" where
  "to_microseconds tv = (case tv of None \<Rightarrow> -1 | Some v \<Rightarrow> tv_sec v * 1000000 + tv_usec v)"

record link =
  from_fwd_send_hwm :: int
  from_fwd_send_timeout :: duration
  to_fwd_recv_timeout :: duration
  from_fwd :: wait_queue
  to_fwd :: wait_queue

definition NB_PKT_MAX :: nat where "NB_PKT_MAX = 8"
definition STATUS_SIZE :: nat where "STATUS_SIZE = 200"
definition TX_BUFF_SIZE :: nat where "TX_BUFF_SIZE = 540 * NB_PKT_MAX + 30 + STATUS_SIZE"
definition RX_BUFF_SIZE :: nat where "RX_BUFF_SIZE = 1000"
definition recv_from_buflen :: nat where "recv_from_buflen = TX_BUFF_SIZE"
definition send_to_buflen :: nat where "send_to_buflen = RX_BUFF_SIZE - 1"

definition link_new :: link where
  "link_new = \<lparr>from_fwd_send_hwm = -1, from_fwd_send_timeout = -1, to_fwd_recv_timeout = -1,
     from_fwd = queue_new recv_from_buflen, to_fwd = queue_new send_to_buflen\<rparr>"

definition link_reset :: "link \<Rightarrow> link" where
  "link_reset l = l\<lparr>from_fwd_send_hwm := -1, from_fwd_send_timeout := -1, to_fwd_recv_timeout := -1,
     from_fwd := queue_reset (from_fwd l), to_fwd := queue_reset (to_fwd l)\<rparr>"

definition link_close :: "link \<Rightarrow> link" where
  "link_close l = l\<lparr>from_fwd := queue_close (from_fwd l), to_fwd := queue_close (to_fwd l)\<rparr>"

definition from_fwd_send :: "nat \<Rightarrow> bytes \<Rightarrow> nat \<Rightarrow> link \<Rightarrow> (errno + int) outcome \<times> link" where
  "from_fwd_send t buf len l =
     (let (r, Q) = queue_send t buf len (from_fwd_send_hwm l) (from_fwd_send_timeout l) (from_fwd l) in
      (r, l\<lparr>from_fwd := Q\<rparr>))"

definition from_fwd_recv ::
    "(bytes \<Rightarrow> int) \<Rightarrow> nat \<Rightarrow> nat \<Rightarrow> duration \<Rightarrow> link \<Rightarrow> (errno + bytes) outcome \<times> link" where
  "from_fwd_recv stale t len timeout l =
     (let (r, Q) = queue_recv stale t len timeout (from_fwd l) in (r, l\<lparr>from_fwd := Q\<rparr>))"

definition to_fwd_send :: "nat \<Rightarrow> bytes \<Rightarrow> nat \<Rightarrow> int \<Rightarrow> duration \<Rightarrow> link \<Rightarrow> (errno + int) outcome \<times> link" where
  "to_fwd_send t buf len hwm timeout l =
     (let (r, Q) = queue_send t buf len hwm timeout (to_fwd l) in (r, l\<lparr>to_fwd := Q\<rparr>))"

definition to_fwd_recv :: "(bytes \<Rightarrow> int) \<Rightarrow> nat \<Rightarrow> nat \<Rightarrow> link \<Rightarrow> (errno + bytes) outcome \<times> link" where
  "to_fwd_recv stale t len l =
     (let (r, Q) = queue_recv stale t len (to_fwd_recv_timeout l) (to_fwd l) in (r, l\<lparr>to_fwd := Q\<rparr>))"

section \<open>Globals\<close>

text \<open>A handler and a logger are function pointers, named by numbers; \<open>Log_To_Queues\<close> is \<open>log_to_queues\<close>.\<close>

datatype logger_fn = Log_To_Queues | Other_Logger nat

record comms =
  next_socket :: int
  links :: "link list"  \<comment> \<open>two: uplink and downlink\<close>
  signal_handler :: "nat option"
  signal_handler_called :: bool
  stop_requested :: bool
  cfg_prefix :: bytes
  logger :: "logger_fn option"
  log_info :: log_queue
  log_error :: log_queue
  exit_sig :: bool
  quit_sig :: bool

definition uplink :: int where "uplink = 0"
definition downlink :: int where "downlink = 1"

definition comms_init :: comms where
  "comms_init = \<lparr>next_socket = uplink, links = [link_new, link_new], signal_handler = None,
     signal_handler_called = False, stop_requested = False, cfg_prefix = [], logger = None,
     log_info = log_new, log_error = log_new, exit_sig = False, quit_sig = False\<rparr>"

definition bad_socket :: "int \<Rightarrow> bool" where
  "bad_socket sockfd \<longleftrightarrow> sockfd < uplink \<or> downlink < sockfd"

text \<open>\<open>links[i]\<close>, read and replaced.\<close>

definition link_at :: "int \<Rightarrow> comms \<Rightarrow> link" where
  "link_at i C = links C ! nat i"

definition set_link :: "int \<Rightarrow> link \<Rightarrow> comms \<Rightarrow> comms" where
  "set_link i l C = C\<lparr>links := (links C)[nat i := l]\<rparr>"

section \<open>Stopping\<close>

text \<open>The handler that is called with \<open>SIGTERM\<close> after the lock is released, if any.\<close>

definition check_stop :: "nat option \<Rightarrow> bool \<Rightarrow> comms \<Rightarrow> nat option \<times> comms" where
  "check_stop handler request_stop C =
     (let C = (if handler \<noteq> None then C\<lparr>signal_handler := handler\<rparr> else C);
          C = (if request_stop then C\<lparr>stop_requested := True\<rparr> else C) in
      if signal_handler C \<noteq> None \<and> stop_requested C \<and> \<not> signal_handler_called C
      then (signal_handler C, C\<lparr>signal_handler_called := True\<rparr>)
      else (None, C))"

text \<open>A thread's start routine that ended normally or in the \<open>ExitException\<close> of \<open>mem_exit\<close>.\<close>

definition with_catcher :: "'a res \<Rightarrow> comms \<Rightarrow> 'a option res \<times> nat option \<times> comms" where
  "with_catcher r C =
     (case r of
        Inl ExitCall \<Rightarrow> (let (h, C) = check_stop None True C in (Inr None, h, C))
      | Inl e \<Rightarrow> (Inl e, None, C)
      | Inr x \<Rightarrow> (Inr (Some x), None, C))"

definition mem_sigaction :: "bool \<Rightarrow> nat option option \<Rightarrow> comms \<Rightarrow> nat option \<times> comms" where
  "mem_sigaction is_SIGTERM act C =
     (case act of Some sa_handler \<Rightarrow> if is_SIGTERM then check_stop sa_handler False C else (None, C)
        | None \<Rightarrow> (None, C))"

definition stop :: "comms \<Rightarrow> nat option \<times> comms" where
  "stop C = check_stop None True C"

section \<open>Sockets\<close>

definition mem_socket :: "comms \<Rightarrow> (errno + int) \<times> comms" where
  "mem_socket C =
     (if downlink < next_socket C then (Inl EMFILE, C)
      else let C' = set_link (next_socket C) (link_reset (link_at (next_socket C) C)) C in
           (Inr (next_socket C), C'\<lparr>next_socket := next_socket C + 1\<rparr>))"

definition mem_connect :: "int \<Rightarrow> errno + int" where
  "mem_connect sockfd = (if bad_socket sockfd then Inl EBADF else Inr 0)"

definition mem_setsockopt ::
    "int \<Rightarrow> bool \<Rightarrow> bool \<Rightarrow> timeval option \<Rightarrow> bool \<Rightarrow> comms \<Rightarrow> (errno + int) \<times> comms" where
  "mem_setsockopt sockfd level_SOL_SOCKET optname_SO_RCVTIMEO optval optlen_timeval C =
     (if bad_socket sockfd then (Inl EBADF, C)
      else if \<not> optname_SO_RCVTIMEO then (Inl ENOPROTOOPT, C)
      else case optval of
        None \<Rightarrow> (Inl EFAULT, C)
      | Some tv \<Rightarrow>
          if \<not> level_SOL_SOCKET \<or> \<not> optlen_timeval then (Inl EINVAL, C)
          else
            (let timeout = to_microseconds (if tv_sec tv \<noteq> 0 \<or> tv_usec tv \<noteq> 0 then Some tv else None) in
             (Inr 0, set_link sockfd ((link_at sockfd C)\<lparr>to_fwd_recv_timeout := timeout\<rparr>) C)))"

definition mem_send :: "nat \<Rightarrow> int \<Rightarrow> bytes \<Rightarrow> nat \<Rightarrow> comms \<Rightarrow> (errno + int) outcome \<times> comms" where
  "mem_send t sockfd buf len C =
     (if bad_socket sockfd then (Returned (Inl EBADF), C)
      else let (r, l) = from_fwd_send t buf len (link_at sockfd C) in (r, set_link sockfd l C))"

definition mem_recv ::
    "(bytes \<Rightarrow> int) \<Rightarrow> nat \<Rightarrow> int \<Rightarrow> nat \<Rightarrow> comms \<Rightarrow> (errno + bytes) outcome \<times> comms" where
  "mem_recv stale t sockfd len C =
     (if bad_socket sockfd then (Returned (Inl EBADF), C)
      else let (r, l) = to_fwd_recv stale t len (link_at sockfd C) in (r, set_link sockfd l C))"

definition mem_shutdown :: "int \<Rightarrow> errno + int" where
  "mem_shutdown sockfd = (if bad_socket sockfd then Inl EBADF else Inr 0)"

definition mem_path :: "bytes \<Rightarrow> comms \<Rightarrow> bytes" where
  "mem_path pathname C = cfg_prefix C @ pathname"

section \<open>Sleeping and reading\<close>

text \<open>
  \<open>mem_wait_ms\<close>: the slices \<open>(seconds, nanoseconds)\<close> it sleeps. \<open>called i\<close> is \<open>signal_handler_called\<close> as
  seen before slice \<open>i\<close>, \<open>failed i\<close> says that \<open>clock_nanosleep\<close> did not sleep slice \<open>i\<close> to its end.
\<close>

function wait_slices ::
    "(nat \<Rightarrow> bool) \<Rightarrow> (nat \<Rightarrow> bool) \<Rightarrow> nat \<Rightarrow> int \<Rightarrow> int \<Rightarrow> (int \<times> int) list" where
  "wait_slices called failed i dly_sec dly_nsec =
     (if 0 < dly_sec \<or> dly_sec = 0 \<and> 100000 < dly_nsec then
        (if called i then []
         else
           (let slp_sec = min dly_sec 1 in
            (slp_sec, dly_nsec) #
            (if failed i then [] else wait_slices called failed (Suc i) (dly_sec - slp_sec) 0)))
      else [])"
  by pat_completeness auto
termination
  by (relation "measure (\<lambda>(called, failed, i, sec, nsec). nat (2 * sec + (if 0 < nsec then 1 else 0)))") auto

declare wait_slices.simps [simp del]

definition mem_wait_ms :: "(nat \<Rightarrow> bool) \<Rightarrow> (nat \<Rightarrow> bool) \<Rightarrow> nat \<Rightarrow> (int \<times> int) list" where
  "mem_wait_ms called failed a =
     wait_slices called failed 0 (int (a div 1000)) (int (a mod 1000) * 1000000)"

text \<open>
  \<open>mem_read\<close> polls until the descriptor is ready or the handler has been called; each element is one
  round (\<open>signal_handler_called\<close>, \<open>poll > 0\<close>). \<open>None\<close>: still polling after these rounds. \<open>r\<close> is what
  \<open>read\<close> returns.
\<close>

fun mem_read :: "(bool \<times> bool) list \<Rightarrow> int \<Rightarrow> int option" where
  "mem_read [] r = None"
| "mem_read ((called, ready) # rounds) r =
     (if called then Some 0 else if ready then Some r else mem_read rounds r)"

section \<open>Logging\<close>

datatype stream = Stdout | Stderr | Other_Stream

text \<open>\<open>formatted\<close> is what \<open>vsnprintf\<close> makes of the format and its arguments, see \<open>log_write\<close>.\<close>

definition log_to_queues ::
    "nat \<Rightarrow> stream \<Rightarrow> int + bytes \<Rightarrow> comms \<Rightarrow> (errno + int) outcome \<times> comms" where
  "log_to_queues t stream formatted C =
     (if stream = Stdout
      then let (r, Q) = log_write t formatted (log_info C) in (r, C\<lparr>log_info := Q\<rparr>)
      else let (r, Q) = log_write t formatted (log_error C) in (r, C\<lparr>log_error := Q\<rparr>))"

text \<open>
  \<open>log\<close>, the body of \<open>mem_printf\<close> and \<open>mem_fprintf\<close>. \<open>user\<close> is what a logger of the program or \<open>vfprintf\<close>
  on another stream returns.
\<close>

definition log_msg ::
    "int \<Rightarrow> nat \<Rightarrow> stream \<Rightarrow> int + bytes \<Rightarrow> comms \<Rightarrow> (errno + int) outcome \<times> comms" where
  "log_msg user t stream formatted C =
     (if stream = Other_Stream then (Returned (Inr user), C)
      else case logger C of
        None \<Rightarrow> (Returned (Inr 0), C)
      | Some Log_To_Queues \<Rightarrow> log_to_queues t stream formatted C
      | Some (Other_Logger f) \<Rightarrow> (Returned (Inr user), C))"

definition mem_printf :: "int \<Rightarrow> nat \<Rightarrow> int + bytes \<Rightarrow> comms \<Rightarrow> (errno + int) outcome \<times> comms" where
  "mem_printf user t formatted C = log_msg user t Stdout formatted C"

definition mem_fprintf :: "int \<Rightarrow> nat \<Rightarrow> stream \<Rightarrow> int + bytes \<Rightarrow> comms \<Rightarrow> (errno + int) outcome \<times> comms" where
  "mem_fprintf user t stream formatted C = log_msg user t stream formatted C"

section \<open>The interface of the library\<close>

text \<open>
  \<open>main\<close> is \<open>lora_pkt_fwd_main\<close> as a function on the globals: \<open>Some status\<close> when it is left by the
  exception of \<open>mem_exit\<close>.
\<close>

definition start :: "bytes option \<Rightarrow> (comms \<Rightarrow> int option \<times> comms) \<Rightarrow> comms \<Rightarrow> int \<times> comms" where
  "start cfg_dir main C =
     (let C = (case cfg_dir of Some d \<Rightarrow> C\<lparr>cfg_prefix := d @ lit ''/''\<rparr> | None \<Rightarrow> C\<lparr>cfg_prefix := []\<rparr>);
          (ended, C) = main C;
          r = (case ended of None \<Rightarrow> 0 | Some status \<Rightarrow> status);
          C = set_link uplink (link_close (link_at uplink C)) C;
          C = set_link downlink (link_close (link_at downlink C)) C
      in (r, C))"

definition reset :: "comms \<Rightarrow> comms" where
  "reset C =
     (let C = C\<lparr>next_socket := uplink\<rparr>;
          C = set_link uplink (link_reset (link_at uplink C)) C;
          C = set_link downlink (link_reset (link_at downlink C)) C
      in C\<lparr>signal_handler := None, signal_handler_called := False, stop_requested := False,
           exit_sig := False, quit_sig := False\<rparr>)"

definition recv_from ::
    "(bytes \<Rightarrow> int) \<Rightarrow> nat \<Rightarrow> int \<Rightarrow> nat \<Rightarrow> timeval option \<Rightarrow> comms \<Rightarrow> (errno + bytes) outcome \<times> comms" where
  "recv_from stale t lnk len timeout C =
     (if bad_socket lnk then (Returned (Inl EINVAL), C)
      else let (r, l) = from_fwd_recv stale t len (to_microseconds timeout) (link_at lnk C) in
           (r, set_link lnk l C))"

definition send_to ::
    "nat \<Rightarrow> int \<Rightarrow> bytes \<Rightarrow> nat \<Rightarrow> int \<Rightarrow> timeval option \<Rightarrow> comms \<Rightarrow> (errno + int) outcome \<times> comms" where
  "send_to t lnk buf len hwm timeout C =
     (if bad_socket lnk then (Returned (Inl EINVAL), C)
      else let (r, l) = to_fwd_send t buf len hwm (to_microseconds timeout) (link_at lnk C) in
           (r, set_link lnk l C))"

definition set_gw_send_hwm :: "int \<Rightarrow> int \<Rightarrow> comms \<Rightarrow> comms" where
  "set_gw_send_hwm lnk hwm C =
     (if bad_socket lnk then C else set_link lnk ((link_at lnk C)\<lparr>from_fwd_send_hwm := hwm\<rparr>) C)"

definition set_gw_send_timeout :: "int \<Rightarrow> timeval option \<Rightarrow> comms \<Rightarrow> comms" where
  "set_gw_send_timeout lnk timeout C =
     (if bad_socket lnk then C
      else set_link lnk ((link_at lnk C)\<lparr>from_fwd_send_timeout := to_microseconds timeout\<rparr>) C)"

definition set_gw_recv_timeout :: "int \<Rightarrow> timeval option \<Rightarrow> comms \<Rightarrow> comms" where
  "set_gw_recv_timeout lnk timeout C =
     (if bad_socket lnk then C
      else set_link lnk ((link_at lnk C)\<lparr>to_fwd_recv_timeout := to_microseconds timeout\<rparr>) C)"

definition set_logger :: "logger_fn option \<Rightarrow> comms \<Rightarrow> comms" where
  "set_logger f C = C\<lparr>logger := f\<rparr>"

definition close_log_queues :: "bool \<Rightarrow> comms \<Rightarrow> comms" where
  "close_log_queues immediately C =
     C\<lparr>log_info := log_close immediately (log_info C), log_error := log_close immediately (log_error C)\<rparr>"

definition reset_log_queues :: "comms \<Rightarrow> comms" where
  "reset_log_queues C = C\<lparr>log_info := log_reset (log_info C), log_error := log_reset (log_error C)\<rparr>"

definition get_log_info_message ::
    "(bytes \<Rightarrow> int) \<Rightarrow> nat \<Rightarrow> nat \<Rightarrow> timeval option \<Rightarrow> comms \<Rightarrow> (errno + bytes) outcome \<times> comms" where
  "get_log_info_message stale t len timeout C =
     (let (r, Q) = log_recv stale t len (to_microseconds timeout) (log_info C) in (r, C\<lparr>log_info := Q\<rparr>))"

definition get_log_error_message ::
    "(bytes \<Rightarrow> int) \<Rightarrow> nat \<Rightarrow> nat \<Rightarrow> timeval option \<Rightarrow> comms \<Rightarrow> (errno + bytes) outcome \<times> comms" where
  "get_log_error_message stale t len timeout C =
     (let (r, Q) = log_recv stale t len (to_microseconds timeout) (log_error C) in (r, C\<lparr>log_error := Q\<rparr>))"

definition set_log_write_hwm :: "int \<Rightarrow> comms \<Rightarrow> comms" where
  "set_log_write_hwm hwm C =
     C\<lparr>log_info := set_write_hwm hwm (log_info C), log_error := set_write_hwm hwm (log_error C)\<rparr>"

definition set_log_write_timeout :: "timeval option \<Rightarrow> comms \<Rightarrow> comms" where
  "set_log_write_timeout timeout C =
     (let timeout_ms = to_microseconds timeout in
      C\<lparr>log_info := set_write_timeout timeout_ms (log_info C),
        log_error := set_write_timeout timeout_ms (log_error C)\<rparr>)"

definition set_log_max_msg_size :: "nat \<Rightarrow> comms \<Rightarrow> comms" where
  "set_log_max_msg_size max_size C =
     C\<lparr>log_info := set_max_msg_size max_size (log_info C), log_error := set_max_msg_size max_size (log_error C)\<rparr>"

definition get_log_max_msg_size :: "comms \<Rightarrow> nat" where
  "get_log_max_msg_size C = max (get_max_msg_size (log_info C)) (get_max_msg_size (log_error C))"

end
