(* ===== verification/Wait_Queue_Runs.thy ===== *)
theory Wait_Queue_Runs
  imports Wait_Queue
begin

text \<open>
  Threads that share one queue, as a step relation: a thread enters \<open>send\<close> or \<open>recv\<close>, a sleeping thread
  wakes up (because it was notified, its timeout passed, or spuriously, as C++ allows), the queue is
  closed, reset or reconfigured. Every call that returns leaves an event with what it was given and what
  it returned; \<open>fifo_run\<close> says which sequences of events a FIFO channel shows. What \<open>recv\<close> reads as the
  size of the element it has freed is open in every step.
\<close>

section \<open>Calls and events\<close>

text \<open>
  A call whose thread sleeps: the message the caller wants to send, the buffer and the other arguments of
  \<open>send\<close>; or the arguments of \<open>recv\<close>.
\<close>

datatype call = Sending bytes bytes nat int duration | Receiving nat duration

datatype event =
    Ev_Send bytes nat int "errno + int"  \<comment> \<open>message, \<open>len\<close>, \<open>hwm\<close>, result\<close>
  | Ev_Recv nat "errno + bytes"  \<comment> \<open>\<open>len\<close>, result with the bytes copied\<close>
  | Ev_Close bool  \<comment> \<open>whether it drops the messages\<close>

text \<open>
  The abstract channel: a send with a high-water mark other than 0 that does not fail appends the message, cut to
  \<open>b\<close> bytes, and returns how many it took; a receive that does not fail returns the first message, cut to
  the reader's buffer, and removes it; a close may drop all messages. \<open>None\<close>: no FIFO channel does this.
\<close>

fun fifo_step :: "nat \<Rightarrow> event \<Rightarrow> bytes list \<Rightarrow> bytes list option" where
  "fifo_step b (Ev_Send msg len hwm (Inr n)) q =
     (if hwm = 0 then Some q
      else if n = int (min b len) then Some (q @ [take (min b len) msg]) else None)"
| "fifo_step b (Ev_Send msg len hwm (Inl e)) q = Some q"
| "fifo_step b (Ev_Recv len (Inr bs)) q =
     (case q of [] \<Rightarrow> None | m # q' \<Rightarrow> if bs = take len m then Some q' else None)"
| "fifo_step b (Ev_Recv len (Inl e)) q = Some q"
| "fifo_step b (Ev_Close drops) q = Some (if drops then [] else q)"

fun fifo_run :: "nat \<Rightarrow> event list \<Rightarrow> bytes list \<Rightarrow> bytes list option" where
  "fifo_run b [] q = Some q"
| "fifo_run b (e # es) q = (case fifo_step b e q of None \<Rightarrow> None | Some q' \<Rightarrow> fifo_run b es q')"

lemma fifo_run_append:
  "fifo_run b (es @ es') q = (case fifo_run b es q of None \<Rightarrow> None | Some q' \<Rightarrow> fifo_run b es' q')"
  by (induction es arbitrary: q) (auto split: option.splits)

section \<open>Threads and steps\<close>

record 'q conc =
  queue :: 'q
  asleep :: "nat \<Rightarrow> call option"
  events :: "event list"

datatype label = LSend nat | LRecv nat | LWake nat | LTimeout nat | LClose bool | LReset | LTune

definition settle :: "nat \<Rightarrow> call \<Rightarrow> 'r outcome \<Rightarrow> (nat \<Rightarrow> call option) \<Rightarrow> nat \<Rightarrow> call option" where
  "settle t c out f = f(t := (case out of Asleep \<Rightarrow> Some c | Returned _ \<Rightarrow> None))"

definition noted :: "('r \<Rightarrow> event) \<Rightarrow> 'r outcome \<Rightarrow> event list" where
  "noted ev out = (case out of Asleep \<Rightarrow> [] | Returned r \<Rightarrow> [ev r])"

definition after_call :: "nat \<Rightarrow> call \<Rightarrow> ('r \<Rightarrow> event) \<Rightarrow> 'r outcome \<times> 'q \<Rightarrow> 'q conc \<Rightarrow> 'q conc" where
  "after_call t c ev r s =
     s\<lparr>queue := snd r, asleep := settle t c (fst r) (asleep s), events := events s @ noted ev (fst r)\<rparr>"

definition after_close :: "bool \<Rightarrow> 'q \<Rightarrow> 'q conc \<Rightarrow> 'q conc" where
  "after_close drops Q s = s\<lparr>queue := Q, events := events s @ [Ev_Close drops]\<rparr>"

text \<open>
  The steps of a queue class: \<open>send\<close> is its operation that sends, with what the caller gives it;
  \<open>args\<close> are the arguments of \<open>Queue::send\<close> that it comes to.
\<close>

inductive qstep ::
    "('c \<Rightarrow> bool) \<Rightarrow> ('c \<Rightarrow> 'a wait_queue_scheme \<Rightarrow> bytes \<times> bytes \<times> nat \<times> int \<times> duration) \<Rightarrow>
     (nat \<Rightarrow> 'c \<Rightarrow> 'a wait_queue_scheme \<Rightarrow> (errno + int) outcome \<times> 'a wait_queue_scheme) \<Rightarrow>
     ((bytes \<Rightarrow> int) \<Rightarrow> nat \<Rightarrow> nat \<Rightarrow> duration \<Rightarrow> 'a wait_queue_scheme \<Rightarrow> (errno + bytes) outcome \<times> 'a wait_queue_scheme) \<Rightarrow>
     ('k \<Rightarrow> bool) \<Rightarrow> ('k \<Rightarrow> 'a wait_queue_scheme \<Rightarrow> 'a wait_queue_scheme) \<Rightarrow>
     ('a wait_queue_scheme \<Rightarrow> 'a wait_queue_scheme) \<Rightarrow>
     ('a wait_queue_scheme \<Rightarrow> 'a wait_queue_scheme \<Rightarrow> bool) \<Rightarrow>
     'a wait_queue_scheme conc \<Rightarrow> label \<Rightarrow> 'a wait_queue_scheme conc \<Rightarrow> bool"
  for valid args send recv drops close reset tune where
  send_call: "asleep s t = None \<Longrightarrow> valid c \<Longrightarrow> args c (queue s) = (msg, buf, len, hwm, timeout) \<Longrightarrow>
    qstep valid args send recv drops close reset tune s (LSend t)
      (after_call t (Sending msg buf len hwm timeout) (Ev_Send msg len hwm) (send t c (queue s)) s)"
| recv_call: "asleep s t = None \<Longrightarrow>
    qstep valid args send recv drops close reset tune s (LRecv t)
      (after_call t (Receiving len timeout) (Ev_Recv len) (recv stale t len timeout (queue s)) s)"
| send_wake: "asleep s t = Some (Sending msg buf len hwm timeout) \<Longrightarrow> expired \<longrightarrow> 0 \<le> timeout \<Longrightarrow>
    qstep valid args send recv drops close reset tune s (if expired then LTimeout t else LWake t)
      (after_call t (Sending msg buf len hwm timeout) (Ev_Send msg len hwm)
        (queue_send_wake t buf len hwm timeout expired (queue s)) s)"
| recv_wake: "asleep s t = Some (Receiving len timeout) \<Longrightarrow> expired \<longrightarrow> 0 \<le> timeout \<Longrightarrow>
    qstep valid args send recv drops close reset tune s (if expired then LTimeout t else LWake t)
      (after_call t (Receiving len timeout) (Ev_Recv len)
        (queue_recv_wake stale t len timeout expired (queue s)) s)"
| closing: "qstep valid args send recv drops close reset tune s (LClose (drops k))
    (after_close (drops k) (close k (queue s)) s)"
| resetting: "qstep valid args send recv drops close reset tune s LReset (s\<lparr>queue := reset (queue s)\<rparr>)"
| tuning: "tune (queue s) Q \<Longrightarrow> qstep valid args send recv drops close reset tune s LTune (s\<lparr>queue := Q\<rparr>)"

inductive qruns ::
    "('s \<Rightarrow> label \<Rightarrow> 's \<Rightarrow> bool) \<Rightarrow> 's \<Rightarrow> label list \<Rightarrow> 's \<Rightarrow> bool" for step where
  qruns_nil: "qruns step s [] s"
| qruns_snoc: "qruns step s ls s' \<Longrightarrow> step s' l s'' \<Longrightarrow> qruns step s (ls @ [l]) s''"

definition conc_init :: "'q \<Rightarrow> 'q conc" where
  "conc_init Q = \<lparr>queue = Q, asleep = (\<lambda>_. None), events = []\<rparr>"

text \<open>Threads on a \<open>Queue\<close>: the buffer given to \<open>send\<close> has at least \<open>len\<close> bytes, and \<open>close\<close> drops all.\<close>

type_synonym send_args = "bytes \<times> nat \<times> int \<times> duration"

definition queue_valid :: "send_args \<Rightarrow> bool" where
  "queue_valid c = (case c of (buf, len, hwm, timeout) \<Rightarrow> len \<le> length buf)"

definition queue_args :: "send_args \<Rightarrow> 'a wait_queue_scheme \<Rightarrow> bytes \<times> bytes \<times> nat \<times> int \<times> duration" where
  "queue_args c Q = (case c of (buf, len, hwm, timeout) \<Rightarrow> (buf, buf, len, hwm, timeout))"

definition queue_send_call :: "nat \<Rightarrow> send_args \<Rightarrow> 'a wait_queue_scheme \<Rightarrow> (errno + int) outcome \<times> 'a wait_queue_scheme" where
  "queue_send_call t c Q = (case c of (buf, len, hwm, timeout) \<Rightarrow> queue_send t buf len hwm timeout Q)"

definition queue_step :: "wait_queue conc \<Rightarrow> label \<Rightarrow> wait_queue conc \<Rightarrow> bool" where
  "queue_step = qstep queue_valid queue_args queue_send_call queue_recv (\<lambda>_ :: unit. True) (\<lambda>_. queue_close)
     queue_reset (\<lambda>_ _. False)"

text \<open>
  Threads on a \<open>LogQueue\<close>: \<open>log_write\<close> sends the formatted text, from a buffer it has filled with as much as
  fits; a text that could not be formatted or is empty is not sent. High-water mark and timeout may be
  changed at any time. (Raising the maximal size while a writer sleeps would make it read past its
  buffer, and is left out.)
\<close>

definition log_args :: "int + bytes \<Rightarrow> log_queue \<Rightarrow> bytes \<times> bytes \<times> nat \<times> int \<times> duration" where
  "log_args formatted Q =
     (case formatted of
        Inl n \<Rightarrow> ([], [], 0, 0, 0)
      | Inr text \<Rightarrow>
          if text = [] then ([], [], 0, 0, 0)
          else (text, take (send_buflen Q) text @ [0], length text, write_hwm Q, write_timeout Q))"

definition log_tune :: "log_queue \<Rightarrow> log_queue \<Rightarrow> bool" where
  "log_tune Q Q' \<longleftrightarrow> (\<exists>h. Q' = set_write_hwm h Q) \<or> (\<exists>d. Q' = set_write_timeout d Q)"

definition log_step :: "log_queue conc \<Rightarrow> label \<Rightarrow> log_queue conc \<Rightarrow> bool" where
  "log_step = qstep (\<lambda>_. True) log_args log_write log_recv (\<lambda>immediately. immediately) log_close log_reset log_tune"

section \<open>Single operations\<close>

lemma push_msg_simps [simp]:
  "wq (snd (push_msg buf len Q)) = wq Q @ [take (min (send_buflen Q) len) buf]"
  "wsize (snd (push_msg buf len Q)) = wsize Q + int (min (send_buflen Q) len)"
  "wclosed (snd (push_msg buf len Q)) = wclosed Q"
  "send_cv (snd (push_msg buf len Q)) = send_cv Q" "recv_cv (snd (push_msg buf len Q)) = {}"
  "send_buflen (snd (push_msg buf len Q)) = send_buflen Q"
  "fst (push_msg buf len Q) = Inr (int (min (send_buflen Q) len))"
  by (simp_all add: push_msg_def Let_def)

lemma pop_msg_simps [simp]:
  "wq (snd (pop_msg stale len Q)) = tl (wq Q)"
  "wsize (snd (pop_msg stale len Q)) = wsize Q - stale (hd (wq Q))"
  "wclosed (snd (pop_msg stale len Q)) = wclosed Q"
  "send_cv (snd (pop_msg stale len Q)) = {}" "recv_cv (snd (pop_msg stale len Q)) = recv_cv Q"
  "send_buflen (snd (pop_msg stale len Q)) = send_buflen Q"
  "fst (pop_msg stale len Q) = take len (hd (wq Q))"
  by (simp_all add: pop_msg_def Let_def min_def)

text \<open>The three things a call of \<open>send\<close> does: it stores the message, sleeps, or fails.\<close>

definition stored :: "bytes \<Rightarrow> nat \<Rightarrow> 'a wait_queue_scheme \<Rightarrow> (errno + int) outcome \<times> 'a wait_queue_scheme" where
  "stored buf len Q = (Returned (fst (push_msg buf len Q)), snd (push_msg buf len Q))"

lemma queue_send_cases:
  obtains (failed) r where "queue_send t buf len hwm timeout Q = (Returned r, Q)" "hwm = 0 \<or> (\<exists>e. r = Inl e)"
  | (stored) "queue_send t buf len hwm timeout Q = stored buf len Q" "\<not> wclosed Q" "hwm < 0 \<or> wsize Q < hwm" "hwm \<noteq> 0"
  | (asleep) "queue_send t buf len hwm timeout Q = (Asleep, Q\<lparr>send_cv := insert t (send_cv Q)\<rparr>)"
      "\<not> wclosed Q" "0 < hwm" "hwm \<le> wsize Q" "timeout \<noteq> 0"
proof -
  consider "wclosed Q" | "\<not> wclosed Q" "hwm = 0" | "\<not> wclosed Q" "hwm \<noteq> 0" "\<not> (0 < hwm \<and> hwm \<le> wsize Q)"
    | "\<not> wclosed Q" "0 < hwm" "hwm \<le> wsize Q" "timeout = 0" | "\<not> wclosed Q" "0 < hwm" "hwm \<le> wsize Q" "timeout \<noteq> 0"
    by blast
  then show ?thesis
    by cases (use that in \<open>auto simp: queue_send_def enqueue_def after_hwm_def wait_for_hwm_def wait_on_def
      stored_def case_prod_unfold not_le not_less\<close>)
qed

abbreviation off_send :: "nat \<Rightarrow> 'a wait_queue_scheme \<Rightarrow> 'a wait_queue_scheme" where
  "off_send t Q \<equiv> Q\<lparr>send_cv := send_cv Q - {t}\<rparr>"

abbreviation off_recv :: "nat \<Rightarrow> 'a wait_queue_scheme \<Rightarrow> 'a wait_queue_scheme" where
  "off_recv t Q \<equiv> Q\<lparr>recv_cv := recv_cv Q - {t}\<rparr>"

lemma queue_send_wake_cases:
  obtains (failed) e where "queue_send_wake t buf len hwm timeout expired Q = (Returned (Inl e), off_send t Q)"
      "wclosed Q \<or> timeout = 0 \<or> expired"
  | (stored) "queue_send_wake t buf len hwm timeout expired Q = stored buf len (off_send t Q)"
      "\<not> wclosed Q" "wsize Q < hwm"
  | (asleep) "queue_send_wake t buf len hwm timeout expired Q = (Asleep, Q\<lparr>send_cv := insert t (send_cv Q)\<rparr>)"
      "\<not> wclosed Q" "hwm \<le> wsize Q"
proof -
  consider "timeout = 0" | "timeout \<noteq> 0" "wclosed Q" | "timeout \<noteq> 0" "\<not> wclosed Q" "wsize Q < hwm"
    | "0 < timeout" "\<not> wclosed Q" "hwm \<le> wsize Q" "expired"
    | "timeout < 0 \<or> 0 < timeout \<and> \<not> expired" "\<not> wclosed Q" "hwm \<le> wsize Q"
    by linarith
  then show ?thesis
    by cases (use that in \<open>auto simp: queue_send_wake_def enqueue_wake_def after_hwm_def wait_for_hwm_def wait_on_def
      stored_def case_prod_unfold Let_def\<close>)
qed

definition popped :: "(bytes \<Rightarrow> int) \<Rightarrow> nat \<Rightarrow> 'a wait_queue_scheme
    \<Rightarrow> (errno + bytes) outcome \<times> 'a wait_queue_scheme" where
  "popped stale len Q = (Returned (Inr (fst (pop_msg stale len Q))), snd (pop_msg stale len Q))"

lemma queue_recv_wake_cases:
  obtains (failed) e where "queue_recv_wake stale t len timeout expired Q = (Returned (Inl e), off_recv t Q)"
      "wclosed Q \<or> timeout = 0 \<or> expired"
  | (popped) "queue_recv_wake stale t len timeout expired Q = popped stale len (off_recv t Q)"
      "\<not> wclosed Q" "wq Q \<noteq> []"
  | (asleep) "queue_recv_wake stale t len timeout expired Q = (Asleep, Q\<lparr>recv_cv := insert t (recv_cv Q)\<rparr>)"
      "\<not> wclosed Q" "wq Q = []"
proof -
  consider "timeout = 0" | "timeout \<noteq> 0" "wclosed Q" | "timeout \<noteq> 0" "\<not> wclosed Q" "wq Q \<noteq> []"
    | "0 < timeout" "\<not> wclosed Q" "wq Q = []" "expired"
    | "timeout < 0 \<or> 0 < timeout \<and> \<not> expired" "\<not> wclosed Q" "wq Q = []"
    by linarith
  then show ?thesis
    by cases (use that in \<open>auto simp: queue_recv_wake_def dequeue_wake_def after_not_empty_def
      wait_for_not_empty_def wait_on_def popped_def case_prod_unfold Let_def\<close>)
qed

end
