(* ===== verification/Wait_Queue_Class.thy ===== *)
theory Wait_Queue_Class
  imports Wait_Queue_Runs
begin

text \<open>
  The interface of the queue classes and what follows from it for every run of threads: the events of a
  run are those of a FIFO channel that holds what the queue holds; and where readers do not close the
  queue themselves, a thread that sleeps without having been notified has nothing to do.
\<close>

section \<open>Invariants\<close>

text \<open>
  A call that sleeps has a timeout that lets it sleep; a sender has a positive high-water mark, and its buffer
  holds the part of the message that \<open>send\<close> takes.
\<close>

definition call_ok :: "nat \<Rightarrow> call \<Rightarrow> bool" where
  "call_ok b c = (case c of
       Sending msg buf len hwm timeout \<Rightarrow> 0 < hwm \<and> timeout \<noteq> 0 \<and> take (min b len) buf = take (min b len) msg
     | Receiving len timeout \<Rightarrow> timeout \<noteq> 0)"

definition calls_ok :: "nat \<Rightarrow> (nat \<Rightarrow> call option) \<Rightarrow> bool" where
  "calls_ok b f \<longleftrightarrow> (\<forall>t c. f t = Some c \<longrightarrow> call_ok b c)"

lemma calls_okD: "calls_ok b f \<Longrightarrow> f t = Some c \<Longrightarrow> call_ok b c"
  by (auto simp: calls_ok_def)

lemma calls_ok_settle: "calls_ok b f \<Longrightarrow> (out = Asleep \<Longrightarrow> call_ok b c) \<Longrightarrow> calls_ok b (settle t c out f)"
  by (auto simp: calls_ok_def settle_def split: outcome.splits)

definition fifo_inv :: "nat \<Rightarrow> 'a wait_queue_scheme conc \<Rightarrow> bool" where
  "fifo_inv b s \<longleftrightarrow> fifo_run b (events s) [] = Some (wq (queue s)) \<and> send_buflen (queue s) = b \<and> calls_ok b (asleep s)"

text \<open>A sender on the condition variable is blocked by its high-water mark, a reader by an empty queue.\<close>

definition blocked_sender :: "'a wait_queue_scheme \<Rightarrow> call option \<Rightarrow> bool" where
  "blocked_sender Q c = (case c of Some (Sending msg buf len hwm timeout) \<Rightarrow> 0 < hwm \<and> hwm \<le> wsize Q \<and> \<not> wclosed Q
     | _ \<Rightarrow> False)"

definition blocked_reader :: "'a wait_queue_scheme \<Rightarrow> call option \<Rightarrow> bool" where
  "blocked_reader Q c = (case c of Some (Receiving len timeout) \<Rightarrow> wq Q = [] | _ \<Rightarrow> False)"

lemmas blocked_defs = blocked_sender_def blocked_reader_def

definition senders_ok :: "'a wait_queue_scheme conc \<Rightarrow> bool" where
  "senders_ok s \<longleftrightarrow> (\<forall>t \<in> send_cv (queue s). blocked_sender (queue s) (asleep s t))"

definition readers_ok :: "'a wait_queue_scheme conc \<Rightarrow> bool" where
  "readers_ok s \<longleftrightarrow> (\<forall>t \<in> recv_cv (queue s). blocked_reader (queue s) (asleep s t))"

lemma blocked_simps [simp]:
  "blocked_sender Q (Some (Sending msg buf len hwm timeout)) \<longleftrightarrow> 0 < hwm \<and> hwm \<le> wsize Q \<and> \<not> wclosed Q"
  "blocked_reader Q (Some (Receiving len timeout)) \<longleftrightarrow> wq Q = []"
  by (simp_all add: blocked_defs)

lemma blocked_mono:
  "blocked_sender Q c \<Longrightarrow> wsize Q \<le> wsize Q' \<Longrightarrow> wclosed Q' \<longrightarrow> wclosed Q \<Longrightarrow> blocked_sender Q' c"
  "blocked_reader Q c \<Longrightarrow> wq Q' = wq Q \<Longrightarrow> blocked_reader Q' c"
  by (auto simp: blocked_defs split: option.splits call.splits)

lemma blocked_senderE:
  assumes "senders_ok s" and "t \<in> send_cv (queue s)"
  obtains msg buf len hwm timeout where "asleep s t = Some (Sending msg buf len hwm timeout)" "0 < hwm"
    "hwm \<le> wsize (queue s)" "\<not> wclosed (queue s)"
  using bspec [OF assms(1) [unfolded senders_ok_def] assms(2)]
  by (auto simp: blocked_sender_def split: option.splits call.splits)

lemma blocked_readerE:
  assumes "readers_ok s" and "t \<in> recv_cv (queue s)"
  obtains len timeout where "asleep s t = Some (Receiving len timeout)" "wq (queue s) = []"
  using bspec [OF assms(1) [unfolded readers_ok_def] assms(2)]
  by (auto simp: blocked_reader_def split: option.splits call.splits)

lemma senders_okD:
  "senders_ok s \<Longrightarrow> t \<in> send_cv (queue s) \<Longrightarrow> wsize (queue s) \<le> wsize Q' \<Longrightarrow>
   wclosed Q' \<longrightarrow> wclosed (queue s) \<Longrightarrow> blocked_sender Q' (asleep s t)"
  by (auto simp: senders_ok_def intro: blocked_mono)

lemma readers_okD:
  "readers_ok s \<Longrightarrow> t \<in> recv_cv (queue s) \<Longrightarrow> wq Q' = [] \<Longrightarrow> blocked_reader Q' (asleep s t)"
  "readers_ok s \<Longrightarrow> t \<in> recv_cv (queue s) \<Longrightarrow> wq (queue s) = []"
  by (auto elim: blocked_readerE)

lemma not_asleep_not_on_cv:
  shows "asleep s t = None \<Longrightarrow> senders_ok s \<Longrightarrow> t \<notin> send_cv (queue s)"
    and "asleep s t = Some (Receiving len timeout) \<Longrightarrow> senders_ok s \<Longrightarrow> t \<notin> send_cv (queue s)"
    and "asleep s t = None \<Longrightarrow> readers_ok s \<Longrightarrow> t \<notin> recv_cv (queue s)"
    and "asleep s t = Some (Sending msg buf len' hwm timeout) \<Longrightarrow> readers_ok s \<Longrightarrow> t \<notin> recv_cv (queue s)"
  by (auto elim: blocked_senderE blocked_readerE)

text \<open>An operation that leaves messages, size and sleepers alone.\<close>

definition same_core :: "'a wait_queue_scheme \<Rightarrow> 'a wait_queue_scheme \<Rightarrow> bool" where
  "same_core Q Q' \<longleftrightarrow> wq Q' = wq Q \<and> wsize Q' = wsize Q \<and> send_cv Q' = send_cv Q \<and> recv_cv Q' = recv_cv Q \<and>
     send_buflen Q' = send_buflen Q"

definition emptied :: "'a wait_queue_scheme \<Rightarrow> 'a wait_queue_scheme \<Rightarrow> bool" where
  "emptied Q Q' \<longleftrightarrow> wq Q' = [] \<and> send_cv Q' = {} \<and> recv_cv Q' = {} \<and> wclosed Q' \<and> send_buflen Q' = send_buflen Q"

lemma fst_stored [simp]: "fst (stored buf len Q) = Returned (Inr (int (min (send_buflen Q) len)))"
  by (simp add: stored_def)

lemma fst_popped [simp]: "fst (popped stale len Q) = Returned (Inr (take len (hd (wq Q))))"
  by (simp add: popped_def)

lemma snd_stored [simp]: "snd (stored buf len Q) = snd (push_msg buf len Q)"
  by (simp add: stored_def)

lemma snd_popped [simp]: "snd (popped stale len Q) = snd (pop_msg stale len Q)"
  by (simp add: popped_def)

lemma settle_simps [simp]:
  "settle t c (Returned r) f = f(t := None)" "settle t c Asleep f = f(t := Some c)"
  by (simp_all add: settle_def)

lemma noted_simps [simp]: "noted ev (Returned r) = [ev r]" "noted ev Asleep = []"
  by (simp_all add: noted_def)

lemma after_simps [simp]:
  "queue (after_call t c ev r s) = snd r" "asleep (after_call t c ev r s) = settle t c (fst r) (asleep s)"
  "events (after_call t c ev r s) = events s @ noted ev (fst r)"
  "queue (after_close d Q s) = Q" "asleep (after_close d Q s) = asleep s"
  "events (after_close d Q s) = events s @ [Ev_Close d]"
  by (simp_all add: after_call_def after_close_def)

lemma fifo_run_noted:
  "fifo_run b es [] = Some q \<Longrightarrow>
   fifo_run b (es @ noted ev out) [] = (case out of Asleep \<Rightarrow> Some q | Returned r \<Rightarrow> fifo_step b (ev r) q)"
  by (auto simp: fifo_run_append split: outcome.splits option.splits)

lemma fifo_step_unsent: "fifo_step b (Ev_Send msg len 0 r) q = Some q"
  by (cases r) auto

text \<open>What a send does to the channel.\<close>

lemma fifo_send:
  assumes "fifo_run b es [] = Some (wq Q)" and "send_buflen Q = b" and "take (min b len) buf = take (min b len) msg"
  shows "fifo_run b (es @ noted (Ev_Send msg len hwm) (fst (queue_send t buf len hwm timeout Q))) [] =
      Some (wq (snd (queue_send t buf len hwm timeout Q)))"
    and "0 < hwm \<Longrightarrow> fifo_run b (es @ noted (Ev_Send msg len hwm) (fst (queue_send_wake t buf len hwm timeout expired Q))) [] =
      Some (wq (snd (queue_send_wake t buf len hwm timeout expired Q)))"
proof -
  show "fifo_run b (es @ noted (Ev_Send msg len hwm) (fst (queue_send t buf len hwm timeout Q))) [] =
      Some (wq (snd (queue_send t buf len hwm timeout Q)))"
    using assms
    by (cases rule: queue_send_cases [of t buf len hwm timeout Q]) (auto simp: fifo_run_append fifo_step_unsent)
  show "fifo_run b (es @ noted (Ev_Send msg len hwm) (fst (queue_send_wake t buf len hwm timeout expired Q))) [] =
      Some (wq (snd (queue_send_wake t buf len hwm timeout expired Q)))" if "0 < hwm"
    using assms that
    by (cases rule: queue_send_wake_cases [of t buf len hwm timeout expired Q]) (auto simp: fifo_run_append)
qed

lemma send_keeps_buflen [simp]:
  "send_buflen (snd (queue_send t buf len hwm timeout Q)) = send_buflen Q"
  "send_buflen (snd (queue_send_wake t buf len hwm timeout expired Q)) = send_buflen Q"
  by (cases rule: queue_send_cases [of t buf len hwm timeout Q]; simp)
    (cases rule: queue_send_wake_cases [of t buf len hwm timeout expired Q]; simp)

section \<open>The interface\<close>

locale queue_class =
  fixes valid :: "'c \<Rightarrow> bool"
    and args :: "'c \<Rightarrow> 'a wait_queue_scheme \<Rightarrow> bytes \<times> bytes \<times> nat \<times> int \<times> duration"
    and send :: "nat \<Rightarrow> 'c \<Rightarrow> 'a wait_queue_scheme \<Rightarrow> (errno + int) outcome \<times> 'a wait_queue_scheme"
    and recv :: "(bytes \<Rightarrow> int) \<Rightarrow> nat \<Rightarrow> nat \<Rightarrow> duration \<Rightarrow> 'a wait_queue_scheme \<Rightarrow>
      (errno + bytes) outcome \<times> 'a wait_queue_scheme"
    and drops :: "'k \<Rightarrow> bool"
    and close :: "'k \<Rightarrow> 'a wait_queue_scheme \<Rightarrow> 'a wait_queue_scheme"
    and reset :: "'a wait_queue_scheme \<Rightarrow> 'a wait_queue_scheme"
    and tune :: "'a wait_queue_scheme \<Rightarrow> 'a wait_queue_scheme \<Rightarrow> bool"
  assumes send_law:
      "valid c \<Longrightarrow> args c Q = (msg, buf, len, hwm, timeout) \<Longrightarrow>
       take (min (send_buflen Q) len) buf = take (min (send_buflen Q) len) msg \<and>
       (send t c Q = queue_send t buf len hwm timeout Q \<or> hwm = 0 \<and> (\<exists>r. send t c Q = (Returned r, Q)))"
    and recv_cases:
      "(\<exists>e Q'. recv stale t len timeout Q = (Returned (Inl e), Q') \<and> same_core Q Q')
       \<or> recv stale t len timeout Q = popped stale len Q \<and> \<not> wclosed Q \<and> wq Q \<noteq> []
       \<or> recv stale t len timeout Q = (Asleep, Q\<lparr>recv_cv := insert t (recv_cv Q)\<rparr>) \<and> \<not> wclosed Q \<and> wq Q = [] \<and>
         timeout \<noteq> 0"
    and close_cases:
      "\<not> drops k \<and> same_core Q (close k Q) \<and> wclosed (close k Q) = wclosed Q \<or>
       emptied Q (close k Q) \<and> (drops k \<or> wq Q = [])"
    and reset_core: "same_core Q (reset Q)" "\<not> wclosed (reset Q)"
    and tune_core: "tune Q Q' \<Longrightarrow> same_core Q Q' \<and> wclosed Q' = wclosed Q"
begin

lemma fifo_step_inv: "qstep valid args send recv drops close reset tune s l s' \<Longrightarrow> fifo_inv b s \<Longrightarrow> fifo_inv b s'"
proof (induction rule: qstep.induct)
  case (send_call s t c msg buf len hwm timeout)
  then have run: "fifo_run b (events s) [] = Some (wq (queue s))" and b: "send_buflen (queue s) = b"
    and ok: "calls_ok b (asleep s)" by (auto simp: fifo_inv_def)
  note law = send_law [OF send_call(2,3), of t]
  then have msg: "take (min b len) buf = take (min b len) msg" by (simp add: b)
  have calls: "calls_ok b (settle t (Sending msg buf len hwm timeout) (fst (queue_send t buf len hwm timeout (queue s))) (asleep s))"
    using ok msg by (cases rule: queue_send_cases [of t buf len hwm timeout "queue s"])
      (auto simp: call_ok_def simp del: settle_simps intro!: calls_ok_settle)
  from law consider "send t c (queue s) = queue_send t buf len hwm timeout (queue s)"
    | r where "hwm = 0" "send t c (queue s) = (Returned r, queue s)" by blast
  then show ?case
  proof cases
    case 1
    then show ?thesis
      using fifo_send(1) [OF run b msg] b calls by (simp add: fifo_inv_def del: settle_simps)
  next
    case 2
    then show ?thesis
      using b run ok by (auto simp: fifo_inv_def fifo_run_append fifo_step_unsent simp del: settle_simps intro!: calls_ok_settle)
  qed
next
  case (recv_call s t len timeout stale)
  then show ?case
    using recv_cases [of stale t len timeout "queue s"]
    by (cases "wq (queue s)") (auto simp: fifo_inv_def same_core_def fifo_run_append call_ok_def
        simp del: settle_simps intro!: calls_ok_settle)
next
  case (send_wake s t msg buf len hwm timeout expired)
  then have run: "fifo_run b (events s) [] = Some (wq (queue s))" and b: "send_buflen (queue s) = b"
    and ok: "calls_ok b (asleep s)" by (auto simp: fifo_inv_def)
  have c: "call_ok b (Sending msg buf len hwm timeout)" by (rule calls_okD [OF ok send_wake(1)])
  then have "0 < hwm" "take (min b len) buf = take (min b len) msg" by (simp_all add: call_ok_def)
  then show ?case
    using fifo_send(2) [OF run b] b ok c by (auto simp: fifo_inv_def simp del: settle_simps intro!: calls_ok_settle)
next
  case (recv_wake s t len timeout expired stale)
  then have "call_ok b (Receiving len timeout)" by (auto simp: fifo_inv_def dest: calls_okD)
  with recv_wake show ?case
    by (cases rule: queue_recv_wake_cases [of stale t len timeout expired "queue s"]; cases "wq (queue s)")
      (auto simp: fifo_inv_def fifo_run_append simp del: settle_simps intro!: calls_ok_settle)
next
  case (closing s k)
  then show ?case
    using close_cases [of k "queue s"] by (auto simp: fifo_inv_def same_core_def emptied_def fifo_run_append)
next
  case (resetting s)
  then show ?case using reset_core [of "queue s"] by (simp add: fifo_inv_def same_core_def)
next
  case (tuning s Q)
  then show ?case using tune_core [of "queue s" Q] by (simp add: fifo_inv_def same_core_def)
qed

lemma fifo_runs_inv:
  "qruns (qstep valid args send recv drops close reset tune) s ls s' \<Longrightarrow> fifo_inv b s \<Longrightarrow> fifo_inv b s'"
  by (induction rule: qruns.induct) (auto intro: fifo_step_inv)

lemma fifo_channel:
  assumes "qruns (qstep valid args send recv drops close reset tune) (conc_init Q) ls s" and "wq Q = []"
  shows "fifo_run (send_buflen Q) (events s) [] = Some (wq (queue s))"
  using fifo_runs_inv [OF assms(1), of "send_buflen Q"] assms(2)
  by (simp add: fifo_inv_def conc_init_def calls_ok_def)

end

text \<open>
  A class whose readers never close the queue themselves: every sleeper that was not notified is blocked,
  and on an open queue.
\<close>

locale eager_queue_class = queue_class valid args send recv drops close reset tune
  for valid :: "'c \<Rightarrow> bool"
    and args :: "'c \<Rightarrow> 'a wait_queue_scheme \<Rightarrow> bytes \<times> bytes \<times> nat \<times> int \<times> duration"
    and send :: "nat \<Rightarrow> 'c \<Rightarrow> 'a wait_queue_scheme \<Rightarrow> (errno + int) outcome \<times> 'a wait_queue_scheme"
    and recv :: "(bytes \<Rightarrow> int) \<Rightarrow> nat \<Rightarrow> nat \<Rightarrow> duration \<Rightarrow> 'a wait_queue_scheme \<Rightarrow>
      (errno + bytes) outcome \<times> 'a wait_queue_scheme"
    and drops :: "'k \<Rightarrow> bool"
    and close :: "'k \<Rightarrow> 'a wait_queue_scheme \<Rightarrow> 'a wait_queue_scheme"
    and reset :: "'a wait_queue_scheme \<Rightarrow> 'a wait_queue_scheme"
    and tune :: "'a wait_queue_scheme \<Rightarrow> 'a wait_queue_scheme \<Rightarrow> bool" +
  assumes recv_keeps_open: "wclosed (snd (recv stale t len timeout Q)) = wclosed Q"
begin

lemma send_effect:
  assumes "valid c" and "args c Q = (msg, buf, len, hwm, timeout)"
  obtains "send t c Q = queue_send t buf len hwm timeout Q" | r where "send t c Q = (Returned r, Q)"
  using send_law [OF assms, of t] by blast

lemma senders_step:
  "qstep valid args send recv drops close reset tune s l s' \<Longrightarrow> calls_ok b (asleep s) \<Longrightarrow> senders_ok s \<Longrightarrow> senders_ok s'"
proof (induction rule: qstep.induct)
  case (send_call s t c msg buf len hwm timeout)
  have t: "t \<notin> send_cv (queue s)" using not_asleep_not_on_cv(1) [of s t] send_call by blast
  from send_call(2,3) show ?case
  proof (rule send_effect [where t = t])
    assume e: "send t c (queue s) = queue_send t buf len hwm timeout (queue s)"
    show ?case
      unfolding e using send_call(5) t
      by (cases rule: queue_send_cases [of t buf len hwm timeout "queue s"])
        (auto simp: senders_ok_def intro: blocked_mono)
  qed (use send_call(5) t in \<open>auto simp: senders_ok_def\<close>)
next
  case (recv_call s t len timeout stale)
  have t: "t \<notin> send_cv (queue s)" using not_asleep_not_on_cv(1) [of s t] recv_call by blast
  show ?case
    using t recv_cases [of stale t len timeout "queue s"] recv_keeps_open [of stale t len timeout "queue s"]
    by (auto simp: senders_ok_def same_core_def intro!: senders_okD [OF recv_call(3)])
next
  case (send_wake s t msg buf len hwm timeout expired)
  then have "0 < hwm" by (auto dest!: calls_okD simp: call_ok_def)
  with send_wake show ?case
    by (cases rule: queue_send_wake_cases [of t buf len hwm timeout expired "queue s"])
      (auto simp: senders_ok_def intro: blocked_mono)
next
  case (recv_wake s t len timeout expired stale)
  have t: "t \<notin> send_cv (queue s)" using not_asleep_not_on_cv(2) [of s t] recv_wake by blast
  show ?case
    using recv_wake t
    by (cases rule: queue_recv_wake_cases [of stale t len timeout expired "queue s"])
      (auto simp: senders_ok_def intro: blocked_mono)
next
  case (closing s k)
  show ?case
    using closing close_cases [of k "queue s"] by (auto simp: senders_ok_def same_core_def emptied_def intro!: senders_okD [OF closing(2)])
next
  case (resetting s)
  show ?case using resetting reset_core [of "queue s"]
    by (auto simp: senders_ok_def same_core_def intro!: senders_okD [OF resetting(2)])
next
  case (tuning s Q)
  show ?case using tuning tune_core [of "queue s" Q] by (auto simp: senders_ok_def same_core_def intro!: senders_okD [OF tuning(3)])
qed

lemma readers_step:
  "qstep valid args send recv drops close reset tune s l s' \<Longrightarrow> readers_ok s \<Longrightarrow> readers_ok s'"
proof (induction rule: qstep.induct)
  case (send_call s t c msg buf len hwm timeout)
  have t: "t \<notin> recv_cv (queue s)" using not_asleep_not_on_cv(3) [of s t] send_call by blast
  from send_call(2,3) show ?case
  proof (rule send_effect [where t = t])
    assume e: "send t c (queue s) = queue_send t buf len hwm timeout (queue s)"
    show ?case
      unfolding e using send_call(4) t
      by (cases rule: queue_send_cases [of t buf len hwm timeout "queue s"])
        (auto simp: readers_ok_def intro: blocked_mono)
  qed (use send_call(4) t in \<open>auto simp: readers_ok_def\<close>)
next
  case (recv_call s t len timeout stale)
  have t: "t \<notin> recv_cv (queue s)" using not_asleep_not_on_cv(3) [of s t] recv_call by blast
  have e: "recv_cv (queue s) = {} \<or> wq (queue s) = []" using readers_okD(2) [OF recv_call(2)] by auto
  show ?case
    using t e recv_cases [of stale t len timeout "queue s"]
    by (auto simp: readers_ok_def same_core_def intro!: readers_okD(1) [OF recv_call(2)])
next
  case (send_wake s t msg buf len hwm timeout expired)
  have t: "t \<notin> recv_cv (queue s)" using not_asleep_not_on_cv(4) [of s t] send_wake by blast
  show ?case
    using send_wake t
    by (cases rule: queue_send_wake_cases [of t buf len hwm timeout expired "queue s"])
      (auto simp: readers_ok_def intro: blocked_mono)
next
  case (recv_wake s t len timeout expired stale)
  have e: "recv_cv (queue s) = {} \<or> wq (queue s) = []" using readers_okD(2) [OF recv_wake(3)] by auto
  show ?case
    using e recv_wake
    by (cases rule: queue_recv_wake_cases [of stale t len timeout expired "queue s"])
      (auto simp: readers_ok_def intro!: readers_okD(1) [OF recv_wake(3)])
next
  case (closing s k)
  have e: "recv_cv (queue s) = {} \<or> wq (queue s) = []" using readers_okD(2) [OF closing(1)] by auto
  show ?case
    using e closing close_cases [of k "queue s"] by (auto simp: readers_ok_def same_core_def emptied_def intro!: readers_okD(1) [OF closing(1)])
next
  case (resetting s)
  have e: "recv_cv (queue s) = {} \<or> wq (queue s) = []" using readers_okD(2) [OF resetting(1)] by auto
  show ?case
    using e resetting reset_core [of "queue s"] by (auto simp: readers_ok_def same_core_def intro!: readers_okD(1) [OF resetting(1)])
next
  case (tuning s Q)
  have e: "recv_cv (queue s) = {} \<or> wq (queue s) = []" using readers_okD(2) [OF tuning(2)] by auto
  show ?case
    using e tuning tune_core [of "queue s" Q] by (auto simp: readers_ok_def same_core_def intro!: readers_okD(1) [OF tuning(2)])
qed

lemma open_step:
  "qstep valid args send recv drops close reset tune s l s' \<Longrightarrow> wclosed (queue s) \<longrightarrow> recv_cv (queue s) = {} \<Longrightarrow>
   wclosed (queue s') \<longrightarrow> recv_cv (queue s') = {}"
proof (induction rule: qstep.induct)
  case (send_call s t c msg buf len hwm timeout)
  from send_call(2,3) show ?case
  proof (rule send_effect [where t = t])
    assume e: "send t c (queue s) = queue_send t buf len hwm timeout (queue s)"
    show ?case
      unfolding after_simps e using send_call(4)
      by (cases rule: queue_send_cases [of t buf len hwm timeout "queue s"]) auto
  qed (use send_call(4) in auto)
next
  case (recv_call s t len timeout stale)
  then show ?case
    using recv_cases [of stale t len timeout "queue s"] recv_keeps_open [of stale t len timeout "queue s"]
    by (auto simp: same_core_def)
next
  case (send_wake s t msg buf len hwm timeout expired)
  then show ?case
    by (cases rule: queue_send_wake_cases [of t buf len hwm timeout expired "queue s"]) auto
next
  case (recv_wake s t len timeout expired stale)
  then show ?case
    by (cases rule: queue_recv_wake_cases [of stale t len timeout expired "queue s"]) auto
next
  case (closing s k)
  then show ?case using close_cases [of k "queue s"] by (auto simp: same_core_def emptied_def)
next
  case (resetting s)
  then show ?case using reset_core [of "queue s"] by simp
next
  case (tuning s Q)
  then show ?case using tune_core [of "queue s" Q] by (simp add: same_core_def)
qed

definition sleepers_ok :: "nat \<Rightarrow> 'a wait_queue_scheme conc \<Rightarrow> bool" where
  "sleepers_ok b s \<longleftrightarrow> fifo_inv b s \<and> senders_ok s \<and> readers_ok s \<and> (wclosed (queue s) \<longrightarrow> recv_cv (queue s) = {})"

lemma sleepers_runs:
  "qruns (qstep valid args send recv drops close reset tune) s ls s' \<Longrightarrow> sleepers_ok b s \<Longrightarrow> sleepers_ok b s'"
proof (induction rule: qruns.induct)
  case (qruns_snoc s ls s' l s'')
  then have s': "sleepers_ok b s'" by blast
  note st = qruns_snoc(2)
  show ?case
    using fifo_step_inv [OF st] senders_step [OF st, of b] readers_step [OF st] open_step [OF st] s'
    unfolding sleepers_ok_def fifo_inv_def by blast
qed

end

end
