(* ===== verification/Queue_Correct.thy ===== *)
theory Queue_Correct
  imports Wait_Queue_Class
begin

text \<open>
  \<open>Queue\<close> is a queue class; what this means for every run of threads on it. Whatever size \<open>recv\<close> reads from
  the element it has freed, the messages come out as they went in and no wake-up is lost.
\<close>

section \<open>Queue\<close>

lemma queue_recv_cases:
  obtains (failed) e where "queue_recv stale t len timeout Q = (Returned (Inl e), Q)"
  | (popped) "queue_recv stale t len timeout Q = popped stale len Q" "\<not> wclosed Q" "wq Q \<noteq> []"
  | (asleep) "queue_recv stale t len timeout Q = (Asleep, Q\<lparr>recv_cv := insert t (recv_cv Q)\<rparr>)"
      "\<not> wclosed Q" "wq Q = []" "timeout \<noteq> 0"
proof -
  consider "wclosed Q" | "\<not> wclosed Q" "wq Q \<noteq> []" | "\<not> wclosed Q" "wq Q = []" "timeout = 0"
    | "\<not> wclosed Q" "wq Q = []" "timeout \<noteq> 0" by blast
  then show ?thesis
    by cases (use that in \<open>auto simp: queue_recv_def dequeue_def after_not_empty_def wait_for_not_empty_def
      wait_on_def popped_def case_prod_unfold Let_def\<close>)
qed

interpretation qc: eager_queue_class queue_valid queue_args queue_send_call queue_recv "\<lambda>_ :: unit. True" "\<lambda>_. queue_close"
  queue_reset "\<lambda>_ _. False"
proof
  show "(\<exists>e Q'. queue_recv stale t len timeout Q = (Returned (Inl e), Q') \<and> same_core Q Q')
       \<or> queue_recv stale t len timeout Q = popped stale len Q \<and> \<not> wclosed Q \<and> wq Q \<noteq> []
       \<or> queue_recv stale t len timeout Q = (Asleep, Q\<lparr>recv_cv := insert t (recv_cv Q)\<rparr>) \<and> \<not> wclosed Q \<and> wq Q = [] \<and>
         timeout \<noteq> 0" for stale t len timeout Q
    by (cases rule: queue_recv_cases [of stale t len timeout Q]) (auto simp: same_core_def)
  show "wclosed (snd (queue_recv stale t len timeout Q)) = wclosed Q" for stale t len timeout Q
    by (cases rule: queue_recv_cases [of stale t len timeout Q]) auto
qed (auto simp: queue_args_def queue_send_call_def queue_close_def queue_reset_def maybe_close_def maybe_reset_def
    emptied_def same_core_def split: prod.splits)

lemma queue_sleepers:
  assumes "qruns queue_step (conc_init (queue_new n)) ls s"
  shows "qc.sleepers_ok n s"
  using assms unfolding queue_step_def
  by (rule qc.sleepers_runs)
    (simp add: qc.sleepers_ok_def fifo_inv_def conc_init_def queue_new_def calls_ok_def senders_ok_def readers_ok_def)

section \<open>First in, first out\<close>

text \<open>
  C5. A queue is a FIFO channel: in every run, whatever threads send, receive, sleep, time out, close or
  reset, the calls that returned, with the bytes they were given and the bytes they returned, are those
  of the abstract channel \<open>fifo_run\<close> that now holds what the queue holds: each message that \<open>recv\<close> returns
  is the oldest one sent and not yet received, cut to the maximal message size and to the reader's
  buffer, and only a close drops any.
\<close>

theorem queue_fifo:
  assumes "qruns queue_step (conc_init (queue_new n)) ls s"
  shows "fifo_run n (events s) [] = Some (wq (queue s))"
  using qc.fifo_channel [OF assms [unfolded queue_step_def]] by (simp add: queue_new_def)

text \<open>A reader goes to sleep, two messages are sent, the reader wakes up with the first.\<close>

abbreviation len_of :: "bytes \<Rightarrow> int" where
  "len_of m \<equiv> int (length m)"

lemmas queue_op_defs = conc_init_def queue_new_def queue_recv_def queue_send_def dequeue_def enqueue_def
  after_not_empty_def wait_for_not_empty_def wait_on_def push_msg_def queue_recv_wake_def dequeue_wake_def
  pop_msg_def queue_send_call_def

definition demo0 :: "wait_queue conc" where
  "demo0 = conc_init (queue_new 8)"

definition demo1 :: "wait_queue conc" where
  "demo1 = after_call 1 (Receiving 3 (-1)) (Ev_Recv 3) (queue_recv len_of 1 3 (-1) (queue demo0)) demo0"

definition demo2 :: "wait_queue conc" where
  "demo2 = after_call 2 (Sending [9, 8, 7, 6] [9, 8, 7, 6] 4 5 (-1)) (Ev_Send [9, 8, 7, 6] 4 5)
     (queue_send_call 2 ([9, 8, 7, 6], 4, 5, -1) (queue demo1)) demo1"

definition demo3 :: "wait_queue conc" where
  "demo3 = after_call 2 (Sending [5, 4] [5, 4] 2 5 (-1)) (Ev_Send [5, 4] 2 5)
     (queue_send_call 2 ([5, 4], 2, 5, -1) (queue demo2)) demo2"

definition demo4 :: "wait_queue conc" where
  "demo4 = after_call 1 (Receiving 3 (-1)) (Ev_Recv 3) (queue_recv_wake len_of 1 3 (-1) False (queue demo3)) demo3"

lemma demo0_simps: "queue demo0 = queue_new 8" "asleep demo0 = (\<lambda>_. None)" "events demo0 = []"
  by (simp_all add: demo0_def conc_init_def)

lemma demo1_simps:
  "queue demo1 = (queue_new 8)\<lparr>recv_cv := {1}\<rparr>" "asleep demo1 = [1 \<mapsto> Receiving 3 (-1)]" "events demo1 = []"
  by (simp_all add: demo1_def demo0_simps queue_op_defs fun_eq_iff)

lemma demo2_simps:
  "queue demo2 = (queue_new 8)\<lparr>wq := [[9, 8, 7, 6]], wsize := 4\<rparr>" "asleep demo2 = [1 \<mapsto> Receiving 3 (-1)]"
  "events demo2 = [Ev_Send [9, 8, 7, 6] 4 5 (Inr 4)]"
  by (simp_all add: demo2_def demo1_simps queue_op_defs fun_eq_iff)

lemma demo3_simps:
  "queue demo3 = (queue_new 8)\<lparr>wq := [[9, 8, 7, 6], [5, 4]], wsize := 6\<rparr>"
  "asleep demo3 = [1 \<mapsto> Receiving 3 (-1)]"
  "events demo3 = [Ev_Send [9, 8, 7, 6] 4 5 (Inr 4), Ev_Send [5, 4] 2 5 (Inr 2)]"
  by (simp_all add: demo3_def demo2_simps queue_op_defs fun_eq_iff)

lemma demo4_simps:
  "queue demo4 = (queue_new 8)\<lparr>wq := [[5, 4]], wsize := 2\<rparr>" "asleep demo4 = (\<lambda>_. None)"
  "events demo4 = [Ev_Send [9, 8, 7, 6] 4 5 (Inr 4), Ev_Send [5, 4] 2 5 (Inr 2), Ev_Recv 3 (Inr [9, 8, 7])]"
  by (simp_all add: demo4_def demo3_simps queue_op_defs fun_eq_iff)

lemma demo_runs:
  "qruns queue_step (conc_init (queue_new 8)) [LRecv 1] demo1"
  "qruns queue_step (conc_init (queue_new 8)) [LRecv 1, LSend 2, LSend 2, LWake 1] demo4"
proof -
  note steps = qstep.intros [where valid = queue_valid and args = queue_args and send = queue_send_call and
      recv = queue_recv and drops = "\<lambda>_ :: unit. True" and close = "\<lambda>_. queue_close" and
      reset = queue_reset and tune = "\<lambda>_ _. False", folded queue_step_def]
  have r1: "queue_step demo0 (LRecv 1) demo1"
    unfolding demo1_def by (rule steps(2)) (simp add: demo0_simps)
  have r2: "queue_step demo1 (LSend 2) demo2"
    unfolding demo2_def by (rule steps(1)) (simp_all add: demo1_simps queue_valid_def queue_args_def)
  have r3: "queue_step demo2 (LSend 2) demo3"
    unfolding demo3_def by (rule steps(1)) (simp_all add: demo2_simps queue_valid_def queue_args_def)
  have r4: "queue_step demo3 (LWake 1) demo4"
    unfolding demo4_def using steps(4) [of demo3 1 3 "-1" False] by (simp add: demo3_simps)
  show "qruns queue_step (conc_init (queue_new 8)) [LRecv 1] demo1"
    using qruns_snoc [where step = "queue_step", OF qruns_nil r1] by (simp add: demo0_def)
  then show "qruns queue_step (conc_init (queue_new 8)) [LRecv 1, LSend 2, LSend 2, LWake 1] demo4"
    using qruns_snoc [where step = "queue_step", OF qruns_snoc [where step = "queue_step",
        OF qruns_snoc [where step = "queue_step", OF _ r2] r3] r4] by fastforce
qed

theorem queue_fifo_witness:
  "fifo_run 8 [Ev_Send [9, 8, 7, 6] 4 5 (Inr 4), Ev_Send [5, 4] 2 5 (Inr 2), Ev_Recv 3 (Inr [9, 8, 7])] [] = Some [[5, 4]] \<and>
   events demo4 = [Ev_Send [9, 8, 7, 6] 4 5 (Inr 4), Ev_Send [5, 4] 2 5 (Inr 2), Ev_Recv 3 (Inr [9, 8, 7])]"
  using queue_fifo [OF demo_runs(2)] by (simp add: demo4_simps)

section \<open>Wake-ups\<close>

text \<open>What a sleeping thread does when it wakes up: whether it goes back to sleep, and the queue.\<close>

definition resume :: "(bytes \<Rightarrow> int) \<Rightarrow> nat \<Rightarrow> call \<Rightarrow> bool \<Rightarrow> 'a wait_queue_scheme \<Rightarrow> bool \<times> 'a wait_queue_scheme" where
  "resume stale t c expired Q =
     (case c of
        Sending msg buf len hwm timeout \<Rightarrow>
          (let (out, Q) = queue_send_wake t buf len hwm timeout expired Q in (out = Asleep, Q))
      | Receiving len timeout \<Rightarrow>
          (let (out, Q) = queue_recv_wake stale t len timeout expired Q in (out = Asleep, Q)))"

text \<open>
  C12. No wake-up is lost on a \<open>Queue\<close>: a thread that sleeps in \<open>send\<close> or \<open>recv\<close> and has not been notified
  could not go on, if it were woken it would go straight back to sleep and change nothing. So a close
  reaches every sleeper, and a message or freed room is never missed. (On a log queue this fails:
  \<open>log_close_leaves_reader_asleep\<close>.)
\<close>

theorem queue_no_lost_wakeup:
  assumes "qruns queue_step (conc_init (queue_new n)) ls s"
    and "asleep s t = Some c" and "t \<in> send_cv (queue s) \<union> recv_cv (queue s)"
  shows "resume stale t c False (queue s) = (True, queue s)"
proof -
  have inv: "qc.sleepers_ok n s" by (rule queue_sleepers [OF assms(1)])
  then have ok: "calls_ok n (asleep s)" "senders_ok s" "readers_ok s" "wclosed (queue s) \<longrightarrow> recv_cv (queue s) = {}"
    by (auto simp: qc.sleepers_ok_def fifo_inv_def)
  show ?thesis
  proof (cases c)
    case (Sending msg buf len hwm timeout)
    then have t: "t \<in> send_cv (queue s)"
      using assms(2,3) by (auto elim: blocked_readerE [OF ok(3)])
    then show ?thesis
      using Sending assms(2) calls_okD [OF ok(1) assms(2)] blocked_senderE [OF ok(2) t]
      by (cases rule: queue_send_wake_cases [of t buf len hwm timeout False "queue s"])
        (auto simp: resume_def call_ok_def insert_absorb)
  next
    case (Receiving len timeout)
    then have t: "t \<in> recv_cv (queue s)"
      using assms(2,3) by (auto elim: blocked_senderE [OF ok(2)])
    then show ?thesis
      using Receiving assms(2) calls_okD [OF ok(1) assms(2)] ok(4) readers_okD(2) [OF ok(3) t]
      by (cases rule: queue_recv_wake_cases [of stale t len timeout False "queue s"])
        (auto simp: resume_def call_ok_def insert_absorb)
  qed
qed

theorem queue_no_lost_wakeup_witness:
  "resume len_of 1 (Receiving 3 (-1)) False (queue demo1) = (True, queue demo1) \<and> recv_cv (queue demo1) = {1}"
  using queue_no_lost_wakeup [OF demo_runs(1), of 1 "Receiving 3 (-1)" len_of] by (simp add: demo1_simps)

end
