(* ===== verification/Log_Queue_Correct.thy ===== *)
theory Log_Queue_Correct
  imports Queue_Correct
begin

text \<open>
  The queues of log messages: what is written is what is read, truncated, in order; a close that waits
  for the queue to drain; and the reader that such a close leaves asleep.
\<close>

lemma log_recv_cases:
  obtains (failed) e where "log_recv stale t len timeout Q = (Returned (Inl e), Q)"
  | (ending) "log_recv stale t len timeout Q = (Returned (Inl EBADF), Q\<lparr>wclosed := True\<rparr>)"
      "\<not> wclosed Q" "wq Q = []" "close_pending Q"
  | (popped) "log_recv stale t len timeout Q = popped stale len Q" "\<not> wclosed Q" "wq Q \<noteq> []"
  | (asleep) "log_recv stale t len timeout Q = (Asleep, Q\<lparr>recv_cv := insert t (recv_cv Q)\<rparr>)"
      "\<not> wclosed Q" "wq Q = []" "\<not> close_pending Q" "timeout \<noteq> 0"
proof -
  consider "wclosed Q" | "\<not> wclosed Q" "wq Q \<noteq> []" | "\<not> wclosed Q" "wq Q = []" "close_pending Q"
    | "\<not> wclosed Q" "wq Q = []" "\<not> close_pending Q" "timeout = 0"
    | "\<not> wclosed Q" "wq Q = []" "\<not> close_pending Q" "timeout \<noteq> 0" by blast
  then show ?thesis
    by cases (use that in \<open>auto simp: log_recv_def dequeue_def after_not_empty_def log_wait_for_not_empty_def
      wait_for_not_empty_def wait_on_def popped_def case_prod_unfold Let_def\<close>)
qed

lemma log_write_cases:
  assumes "log_args formatted Q = (msg, buf, len, hwm, timeout)"
  shows "take (min (send_buflen Q) len) buf = take (min (send_buflen Q) len) msg \<and>
    (log_write t formatted Q = queue_send t buf len hwm timeout Q \<or> hwm = 0 \<and> (\<exists>r. log_write t formatted Q = (Returned r, Q)))"
proof (cases formatted)
  case (Inl n)
  then show ?thesis using assms by (simp add: log_args_def log_write_def)
next
  case (Inr msg0)
  then show ?thesis using assms by (auto simp: log_args_def log_write_def min_def split: if_splits)
qed

interpretation lq: queue_class "\<lambda>_. True" log_args log_write log_recv "\<lambda>immediately. immediately" log_close log_reset log_tune
proof
  show "(\<exists>e Q'. log_recv stale t len timeout Q = (Returned (Inl e), Q') \<and> same_core Q Q')
       \<or> log_recv stale t len timeout Q = popped stale len Q \<and> \<not> wclosed Q \<and> wq Q \<noteq> []
       \<or> log_recv stale t len timeout Q = (Asleep, Q\<lparr>recv_cv := insert t (recv_cv Q)\<rparr>) \<and> \<not> wclosed Q \<and> wq Q = [] \<and>
         timeout \<noteq> 0" for stale t len timeout Q
    by (cases rule: log_recv_cases [of stale t len timeout Q]) (auto simp: same_core_def)
qed (auto simp: log_close_def log_reset_def maybe_close_def maybe_reset_def emptied_def same_core_def log_tune_def
    set_write_hwm_def set_write_timeout_def Let_def dest: log_write_cases)

section \<open>Messages\<close>

text \<open>
  A message that was formatted is stored up to the maximal size; the copy stays inside the buffer \<open>msg\<close>,
  which has one byte more.
\<close>

lemma log_write_stores:
  assumes "text \<noteq> []" and "\<not> wclosed Q" and "write_hwm Q < 0"
  shows "log_write t (Inr text) Q =
      (Returned (Inr (int (min (send_buflen Q) (length text)))),
       Q\<lparr>wq := wq Q @ [take (send_buflen Q) text], wsize := wsize Q + int (min (send_buflen Q) (length text)),
         recv_cv := {}\<rparr>)"
    and "min (send_buflen Q) (length text) \<le> length (take (send_buflen Q) text @ [0])"
  using assms by (auto simp: log_write_def queue_send_def enqueue_def push_msg_def Let_def min_def)

text \<open>
  C26. A log queue is a FIFO channel as well: in every run of threads that call \<open>write\<close> and \<open>recv\<close>, with
  closes that wait for the queue to drain, resets, and new high-water marks and timeouts (the maximal
  message size \<open>n\<close> is set before), the calls that returned are those of the abstract channel: each
  message read is the oldest text written and not yet read, cut to \<open>n\<close> bytes and to the reader's buffer,
  and only an immediate close drops any.
\<close>

theorem log_queue_fifo:
  assumes "qruns log_step (conc_init (set_max_msg_size n log_new)) ls s"
  shows "fifo_run n (events s) [] = Some (wq (queue s))"
  using lq.fifo_channel [OF assms [unfolded log_step_def]] by (simp add: set_max_msg_size_def log_new_def)

section \<open>A reader that is left asleep\<close>

text \<open>
  Two readers sleep. A message is written, which notifies both, and the queues are closed when empty.
  The first reader takes the message, the second goes back to sleep, and the first comes back: it finds
  the queue empty, closes it and does not notify the second.
\<close>

definition log0 :: "log_queue conc" where "log0 = conc_init (set_max_msg_size 1024 log_new)"

definition log1 :: "log_queue conc" where
  "log1 = after_call 1 (Receiving 9 (-1)) (Ev_Recv 9) (log_recv len_of 1 9 (-1) (queue log0)) log0"

definition log2 :: "log_queue conc" where
  "log2 = after_call 2 (Receiving 9 (-1)) (Ev_Recv 9) (log_recv len_of 2 9 (-1) (queue log1)) log1"

definition log3 :: "log_queue conc" where
  "log3 = after_call 3 (Sending [7] [7, 0] 1 (-1) (-1)) (Ev_Send [7] 1 (-1)) (log_write 3 (Inr [7]) (queue log2)) log2"

definition log4 :: "log_queue conc" where
  "log4 = after_close False (log_close False (queue log3)) log3"

definition log5 :: "log_queue conc" where
  "log5 = after_call 1 (Receiving 9 (-1)) (Ev_Recv 9) (queue_recv_wake len_of 1 9 (-1) False (queue log4)) log4"

definition log6 :: "log_queue conc" where
  "log6 = after_call 2 (Receiving 9 (-1)) (Ev_Recv 9) (queue_recv_wake len_of 2 9 (-1) False (queue log5)) log5"

definition log7 :: "log_queue conc" where
  "log7 = after_call 1 (Receiving 9 (-1)) (Ev_Recv 9) (log_recv len_of 1 9 (-1) (queue log6)) log6"

lemmas log_op_defs = queue_op_defs log_new_def log_recv_def log_wait_for_not_empty_def log_close_def maybe_close_def
  log_write_def

lemma log0_simps: "queue log0 = log_new" "asleep log0 = (\<lambda>_. None)" "events log0 = []"
  by (simp_all add: log0_def conc_init_def set_max_msg_size_def log_new_def)

lemma log1_simps:
  "queue log1 = log_new\<lparr>recv_cv := {1}\<rparr>" "asleep log1 = [1 \<mapsto> Receiving 9 (-1)]" "events log1 = []"
  by (simp_all add: log1_def log0_simps log_op_defs fun_eq_iff)

lemma log2_simps:
  "queue log2 = log_new\<lparr>recv_cv := {1, 2}\<rparr>"
  "asleep log2 = [1 \<mapsto> Receiving 9 (-1), 2 \<mapsto> Receiving 9 (-1)]" "events log2 = []"
  by (auto simp: log2_def log1_simps log_op_defs fun_eq_iff insert_commute)

lemma log3_simps:
  "queue log3 = log_new\<lparr>wq := [[7]], wsize := 1\<rparr>"
  "asleep log3 = [1 \<mapsto> Receiving 9 (-1), 2 \<mapsto> Receiving 9 (-1)]" "events log3 = [Ev_Send [7] 1 (-1) (Inr 1)]"
  by (auto simp: log3_def log2_simps log_op_defs fun_eq_iff)

lemma log4_simps:
  "queue log4 = log_new\<lparr>wq := [[7]], wsize := 1, close_pending := True\<rparr>"
  "asleep log4 = [1 \<mapsto> Receiving 9 (-1), 2 \<mapsto> Receiving 9 (-1)]"
  "events log4 = [Ev_Send [7] 1 (-1) (Inr 1), Ev_Close False]"
  by (auto simp: log4_def log3_simps log_op_defs fun_eq_iff)

lemma log5_simps:
  "queue log5 = log_new\<lparr>close_pending := True\<rparr>" "asleep log5 = [2 \<mapsto> Receiving 9 (-1)]"
  "events log5 = [Ev_Send [7] 1 (-1) (Inr 1), Ev_Close False, Ev_Recv 9 (Inr [7])]"
  by (auto simp: log5_def log4_simps log_op_defs fun_eq_iff)

lemma log6_simps:
  "queue log6 = log_new\<lparr>close_pending := True, recv_cv := {2}\<rparr>" "asleep log6 = [2 \<mapsto> Receiving 9 (-1)]"
  "events log6 = [Ev_Send [7] 1 (-1) (Inr 1), Ev_Close False, Ev_Recv 9 (Inr [7])]"
  by (auto simp: log6_def log5_simps log_op_defs fun_eq_iff)

lemma log7_simps:
  "queue log7 = log_new\<lparr>close_pending := True, wclosed := True, recv_cv := {2}\<rparr>"
  "asleep log7 = [2 \<mapsto> Receiving 9 (-1)]"
  "events log7 = [Ev_Send [7] 1 (-1) (Inr 1), Ev_Close False, Ev_Recv 9 (Inr [7]), Ev_Recv 9 (Inl EBADF)]"
  by (auto simp: log7_def log6_simps log_op_defs fun_eq_iff)

lemma log_runs_snoc:
  "qruns log_step s ls s' \<Longrightarrow> log_step s' l s'' \<Longrightarrow> ls @ [l] = ls' \<Longrightarrow> qruns log_step s ls' s''"
  using qruns_snoc [where step = "log_step"] by blast

lemma log7_run:
  "qruns log_step (conc_init (set_max_msg_size 1024 log_new))
     [LRecv 1, LRecv 2, LSend 3, LClose False, LWake 1, LWake 2, LRecv 1] log7"
proof -
  note steps = qstep.intros [where valid = "\<lambda>_. True" and args = log_args and send = log_write and recv = log_recv and
      drops = "\<lambda>immediately. immediately" and close = log_close and reset = log_reset and tune = log_tune, folded log_step_def]
  have s0: "log_step log0 (LRecv 1) log1"
    unfolding log1_def by (rule steps(2)) (simp add: log0_simps)
  have s1: "log_step log1 (LRecv 2) log2"
    unfolding log2_def by (rule steps(2)) (simp add: log1_simps)
  have s2: "log_step log2 (LSend 3) log3"
    unfolding log3_def by (rule steps(1)) (simp_all add: log2_simps log_args_def log_new_def)
  have s3: "log_step log3 (LClose False) log4"
    unfolding log4_def by (rule steps(5))
  have s4: "log_step log4 (LWake 1) log5"
    unfolding log5_def using steps(4) [of log4 1 9 "-1" False] by (simp add: log4_simps)
  have s5: "log_step log5 (LWake 2) log6"
    unfolding log6_def using steps(4) [of log5 2 9 "-1" False] by (simp add: log5_simps)
  have s6: "log_step log6 (LRecv 1) log7"
    unfolding log7_def by (rule steps(2)) (simp add: log6_simps)
  have "qruns log_step log0 [LRecv 1] log1"
    by (rule log_runs_snoc [OF qruns_nil s0]) simp
  then have "qruns log_step log0 [LRecv 1, LRecv 2] log2"
    by (rule log_runs_snoc [OF _ s1]) simp
  then have "qruns log_step log0 [LRecv 1, LRecv 2, LSend 3] log3"
    by (rule log_runs_snoc [OF _ s2]) simp
  then have "qruns log_step log0 [LRecv 1, LRecv 2, LSend 3, LClose False] log4"
    by (rule log_runs_snoc [OF _ s3]) simp
  then have "qruns log_step log0 [LRecv 1, LRecv 2, LSend 3, LClose False, LWake 1] log5"
    by (rule log_runs_snoc [OF _ s4]) simp
  then have "qruns log_step log0 [LRecv 1, LRecv 2, LSend 3, LClose False, LWake 1, LWake 2] log6"
    by (rule log_runs_snoc [OF _ s5]) simp
  then show ?thesis
    unfolding log0_def [symmetric] by (rule log_runs_snoc [OF _ s6]) simp
qed

theorem log_queue_fifo_witness:
  "fifo_run 1024 [Ev_Send [7] 1 (-1) (Inr 1), Ev_Close False, Ev_Recv 9 (Inr [7]), Ev_Recv 9 (Inl EBADF)] [] = Some [] \<and>
   events log7 = [Ev_Send [7] 1 (-1) (Inr 1), Ev_Close False, Ev_Recv 9 (Inr [7]), Ev_Recv 9 (Inl EBADF)]"
  using log_queue_fifo [OF log7_run] by (simp add: log7_simps log_new_def)

text \<open>
  Whatever the threads do, short of another close, a reset or a spurious wake-up, \<open>t\<close> stays asleep.
\<close>

definition left_asleep :: "nat \<Rightarrow> log_queue conc \<Rightarrow> bool" where
  "left_asleep t s \<longleftrightarrow> (\<forall>ls s'. qruns log_step s ls s' \<longrightarrow>
     LWake t \<notin> set ls \<longrightarrow> LReset \<notin> set ls \<longrightarrow> (\<forall>imm. LClose imm \<notin> set ls) \<longrightarrow>
     asleep s' t = asleep s t \<and> t \<in> recv_cv (queue s'))"

definition shut_out :: "nat \<Rightarrow> nat \<Rightarrow> log_queue conc \<Rightarrow> bool" where
  "shut_out t len s \<longleftrightarrow> wclosed (queue s) \<and> t \<in> recv_cv (queue s) \<and> asleep s t = Some (Receiving len (-1))"

lemma shut_out_step:
  "log_step s l s' \<Longrightarrow> shut_out t len s \<Longrightarrow> l \<noteq> LWake t \<Longrightarrow> l \<noteq> LReset \<Longrightarrow> (\<And>imm. l \<noteq> LClose imm) \<Longrightarrow>
   shut_out t len s'"
  unfolding log_step_def
proof (induction rule: qstep.induct)
  case (send_call s t' c msg buf len' hwm timeout)
  have "shut_out t len (after_call t' (Sending msg buf len' hwm timeout) (Ev_Send msg len' hwm)
      (queue_send t' buf len' hwm timeout (queue s)) s)"
    using send_call by (cases rule: queue_send_cases [of t' buf len' hwm timeout "queue s"]) (auto simp: shut_out_def)
  then show ?case
    using log_write_cases [OF send_call(3), of t'] send_call by (auto simp: shut_out_def)
next
  case (recv_call s t' len' timeout stale)
  then show ?case
    by (cases rule: log_recv_cases [of stale t' len' timeout "queue s"]) (auto simp: shut_out_def)
next
  case (send_wake s t' msg buf len' hwm timeout expired)
  then show ?case
    by (cases rule: queue_send_wake_cases [of t' buf len' hwm timeout expired "queue s"]) (auto simp: shut_out_def)
next
  case (recv_wake s t' len' timeout expired stale)
  then show ?case
    by (cases rule: queue_recv_wake_cases [of stale t' len' timeout expired "queue s"])
      (auto simp: shut_out_def split: if_splits)
next
  case (tuning s Q)
  then show ?case
    by (auto simp: shut_out_def log_tune_def set_write_hwm_def set_write_timeout_def)
qed auto

lemma shut_out_left_asleep:
  assumes "shut_out t len s"
  shows "left_asleep t s"
proof -
  have "shut_out t len s'"
    if "qruns log_step s ls s'" "LWake t \<notin> set ls" "LReset \<notin> set ls" "\<And>imm. LClose imm \<notin> set ls" for ls s'
    using that assms by (induction rule: qruns.induct) (auto elim!: shut_out_step)
  with assms show ?thesis by (auto simp: left_asleep_def shut_out_def)
qed

text \<open>
  \<open>close_log_queues(false)\<close> does not reach every reader: there is a run after which a reader sleeps on
  a queue that is empty and closed, with an endless timeout, and nothing but another close, a reset or a
  spurious wake-up will ever wake it.
\<close>

theorem log_close_leaves_reader_asleep:
  "\<exists>ls s. qruns log_step (conc_init (set_max_msg_size 1024 log_new)) ls s \<and> wclosed (queue s) \<and> wq (queue s) = [] \<and>
     asleep s 2 = Some (Receiving 9 (-1)) \<and> left_asleep 2 s"
proof (intro exI conjI)
  have w: "queue log7 = log_new\<lparr>close_pending := True, wclosed := True, recv_cv := {2}\<rparr>"
    by (rule log7_simps)
  show "qruns log_step (conc_init (set_max_msg_size 1024 log_new))
      [LRecv 1, LRecv 2, LSend 3, LClose False, LWake 1, LWake 2, LRecv 1] log7"
    by (rule log7_run)
  show "wclosed (queue log7)" and "wq (queue log7) = []" unfolding w by (simp_all add: log_new_def)
  show "asleep log7 2 = Some (Receiving 9 (-1))" by (simp add: log7_simps)
  show "left_asleep 2 log7"
    by (rule shut_out_left_asleep [of 2 9]) (simp add: shut_out_def log7_simps)
qed

end
