(* ===== verification/Comms_Correct.thy ===== *)
theory Comms_Correct
  imports Comms Queue_Correct Log_Queue_Correct
begin

text \<open>
  What the program around the forwarder relies on: there are always two links with the agreed message
  sizes, datagrams arrive whole and in order, stopping calls the forwarder's handler exactly once, a
  stopped forwarder's links are closed, and sleeping is cut short by a stop.
\<close>

section \<open>The two links\<close>

definition link_ok :: "link \<Rightarrow> bool" where
  "link_ok l \<longleftrightarrow> send_buflen (from_fwd l) = recv_from_buflen \<and> send_buflen (to_fwd l) = send_to_buflen"

definition comms_ok :: "comms \<Rightarrow> bool" where
  "comms_ok C \<longleftrightarrow> length (links C) = 2 \<and> (\<forall>l \<in> set (links C). link_ok l) \<and> uplink \<le> next_socket C \<and>
     next_socket C \<le> downlink + 1"

text \<open>The calls that change the globals, with their arguments.\<close>

datatype comm_op = Op_socket | Op_setsockopt int bool bool "timeval option" bool
  | Op_send nat int bytes nat | Op_recv nat int nat | Op_recv_from nat int nat "timeval option"
  | Op_send_to nat int bytes nat int "timeval option" | Op_sigaction bool "nat option option" | Op_stop | Op_reset
  | Op_hwm int int | Op_send_timeout int "timeval option" | Op_recv_timeout int "timeval option"
  | Op_log int nat stream "int + bytes" | Op_logger "logger_fn option" | Op_close_logs bool | Op_reset_logs

fun apply_op :: "(bytes \<Rightarrow> int) \<Rightarrow> comm_op \<Rightarrow> comms \<Rightarrow> comms" where
  "apply_op stale Op_socket C = snd (mem_socket C)"
| "apply_op stale (Op_setsockopt s l n v k) C = snd (mem_setsockopt s l n v k C)"
| "apply_op stale (Op_send t s buf len) C = snd (mem_send t s buf len C)"
| "apply_op stale (Op_recv t s len) C = snd (mem_recv stale t s len C)"
| "apply_op stale (Op_recv_from t l len timeout) C = snd (recv_from stale t l len timeout C)"
| "apply_op stale (Op_send_to t l buf len hwm timeout) C = snd (send_to t l buf len hwm timeout C)"
| "apply_op stale (Op_sigaction b act) C = snd (mem_sigaction b act C)"
| "apply_op stale Op_stop C = snd (stop C)"
| "apply_op stale Op_reset C = reset C"
| "apply_op stale (Op_hwm l h) C = set_gw_send_hwm l h C"
| "apply_op stale (Op_send_timeout l v) C = set_gw_send_timeout l v C"
| "apply_op stale (Op_recv_timeout l v) C = set_gw_recv_timeout l v C"
| "apply_op stale (Op_log u t s f) C = snd (log_msg u t s f C)"
| "apply_op stale (Op_logger f) C = set_logger f C"
| "apply_op stale (Op_close_logs b) C = close_log_queues b C"
| "apply_op stale Op_reset_logs C = reset_log_queues C"

lemma queue_send_buflen [simp]: "send_buflen (snd (queue_send t buf len hwm timeout Q)) = send_buflen Q"
  by (cases rule: queue_send_cases [of t buf len hwm timeout Q]) auto

lemma queue_recv_buflen [simp]: "send_buflen (snd (queue_recv stale t len timeout Q)) = send_buflen Q"
  by (cases rule: queue_recv_cases [of stale t len timeout Q]) auto

lemma link_op_ok:
  "link_ok (snd (from_fwd_send t buf len l)) = link_ok l" "link_ok (snd (from_fwd_recv stale t len d l)) = link_ok l"
  "link_ok (snd (to_fwd_send t buf len h d l)) = link_ok l" "link_ok (snd (to_fwd_recv stale t len l)) = link_ok l"
  "link_ok (link_reset l) = link_ok l" "link_ok (link_close l) = link_ok l"
  by (simp_all add: link_ok_def from_fwd_send_def from_fwd_recv_def to_fwd_send_def to_fwd_recv_def case_prod_unfold
      Let_def link_reset_def link_close_def queue_reset_def queue_close_def maybe_reset_def maybe_close_def)

lemma link_field_ok [simp]:
  "link_ok (l\<lparr>to_fwd_recv_timeout := d\<rparr>) = link_ok l" "link_ok (l\<lparr>from_fwd_send_timeout := d\<rparr>) = link_ok l"
  "link_ok (l\<lparr>from_fwd_send_hwm := h\<rparr>) = link_ok l"
  by (simp_all add: link_ok_def)

lemma set_link_ok: "comms_ok C \<Longrightarrow> link_ok l \<Longrightarrow> comms_ok (set_link i l C)"
  by (auto simp: comms_ok_def set_link_def dest: subsetD [OF set_update_subset_insert])

lemma link_at_ok: "comms_ok C \<Longrightarrow> \<not> bad_socket i \<Longrightarrow> link_ok (link_at i C)"
  by (auto simp: comms_ok_def link_at_def bad_socket_def uplink_def downlink_def)

lemma comms_ok_other [simp]:
  "comms_ok (C\<lparr>signal_handler := h\<rparr>) = comms_ok C" "comms_ok (C\<lparr>signal_handler_called := b\<rparr>) = comms_ok C"
  "comms_ok (C\<lparr>stop_requested := b\<rparr>) = comms_ok C" "comms_ok (C\<lparr>cfg_prefix := p\<rparr>) = comms_ok C"
  "comms_ok (C\<lparr>logger := f\<rparr>) = comms_ok C" "comms_ok (C\<lparr>log_info := Q\<rparr>) = comms_ok C"
  "comms_ok (C\<lparr>log_error := Q\<rparr>) = comms_ok C" "comms_ok (C\<lparr>exit_sig := b\<rparr>) = comms_ok C"
  "comms_ok (C\<lparr>quit_sig := b\<rparr>) = comms_ok C"
  by (simp_all add: comms_ok_def)

lemma check_stop_ok [simp]: "comms_ok (snd (check_stop h r C)) = comms_ok C"
  by (simp add: check_stop_def Let_def)

lemma log_msg_ok [simp]: "comms_ok (snd (log_msg u t s f C)) = comms_ok C"
  by (auto simp: log_msg_def log_to_queues_def case_prod_unfold Let_def split: option.split logger_fn.split)

lemma mem_socket_ok: "comms_ok C \<Longrightarrow> comms_ok (snd (mem_socket C))"
proof -
  assume ok: "comms_ok C"
  show ?thesis
  proof (cases "downlink < next_socket C")
    case False
    then have "\<not> bad_socket (next_socket C)" using ok by (simp add: bad_socket_def comms_ok_def)
    then have "comms_ok (set_link (next_socket C) (link_reset (link_at (next_socket C) C)) C)"
      by (simp add: ok set_link_ok link_at_ok link_op_ok)
    then show ?thesis
      using False ok by (simp add: mem_socket_def Let_def comms_ok_def set_link_def)
  qed (use ok in \<open>simp add: mem_socket_def\<close>)
qed

lemma reset_ok: "comms_ok C \<Longrightarrow> comms_ok (reset C)"
proof -
  assume ok: "comms_ok C"
  let ?C = "C\<lparr>next_socket := uplink\<rparr>"
  have "comms_ok ?C" using ok by (simp add: comms_ok_def uplink_def downlink_def)
  moreover have "\<not> bad_socket uplink" "\<not> bad_socket downlink" by (simp_all add: bad_socket_def uplink_def downlink_def)
  ultimately show ?thesis
    by (simp add: reset_def Let_def set_link_ok link_at_ok link_op_ok)
qed

lemma apply_op_ok: "comms_ok C \<Longrightarrow> comms_ok (apply_op stale op C)"
  by (cases op)
    (auto simp: mem_socket_ok reset_ok stop_def set_link_ok link_at_ok link_op_ok mem_setsockopt_def mem_send_def
      mem_recv_def recv_from_def send_to_def mem_sigaction_def set_gw_send_hwm_def set_gw_send_timeout_def
      set_gw_recv_timeout_def set_logger_def close_log_queues_def reset_log_queues_def case_prod_unfold Let_def
      split: option.split)

lemma comms_init_ok: "comms_ok comms_init"
  by (simp add: comms_ok_def comms_init_def link_ok_def link_new_def queue_new_def uplink_def downlink_def)

text \<open>
  Whatever calls the program and the forwarder make, in any order and with any arguments, the library
  keeps exactly two links whose queues accept messages of 4550 bytes from the forwarder and 999 bytes to
  it, and the number of the next socket stays 0, 1 or 2.
\<close>

theorem comms_two_links:
  "comms_ok (fold (apply_op stale) ops comms_init)"
proof -
  have "comms_ok C \<Longrightarrow> comms_ok (fold (apply_op stale) ops C)" for C
    by (induction ops arbitrary: C) (simp_all add: apply_op_ok)
  then show ?thesis using comms_init_ok by blast
qed

section \<open>Datagrams\<close>

lemma link_at_set_link:
  "comms_ok C \<Longrightarrow> \<not> bad_socket i \<Longrightarrow> link_at i (set_link i l C) = l"
  "\<not> bad_socket i \<Longrightarrow> \<not> bad_socket j \<Longrightarrow> i \<noteq> j \<Longrightarrow> link_at i (set_link j l C) = link_at i C"
  by (auto simp: link_at_def set_link_def comms_ok_def bad_socket_def uplink_def downlink_def)

lemma send_then_recv:
  assumes "\<not> wclosed Q" and "wq Q = []" and "hwm < 0" and "length buf \<le> send_buflen Q"
    and "length buf \<le> len"
  shows "fst (queue_send t buf (length buf) hwm timeout Q) = Returned (Inr (int (length buf)))"
    and "fst (queue_recv stale t' len timeout' (snd (queue_send t buf (length buf) hwm timeout Q))) = Returned (Inr buf)"
    and "wq (snd (queue_recv stale t' len timeout' (snd (queue_send t buf (length buf) hwm timeout Q)))) = []"
  using assms by (auto simp: queue_send_def enqueue_def queue_recv_def dequeue_def push_msg_def pop_msg_def Let_def min_def)

text \<open>
  C27. A downlink datagram of at most 999 bytes arrives whole: what the program writes with \<open>send_to\<close> on an
  open, empty link is what \<open>mem_recv\<close> gives to \<open>thread_down\<close>, whose buffer of \<open>RX_BUFF_SIZE\<close> holds it and
  the terminator, and the link is empty again.
\<close>

theorem send_to_mem_recv:
  assumes "comms_ok C" and "\<not> bad_socket lnk" and "\<not> wclosed (to_fwd (link_at lnk C))"
    and "wq (to_fwd (link_at lnk C)) = []" and "length buf < RX_BUFF_SIZE"
    and "send_to t lnk buf (length buf) (-1) timeout C = (r, C1)"
    and "mem_recv stale t' lnk (RX_BUFF_SIZE - 1) C1 = (r', C2)"
  shows "r = Returned (Inr (int (length buf))) \<and> r' = Returned (Inr buf) \<and> wq (to_fwd (link_at lnk C2)) = []"
proof -
  let ?Q = "to_fwd (link_at lnk C)"
  have "length buf \<le> send_buflen ?Q" "length buf \<le> RX_BUFF_SIZE - 1"
    using link_at_ok [OF assms(1,2)] assms(5) by (simp_all add: link_ok_def send_to_buflen_def)
  note q = send_then_recv [OF assms(3,4) _ this, of "-1"]
  have C1: "r = fst (queue_send t buf (length buf) (-1) (to_microseconds timeout) ?Q)"
      "C1 = set_link lnk ((link_at lnk C)\<lparr>to_fwd := snd (queue_send t buf (length buf) (-1) (to_microseconds timeout) ?Q)\<rparr>) C"
    using assms(2,6) by (auto simp: send_to_def to_fwd_send_def case_prod_unfold Let_def)
  have ok: "comms_ok C1"
    using apply_op_ok [OF assms(1), of stale "Op_send_to t lnk buf (length buf) (-1) timeout"] assms(6) by simp
  have "r' = fst (queue_recv stale t' (RX_BUFF_SIZE - 1) (to_fwd_recv_timeout (link_at lnk C1)) (to_fwd (link_at lnk C1)))"
      "to_fwd (link_at lnk C2) =
         snd (queue_recv stale t' (RX_BUFF_SIZE - 1) (to_fwd_recv_timeout (link_at lnk C1)) (to_fwd (link_at lnk C1)))"
    using assms(2,7) by (auto simp: mem_recv_def to_fwd_recv_def case_prod_unfold Let_def link_at_set_link ok)
  moreover have "to_fwd (link_at lnk C1) = snd (queue_send t buf (length buf) (-1) (to_microseconds timeout) ?Q)"
    unfolding C1 by (simp add: link_at_set_link assms(1,2))
  ultimately show ?thesis using C1(1) q by simp
qed

theorem send_to_mem_recv_witness:
  "\<exists>C1 C2. send_to 1 1 [1, 2, 3] 3 (-1) None comms_init = (Returned (Inr 3), C1) \<and>
     mem_recv len_of 2 1 999 C1 = (Returned (Inr [1, 2, 3]), C2)"
proof -
  obtain r C1 where s: "send_to 1 1 [1, 2, 3] (length [1, 2, 3 :: u8]) (-1) None comms_init = (r, C1)" by fastforce
  obtain r' C2 where m: "mem_recv len_of 2 1 (RX_BUFF_SIZE - 1) C1 = (r', C2)" by fastforce
  have "r = Returned (Inr (int (length [1, 2, 3 :: u8]))) \<and> r' = Returned (Inr [1, 2, 3]) \<and> wq (to_fwd (link_at 1 C2)) = []"
    by (rule send_to_mem_recv [OF comms_init_ok _ _ _ _ s m])
      (simp_all add: bad_socket_def uplink_def downlink_def comms_init_def link_at_def link_new_def queue_new_def
        RX_BUFF_SIZE_def)
  with s m show ?thesis by (simp add: RX_BUFF_SIZE_def numeral_3_eq_3)
qed

section \<open>Stopping\<close>

text \<open>A sequence of registrations of a handler and requests to stop, with the handlers that are called.\<close>

fun check_stops :: "(nat option \<times> bool) list \<Rightarrow> comms \<Rightarrow> nat list \<times> comms" where
  "check_stops [] C = ([], C)"
| "check_stops ((handler, request) # xs) C =
     (let (h, C) = check_stop handler request C; (hs, C) = check_stops xs C in
      (case h of None \<Rightarrow> hs | Some x \<Rightarrow> x # hs, C))"

lemma check_stops_called: "signal_handler_called C \<Longrightarrow> fst (check_stops xs C) = []"
proof (induction xs arbitrary: C)
  case (Cons x xs)
  obtain handler request where x: "x = (handler, request)" by (cases x)
  have "fst (check_stop handler request C) = None" "signal_handler_called (snd (check_stop handler request C))"
    using Cons.prems by (simp_all add: check_stop_def Let_def)
  then show ?case using Cons.IH by (simp add: x case_prod_unfold Let_def)
qed simp

lemma check_stops_first:
  assumes "\<not> signal_handler_called C" and "signal_handler C = None \<or> \<not> stop_requested C"
  shows "length (fst (check_stops xs C)) \<le> 1 \<and>
    (fst (check_stops xs C) \<noteq> [] \<longleftrightarrow>
      (signal_handler C \<noteq> None \<or> (\<exists>h b. (Some h, b) \<in> set xs)) \<and> (stop_requested C \<or> (\<exists>h. (h, True) \<in> set xs))) \<and>
    set (fst (check_stops xs C)) \<subseteq> {h. signal_handler C = Some h \<or> (\<exists>b. (Some h, b) \<in> set xs)}"
  using assms
proof (induction xs arbitrary: C)
  case (Cons x xs)
  obtain handler request where x: "x = (handler, request)" by (cases x)
  let ?C = "snd (check_stop handler request C)"
  show ?case
  proof (cases "fst (check_stop handler request C)")
    case None
    then have C: "\<not> signal_handler_called ?C" "signal_handler ?C = None \<or> \<not> stop_requested ?C"
        "signal_handler ?C = (if handler = None then signal_handler C else handler)"
        "stop_requested ?C \<longleftrightarrow> stop_requested C \<or> request"
      using Cons.prems by (auto simp: check_stop_def Let_def split: if_splits)
    show ?thesis
      using Cons.IH [OF C(1,2)] None C(3,4) by (auto simp: x case_prod_unfold Let_def split: if_splits)
  next
    case (Some h)
    then have "fst (check_stops xs ?C) = []"
      by (intro check_stops_called) (auto simp: check_stop_def Let_def split: if_splits)
    moreover have "(if handler = None then signal_handler C else handler) = Some h" "stop_requested C \<or> request"
      using Some by (auto simp: check_stop_def Let_def split: if_splits)
    ultimately show ?thesis
      using Some by (cases handler; cases request) (auto simp: x case_prod_unfold Let_def)
  qed
qed simp

text \<open>
  After a reset the forwarder's handler is called at most once, whatever sequence of registrations and
  stop requests the threads make: it is called exactly when a handler has been registered and a stop
  requested, in either order, and only a registered handler is called.
\<close>

theorem stop_handler_called_once:
  "length (fst (check_stops xs (reset C))) \<le> 1 \<and>
   (fst (check_stops xs (reset C)) \<noteq> [] \<longleftrightarrow> (\<exists>h b. (Some h, b) \<in> set xs) \<and> (\<exists>h. (h, True) \<in> set xs)) \<and>
   set (fst (check_stops xs (reset C))) \<subseteq> {h. \<exists>b. (Some h, b) \<in> set xs}"
  using check_stops_first [of "reset C" xs] by (simp add: reset_def Let_def)

section \<open>Sleeping\<close>

definition slices_ns :: "(int \<times> int) list \<Rightarrow> int" where
  "slices_ns xs = (\<Sum>(s, n)\<leftarrow>xs. s * 1000000000 + n)"

lemma wait_slices_total:
  "0 \<le> sec \<Longrightarrow> nsec = 0 \<or> 100000 < nsec \<Longrightarrow>
   slices_ns (wait_slices (\<lambda>_. False) (\<lambda>_. False) i sec nsec) = sec * 1000000000 + nsec"
proof (induction "\<lambda>_::nat. False" "\<lambda>_::nat. False" i sec nsec rule: wait_slices.induct)
  case (1 i sec nsec)
  then show ?case
    by (subst wait_slices.simps) (auto simp: Let_def slices_ns_def min_def)
qed

lemma wait_slices_stopped:
  "called k \<Longrightarrow> i \<le> k \<Longrightarrow> length (wait_slices called failed i sec nsec) \<le> k - i"
proof (induction called failed i sec nsec rule: wait_slices.induct)
  case (1 called failed i sec nsec)
  show ?case
  proof (cases "i = k")
    case True
    then show ?thesis using 1 by (subst wait_slices.simps) auto
  next
    case False
    then show ?thesis using 1 by (subst wait_slices.simps) (auto simp: Let_def le_Suc_eq)
  qed
qed

lemma wait_slices_short:
  "0 \<le> nsec \<Longrightarrow> nsec < 1000000000 \<Longrightarrow> (s, n) \<in> set (wait_slices called failed i sec nsec) \<Longrightarrow> s * 1000000000 + n < 2000000000"
proof (induction called failed i sec nsec rule: wait_slices.induct)
  case (1 called failed i sec nsec)
  show ?case
    using 1(4) 1(1-3) by (subst (asm) wait_slices.simps) (auto simp: Let_def min_def split: if_splits)
qed

text \<open>
  \<open>mem_wait_ms\<close> returns; undisturbed it sleeps exactly the requested time, and once the handler has
  been called it starts no further slice, none of which takes two seconds.
\<close>

theorem mem_wait_ms_sleeps:
  shows "slices_ns (mem_wait_ms (\<lambda>_. False) (\<lambda>_. False) a) = int a * 1000000 \<and>
    length (mem_wait_ms (\<lambda>i. k \<le> i) failed a) \<le> k \<and>
    (\<forall>(s, n) \<in> set (mem_wait_ms called failed a). s * 1000000000 + n < 2000000000)"
proof (intro conjI)
  have "int a = int (a div 1000) * 1000 + int (a mod 1000)"
    by (metis mult.commute div_mult_mod_eq of_nat_add of_nat_mult of_nat_numeral)
  moreover have "int (a mod 1000) * 1000000 = 0 \<or> 100000 < int (a mod 1000) * 1000000" by auto
  ultimately show "slices_ns (mem_wait_ms (\<lambda>_. False) (\<lambda>_. False) a) = int a * 1000000"
    by (simp add: mem_wait_ms_def wait_slices_total)
  show "length (mem_wait_ms (\<lambda>i. k \<le> i) failed a) \<le> k"
    using wait_slices_stopped [of "\<lambda>i. k \<le> i" k 0] by (simp add: mem_wait_ms_def)
  have "int (a mod 1000) * 1000000 < 1000000000" by simp
  then show "\<forall>(s, n) \<in> set (mem_wait_ms called failed a). s * 1000000000 + n < 2000000000"
    unfolding mem_wait_ms_def by (auto dest!: wait_slices_short [rotated 2])
qed

theorem mem_wait_ms_sleeps_witness:
  "slices_ns (mem_wait_ms (\<lambda>_. False) (\<lambda>_. False) 2500) = 2500000000 \<and>
    length (mem_wait_ms (\<lambda>i. 1 \<le> i) (\<lambda>_. False) 2500) \<le> 1"
  using mem_wait_ms_sleeps [of 2500] mem_wait_ms_sleeps [of 2500 1 "\<lambda>_. False"] by simp

section \<open>Starting again\<close>

text \<open>
  The forwarder gets its two sockets once: after a reset the first two calls of \<open>socket\<close> give the
  uplink and the downlink, every further one fails with \<open>EMFILE\<close>, so a second start needs a reset.
\<close>

theorem two_sockets_per_reset:
  "map fst [mem_socket (reset C), mem_socket (snd (mem_socket (reset C))),
      mem_socket (snd (mem_socket (snd (mem_socket (reset C)))))] = [Inr uplink, Inr downlink, Inl EMFILE] \<and>
   snd (mem_socket (snd (mem_socket (snd (mem_socket (reset C)))))) = snd (mem_socket (snd (mem_socket (reset C))))"
  by (simp add: mem_socket_def reset_def Let_def uplink_def downlink_def set_link_def)

lemma closed_link_ops:
  assumes "wclosed (from_fwd l)" and "wclosed (to_fwd l)"
  shows "fst (from_fwd_send t buf len l) = Returned (Inl EBADF)"
    and "fst (from_fwd_recv stale t len d l) = Returned (Inl EBADF)"
    and "fst (to_fwd_send t buf len h d l) = Returned (Inl EBADF)"
    and "fst (to_fwd_recv stale t len l) = Returned (Inl EBADF)"
  using assms by (simp_all add: from_fwd_send_def from_fwd_recv_def to_fwd_send_def to_fwd_recv_def queue_send_def
      queue_recv_def enqueue_def dequeue_def)

text \<open>
  When \<open>start\<close> returns, both links are closed and empty: whatever the forwarder did, every later send or
  receive on either side fails at once with \<open>EBADF\<close> instead of blocking, until the links are reset.
\<close>

theorem start_closes_links:
  assumes "\<And>C. comms_ok C \<Longrightarrow> comms_ok (snd (main C))" and "comms_ok C" and "\<not> bad_socket lnk"
    and "start cfg_dir main C = (r, C')"
  shows "wq (from_fwd (link_at lnk C')) = [] \<and> wq (to_fwd (link_at lnk C')) = [] \<and>
    fst (send_to t lnk buf len hwm timeout C') = Returned (Inl EBADF) \<and>
    fst (recv_from stale t lnk len timeout C') = Returned (Inl EBADF) \<and>
    fst (mem_send t lnk buf len C') = Returned (Inl EBADF) \<and>
    fst (mem_recv stale t lnk len C') = Returned (Inl EBADF)"
proof -
  define C1 where "C1 = snd (main (case cfg_dir of None \<Rightarrow> C\<lparr>cfg_prefix := []\<rparr> | Some d \<Rightarrow> C\<lparr>cfg_prefix := d @ lit ''/''\<rparr>))"
  define C2 where "C2 = set_link uplink (link_close (link_at uplink C1)) C1"
  have b: "\<not> bad_socket uplink" "\<not> bad_socket downlink" "uplink \<noteq> downlink"
    by (simp_all add: bad_socket_def uplink_def downlink_def)
  have ok1: "comms_ok C1" using assms(1,2) by (auto simp: C1_def split: option.split)
  then have ok2: "comms_ok C2" using b by (simp add: C2_def set_link_ok link_at_ok link_op_ok)
  have C': "C' = set_link downlink (link_close (link_at downlink C2)) C2"
    using assms(4) by (auto simp: start_def C2_def C1_def Let_def case_prod_unfold)
  have "lnk = uplink \<or> lnk = downlink"
    using assms(3) by (auto simp: bad_socket_def uplink_def downlink_def)
  then obtain l where l: "link_at lnk C' = link_close l"
    using b ok1 ok2 by (auto simp: C' C2_def link_at_set_link)
  have cl: "wclosed (from_fwd (link_close l))" "wclosed (to_fwd (link_close l))"
    by (simp_all add: link_close_def queue_close_def maybe_close_def)
  have "wq (from_fwd (link_close l)) = []" "wq (to_fwd (link_close l)) = []"
    by (simp_all add: link_close_def queue_close_def maybe_close_def)
  then show ?thesis
    using closed_link_ops [OF cl] assms(3)
    by (simp add: l send_to_def recv_from_def mem_send_def mem_recv_def case_prod_unfold Let_def)
qed

theorem start_closes_links_witness:
  "\<exists>r C'. start None (\<lambda>C. (Some 1, C)) comms_init = (r, C') \<and>
     fst (recv_from len_of 1 0 10 None C') = Returned (Inl EBADF)"
proof -
  obtain r C' where s: "start None (\<lambda>C. (Some 1, C)) comms_init = (r, C')" by fastforce
  have "\<not> bad_socket 0" by (simp add: bad_socket_def uplink_def downlink_def)
  from start_closes_links [OF _ comms_init_ok this s, of 1 "[]" 10 0 None len_of] s show ?thesis by auto
qed

end
