(* ===== verification/Beacon.thy ===== *)
theory Beacon
  imports Crc16 Jit_Queue Timersync Tx_Ack
begin

unbundle bit_operations_syntax

text \<open>
  Class B beacons in \<open>thread_down\<close> (\<open>lora_pkt_fwd.c\<close>): the frame that is prepared when the thread starts,
  and the loop that fills the JIT queue with the beacons of the next periods.
\<close>

section \<open>Configuration\<close>

record beacon_cfg =
  beacon_period :: u32
  beacon_freq_hz :: u32
  beacon_freq_nb :: u8
  beacon_freq_step :: u32
  beacon_datarate :: u8
  beacon_bw_hz :: u32
  beacon_power :: u8  \<comment> \<open>\<open>int8_t\<close>\<close>
  beacon_infodesc :: u8
  reference_lat :: dbl
  reference_lon :: dbl

section \<open>The frame\<close>

definition beacon_bandwidth :: "hal \<Rightarrow> u32 \<Rightarrow> u8 res" where
  "beacon_bandwidth H bw_hz =
     (if bw_hz = 125000 then Inr (hal_BW_125KHZ H) else if bw_hz = 500000 then Inr (hal_BW_500KHZ H)
      else Inl ExitCall)"

text \<open>The data rate and the sizes of the two reserved fields.\<close>

definition beacon_layout :: "hal \<Rightarrow> u8 \<Rightarrow> (u32 \<times> nat \<times> nat) res" where
  "beacon_layout H sf =
     (if sf = 8 then Inr (hal_DR_LORA H 8, 1, 3)
      else if sf = 9 then Inr (hal_DR_LORA H 9, 2, 0)
      else if sf = 10 then Inr (hal_DR_LORA H 10, 3, 1)
      else if sf = 12 then Inr (hal_DR_LORA H 12, 5, 3)
      else Inl ExitCall)"

text \<open>A coordinate in 24 bits: \<open>(int32_t)((c / full) * (double)(1<<23))\<close>, limited to three bytes.\<close>

definition coord_field :: "dbl \<Rightarrow> rat \<Rightarrow> u32 res" where
  "coord_field c full =
     bindr (dbl_to_s32 (dbl_mul (dbl_div c full) 8388608)) (\<lambda>f.
     Inr (if 0x007FFFFF < sint f then 0x007FFFFF
          else if sint f < -0x00800000 then 0xFF800000 else f))"

definition le24 :: "u32 \<Rightarrow> bytes" where
  "le24 f = [ucast f, ucast (drop_bit 8 f), ucast (drop_bit 16 f)]"

definition le16 :: "u16 \<Rightarrow> bytes" where
  "le16 f = [ucast f, ucast (drop_bit 8 f)]"

text \<open>\<open>beacon_pkt\<close> is not initialised, \<open>p0\<close> is what it holds at first.\<close>

definition beacon_prepare :: "hal \<Rightarrow> beacon_cfg \<Rightarrow> lgw_pkt_tx \<Rightarrow> (lgw_pkt_tx \<times> nat) res" where
  "beacon_prepare H cfg p0 =
     bindr (beacon_bandwidth H (beacon_bw_hz cfg)) (\<lambda>bw.
     bindr (beacon_layout H (beacon_datarate cfg)) (\<lambda>(dr, RFU1_size, RFU2_size).
     bindr (put_bytes (payload p0) 0 (replicate RFU1_size 0)) (\<lambda>(pl, idx).
     bindr (coord_field (reference_lat cfg) 90) (\<lambda>field_latitude.
     bindr (coord_field (reference_lon cfg) 180) (\<lambda>field_longitude.
     bindr (put_bytes pl (idx + 4 + 2) (beacon_infodesc cfg # le24 field_latitude @ le24 field_longitude)) (\<lambda>(pl, idx).
     bindr (put_bytes pl idx (replicate RFU2_size 0)) (\<lambda>(pl, idx).
     bindr (crc16 (Some (drop (6 + RFU1_size) pl)) (7 + RFU2_size)) (\<lambda>field_crc2.
     bindr (put_bytes pl idx (le16 field_crc2)) (\<lambda>(pl, idx).
     Inr (p0\<lparr>tx_mode := hal_ON_GPS H, rf_chain := 0, rf_power := beacon_power cfg, modulation := hal_MOD_LORA H,
             bandwidth := bw, datarate := dr, pkt_size := of_nat (RFU1_size + 4 + 2 + 7 + RFU2_size + 2),
             coderate := hal_CR_LORA H 5, invert_pol := False, preamble := 10, no_crc := True, no_header := True,
             payload := pl\<rparr>, RFU1_size))))))))))"

section \<open>Pre-allocation of slots\<close>

text \<open>
  What the loop of \<open>thread_down\<close> carries: the queue, the counters, the packet, the GPS second of the last
  beacon that was queued (0: none), the slots left to fill and the retries.
\<close>

record beacon_state =
  bs_queue :: jit_queue
  bs_meas :: meas_dw
  bs_pkt :: lgw_pkt_tx
  last_beacon_sec :: int
  beacon_loop :: u8
  beacon_retry :: int

definition next_beacon_sec :: "beacon_cfg \<Rightarrow> tref \<Rightarrow> beacon_state \<Rightarrow> int" where
  "next_beacon_sec cfg ref s =
     (let period = uint (beacon_period cfg);
          base = (if last_beacon_sec s = 0
                  then fst (tref_gps ref) + (period - fst (tref_gps ref) smod period)
                  else last_beacon_sec s + period)
      in base + uint (word_of_int (beacon_retry s) * beacon_period cfg :: u32))"

definition beacon_chan :: "beacon_cfg \<Rightarrow> int \<Rightarrow> u8" where
  "beacon_chan cfg sec =
     (if 1 < beacon_freq_nb cfg
      then word_of_int (sec sdiv uint (beacon_period cfg) smod uint (beacon_freq_nb cfg)) else 0)"

definition le32_time :: "int \<Rightarrow> bytes" where
  "le32_time sec = [word_of_int sec, word_of_int (sec div 2 ^ 8), word_of_int (sec div 2 ^ 16), word_of_int (sec div 2 ^ 24)]"

text \<open>Time and checksum of the network part; the result of \<open>lgw_gps2cnt\<close> is not looked at.\<close>

definition beacon_fill :: "hal \<Rightarrow> beacon_cfg \<Rightarrow> tref \<Rightarrow> nat \<Rightarrow> int \<Rightarrow> lgw_pkt_tx \<Rightarrow> lgw_pkt_tx res" where
  "beacon_fill H cfg ref RFU1_size sec p =
     (let p = (case lgw_gps2cnt H ref (sec, 0) of None \<Rightarrow> p | Some t \<Rightarrow> p\<lparr>count_us := t\<rparr>);
          p = p\<lparr>freq_hz := beacon_freq_hz cfg + ucast (beacon_chan cfg sec) * beacon_freq_step cfg\<rparr> in
      bindr (put_bytes (payload p) RFU1_size (le32_time sec)) (\<lambda>(pl, idx).
      bindr (crc16 (Some pl) (4 + RFU1_size)) (\<lambda>field_crc1.
      bindr (put_bytes pl idx (le16 field_crc1)) (\<lambda>(pl, idx).
      Inr (p\<lparr>payload := pl\<rparr>)))))"

text \<open>One round of the loop with GPS time \<open>ref\<close> valid, at host time \<open>unix_time\<close>.\<close>

definition beacon_round ::
    "hal \<Rightarrow> beacon_cfg \<Rightarrow> nat \<Rightarrow> timeval \<Rightarrow> tref \<Rightarrow> timeval \<Rightarrow> beacon_state \<Rightarrow> beacon_state res" where
  "beacon_round H cfg RFU1_size offset ref unix_time s =
     (let sec = next_beacon_sec cfg ref s in
      bindr (beacon_fill H cfg ref RFU1_size sec (bs_pkt s)) (\<lambda>p.
      case get_concentrator_time offset (Some unix_time) unix_time of
        (_, None) \<Rightarrow> Inl NullDeref
      | (_, Some now) \<Rightarrow>
          bindr (jit_enqueue H (bs_queue s) now (Some p) JIT_PKT_TYPE_BEACON) (\<lambda>(jit_result, q, p').
          let s = s\<lparr>bs_queue := q, bs_pkt := (case p' of None \<Rightarrow> p | Some p \<Rightarrow> p)\<rparr>; m = bs_meas s in
          if jit_result = JIT_ERROR_OK then
            Inr (s\<lparr>bs_meas := m\<lparr>meas_nb_beacon_queued := meas_nb_beacon_queued m + 1\<rparr>,
                   beacon_loop := beacon_loop s - 1, beacon_retry := 0, last_beacon_sec := sec\<rparr>)
          else
            Inr (s\<lparr>bs_meas := (if jit_result \<noteq> JIT_ERROR_COLLISION_BEACON
                               then m\<lparr>meas_nb_beacon_rejected := meas_nb_beacon_rejected m + 1\<rparr> else m),
                   beacon_retry := beacon_retry s + 1\<rparr>))))"

text \<open>
  The loop, round by round: each element says whether GPS is ready (\<open>gps_ref_valid\<close> and
  \<open>xtal_correct_ok\<close>), the time reference and the host time of that round. \<open>None\<close>: the loop is still going
  after these rounds.
\<close>

fun beacon_rounds ::
    "hal \<Rightarrow> beacon_cfg \<Rightarrow> nat \<Rightarrow> timeval \<Rightarrow> (bool \<times> tref \<times> timeval) list \<Rightarrow> beacon_state \<Rightarrow> beacon_state option res" where
  "beacon_rounds H cfg RFU1_size offset rounds s =
     (if beacon_loop s = 0 \<or> beacon_period cfg = 0 then Inr (Some s)
      else case rounds of
        [] \<Rightarrow> Inr None
      | (gps_ready, ref, unix_time) # rounds \<Rightarrow>
          if \<not> gps_ready then Inr (Some s)
          else bindr (beacon_round H cfg RFU1_size offset ref unix_time s)
                 (beacon_rounds H cfg RFU1_size offset rounds))"

declare beacon_rounds.simps [simp del]

text \<open>The variables the loop is entered with.\<close>

definition beacon_enter :: "jit_queue \<Rightarrow> meas_dw \<Rightarrow> lgw_pkt_tx \<Rightarrow> int \<Rightarrow> beacon_state" where
  "beacon_enter q m p last_sec =
     \<lparr>bs_queue = q, bs_meas = m, bs_pkt = p, last_beacon_sec = last_sec,
      beacon_loop = of_nat JIT_NUM_BEACON_IN_QUEUE - num_beacon q, beacon_retry = 0\<rparr>"

end
