(* ===== verification/Thread_Down.thy ===== *)
theory Thread_Down
  imports Downlink Beacon
begin

text \<open>
  The two loops of \<open>thread_down\<close> (\<open>lora_pkt_fwd.c\<close>): a PULL_DATA is sent for every keep-alive interval,
  and in between datagrams are received; each received datagram, or timeout, first lets the beacon loop
  fill its slots. The datagrams, the clocks, the tokens and the GPS reference are inputs.
\<close>

section \<open>State\<close>

record down =
  dn_queue :: jit_queue
  dn_meas :: meas_dw
  dn_beacon_pkt :: lgw_pkt_tx
  dn_last_beacon :: int
  dn_token :: "u8 \<times> u8"
  dn_req_ack :: bool
  dn_autoquit_cnt :: u32
  dn_exit_sig :: bool
  dn_stop_seen :: bool  \<comment> \<open>\<open>exit_sig || quit_sig\<close> was read as true\<close>

definition down_start :: "hal \<Rightarrow> lgw_pkt_tx \<Rightarrow> meas_dw \<Rightarrow> down" where
  "down_start H beacon_pkt m =
     \<lparr>dn_queue = jit_queue_init H, dn_meas = m, dn_beacon_pkt = beacon_pkt, dn_last_beacon = 0,
      dn_token = (0, 0), dn_req_ack = False, dn_autoquit_cnt = 0, dn_exit_sig = False, dn_stop_seen = False\<rparr>"

section \<open>PULL_DATA\<close>

definition pull_data :: "u64 \<Rightarrow> u8 \<times> u8 \<Rightarrow> bytes" where
  "pull_data lgwm tok =
     [PROTOCOL_VERSION, fst tok, snd tok, PKT_PULL_DATA] @ net_mac_h lgwm @ net_mac_l lgwm"

text \<open>The head of the outer loop: quit, or send a request with a new token.\<close>

definition down_request :: "u64 \<Rightarrow> u32 \<Rightarrow> u8 \<times> u8 \<Rightarrow> down \<Rightarrow> bytes option \<times> down" where
  "down_request lgwm autoquit_threshold tok s =
     (if 0 < autoquit_threshold \<and> autoquit_threshold \<le> dn_autoquit_cnt s then (None, s\<lparr>dn_exit_sig := True\<rparr>)
      else
        (Some (pull_data lgwm tok),
         s\<lparr>dn_token := tok, dn_meas := (dn_meas s)\<lparr>meas_dw_pull_sent := meas_dw_pull_sent (dn_meas s) + 1\<rparr>,
           dn_req_ack := False, dn_autoquit_cnt := dn_autoquit_cnt s + 1\<rparr>))"

section \<open>One received datagram\<close>

definition down_beacons ::
    "hal \<Rightarrow> beacon_cfg \<Rightarrow> nat \<Rightarrow> timeval \<Rightarrow> (bool \<times> tref \<times> timeval) list \<Rightarrow> down \<Rightarrow> down option res" where
  "down_beacons H cfg RFU1_size offset rounds s =
     bindr (beacon_rounds H cfg RFU1_size offset rounds
              (beacon_enter (dn_queue s) (dn_meas s) (dn_beacon_pkt s) (dn_last_beacon s))) (\<lambda>r.
     Inr (case r of
            None \<Rightarrow> None
          | Some b \<Rightarrow> Some (s\<lparr>dn_queue := bs_queue b, dn_meas := bs_meas b, dn_beacon_pkt := bs_pkt b,
                              dn_last_beacon := last_beacon_sec b\<rparr>)))"

definition bad_datagram :: "bytes \<Rightarrow> bool" where
  "bad_datagram msg \<longleftrightarrow>
     length msg < 4 \<or> msg ! 0 \<noteq> PROTOCOL_VERSION \<or> (msg ! 3 \<noteq> PKT_PULL_RESP \<and> msg ! 3 \<noteq> PKT_PULL_ACK)"

definition pull_ack :: "bytes \<Rightarrow> down \<Rightarrow> down" where
  "pull_ack msg s =
     (if msg ! 1 = fst (dn_token s) \<and> msg ! 2 = snd (dn_token s) then
        (if dn_req_ack s then s
         else s\<lparr>dn_req_ack := True, dn_autoquit_cnt := 0,
                dn_meas := (dn_meas s)\<lparr>meas_dw_ack_rcv := meas_dw_ack_rcv (dn_meas s) + 1\<rparr>\<rparr>)
      else s)"

text \<open>\<open>msg\<close> is \<open>None\<close> when \<open>recv\<close> returned -1. The datagram sent back, if any, is returned.\<close>

definition down_datagram ::
    "hal \<Rightarrow> gateway \<Rightarrow> timeval \<Rightarrow> timeval \<Rightarrow> bytes option \<Rightarrow> down \<Rightarrow> (bytes option \<times> down) res" where
  "down_datagram H gw offset unix_time msg s =
     (case msg of
        None \<Rightarrow> Inr (None, s)
      | Some m \<Rightarrow>
          if bad_datagram m then Inr (None, s)
          else if m ! 3 = PKT_PULL_ACK then Inr (None, pull_ack m s)
          else
            bindr (handle_pull_resp H gw offset unix_time m (dn_queue s) (dn_meas s)) (\<lambda>(q, meas, ack).
            Inr (ack, s\<lparr>dn_queue := q, dn_meas := meas\<rparr>)))"

section \<open>The loops\<close>

text \<open>
  \<open>difftimespec\<close> in doubles; \<open>1E-9\<close> is the double nearest to it. Times are (seconds, nanoseconds).
\<close>

definition difftimespec :: "int \<times> int \<Rightarrow> int \<times> int \<Rightarrow> dbl" where
  "difftimespec end beginning =
     (case round_dbl (1 / 1000000000) of
        Fin c \<Rightarrow>
          (case dbl_mul (Fin (of_int (snd end - snd beginning))) c of
             Fin x \<Rightarrow> round_dbl (x + of_int (fst end - fst beginning))
           | d \<Rightarrow> d)
      | d \<Rightarrow> d)"

text \<open>\<open>(int)difftimespec (recv_time, send_time) < keepalive_time\<close>\<close>

definition within_keepalive :: "int \<Rightarrow> int \<times> int \<Rightarrow> int \<times> int \<Rightarrow> bool res" where
  "within_keepalive keepalive_time recv_time send_time =
     bindr (dbl_to_int (-2147483648) 2147483647 (difftimespec recv_time send_time)) (\<lambda>n. Inr (n < keepalive_time))"

text \<open>What one round of the inner loop sees.\<close>

record down_input =
  di_msg :: "bytes option"
  di_recv_time :: "int \<times> int"
  di_rounds :: "(bool \<times> tref \<times> timeval) list"
  di_unix_time :: timeval
  di_stop :: bool  \<comment> \<open>\<open>exit_sig || quit_sig\<close> at the head of the loop\<close>

record down_env =
  de_hal :: hal
  de_gateway :: gateway
  de_beacon :: beacon_cfg
  de_RFU1_size :: nat
  de_offset :: timeval
  de_keepalive :: int
  de_autoquit :: u32

text \<open>The test of both loops; \<open>stop\<close> is what another thread or a signal handler has set.\<close>

definition told_to_stop :: "bool \<Rightarrow> down \<Rightarrow> bool" where
  "told_to_stop stop s \<longleftrightarrow> dn_exit_sig s \<or> dn_stop_seen s \<or> stop"

text \<open>
  The inner loop with the datagrams it sends, and whether its own test has ended it: the interval is
  over, or one of the two signals is set; they are not cleared while the thread runs. \<open>False\<close>: the inputs
  are used up and it is still listening. \<open>None\<close>: a beacon loop does not end.
\<close>

fun down_listen ::
    "down_env \<Rightarrow> int \<times> int \<Rightarrow> int \<times> int \<Rightarrow> down_input list \<Rightarrow> down \<Rightarrow> (bytes list \<times> down \<times> bool) option res" where
  "down_listen E send_time recv_time [] s =
     bindr (within_keepalive (de_keepalive E) recv_time send_time) (\<lambda>go_on. Inr (Some ([], s, \<not> go_on)))"
| "down_listen E send_time recv_time (i # is) s =
     bindr (within_keepalive (de_keepalive E) recv_time send_time) (\<lambda>go_on.
     if \<not> go_on then Inr (Some ([], s, True))
     else if told_to_stop (di_stop i) s then Inr (Some ([], s\<lparr>dn_stop_seen := True\<rparr>, True))
     else
       bindr (down_beacons (de_hal E) (de_beacon E) (de_RFU1_size E) (de_offset E) (di_rounds i) s) (\<lambda>r.
       case r of
         None \<Rightarrow> Inr None
       | Some s \<Rightarrow>
           bindr (down_datagram (de_hal E) (de_gateway E) (de_offset E) (di_unix_time i) (di_msg i) s) (\<lambda>(ack, s).
           bindr (down_listen E send_time (di_recv_time i) is s) (\<lambda>r.
           Inr (map_option (\<lambda>(acks, s, ended). ((case ack of None \<Rightarrow> acks | Some a \<Rightarrow> a # acks), s, ended)) r)))))"

text \<open>What one pass of the outer loop sees: the signals at its head, its token, the time of the request.\<close>

record down_pass =
  dp_stop :: bool
  dp_token :: "u8 \<times> u8"
  dp_send_time :: "int \<times> int"
  dp_inputs :: "down_input list"

text \<open>
  The outer loop with the requests it sends, and whether it has ended: on a signal, seen here or by the
  inner loop before, or by its own decision to quit.
\<close>

fun down_loop :: "down_env \<Rightarrow> down_pass list \<Rightarrow> down \<Rightarrow> (bytes list \<times> down \<times> bool) option res" where
  "down_loop E [] s = Inr (Some ([], s, told_to_stop False s))"
| "down_loop E (p # ps) s =
     (if told_to_stop (dp_stop p) s then Inr (Some ([], s\<lparr>dn_stop_seen := True\<rparr>, True))
      else
        case down_request (gw_lgwm (de_gateway E)) (de_autoquit E) (dp_token p) s of
          (None, s) \<Rightarrow> Inr (Some ([], s, True))
        | (Some req, s) \<Rightarrow>
            bindr (down_listen E (dp_send_time p) (dp_send_time p) (dp_inputs p) s) (\<lambda>r.
            case r of
              None \<Rightarrow> Inr None
            | Some (acks, s, ended) \<Rightarrow>
                if \<not> ended then Inr (Some ([req], s, False))
                else
                  bindr (down_loop E ps s) (\<lambda>r.
                  Inr (map_option (\<lambda>(reqs, s, ended). (req # reqs, s, ended)) r))))"

end
