(* ===== verification/Beacon_Correct.thy ===== *)
theory Beacon_Correct
  imports Beacon Jit_Properties
begin

text \<open>
  The beacon frame byte by byte, and the slots: the loop of \<open>thread_down\<close> fills the queue with three
  beacons at multiples of the period.
\<close>

section \<open>The frame\<close>

definition crc_of :: "bytes \<Rightarrow> u16" where
  "crc_of bs = foldl crc_byte 0 bs"

lemma length_le [simp]: "length (le24 f) = 3" "length (le16 c) = 2" "length (le32_time sec) = 4"
  by (simp_all add: le24_def le16_def le32_time_def)

lemma put_bytes_at:
  "length out = n \<Longrightarrow> length s = length mid \<Longrightarrow> put_bytes (out @ mid @ rest) n s = Inr (out @ s @ rest, n + length s)"
  by (simp add: put_bytes_def)

lemma split_at: "n \<le> length xs \<Longrightarrow> \<exists>ys zs. xs = ys @ zs \<and> length ys = n"
  by (intro exI [of _ "take n xs"] exI [of _ "drop n xs"]) simp

lemma crc16_append: "length bs = n \<Longrightarrow> crc16 (Some (bs @ rest)) n = Inr (crc_of bs)"
  by (simp add: crc16_foldl crc_of_def)

lemma beacon_parts:
  assumes "r1 + 15 + r2 \<le> length (xs :: bytes)"
  obtains a b c d e rest where "xs = a @ b @ c @ d @ e @ rest" "length a = r1" "length b = 6" "length c = 7"
    "length d = r2" "length e = 2"
proof -
  obtain a x1 where a: "xs = a @ x1" "length a = r1" using split_at [of r1 xs] assms by auto
  obtain b x2 where b: "x1 = b @ x2" "length b = 6" using split_at [of 6 x1] assms a by auto
  obtain c x3 where c: "x2 = c @ x3" "length c = 7" using split_at [of 7 x2] assms a b by auto
  obtain d x4 where d: "x3 = d @ x4" "length d = r2" using split_at [of r2 x3] assms a b c by auto
  obtain e rest where e: "x4 = e @ rest" "length e = 2" using split_at [of 2 x4] assms a b c d by auto
  show ?thesis by (rule that [of a b c d e rest]) (use a b c d e in auto)
qed

lemma beacon_prepare_layout:
  assumes "beacon_bandwidth H (beacon_bw_hz cfg) = Inr bw" and "beacon_layout H (beacon_datarate cfg) = Inr (dr, r1, r2)"
    and "coord_field (reference_lat cfg) 90 = Inr la" and "coord_field (reference_lon cfg) 180 = Inr lo"
    and "payload p0 = a @ b @ c @ d @ e @ rest" and "length a = r1" "length b = 6" "length c = 7" "length d = r2" "length e = 2"
  defines "gw \<equiv> beacon_infodesc cfg # le24 la @ le24 lo @ replicate r2 0"
  shows "\<exists>p. beacon_prepare H cfg p0 = Inr (p, r1) \<and> payload p = replicate r1 0 @ b @ gw @ le16 (crc_of gw) @ rest \<and>
    pkt_size p = of_nat (r1 + r2 + 15)"
proof -
  have 1: "put_bytes (payload p0) 0 (replicate r1 0) = Inr (replicate r1 0 @ b @ c @ d @ e @ rest, r1)"
    using put_bytes_at [of "[]" 0 "replicate r1 0" a "b @ c @ d @ e @ rest"] assms(5,6) by simp
  have 2: "put_bytes (replicate r1 0 @ b @ c @ d @ e @ rest) (r1 + 4 + 2) (beacon_infodesc cfg # le24 la @ le24 lo) =
      Inr ((replicate r1 0 @ b) @ (beacon_infodesc cfg # le24 la @ le24 lo) @ d @ e @ rest, r1 + 13)"
    using put_bytes_at [of "replicate r1 0 @ b" "r1 + 6" "beacon_infodesc cfg # le24 la @ le24 lo" c "d @ e @ rest"] assms(7,8)
    by (simp add: add.commute)
  have 3: "put_bytes ((replicate r1 0 @ b) @ (beacon_infodesc cfg # le24 la @ le24 lo) @ d @ e @ rest) (r1 + 13) (replicate r2 0) =
      Inr ((replicate r1 0 @ b @ beacon_infodesc cfg # le24 la @ le24 lo) @ replicate r2 0 @ e @ rest, r1 + 13 + r2)"
    using put_bytes_at [of "replicate r1 0 @ b @ beacon_infodesc cfg # le24 la @ le24 lo" "r1 + 13" "replicate r2 0" d "e @ rest"]
      assms(7,9) by simp
  have 4: "crc16 (Some (drop (6 + r1) ((replicate r1 0 @ b @ beacon_infodesc cfg # le24 la @ le24 lo) @ replicate r2 0 @ e @ rest))) (7 + r2)
      = Inr (crc_of gw)"
    using crc16_append [of gw "7 + r2" "e @ rest"] assms(7) by (simp add: gw_def)
  have 5: "put_bytes ((replicate r1 0 @ b @ beacon_infodesc cfg # le24 la @ le24 lo) @ replicate r2 0 @ e @ rest) (r1 + 13 + r2) (le16 (crc_of gw))
      = Inr ((replicate r1 0 @ b @ gw) @ le16 (crc_of gw) @ rest, r1 + 13 + r2 + 2)"
    using put_bytes_at [of "replicate r1 0 @ b @ gw" "r1 + 13 + r2" "le16 (crc_of gw)" e rest] assms(7,10) by (simp add: gw_def)
  show ?thesis
    unfolding beacon_prepare_def assms(1-4) bindr_Inr prod.case 1 2 3 4 5 by simp
qed

lemma beacon_fill_layout:
  assumes "payload p = replicate r1 0 @ b @ rest" and "length b = 6"
  shows "\<exists>p'. beacon_fill H cfg ref r1 sec p = Inr p' \<and> pkt_size p' = pkt_size p \<and>
    payload p' = replicate r1 0 @ le32_time sec @ le16 (crc_of (replicate r1 0 @ le32_time sec)) @ rest"
proof -
  obtain b1 b2 where b: "b = b1 @ b2" "length b1 = 4" "length b2 = 2" using split_at [of 4 b] assms(2) by auto
  have 1: "put_bytes (replicate r1 0 @ b1 @ b2 @ rest) r1 (le32_time sec) = Inr (replicate r1 0 @ le32_time sec @ b2 @ rest, r1 + 4)"
    using put_bytes_at [of "replicate r1 0" r1 "le32_time sec" b1 "b2 @ rest"] b by simp
  have 2: "crc16 (Some (replicate r1 0 @ le32_time sec @ b2 @ rest)) (4 + r1) = Inr (crc_of (replicate r1 0 @ le32_time sec))"
    using crc16_append [of "replicate r1 0 @ le32_time sec" "4 + r1" "b2 @ rest"] by simp
  have 3: "put_bytes (replicate r1 0 @ le32_time sec @ b2 @ rest) (r1 + 4) c =
      Inr (replicate r1 0 @ le32_time sec @ c @ rest, r1 + 4 + 2)" if "length c = 2" for c
    using put_bytes_at [of "replicate r1 0 @ le32_time sec" "r1 + 4" c b2 rest] b that by simp
  have pl: "payload (q\<lparr>freq_hz := f\<rparr>) = payload q" "pkt_size (q\<lparr>freq_hz := f\<rparr>) = pkt_size q" for q :: lgw_pkt_tx and f by simp_all
  show ?thesis
    unfolding beacon_fill_def Let_def
    by (cases "lgw_gps2cnt H ref (sec, 0)") (simp_all add: assms(1) b(1) 1 2 3)
qed

subsection \<open>The frame the protocol asks for\<close>

text \<open>
  Written without the definitions of the model: for each spreading factor the two reserved sizes, integers as little-endian bytes
  by division, a coordinate as a signed number of \<open>2^-23\<close> parts, and the checksum as the bit-serial CRC with generator
  \<open>x^16 + x^12 + x^5 + 1\<close>, most significant bit first, starting from zero.
\<close>

fun le_bytes :: "nat \<Rightarrow> int \<Rightarrow> bytes" where
  "le_bytes 0 x = []"
| "le_bytes (Suc n) x = word_of_int (x mod 256) # le_bytes n (x div 256)"

definition ccitt_step :: "u16 \<Rightarrow> bool \<Rightarrow> u16" where
  "ccitt_step r b = 2 * r XOR (if bit r 15 \<noteq> b then 0x1021 else 0)"

definition msb_first :: "u8 \<Rightarrow> bool list" where
  "msb_first b = map (bit b) [7, 6, 5, 4, 3, 2, 1, 0]"

definition ccitt :: "bytes \<Rightarrow> u16" where
  "ccitt bs = foldl ccitt_step 0 (concat (map msb_first bs))"

definition coordinate :: "rat \<Rightarrow> rat \<Rightarrow> int" where
  "coordinate degrees limit =
     (case round_dbl (degrees / limit) of
        Fin x \<Rightarrow> (case round_dbl (x * 2 ^ 23) of
          Fin y \<Rightarrow> max (- (2 ^ 23)) (min (2 ^ 23 - 1) (if y < 0 then \<lceil>y\<rceil> else \<lfloor>y\<rfloor>))
        | _ \<Rightarrow> 0)
      | _ \<Rightarrow> 0)"

definition protocol_frame :: "nat \<Rightarrow> nat \<Rightarrow> int \<Rightarrow> u8 \<Rightarrow> int \<Rightarrow> int \<Rightarrow> bytes" where
  "protocol_frame rfu1 rfu2 sec info la lo =
     (let net = replicate rfu1 0 @ le_bytes 4 sec;
          gw = [info] @ le_bytes 3 la @ le_bytes 3 lo @ replicate rfu2 0
      in net @ le_bytes 2 (uint (ccitt net)) @ gw @ le_bytes 2 (uint (ccitt gw)))"

lemma length_le_bytes [simp]: "length (le_bytes n x) = n"
  by (induction n arbitrary: x) simp_all

text \<open>The checksum.\<close>

lemma crc_shift_xor: "crc_shift (x XOR c) = ccitt_step x (bit c 15) XOR push_bit 1 c"
  by (rule bit_word_eqI)
    (auto simp: bit_crc_shift bit_xor_iff ccitt_step_def bit_double mult.commute [of 2] crc_poly_def bit_push_bit_iff)

lemma crc_bits_serial:
  "crc_bits n (x XOR c) = foldl ccitt_step x (map (\<lambda>i. bit c (15 - i)) [0..<n]) XOR push_bit n c" if "n \<le> 15"
  using that
proof (induction n arbitrary: x c)
  case (Suc n)
  have eq: "map (\<lambda>i. bit (c * 2) (15 - i)) [0..<n] = map (\<lambda>i. bit c (14 - i)) [0..<n]"
    using Suc.prems by (auto simp: bit_double)
  show ?case
    using Suc.IH [of "ccitt_step x (bit c 15)" "push_bit 1 c"] Suc.prems
    by (simp add: eq crc_shift_xor push_bit_push_bit upt_conv_Cons map_Suc_upt [symmetric] o_def del: upt_Suc)
qed simp

lemma crc_byte_serial: "crc_byte x b = foldl ccitt_step x (msb_first b)"
proof -
  let ?c = "push_bit 8 (ucast b) :: u16"
  have "push_bit 8 ?c = 0"
    by (rule bit_word_eqI) (auto simp: bit_push_bit_iff bit_unsigned_iff)
  moreover have "map (\<lambda>i. bit ?c (15 - i)) [0..<8] = msb_first b"
  proof -
    have "[0..<8] = [0, 1, 2, 3, 4, 5, 6, 7 :: nat]" by (simp add: upt_rec)
    moreover have "bit ?c (8 + k) = bit b k" if "k < 8" for k
      using that by (simp only: bit_push_bit_iff bit_unsigned_iff) simp
    from this [of 0] this [of 1] this [of 2] this [of 3] this [of 4] this [of 5] this [of 6] this [of 7]
    have "bit ?c 8 = bit b 0" "bit ?c 9 = bit b 1" "bit ?c 10 = bit b 2" "bit ?c 11 = bit b 3" "bit ?c 12 = bit b 4"
      "bit ?c 13 = bit b 5" "bit ?c 14 = bit b 6" "bit ?c 15 = bit b 7"
      by simp_all
    ultimately show ?thesis by (simp add: msb_first_def)
  qed
  ultimately show ?thesis
    unfolding crc_byte_def using crc_bits_serial [of 8 x ?c] by simp
qed

lemma crc_of_ccitt: "crc_of bs = ccitt bs"
proof -
  have "foldl crc_byte x bs = foldl ccitt_step x (concat (map msb_first bs))" for x
    by (induction bs arbitrary: x) (simp_all add: crc_byte_serial)
  then show ?thesis by (simp add: crc_of_def ccitt_def)
qed

text \<open>The little-endian fields.\<close>

lemma ucast_drop_int:
  assumes "8 + n \<le> 32"
  shows "(ucast (drop_bit n (word_of_int c :: u32)) :: u8) = word_of_int (c div 2 ^ n mod 256)"
proof (rule bit_word_eqI)
  fix k assume "k < LENGTH(8)"
  moreover have "c div 2 ^ n mod 256 = take_bit 8 (drop_bit n c)"
    by (simp add: take_bit_eq_mod drop_bit_eq_div)
  ultimately show "bit (ucast (drop_bit n (word_of_int c :: u32)) :: u8) k = bit (word_of_int (c div 2 ^ n mod 256) :: u8) k"
    using assms by (simp add: bit_unsigned_iff bit_drop_bit_eq bit_word_of_int_iff bit_take_bit_iff add.commute)
qed

lemma le24_bytes: "le24 (word_of_int c) = le_bytes 3 c"
  using ucast_drop_int [of 0 c] ucast_drop_int [of 8 c] ucast_drop_int [of 16 c]
  by (simp add: le24_def eval_nat_numeral zdiv_zmult2_eq [symmetric])

lemma le16_bytes: "le16 c = le_bytes 2 (uint c)"
proof -
  have "ucast (drop_bit n c) = (ucast (drop_bit n (word_of_int (uint c) :: u32)) :: u8)" if "n \<le> 8" for n
    using that by (intro bit_word_eqI) (auto simp: bit_unsigned_iff bit_drop_bit_eq bit_word_of_int_iff bit_uint_iff)
  from this [of 0] this [of 8] show ?thesis
    using ucast_drop_int [of 0 "uint c"] ucast_drop_int [of 8 "uint c"] by (simp add: le16_def eval_nat_numeral)
qed

lemma le32_bytes: "le32_time sec = le_bytes 4 sec"
  by (simp add: le32_time_def eval_nat_numeral word_of_int_eq_iff take_bit_eq_mod zdiv_zmult2_eq [symmetric])


text \<open>The coordinates: both roundings are within half a unit in the last place, so nothing overflows.\<close>

lemma round_dbl_bounded:
  assumes "\<bar>x\<bar> < 2 powi (k + 1)" and "0 \<le> k" and "k \<le> 1000"
  shows "\<exists>y. round_dbl x = Fin y \<and> \<bar>y - x\<bar> \<le> 2 powi (k - 53)"
proof (cases "x = 0")
  case False
  define e where "e = max (expo \<bar>x\<bar> - 52) (-1074)"
  define n where "n = round_half_even (x / 2 powi e)"
  have "2 powi (expo \<bar>x\<bar>) < (2 :: rat) powi (k + 1)"
    using expo_bounds(1) [of "\<bar>x\<bar>"] False assms(1) by simp
  then have "expo \<bar>x\<bar> \<le> k"
    by (metis not_less power_int_increasing one_le_numeral zless_imp_add1_zle)
  then have e: "e \<le> k - 52" using assms(2) by (simp add: e_def)
  then have y: "round_dbl x = Fin (of_int n * 2 powi e)"
    using False assms(3) unfolding round_dbl_def Let_def e_def [symmetric] n_def [symmetric] by simp
  have "of_int n * 2 powi e - x = (of_int n - x / 2 powi e) * 2 powi e"
    by (simp add: left_diff_distrib)
  then have "\<bar>of_int n * 2 powi e - x\<bar> = \<bar>x / 2 powi e - of_int n\<bar> * 2 powi e"
    by (simp add: abs_mult abs_minus_commute)
  also have "\<dots> \<le> 1 / 2 * 2 powi e"
    unfolding n_def by (intro mult_right_mono round_half_even_near) simp
  also have "\<dots> \<le> 1 / 2 * 2 powi (k - 52)"
    using e by (intro mult_left_mono power_int_increasing) auto
  also have "\<dots> = 2 powi (k - 53)"
    using power_int_add [of "2 :: rat" "k - 53" 1] by simp
  finally show ?thesis using y by blast
qed (simp add: round_dbl_def)

lemma coordinate_rounded:
  assumes "0 < limit" and "\<bar>q\<bar> \<le> limit"
  obtains x y where "round_dbl (q / limit) = Fin x" "round_dbl (x * 2 ^ 23) = Fin y"
    "\<bar>y - q / limit * 2 ^ 23\<bar> \<le> 1 / 2 ^ 29" "\<bar>y\<bar> < 2 ^ 24"
proof -
  have "\<bar>q / limit\<bar> \<le> 1" using assms by (simp add: abs_divide)
  then obtain x where x: "round_dbl (q / limit) = Fin x" "\<bar>x - q / limit\<bar> \<le> 1 / 2 ^ 53"
    using round_dbl_bounded [of "q / limit" 0] by (auto simp: power_int_def power_one_over)
  have "\<bar>x\<bar> \<le> \<bar>x - q / limit\<bar> + \<bar>q / limit\<bar>" by linarith
  then have x1: "\<bar>x\<bar> \<le> 1 + 1 / 2 ^ 53" using x(2) \<open>\<bar>q / limit\<bar> \<le> 1\<close> by linarith
  then have "\<bar>x * 2 ^ 23\<bar> < 2 powi (23 + 1)"
    by (simp add: abs_mult)
  then obtain y where y: "round_dbl (x * 2 ^ 23) = Fin y" "\<bar>y - x * 2 ^ 23\<bar> \<le> 1 / 2 ^ 30"
    using round_dbl_bounded [of "x * 2 ^ 23" 23] by (auto simp: power_int_def power_one_over)
  have "\<bar>x * 2 ^ 23 - q / limit * 2 ^ 23\<bar> = \<bar>x - q / limit\<bar> * 2 ^ 23"
    by (simp only: left_diff_distrib [symmetric] abs_mult) simp
  also have "\<dots> \<le> 1 / 2 ^ 53 * 2 ^ 23" using x(2) by (intro mult_right_mono) auto
  finally have "\<bar>y - q / limit * 2 ^ 23\<bar> \<le> 1 / 2 ^ 29"
    using y(2) abs_triangle_ineq [of "y - x * 2 ^ 23" "x * 2 ^ 23 - q / limit * 2 ^ 23"] by simp
  moreover have "\<bar>y\<bar> < 2 ^ 24"
    using x1 y(2) abs_triangle_ineq [of "y - x * 2 ^ 23" "x * 2 ^ 23"] by (simp add: abs_mult)
  ultimately show ?thesis by (rule that [OF x(1) y(1)])
qed

lemma trunc_cases: "trunc y = (if y < 0 then \<lceil>y\<rceil> else \<lfloor>y\<rfloor>)"
  by (simp add: trunc_def ceiling_def)

lemma coord_field_value:
  assumes "0 < limit" and "\<bar>q\<bar> \<le> limit"
  shows "coord_field (Fin q) limit = Inr (word_of_int (coordinate q limit))"
proof -
  obtain x y where xy: "round_dbl (q / limit) = Fin x" "round_dbl (x * 2 ^ 23) = Fin y" "\<bar>y\<bar> < 2 ^ 24"
    by (rule coordinate_rounded [OF assms])
  have b: "- (2 ^ 24) \<le> trunc y" "trunc y \<le> 2 ^ 24"
    using xy(3) by (auto simp: trunc_cases abs_less_iff ceiling_le_iff le_floor_iff le_ceiling_iff floor_le_iff)
  then have "sint (word_of_int (trunc y) :: u32) = trunc y"
    by (simp add: sint_sbintrunc' signed_take_bit_int_eq_self)
  then show ?thesis
    using xy b by (auto simp: coord_field_def dbl_div_def dbl_mul_def dbl_to_s32_def dbl_to_int_def coordinate_def
        trunc_cases [symmetric] min_def max_def)
qed

text \<open>The field is the coordinate to within one \<open>2^-23\<close> part of the limit.\<close>

lemma coordinate_accuracy:
  assumes "0 < limit" and "\<bar>q\<bar> \<le> limit"
  shows "\<bar>of_int (coordinate q limit) - q / limit * 2 ^ 23\<bar> \<le> 1 + 1 / 2 ^ 29"
proof -
  obtain x y where xy: "round_dbl (q / limit) = Fin x" "round_dbl (x * 2 ^ 23) = Fin y"
      "\<bar>y - q / limit * 2 ^ 23\<bar> \<le> 1 / 2 ^ 29"
    by (rule coordinate_rounded [OF assms])
  define r where "r = q / limit * 2 ^ 23"
  have "\<bar>q / limit\<bar> * 2 ^ 23 \<le> 1 * 2 ^ 23" using assms by (intro mult_right_mono) (simp_all add: abs_divide)
  then have r: "\<bar>r\<bar> \<le> 2 ^ 23" unfolding r_def by (simp only: abs_mult) simp
  have y: "\<bar>y - r\<bar> \<le> 1 / 2 ^ 29" using xy(3) by (simp only: r_def)
  define t where "t = trunc y"
  have t: "\<bar>of_int t - y\<bar> \<le> 1" "\<bar>of_int t\<bar> \<le> \<bar>y\<bar>"
    unfolding t_def trunc_cases by (cases "y < 0"; simp; linarith)+
  have "\<bar>of_int t\<bar> < (of_int (2 ^ 23 + 1) :: rat)"
    using t(2) y r abs_triangle_ineq [of "y - r" r] by simp
  then have "\<bar>t\<bar> < 2 ^ 23 + 1" by linarith
  moreover have "\<bar>of_int t - r\<bar> \<le> 1 + 1 / 2 ^ 29" using t(1) y by linarith
  moreover have "\<bar>2 ^ 23 - 1 - r\<bar> \<le> 1 + 1 / 2 ^ 29" if "t = 2 ^ 23"
    using that t r y by simp
  moreover from calculation(1) have "max (- (2 ^ 23)) (min (2 ^ 23 - 1) t) = (if t = 2 ^ 23 then 2 ^ 23 - 1 else t)"
    by (auto simp: min_def max_def abs_less_iff)
  ultimately have "\<bar>of_int (max (- (2 ^ 23)) (min (2 ^ 23 - 1) t)) - r\<bar> \<le> 1 + 1 / 2 ^ 29"
    by simp
  then show ?thesis using xy(1,2) by (simp only: coordinate_def trunc_cases [symmetric] t_def r_def dbl.case)
qed

lemma beacon_prepare_modulation:
  assumes "beacon_prepare H cfg p0 = Inr (p, r1)" and "beacon_bandwidth H (beacon_bw_hz cfg) = Inr bw"
    and "beacon_layout H (beacon_datarate cfg) = Inr (dr, r, r')"
  shows "modulation p = hal_MOD_LORA H \<and> bandwidth p = bw \<and> datarate p = dr \<and> coderate p = hal_CR_LORA H 5 \<and>
    preamble p = 10 \<and> no_crc p \<and> no_header p \<and> \<not> invert_pol p \<and> tx_mode p = hal_ON_GPS H"
  using assms by (auto simp: beacon_prepare_def bindr_eq_Inr_iff)

lemma beacon_fill_modulation:
  assumes "beacon_fill H cfg ref r1 sec p = Inr p'"
  shows "modulation p' = modulation p \<and> bandwidth p' = bandwidth p \<and> datarate p' = datarate p \<and> coderate p' = coderate p \<and>
    preamble p' = preamble p \<and> no_crc p' = no_crc p \<and> no_header p' = no_header p \<and> invert_pol p' = invert_pol p \<and>
    tx_mode p' = tx_mode p"
  using assms by (auto simp: beacon_fill_def bindr_eq_Inr_iff Let_def split: option.splits)

text \<open>
  C28. For each of the four beacon data rates (spreading factors 8, 9, 10 and 12, with their reserved sizes), both bandwidths and
  any position on the globe, the frame sent in a slot has that modulation and is byte for byte the frame of the protocol: reserved
  bytes zero, the GPS second of the slot in four little-endian bytes, the CRC of this part, the descriptor, latitude and longitude
  in three little-endian bytes each as signed \<open>2^-23\<close> parts of 90 and 180 degrees, reserved bytes, and the CRC of that part. The
  buffer must hold the frame, which the 256 bytes of \<open>payload\<close> do.
\<close>

theorem beacon_frame_correct:
  assumes "(beacon_datarate cfg, rfu1, rfu2) \<in> {(8, 1, 3), (9, 2, 0), (10, 3, 1), (12, 5, 3)}"
    and "(beacon_bw_hz cfg, bw) \<in> {(125000, hal_BW_125KHZ H), (500000, hal_BW_500KHZ H)}"
    and "reference_lat cfg = Fin lat" "\<bar>lat\<bar> \<le> 90" and "reference_lon cfg = Fin lon" "\<bar>lon\<bar> \<le> 180"
    and "rfu1 + 15 + rfu2 \<le> length (payload p0)"
  shows "\<exists>p p'. beacon_prepare H cfg p0 = Inr (p, rfu1) \<and> beacon_fill H cfg ref rfu1 sec p = Inr p' \<and>
    modulation p' = hal_MOD_LORA H \<and> bandwidth p' = bw \<and> datarate p' = hal_DR_LORA H (unat (beacon_datarate cfg)) \<and>
    coderate p' = hal_CR_LORA H 5 \<and> preamble p' = 10 \<and> no_crc p' \<and> no_header p' \<and> \<not> invert_pol p' \<and>
    tx_mode p' = hal_ON_GPS H \<and> pkt_size p' = of_nat (rfu1 + 15 + rfu2) \<and>
    take (rfu1 + 15 + rfu2) (payload p') =
      protocol_frame rfu1 rfu2 sec (beacon_infodesc cfg) (coordinate lat 90) (coordinate lon 180)"
proof -
  have bw: "beacon_bandwidth H (beacon_bw_hz cfg) = Inr bw" using assms(2) by (auto simp: beacon_bandwidth_def)
  have row: "beacon_layout H (beacon_datarate cfg) = Inr (hal_DR_LORA H (unat (beacon_datarate cfg)), rfu1, rfu2)"
    using assms(1) by (auto simp: beacon_layout_def)
  have coord: "coord_field (reference_lat cfg) 90 = Inr (word_of_int (coordinate lat 90))"
      "coord_field (reference_lon cfg) 180 = Inr (word_of_int (coordinate lon 180))"
    using coord_field_value assms(3-6) by simp_all
  obtain a b c d e rest where parts: "payload p0 = a @ b @ c @ d @ e @ rest" "length a = rfu1" "length b = 6" "length c = 7"
      "length d = rfu2" "length e = 2"
    by (rule beacon_parts [OF assms(7)])
  let ?gw = "beacon_infodesc cfg # le24 (word_of_int (coordinate lat 90)) @ le24 (word_of_int (coordinate lon 180)) @ replicate rfu2 0"
  obtain p where p: "beacon_prepare H cfg p0 = Inr (p, rfu1)" "pkt_size p = of_nat (rfu1 + rfu2 + 15)"
      "payload p = replicate rfu1 0 @ b @ ?gw @ le16 (crc_of ?gw) @ rest"
    using beacon_prepare_layout [OF bw row coord parts] by blast
  obtain p' where p': "beacon_fill H cfg ref rfu1 sec p = Inr p'" "pkt_size p' = pkt_size p"
      "payload p' = replicate rfu1 0 @ le32_time sec @ le16 (crc_of (replicate rfu1 0 @ le32_time sec)) @ ?gw @ le16 (crc_of ?gw) @ rest"
    using beacon_fill_layout [OF p(3) parts(3), of H cfg ref sec] by auto
  have "take (rfu1 + 15 + rfu2) (payload p') =
      protocol_frame rfu1 rfu2 sec (beacon_infodesc cfg) (coordinate lat 90) (coordinate lon 180)"
    using take_append [of "rfu1 + 15 + rfu2" "protocol_frame rfu1 rfu2 sec (beacon_infodesc cfg) (coordinate lat 90) (coordinate lon 180)" rest]
    unfolding p'(3) by (simp add: protocol_frame_def Let_def crc_of_ccitt le24_bytes le16_bytes le32_bytes add.commute [of rfu2])
  then show ?thesis
    using p p' beacon_prepare_modulation [OF p(1) bw row] beacon_fill_modulation [OF p'(1)] by (auto simp: add.commute)
qed

definition demo_beacon :: beacon_cfg where
  "demo_beacon = \<lparr>beacon_period = 128, beacon_freq_hz = 869525000, beacon_freq_nb = 1, beacon_freq_step = 0,
     beacon_datarate = 9, beacon_bw_hz = 125000, beacon_power = 14, beacon_infodesc = 0,
     reference_lat = Fin 45, reference_lon = Fin (-90)\<rparr>"

theorem beacon_frame_correct_witness:
  "\<forall>r. \<exists>p p'. beacon_prepare hal_example demo_beacon (pkt_zero 32) = Inr (p, 2) \<and>
     beacon_fill hal_example demo_beacon r 2 1234560000 p = Inr p' \<and>
     take 17 (payload p') = protocol_frame 2 0 1234560000 0 (coordinate 45 90) (coordinate (-90) 180)"
proof
  fix r
  show "\<exists>p p'. beacon_prepare hal_example demo_beacon (pkt_zero 32) = Inr (p, 2) \<and>
     beacon_fill hal_example demo_beacon r 2 1234560000 p = Inr p' \<and>
     take 17 (payload p') = protocol_frame 2 0 1234560000 0 (coordinate 45 90) (coordinate (-90) 180)"
    using beacon_frame_correct [of demo_beacon 2 0 _ hal_example 45 "-90" "pkt_zero 32" r 1234560000]
    by (auto simp: demo_beacon_def pkt_zero_def)
qed

text \<open>That frame in bytes.\<close>

lemma demo_frame:
  "protocol_frame 2 0 1234560000 0 (coordinate 45 90) (coordinate (-90) 180) =
     [0, 0, 0, 0xE4, 0x95, 0x49, 0x02, 0x42, 0, 0, 0, 0x40, 0, 0, 0xC0, 0xD0, 0xB7]"
  by code_simp

section \<open>The slots\<close>

definition slot_state :: "beacon_cfg \<Rightarrow> int \<Rightarrow> beacon_state \<Rightarrow> bool" where
  "slot_state cfg n s \<longleftrightarrow> uint (beacon_period cfg) dvd last_beacon_sec s \<and> 0 \<le> beacon_retry s \<and>
     (beacon_retry s + n) * uint (beacon_period cfg) < 2 ^ 32 \<and> jit_inv (bs_queue s) \<and>
     unat (num_beacon (bs_queue s)) + unat (beacon_loop s) = JIT_NUM_BEACON_IN_QUEUE"

lemma retry_no_wrap:
  assumes "0 \<le> r" and "r * uint (w :: u32) < 2 ^ 32"
  shows "uint (word_of_int r * w) = r * uint w"
  using assms by (cases "w = 0") (simp_all add: uint_word_ariths uint_word_of_int mod_mult_left_eq)

lemma next_slot_multiple:
  assumes "0 < beacon_period cfg" and "0 \<le> fst (tref_gps ref)" and "slot_state cfg n s" and "0 \<le> n"
  shows "uint (beacon_period cfg) dvd next_beacon_sec cfg ref s"
    and "last_beacon_sec s = 0 \<Longrightarrow> fst (tref_gps ref) < next_beacon_sec cfg ref s"
    and "last_beacon_sec s \<noteq> 0 \<Longrightarrow> last_beacon_sec s < next_beacon_sec cfg ref s"
proof -
  let ?p = "uint (beacon_period cfg)" and ?g = "fst (tref_gps ref)"
  have p: "0 < ?p" using assms(1) by (simp add: word_less_def)
  have "beacon_retry s * ?p \<le> (beacon_retry s + n) * ?p" using assms(4) p by simp
  then have r: "uint (word_of_int (beacon_retry s) * beacon_period cfg :: u32) = beacon_retry s * ?p"
    using assms(3) by (intro retry_no_wrap) (auto simp: slot_state_def)
  have g: "?g + (?p - ?g smod ?p) = (?g div ?p + 1) * ?p"
    using assms(2) p by (simp add: algebra_simps minus_mod_eq_mult_div [symmetric])
  have gt: "?g < (?g div ?p + 1) * ?p"
    using p pos_mod_bound [of ?p ?g] by (simp add: algebra_simps minus_mod_eq_mult_div [symmetric])
  have rp: "0 \<le> beacon_retry s * ?p" using assms(3) p by (simp add: slot_state_def)
  show "?p dvd next_beacon_sec cfg ref s"
    using assms(3) unfolding next_beacon_sec_def Let_def r g by (auto simp: slot_state_def)
  show "?g < next_beacon_sec cfg ref s" if "last_beacon_sec s = 0"
    using that gt rp unfolding next_beacon_sec_def Let_def r g by simp
  show "last_beacon_sec s < next_beacon_sec cfg ref s" if "last_beacon_sec s \<noteq> 0"
    using that p rp unfolding next_beacon_sec_def Let_def r by simp
qed

lemma beacon_round_cases:
  assumes "beacon_round H cfg r1 offset ref t s = Inr s'"
  shows "\<exists>p e q p'. jit_enqueue H (bs_queue s) (timersub t offset) (Some p) JIT_PKT_TYPE_BEACON = Inr (e, q, p') \<and>
    bs_queue s' = q \<and> last_beacon_sec s' = (if e = JIT_ERROR_OK then next_beacon_sec cfg ref s else last_beacon_sec s) \<and>
    beacon_retry s' = (if e = JIT_ERROR_OK then 0 else beacon_retry s + 1) \<and>
    beacon_loop s' = (if e = JIT_ERROR_OK then beacon_loop s - 1 else beacon_loop s)"
proof -
  have now: "get_concentrator_time offset (Some t) t = (0, Some (timersub t offset))"
    by (simp add: get_concentrator_time_def Let_def timersub_def)
  obtain p where p: "beacon_fill H cfg ref r1 (next_beacon_sec cfg ref s) (bs_pkt s) = Inr p"
    using assms unfolding beacon_round_def Let_def bindr_eq_Inr_iff by blast
  obtain e q p' where e: "jit_enqueue H (bs_queue s) (timersub t offset) (Some p) JIT_PKT_TYPE_BEACON = Inr (e, q, p')"
    using assms unfolding beacon_round_def Let_def p bindr_Inr now prod.case option.case bindr_eq_Inr_iff by fastforce
  show ?thesis
    using assms unfolding beacon_round_def Let_def p bindr_Inr now prod.case option.case e
    by (intro exI [of _ p] exI [of _ e] exI [of _ q] exI [of _ p']) (auto simp: e split: if_splits)
qed

lemma beacon_round_slot:
  assumes "0 < beacon_period cfg" and "0 \<le> fst (tref_gps ref)"
    and "slot_state cfg (n + 1) s" and "0 \<le> n" and "beacon_loop s \<noteq> 0"
    and "beacon_round H cfg r1 offset ref t s = Inr s'"
  shows "slot_state cfg n s'"
proof -
  let ?p = "uint (beacon_period cfg)"
  define sec where "sec = next_beacon_sec cfg ref s"
  have sec: "?p dvd sec" unfolding sec_def by (rule next_slot_multiple [OF assms(1-3)]) (use assms(4) in simp)
  have inv: "jit_inv (bs_queue s)" "jit_wf (bs_queue s)" using assms(3) by (auto simp: slot_state_def jit_inv_def)
  let ?now = "timersub t offset"
  obtain p e q p' where enq: "jit_enqueue H (bs_queue s) ?now (Some p) JIT_PKT_TYPE_BEACON = Inr (e, q, p')"
    and s': "bs_queue s' = q" "last_beacon_sec s' = (if e = JIT_ERROR_OK then sec else last_beacon_sec s)"
      "beacon_retry s' = (if e = JIT_ERROR_OK then 0 else beacon_retry s + 1)"
      "beacon_loop s' = (if e = JIT_ERROR_OK then beacon_loop s - 1 else beacon_loop s)"
    using beacon_round_cases [OF assms(6)] unfolding sec_def by blast
  have q: "jit_inv q" by (rule jit_enqueue_inv [OF inv(1) enq])
  show ?thesis
  proof (cases "e = JIT_ERROR_OK")
    case False
    then have "q = bs_queue s" using jit_enqueue_cases [OF inv(2) enq] by auto
    then show ?thesis using assms(3) False s' by (simp add: slot_state_def algebra_simps)
  next
    case True
    then obtain p0 pp where ins: "insert_node (bs_queue s) (new_node H p0 pp JIT_PKT_TYPE_BEACON) = Inr q"
        "\<not> jit_queue_is_full (bs_queue s)"
      using jit_enqueue_cases [OF inv(2) enq] by auto
    then have m: "mset (live q) = add_mset (new_node H p0 pp JIT_PKT_TYPE_BEACON) (mset (live (bs_queue s)))"
      using insert_node_wf [OF inv(2) ins(2), of "new_node H p0 pp JIT_PKT_TYPE_BEACON"] by auto
    have "beacons (live q) = beacons (live (bs_queue s) @ [new_node H p0 pp JIT_PKT_TYPE_BEACON])"
      by (rule beacons_mset) (simp add: m)
    then have nb: "unat (num_beacon q) = unat (num_beacon (bs_queue s)) + 1"
      using q inv(2) by (simp add: jit_inv_def jit_wf_def beacons_def is_beacon_def new_node_def)
    have lp: "unat (beacon_loop s - 1) = unat (beacon_loop s) - 1" "0 < unat (beacon_loop s)"
      using assms(5) by (simp_all add: unat_u8_minus1 unat_gt_0)
    have "n * ?p \<le> (beacon_retry s + (n + 1)) * ?p"
      by (rule mult_right_mono) (use assms(3) in \<open>auto simp: slot_state_def\<close>)
    then show ?thesis
      using assms(3) True s' q sec nb lp by (auto simp: slot_state_def)
  qed
qed

lemma beacon_rounds_Cons:
  "beacon_loop s \<noteq> 0 \<Longrightarrow> 0 < beacon_period cfg \<Longrightarrow>
   beacon_rounds H cfg r1 offset ((ready, ref, t) # rounds) s =
     (if ready then bindr (beacon_round H cfg r1 offset ref t s) (beacon_rounds H cfg r1 offset rounds)
      else Inr (Some s))"
  by (subst beacon_rounds.simps) (auto intro!: arg_cong [where f = "bindr _"])

lemma beacon_rounds_slot:
  assumes "0 < beacon_period cfg"
    and "\<forall>(ready, ref, t) \<in> set rounds. 0 \<le> fst (tref_gps ref)"
    and "slot_state cfg (int (length rounds)) s"
    and "beacon_rounds H cfg r1 offset rounds s = Inr (Some s')"
  shows "\<exists>n \<ge> 0. slot_state cfg n s' \<and> (beacon_loop s' = 0 \<or> (\<exists>(ready, ref, t) \<in> set rounds. \<not> ready))"
  using assms(2-4)
proof (induction rounds arbitrary: s)
  case Nil
  then show ?case using assms(1) by (subst (asm) beacon_rounds.simps) (auto split: if_splits)
next
  case (Cons x rounds)
  obtain ready ref t where x: "x = (ready, ref, t)" by (cases x)
  show ?case
  proof (cases "beacon_loop s = 0 \<or> \<not> ready")
    case True
    then have "s' = s"
      using Cons.prems(3) assms(1) by (subst (asm) beacon_rounds.simps) (auto simp: x split: if_splits)
    then show ?thesis using Cons.prems(2) True by (intro exI [of _ "int (length (x # rounds))"]) (auto simp: x)
  next
    case False
    then obtain s1 where s1: "beacon_round H cfg r1 offset ref t s = Inr s1"
        "beacon_rounds H cfg r1 offset rounds s1 = Inr (Some s')"
      using Cons.prems(3) assms(1) by (auto simp: x beacon_rounds_Cons bindr_eq_Inr_iff)
    have "slot_state cfg (int (length rounds)) s1"
      by (rule beacon_round_slot [OF assms(1) _ _ _ _ s1(1)]) (use Cons.prems(1,2) False in \<open>auto simp: x add.commute\<close>)
    then show ?thesis using Cons.IH [of s1] Cons.prems(1) s1(2) by auto
  qed
qed

text \<open>
  The loop that pre-allocates beacon slots keeps the queue's invariant, and when it stops with GPS
  ready throughout, the queue holds exactly three beacons and the last one lies at a multiple of the
  beacon period, as \<open>LoRaWAN\<close> demands, however often a slot had to be skipped.
\<close>

theorem beacon_slots_filled:
  assumes "0 < beacon_period cfg" and "jit_inv q"
    and "unat (num_beacon q) \<le> JIT_NUM_BEACON_IN_QUEUE"
    and "uint (beacon_period cfg) dvd sec0" and "int (length rounds) * uint (beacon_period cfg) < 2 ^ 32"
    and "\<forall>(ready, ref, t) \<in> set rounds. ready \<and> 0 \<le> fst (tref_gps ref)"
    and "beacon_rounds H cfg r1 offset rounds (beacon_enter q m p sec0) = Inr (Some s)"
  shows "jit_inv (bs_queue s) \<and> beacons (live (bs_queue s)) = JIT_NUM_BEACON_IN_QUEUE \<and>
    uint (beacon_period cfg) dvd last_beacon_sec s"
proof -
  have "unat (of_nat JIT_NUM_BEACON_IN_QUEUE - num_beacon q) = JIT_NUM_BEACON_IN_QUEUE - unat (num_beacon q)"
    using assms(3) by (simp add: JIT_NUM_BEACON_IN_QUEUE_def unat_sub_if')
  then have "slot_state cfg (int (length rounds)) (beacon_enter q m p sec0)"
    using assms(2-5) by (simp add: slot_state_def beacon_enter_def)
  then obtain n where "slot_state cfg n s" "beacon_loop s = 0"
    using beacon_rounds_slot [OF assms(1) _ _ assms(7)] assms(6) by fastforce
  then show ?thesis by (auto simp: slot_state_def jit_inv_def jit_wf_def)
qed

definition demo_ref :: tref where
  "demo_ref = \<lparr>systime = 0, tref_count_us = 0, tref_utc = (0, 0), tref_gps = (1000, 0), xtal_err = Fin 1\<rparr>"

definition demo_slots :: "beacon_state option res" where
  "demo_slots =
     (case beacon_prepare hal_example demo_beacon (pkt_zero 32) of
        Inl e \<Rightarrow> Inl e
      | Inr (p, r1) \<Rightarrow>
          beacon_rounds hal_example demo_beacon r1 \<lparr>tv_sec = 0, tv_usec = 0\<rparr>
            (replicate 3 (True, demo_ref, \<lparr>tv_sec = 1, tv_usec = 0\<rparr>))
            (beacon_enter (jit_queue_init hal_example) meas_dw_zero p 0))"

lemma demo_slots_run:
  "case demo_slots of Inr (Some s) \<Rightarrow> last_beacon_sec s = 1280 \<and> unat (num_beacon (bs_queue s)) = 3 | _ \<Rightarrow> False"
  by code_simp

theorem beacon_slots_filled_witness:
  "\<exists>s. demo_slots = Inr (Some s) \<and> beacons (live (bs_queue s)) = 3 \<and> 128 dvd last_beacon_sec s"
proof -
  obtain s where s: "demo_slots = Inr (Some s)"
    using demo_slots_run by (auto split: sum.splits option.splits)
  then obtain p r1 where run: "beacon_rounds hal_example demo_beacon r1 \<lparr>tv_sec = 0, tv_usec = 0\<rparr>
       (replicate 3 (True, demo_ref, \<lparr>tv_sec = 1, tv_usec = 0\<rparr>))
       (beacon_enter (jit_queue_init hal_example) meas_dw_zero p 0) = Inr (Some s)"
    unfolding demo_slots_def by (auto split: sum.splits prod.splits)
  have "jit_inv (bs_queue s) \<and> beacons (live (bs_queue s)) = JIT_NUM_BEACON_IN_QUEUE \<and>
      uint (beacon_period demo_beacon) dvd last_beacon_sec s"
    by (rule beacon_slots_filled [OF _ jit_queue_init_inv _ _ _ _ run])
      (simp_all add: demo_beacon_def demo_ref_def jit_queue_init_def)
  with s show ?thesis by (intro exI [of _ s]) (simp add: demo_beacon_def JIT_NUM_BEACON_IN_QUEUE_def)
qed

section \<open>A full queue\<close>

lemma beacon_fill_returns:
  assumes "r1 + 6 \<le> length (payload p)"
  shows "\<exists>p'. beacon_fill H cfg ref r1 sec p = Inr p' \<and> length (payload p') = length (payload p)"
proof -
  obtain a x where a: "payload p = a @ x" "length a = r1" using split_at [of r1 "payload p"] assms by auto
  obtain b rest where b: "x = b @ rest" "length b = 4" using split_at [of 4 x] assms a by auto
  obtain c rest' where c: "rest = c @ rest'" "length c = 2" using split_at [of 2 rest] assms a b by auto
  have 1: "put_bytes (a @ b @ c @ rest') r1 (le32_time sec) = Inr (a @ le32_time sec @ c @ rest', r1 + 4)"
    using put_bytes_at [of a r1 "le32_time sec" b "c @ rest'"] a b by simp
  have 2: "crc16 (Some (a @ le32_time sec @ c @ rest')) (4 + r1) = Inr (crc_of (a @ le32_time sec))"
    using crc16_append [of "a @ le32_time sec" "4 + r1" "c @ rest'"] a by simp
  have 3: "put_bytes (a @ le32_time sec @ c @ rest') (r1 + 4) (le16 v) = Inr (a @ le32_time sec @ le16 v @ rest', r1 + 4 + 2)" for v
    using put_bytes_at [of "a @ le32_time sec" "r1 + 4" "le16 v" c rest'] a c by simp
  show ?thesis
    unfolding beacon_fill_def Let_def
    by (cases "lgw_gps2cnt H ref (sec, 0)") (use a b c in \<open>simp_all add: 1 2 3\<close>)
qed

text \<open>
  C29. With beacons enabled (a period other than 0), while the queue is full and does not hold three beacons, the loop does not end
  as long as GPS is ready in every round: each round fails and is retried, and nothing in it looks at \<open>exit_sig\<close> or \<open>quit_sig\<close>.
  Another thread has to take a packet out of the queue, or GPS to lose its reference.
\<close>

theorem beacon_loop_spins_when_full:
  assumes "jit_queue_is_full q" and "num_beacon q \<noteq> of_nat JIT_NUM_BEACON_IN_QUEUE"
    and "0 < beacon_period cfg" and "r1 + 6 \<le> length (payload p)" and "\<forall>(ready, ref, t) \<in> set rounds. ready"
  shows "beacon_rounds H cfg r1 offset rounds (beacon_enter q m p sec0) = Inr None"
proof -
  have "beacon_rounds H cfg r1 offset rounds s = Inr None"
    if "bs_queue s = q" "beacon_loop s \<noteq> 0" "r1 + 6 \<le> length (payload (bs_pkt s))" for s
    using that assms(5)
  proof (induction rounds arbitrary: s)
    case Nil
    then show ?case using assms(3) by (subst beacon_rounds.simps) auto
  next
    case (Cons x rounds)
    obtain ref t where x: "x = (True, ref, t)" using Cons.prems(4) by (cases x) auto
    obtain p' where p': "beacon_fill H cfg ref r1 (next_beacon_sec cfg ref s) (bs_pkt s) = Inr p'"
        "length (payload p') = length (payload (bs_pkt s))"
      using beacon_fill_returns [OF Cons.prems(3)] by blast
    have "jit_enqueue H q now (Some p') JIT_PKT_TYPE_BEACON = Inr (JIT_ERROR_FULL, q, Some p')" for now
      using assms(1) by (simp add: jit_enqueue_def)
    then obtain s1 where s1: "beacon_round H cfg r1 offset ref t s = Inr s1" "bs_queue s1 = q"
        "beacon_loop s1 = beacon_loop s" "bs_pkt s1 = p'"
      using Cons.prems(1) by (simp add: beacon_round_def Let_def p'(1) get_concentrator_time_def)
    show ?case
      using Cons.IH [of s1] Cons.prems s1 p'(2) assms(3) by (simp add: x beacon_rounds_Cons)
  qed
  then show ?thesis using assms(1-4) by (simp add: beacon_enter_def)
qed

text \<open>A queue with 32 class A packets.\<close>

definition full_queue :: jit_queue where
  "full_queue = \<lparr>num_pkt = 32, num_beacon = 0, nodes = replicate 32 (node_zero 4)\<rparr>"

theorem beacon_loop_spins_when_full_witness:
  "beacon_rounds hal_example demo_beacon 2 \<lparr>tv_sec = 0, tv_usec = 0\<rparr>
     (replicate 1000 (True, demo_ref, \<lparr>tv_sec = 1, tv_usec = 0\<rparr>)) (beacon_enter full_queue meas_dw_zero (pkt_zero 32) 0) = Inr None"
  by (rule beacon_loop_spins_when_full)
    (simp_all add: full_queue_def jit_queue_is_full_def JIT_QUEUE_MAX_def JIT_NUM_BEACON_IN_QUEUE_def demo_beacon_def pkt_zero_def)

end
