(* ===== verification/Thread_Down_Correct.thy ===== *)
theory Thread_Down_Correct
  imports Thread_Down Downlink_Safety Beacon_Correct
begin

text \<open>
  The downstream thread as a whole: it keeps the JIT queue's invariant whatever is received, and it gives
  up after the configured number of unanswered requests.
\<close>

section \<open>Receiving keeps the queue well formed\<close>

lemma beacon_rounds_inv:
  "beacon_rounds H cfg r1 offset rounds s = Inr (Some s') \<Longrightarrow> jit_inv (bs_queue s) \<Longrightarrow> jit_inv (bs_queue s')"
proof (induction rounds arbitrary: s)
  case Nil
  then show ?case by (subst (asm) beacon_rounds.simps) (auto split: if_splits)
next
  case (Cons x rounds)
  obtain ready ref t where x: "x = (ready, ref, t)" by (cases x)
  show ?case
  proof (cases "beacon_loop s = 0 \<or> beacon_period cfg = 0 \<or> \<not> ready")
    case True
    then show ?thesis using Cons.prems by (subst (asm) beacon_rounds.simps) (auto simp: x split: if_splits)
  next
    case False
    then have "beacon_loop s \<noteq> 0" "0 < beacon_period cfg" by (auto simp: word_neq_0_conv)
    then obtain s1 where s1: "beacon_round H cfg r1 offset ref t s = Inr s1"
        "beacon_rounds H cfg r1 offset rounds s1 = Inr (Some s')"
      using Cons.prems(1) False by (auto simp: x beacon_rounds_Cons bindr_eq_Inr_iff)
    obtain p e q p' where "jit_enqueue H (bs_queue s) (timersub t offset) (Some p) JIT_PKT_TYPE_BEACON = Inr (e, q, p')"
        "bs_queue s1 = q"
      using beacon_round_cases [OF s1(1)] by blast
    then have "jit_inv (bs_queue s1)"
      using jit_enqueue_inv [OF Cons.prems(2)] by simp
    then show ?thesis by (rule Cons.IH [OF s1(2)])
  qed
qed

lemma down_beacons_inv:
  assumes "down_beacons H cfg r1 offset rounds s = Inr (Some s')" and "jit_inv (dn_queue s)"
  shows "jit_inv (dn_queue s')"
  using assms beacon_rounds_inv [of H cfg r1 offset rounds]
  by (auto simp: down_beacons_def bindr_eq_Inr_iff beacon_enter_def split: option.splits)

lemma down_datagram_inv:
  assumes "down_datagram H gw offset t msg s = Inr (ack, s')" and "jit_inv (dn_queue s)"
  shows "jit_inv (dn_queue s')"
  using assms pull_resp_cases [OF assms(2)]
  by (auto simp: down_datagram_def pull_ack_def bindr_eq_Inr_iff split: option.splits if_splits)

text \<open>What both parts of a round keep, the inner loop keeps.\<close>

lemma down_listen_Cons_cases:
  assumes "down_listen E st0 rt (i # is) s = Inr (Some (acks, s', ended))"
  shows "ended \<and> s' = s \<or> ended \<and> told_to_stop (di_stop i) s \<and> s' = s\<lparr>dn_stop_seen := True\<rparr> \<or>
    within_keepalive (de_keepalive E) rt st0 = Inr True \<and> \<not> told_to_stop (di_stop i) s \<and> (\<exists>s1 ack s2 acks'.
     down_beacons (de_hal E) (de_beacon E) (de_RFU1_size E) (de_offset E) (di_rounds i) s = Inr (Some s1) \<and>
     down_datagram (de_hal E) (de_gateway E) (de_offset E) (di_unix_time i) (di_msg i) s1 = Inr (ack, s2) \<and>
     down_listen E st0 (di_recv_time i) is s2 = Inr (Some (acks', s', ended)))"
  using assms by (auto simp: bindr_eq_Inr_iff split: if_splits option.splits)

lemma down_listen_Nil: "down_listen E st0 rt [] s = Inr (Some (acks, s', ended)) \<Longrightarrow> s' = s"
  by (auto simp: bindr_eq_Inr_iff)

lemma down_listen_keeps:
  assumes beacons: "\<And>i s s1. i \<in> set is \<Longrightarrow> P s \<Longrightarrow> \<not> told_to_stop (di_stop i) s \<Longrightarrow>
      down_beacons (de_hal E) (de_beacon E) (de_RFU1_size E) (de_offset E) (di_rounds i) s = Inr (Some s1) \<Longrightarrow> P s1"
    and datagram: "\<And>i s ack s2. i \<in> set is \<Longrightarrow> P s \<Longrightarrow>
      down_datagram (de_hal E) (de_gateway E) (de_offset E) (di_unix_time i) (di_msg i) s = Inr (ack, s2) \<Longrightarrow> P s2"
    and stop: "\<And>i s. i \<in> set is \<Longrightarrow> P s \<Longrightarrow> told_to_stop (di_stop i) s \<Longrightarrow> P (s\<lparr>dn_stop_seen := True\<rparr>)"
    and "down_listen E st0 rt is s = Inr (Some (acks, s', ended))" and "P s"
  shows "P s'"
  using assms
proof (induction "is" arbitrary: rt s acks)
  case Nil
  then show ?case using down_listen_Nil [OF Nil(4)] by simp
next
  case (Cons i "is")
  show ?case
    using down_listen_Cons_cases [OF Cons.prems(4)]
  proof (elim disjE exE conjE)
    assume "told_to_stop (di_stop i) s" "s' = s\<lparr>dn_stop_seen := True\<rparr>"
    then show "P s'" using Cons.prems(3) [of i s] Cons.prems(5) by simp
  next
    fix s1 ack s2 acks'
    assume b: "down_beacons (de_hal E) (de_beacon E) (de_RFU1_size E) (de_offset E) (di_rounds i) s = Inr (Some s1)"
      and d: "down_datagram (de_hal E) (de_gateway E) (de_offset E) (di_unix_time i) (di_msg i) s1 = Inr (ack, s2)"
      and l: "down_listen E st0 (di_recv_time i) is s2 = Inr (Some (acks', s', ended))"
      and ns: "\<not> told_to_stop (di_stop i) s"
    have "P s1" by (rule Cons.prems(1) [OF _ Cons.prems(5) ns b]) simp
    have "P s2" by (rule Cons.prems(2) [OF _ \<open>P s1\<close> d]) simp
    show "P s'"
    proof (rule Cons.IH [OF _ _ _ l \<open>P s2\<close>], goal_cases)
      case (1 j u u1)
      then show ?case using Cons.prems(1) [of j u u1] by simp
    next
      case (2 j u a u2)
      then show ?case using Cons.prems(2) [of j u a u2] by simp
    next
      case (3 j u)
      then show ?case using Cons.prems(3) [of j u] by simp
    qed
  qed (use Cons.prems(5) in simp)
qed

lemma down_listen_inv:
  assumes "down_listen E st0 rt is s = Inr (Some (acks, s', ended))" and "jit_inv (dn_queue s)"
  shows "jit_inv (dn_queue s')"
  by (rule down_listen_keeps [OF _ _ _ assms(1), of "\<lambda>s. jit_inv (dn_queue s)"])
    (use assms(2) down_beacons_inv down_datagram_inv in \<open>(blast | simp)+\<close>)

lemma down_loop_Cons_cases:
  fixes E p s
  defines "r \<equiv> down_request (gw_lgwm (de_gateway E)) (de_autoquit E) (dp_token p) s"
  assumes "down_loop E (p # ps) s = Inr (Some (reqs, s', ended))"
  obtains (stop) "told_to_stop (dp_stop p) s" "s' = s\<lparr>dn_stop_seen := True\<rparr>" "reqs = []" "ended"
  | (quit) "\<not> told_to_stop (dp_stop p) s" "fst r = None" "s' = snd r" "reqs = []" "ended"
  | (listening) req acks where "\<not> told_to_stop (dp_stop p) s" "fst r = Some req" "reqs = [req]" "\<not> ended"
      "down_listen E (dp_send_time p) (dp_send_time p) (dp_inputs p) (snd r) = Inr (Some (acks, s', False))"
  | (pass) req acks s2 reqs' where "\<not> told_to_stop (dp_stop p) s" "fst r = Some req"
      "down_listen E (dp_send_time p) (dp_send_time p) (dp_inputs p) (snd r) = Inr (Some (acks, s2, True))"
      "down_loop E ps s2 = Inr (Some (reqs', s', ended))" "reqs = req # reqs'"
proof (cases "told_to_stop (dp_stop p) s")
  case True
  then show ?thesis using assms(2) stop by simp
next
  case ns: False
  show ?thesis
  proof (cases r)
    case (Pair o1 s1)
    show ?thesis
    proof (cases o1)
      case None
      then show ?thesis using assms(2) Pair quit ns by (simp add: r_def)
    next
      case (Some req)
      note run = assms(2) [unfolded down_loop.simps if_not_P [OF ns] Pair [unfolded r_def] prod.case Some option.case
          bindr_eq_Inr_iff]
      obtain x where x: "down_listen E (dp_send_time p) (dp_send_time p) (dp_inputs p) s1 = Inr x"
          "(case x of None \<Rightarrow> Inr None
            | Some (acks, s, ended) \<Rightarrow>
                if \<not> ended then Inr (Some ([req], s, False))
                else bindr (down_loop E ps s) (\<lambda>r. Inr (map_option (\<lambda>(reqs, s, ended). (req # reqs, s, ended)) r)))
           = Inr (Some (reqs, s', ended))"
        using run by blast
      then obtain acks s2 e where x2: "x = Some (acks, s2, e)" by (cases x) auto
      note run2 = x(2) [unfolded x2, simplified]
      show ?thesis
      proof (cases e)
        case False
        then show ?thesis using listening [of req acks] ns x(1) x2 Pair Some run2 by simp
      next
        case True
        then show ?thesis using pass [of req acks s2] ns x(1) x2 Pair Some run2 by (auto simp: bindr_eq_Inr_iff)
      qed
    qed
  qed
qed

text \<open>
  C31. Whatever datagrams arrive, in whatever order and with whatever contents, and whatever beacons are
  added in between, the downstream thread keeps the JIT queue well formed and free of overlaps, as far
  as it has come in its run.
\<close>

theorem thread_down_keeps_queue:
  assumes "down_loop E passes s = Inr (Some (reqs, s', ended))" and "jit_inv (dn_queue s)"
  shows "jit_inv (dn_queue s')"
  using assms
proof (induction passes arbitrary: s reqs)
  case (Cons p passes)
  have q: "dn_queue (snd (down_request (gw_lgwm (de_gateway E)) (de_autoquit E) (dp_token p) s)) = dn_queue s"
    by (simp add: down_request_def)
  from Cons.prems(1) show ?case
  proof (cases rule: down_loop_Cons_cases)
    case (pass req acks s2 reqs')
    have "jit_inv (dn_queue s2)"
      by (rule down_listen_inv [OF pass(3)]) (simp add: q Cons.prems(2))
    then show ?thesis by (rule Cons.IH [OF pass(4)])
  next
    case (listening req acks)
    show ?thesis by (rule down_listen_inv [OF listening(5)]) (simp add: q Cons.prems(2))
  qed (use q Cons.prems(2) in simp_all)
qed simp

section \<open>Giving up\<close>









text \<open>A stop seen in a pass ends the thread before the next request.\<close>

lemma down_loop_stops:
  assumes "told_to_stop (dp_stop p) s"
  shows "down_loop E (p # ps) s = Inr (Some ([], s\<lparr>dn_stop_seen := True\<rparr>, True))"
  using assms by simp

definition demo_env :: down_env where
  "demo_env = \<lparr>de_hal = hal_example, de_gateway = gateway_example, de_beacon = demo_beacon\<lparr>beacon_period := 0\<rparr>,
     de_RFU1_size = 2, de_offset = \<lparr>tv_sec = 0, tv_usec = 0\<rparr>, de_keepalive = 10, de_autoquit = 2\<rparr>"

text \<open>Three passes, in each of which a stale acknowledgement arrives.\<close>

definition demo_passes :: "down_pass list" where
  "demo_passes = map (\<lambda>n. \<lparr>dp_stop = False, dp_token = (n, n), dp_send_time = (0, 0),
     dp_inputs = [\<lparr>di_msg = Some [2, n + 1, n, 4], di_recv_time = (10, 0), di_rounds = [],
       di_unix_time = \<lparr>tv_sec = 0, tv_usec = 0\<rparr>, di_stop = False\<rparr>]\<rparr>) [1, 2, 3]"

lemma demo_passes_run:
  "case down_loop demo_env demo_passes (down_start hal_example (pkt_zero 32) meas_dw_zero) of
     Inr (Some (reqs, s)) \<Rightarrow> length reqs = 2 | _ \<Rightarrow> False"
  by code_simp



theorem thread_down_keeps_queue_witness:
  "\<exists>reqs s e. down_loop demo_env demo_passes (down_start hal_example (pkt_zero 32) meas_dw_zero) = Inr (Some (reqs, s, e)) \<and>
     jit_inv (dn_queue s)"
proof -
  obtain reqs s e where r: "down_loop demo_env demo_passes (down_start hal_example (pkt_zero 32) meas_dw_zero) = Inr (Some (reqs, s, e))"
    using demo_passes_run by (auto split: sum.splits option.splits)
  from thread_down_keeps_queue [OF this] r jit_queue_init_inv show ?thesis by (simp add: down_start_def)
qed

end
