(* ===== verification/Jit_Thread.thy ===== *)
theory Jit_Thread
  imports Jit_Queue Timersync Tx_Ack
begin

text \<open>
  \<open>thread_jit\<close> (\<open>lora_pkt_fwd.c\<close>): every 10 ms the packet of the JIT queue that is due is taken out and
  handed to the concentrator. One round of its loop is \<open>thread_jit_round\<close>; the answers of the
  concentrator are inputs.
\<close>

text \<open>The queue, the counters, and the variables that keep their values from round to round.\<close>

record jit_thread =
  jt_queue :: jit_queue
  jt_meas :: meas_dw
  jt_index :: int  \<comment> \<open>\<open>pkt_index\<close>, -1 at first\<close>
  jt_pkt :: lgw_pkt_tx
  jt_type :: jit_pkt_type

text \<open>What happened to the packet of the round, if there was one.\<close>

datatype jit_outcome =
    Nothing_Due
  | Peek_Failed jit_error
  | Dequeue_Failed jit_error
  | Still_Emitting lgw_pkt_tx
  | Sent lgw_pkt_tx
  | Send_Failed lgw_pkt_tx

text \<open>\<open>(uint32_t)(xtal_correct * (double)pkt.freq_hz)\<close>\<close>

definition compensate :: "dbl \<Rightarrow> u32 \<Rightarrow> u32 res" where
  "compensate xtal_correct f =
     (case xtal_correct of
        Fin x \<Rightarrow> dbl_to_u32 (dbl_mul (Fin (of_int (uint f))) x)
      | _ \<Rightarrow> Inl BadConversion)"

text \<open>After the dequeue: beacons are corrected and counted.\<close>

definition beacon_dequeued :: "dbl \<Rightarrow> lgw_pkt_tx \<Rightarrow> jit_pkt_type \<Rightarrow> meas_dw \<Rightarrow> (lgw_pkt_tx \<times> meas_dw) res" where
  "beacon_dequeued xtal_correct p ty m =
     (if ty = JIT_PKT_TYPE_BEACON then
        bindr (compensate xtal_correct (freq_hz p)) (\<lambda>f.
        Inr (p\<lparr>freq_hz := f\<rparr>, m\<lparr>meas_nb_beacon_sent := meas_nb_beacon_sent m + 1\<rparr>))
      else Inr (p, m))"

text \<open>
  \<open>tx_status\<close> is what \<open>lgw_status\<close> reports, \<open>None\<close> when it fails; \<open>send_ok\<close> is the answer of \<open>lgw_send\<close>.
  A round that finds the concentrator emitting drops its packet without a count.
\<close>

definition transmit :: "hal \<Rightarrow> u8 option \<Rightarrow> bool \<Rightarrow> lgw_pkt_tx \<Rightarrow> meas_dw \<Rightarrow> jit_outcome \<times> meas_dw" where
  "transmit H tx_status send_ok p m =
     (if tx_status = Some (hal_TX_EMITTING H) then (Still_Emitting p, m)
      else if send_ok then (Sent p, m\<lparr>meas_nb_tx_ok := meas_nb_tx_ok m + 1\<rparr>)
      else (Send_Failed p, m\<lparr>meas_nb_tx_fail := meas_nb_tx_fail m + 1\<rparr>))"

definition thread_jit_round ::
    "hal \<Rightarrow> timeval \<Rightarrow> timeval \<Rightarrow> dbl \<Rightarrow> u8 option \<Rightarrow> bool \<Rightarrow> jit_thread \<Rightarrow> (jit_outcome \<times> jit_thread) res" where
  "thread_jit_round H offset unix_time xtal_correct tx_status send_ok s =
     (case get_concentrator_time offset (Some unix_time) unix_time of
        (_, None) \<Rightarrow> Inl NullDeref
      | (_, Some now) \<Rightarrow>
          bindr (jit_peek (jt_queue s) (Some now) (Some (jt_index s))) (\<lambda>(jit_result, q, index).
          let s = s\<lparr>jt_queue := q, jt_index := (case index of None \<Rightarrow> jt_index s | Some i \<Rightarrow> i)\<rparr> in
          if jit_result = JIT_ERROR_EMPTY then Inr (Nothing_Due, s)
          else if jit_result \<noteq> JIT_ERROR_OK then Inr (Peek_Failed jit_result, s)
          else if jt_index s \<le> -1 then Inr (Nothing_Due, s)
          else
            bindr (jit_dequeue (jt_queue s) (jt_index s) (Some (jt_pkt s)) (jt_type s)) (\<lambda>(jit_result, q, p, ty).
            let s = s\<lparr>jt_queue := q, jt_pkt := (case p of None \<Rightarrow> jt_pkt s | Some p \<Rightarrow> p), jt_type := ty\<rparr> in
            if jit_result \<noteq> JIT_ERROR_OK then Inr (Dequeue_Failed jit_result, s)
            else
              bindr (beacon_dequeued xtal_correct (jt_pkt s) (jt_type s) (jt_meas s)) (\<lambda>(p, m).
              let (out, m) = transmit H tx_status send_ok p m in
              Inr (out, s\<lparr>jt_pkt := p, jt_meas := m\<rparr>)))))"

end
