(* ===== verification/Jit_Thread_Correct.thy ===== *)
theory Jit_Thread_Correct
  imports Jit_Thread Jit_Properties
begin

text \<open>
  What becomes of the packets in the JIT queue: a round of \<open>thread_jit\<close> hands at most one packet to the
  concentrator, one that is due, and drops only outdated ones; over any run no packet is sent twice and
  none is invented.
\<close>

text \<open>
  The packet given to \<open>lgw_send\<close> in a round, the packet dropped because the concentrator was emitting, and
  what identifies a packet (beacons change their frequency).
\<close>

definition handed :: "jit_outcome \<Rightarrow> lgw_pkt_tx list" where
  "handed out = (case out of Sent p \<Rightarrow> [p] | Send_Failed p \<Rightarrow> [p] | _ \<Rightarrow> [])"

definition busy :: "jit_outcome \<Rightarrow> lgw_pkt_tx list" where
  "busy out = (case out of Still_Emitting p \<Rightarrow> [p] | _ \<Rightarrow> [])"

definition ident :: "lgw_pkt_tx \<Rightarrow> u32 \<times> u16 \<times> bytes \<times> u32" where
  "ident p = (count_us p, pkt_size p, payload p, datarate p)"

lemma transmit_cases: "transmit H tst ok p m = (out, m') \<Longrightarrow> handed out @ busy out = [p]"
  by (auto simp: transmit_def handed_def busy_def split: if_splits)

lemma beacon_dequeued_ident: "beacon_dequeued x p ty m = Inr (p', m') \<Longrightarrow> ident p' = ident p \<and> (ty \<noteq> JIT_PKT_TYPE_BEACON \<longrightarrow> p' = p)"
  by (auto simp: beacon_dequeued_def bindr_eq_Inr_iff ident_def split: if_splits)

lemma thread_jit_round_cases:
  fixes t offset :: timeval
  defines "now \<equiv> timersub t offset"
  assumes inv: "jit_inv (jt_queue s)" and clock: "TX_JIT_DELAY \<le> 0 - time_us_of now"
    and ret: "thread_jit_round H offset t x tst ok s = Inr (out, s')"
  shows "jit_inv (jt_queue s') \<and> (\<exists>d taken. mset (live (jt_queue s)) = mset (live (jt_queue s')) + d + mset taken \<and>
     (\<forall>n \<in># d. outdated (time_us_of now) n) \<and> (\<forall>n \<in> set taken. lead (time_us_of now) n < TX_JIT_DELAY) \<and>
     map ident (handed out @ busy out) = map (ident \<circ> pkt) taken)"
proof -
  have tm: "get_concentrator_time offset (Some t) t = (0, Some now)"
    by (simp add: get_concentrator_time_def Let_def timersub_def now_def)
  obtain e q k where pk: "jit_peek (jt_queue s) (Some now) (Some (jt_index s)) = Inr (e, q, k)"
    using ret by (auto simp: thread_jit_round_def tm bindr_eq_Inr_iff)
  obtain d where eff: "jit_inv q" "mset (live (jt_queue s)) = mset (live q) + d" "\<forall>n \<in># d. outdated (time_us_of now) n"
    using jit_peek_effect [OF inv pk] by auto
  define s1 where "s1 = s\<lparr>jt_queue := q, jt_index := (case k of None \<Rightarrow> jt_index s | Some i \<Rightarrow> i)\<rparr>"
  note ret1 = ret [unfolded thread_jit_round_def tm prod.case option.case pk bindr_Inr Let_def, folded s1_def]
  show ?thesis
  proof (cases "e = JIT_ERROR_OK \<and> \<not> jt_index s1 \<le> -1")
    case False
    then have "s' = s1 \<and> handed out = [] \<and> busy out = []"
      using ret1 by (auto simp: handed_def busy_def split: if_splits)
    then show ?thesis using eff by (intro conjI exI [of _ d] exI [of _ "[]"]) (simp_all add: s1_def)
  next
    case True
    have "k \<noteq> None"
      using pk by (auto simp: jit_peek_def Let_def bindr_eq_Inr_iff split: if_splits)
    then obtain j where j: "k = Some j" by auto
    then have "jt_index s1 = j" "0 \<le> j" using True by (auto simp: s1_def)
    then obtain i where k: "k = Some (int i)" "jt_index s1 = int i"
      using j by (metis nonneg_int_cases)
    have kk: "int i = -1 \<or> 0 \<le> int i \<and> int i < int (unat (num_pkt q)) \<and>
        lead (time_us_of now) (live q ! nat (int i)) < TX_JIT_DELAY"
      using jit_peek_keeps [OF inv pk [unfolded k(1) conjunct1 [OF True]] clock] by blast
    then have i: "i < unat (num_pkt q)" by linarith
    have due: "lead (time_us_of now) (live q ! i) < TX_JIT_DELAY"
      using kk by auto
    obtain q2 where dq: "jit_dequeue q (int i) (Some (jt_pkt s1)) (jt_type s1) =
          Inr (JIT_ERROR_OK, q2, Some (pkt (live q ! i)), pkt_type (live q ! i))"
        "jit_inv q2" "add_mset (live q ! i) (mset (live q2)) = mset (live q)"
      using jit_dequeue_live [OF eff(1) i] by blast
    have "jt_queue s1 = q" by (simp add: s1_def)
    then obtain p m where bd: "beacon_dequeued x (pkt (live q ! i)) (pkt_type (live q ! i)) (jt_meas s1) = Inr (p, m)"
      using ret1 True by (auto simp: k(2) dq(1) bindr_eq_Inr_iff)
    obtain out' m' where tr: "transmit H tst ok p m = (out', m')" by fastforce
    have fin: "transmit H tst ok p m = (out, m')" "jt_queue s' = q2"
      using ret1 True \<open>jt_queue s1 = q\<close> by (auto simp: k(2) dq(1) bd tr)
    have "map ident (handed out @ busy out) = map (ident \<circ> pkt) [live q ! i]"
      using transmit_cases [OF fin(1)] beacon_dequeued_ident [OF bd] by simp
    moreover have "mset (live (jt_queue s)) = mset (live q2) + d + mset [live q ! i]"
      using eff(2) dq(3) by (metis add_mset_add_single union_assoc union_commute mset_single_iff_right mset.simps)
    ultimately show ?thesis
      using eff(3) dq(2) fin(2) due by (intro conjI exI [of _ d] exI [of _ "[live q ! i]"]) simp_all
  qed
qed

text \<open>
  C30. When no queued packet is outdated, one round of \<open>thread_jit\<close> takes the packet that is due next, the
  first of those with the smallest lead, if that is below 30 ms, and no other; it is given to \<open>lgw_send\<close>
  and counted by the answer, unless the concentrator reports that it is emitting: then it is dropped. It
  is sent as it was queued, a beacon with its corrected frequency. When none is due the queue stays as it
  is.
\<close>

theorem jit_round_sends_due:
  fixes t offset :: timeval
  defines "now \<equiv> time_us_of (timersub t offset)"
  assumes "jit_inv (jt_queue s)" and "num_pkt (jt_queue s) \<noteq> 0"
    and "\<forall>n \<in> set (live (jt_queue s)). \<not> outdated now n"
    and "\<forall>n \<in> set (live (jt_queue s)). is_beacon n \<longrightarrow> compensate x (freq_hz (pkt n)) = Inr (corrected (freq_hz (pkt n)))"
  shows "\<exists>k out s'. first_min now (live (jt_queue s)) k \<and>
    thread_jit_round H offset t x tst ok s = Inr (out, s') \<and> jit_inv (jt_queue s') \<and>
    (let n = live (jt_queue s) ! k;
         p = (if is_beacon n then (pkt n)\<lparr>freq_hz := corrected (freq_hz (pkt n))\<rparr> else pkt n) in
     if unat (lead now n) < 30000
     then mset (live (jt_queue s)) = add_mset n (mset (live (jt_queue s'))) \<and>
       out = (if tst = Some (hal_TX_EMITTING H) then Still_Emitting p else if ok then Sent p else Send_Failed p) \<and>
       meas_nb_tx_ok (jt_meas s') = meas_nb_tx_ok (jt_meas s) + (if out = Sent p then 1 else 0) \<and>
       meas_nb_tx_fail (jt_meas s') = meas_nb_tx_fail (jt_meas s) + (if out = Send_Failed p then 1 else 0)
     else out = Nothing_Due \<and> jt_queue s' = jt_queue s \<and> jt_meas s' = jt_meas s)"
proof -
  let ?q = "jt_queue s"
  have tm: "get_concentrator_time offset (Some t) t = (0, Some (timersub t offset))"
    by (simp add: get_concentrator_time_def Let_def timersub_def)
  have wf: "jit_wf ?q" using assms(2) by (simp add: jit_inv_def)
  obtain k where k: "first_min now (live ?q) k" and pk: "jit_peek ?q (Some (timersub t offset)) (Some (jt_index s)) =
      Inr (JIT_ERROR_OK, ?q, Some (if lead now (live ?q ! k) < TX_JIT_DELAY then int k else -1))"
    using jit_peek_due [OF wf assms(3) assms(4) [unfolded now_def]] unfolding now_def by blast
  have lt: "lead now n < TX_JIT_DELAY \<longleftrightarrow> unat (lead now n) < 30000" for n
    by (simp add: TX_JIT_DELAY_def word_less_nat_alt)
  note round = thread_jit_round_def [of H offset t x tst ok s, unfolded tm prod.case option.case pk bindr_Inr Let_def]
  show ?thesis
  proof (cases "lead now (live ?q ! k) < TX_JIT_DELAY")
    case False
    then have "thread_jit_round H offset t x tst ok s = Inr (Nothing_Due, s\<lparr>jt_index := -1\<rparr>)"
      unfolding round by simp
    then show ?thesis
      using k False assms(2) by (intro exI [of _ k] exI [of _ Nothing_Due] exI [of _ "s\<lparr>jt_index := -1\<rparr>"])
        (simp add: lt Let_def)
  next
    case True
    define n where "n = live ?q ! k"
    have kn: "k < unat (num_pkt ?q)" using k length_live [OF wf] by (simp add: first_min_def)
    have nin: "n \<in> set (live ?q)" using kn length_live [OF wf] by (simp add: n_def)
    define s1 where "s1 = s\<lparr>jt_queue := ?q, jt_index := int k\<rparr>"
    obtain q2 where dq: "jit_dequeue ?q (int k) (Some (jt_pkt s1)) (jt_type s1) =
          Inr (JIT_ERROR_OK, q2, Some (pkt n), pkt_type n)" "jit_inv q2" "add_mset n (mset (live q2)) = mset (live ?q)"
      using jit_dequeue_live [OF assms(2) kn, of "jt_pkt s1" "jt_type s1"] unfolding n_def by blast
    define p where "p = (if is_beacon n then (pkt n)\<lparr>freq_hz := corrected (freq_hz (pkt n))\<rparr> else pkt n)"
    define m where "m = (if is_beacon n then (jt_meas s)\<lparr>meas_nb_beacon_sent := meas_nb_beacon_sent (jt_meas s) + 1\<rparr> else jt_meas s)"
    have bd: "beacon_dequeued x (pkt n) (pkt_type n) (jt_meas s) = Inr (p, m)"
      using assms(5) nin by (auto simp: beacon_dequeued_def is_beacon_def p_def m_def)
    obtain out m' where tr: "transmit H tst ok p m = (out, m')" by fastforce
    define s' where "s' = s\<lparr>jt_queue := q2, jt_index := int k, jt_pkt := p, jt_type := pkt_type n, jt_meas := m'\<rparr>"
    have "thread_jit_round H offset t x tst ok s = Inr (out, s')"
      unfolding round using True dq(1) by (simp add: s1_def bd tr s'_def)
    moreover have "out = (if tst = Some (hal_TX_EMITTING H) then Still_Emitting p else if ok then Sent p else Send_Failed p)"
        "meas_nb_tx_ok m' = meas_nb_tx_ok (jt_meas s) + (if out = Sent p then 1 else 0)"
        "meas_nb_tx_fail m' = meas_nb_tx_fail (jt_meas s) + (if out = Send_Failed p then 1 else 0)"
      using tr by (auto simp: transmit_def m_def split: if_splits)
    ultimately show ?thesis
      using k True dq(2,3) by (intro exI [of _ k] exI [of _ out] exI [of _ s'])
        (simp add: lt s'_def Let_def flip: n_def p_def)
  qed
qed

definition demo_thread :: jit_thread where
  "demo_thread = \<lparr>jt_queue = demo_queue, jt_meas = meas_dw_zero, jt_index = -1, jt_pkt = pkt_zero 4,
     jt_type = JIT_PKT_TYPE_DOWNLINK_CLASS_A\<rparr>"

theorem jit_round_sends_due_witness:
  "\<exists>p s'. thread_jit_round hal_example \<lparr>tv_sec = 0, tv_usec = 0\<rparr> \<lparr>tv_sec = 1, tv_usec = 990000\<rparr> (Fin 1) (Some 1) True demo_thread =
     Inr (Sent p, s') \<and> count_us p = 2000000 \<and> jit_inv (jt_queue s') \<and> size (mset (live (jt_queue s'))) = 1"
proof -
  let ?t = "\<lparr>tv_sec = 1, tv_usec = 990000\<rparr>" and ?o = "\<lparr>tv_sec = 0, tv_usec = 0\<rparr>"
  have q: "jt_queue demo_thread = demo_queue" by (simp add: demo_thread_def)
  have now: "time_us_of (timersub ?t ?o) = 1990000" by (simp add: timersub_def time_us_of_def)
  obtain m n where mn: "live demo_queue = [m, n]" "count_us (pkt m) = 2000000" "count_us (pkt n) = 3000000"
      "\<not> is_beacon m" "\<not> is_beacon n"
    by (rule demo_queue_nodes)
  have ne: "num_pkt demo_queue \<noteq> 0" using demo_queue_num by auto
  have fresh: "\<forall>n \<in> set (live demo_queue). \<not> outdated 1990000 n"
    by (simp add: mn outdated_def jit_consts)
  have first: "k = 0" if "first_min 1990000 (live demo_queue) k" for k
    using that by (cases k) (auto simp: first_min_def mn lead_def less_Suc_eq)
  obtain k out s' where k: "first_min 1990000 (live demo_queue) k"
      "thread_jit_round hal_example ?o ?t (Fin 1) (Some 1) True demo_thread = Inr (out, s')" "jit_inv (jt_queue s')"
      "let n = live demo_queue ! k; p = (if is_beacon n then (pkt n)\<lparr>freq_hz := freq_hz (pkt n)\<rparr> else pkt n) in
       if unat (lead 1990000 n) < 30000
       then mset (live demo_queue) = add_mset n (mset (live (jt_queue s'))) \<and>
         out = (if Some 1 = Some (hal_TX_EMITTING hal_example) then Still_Emitting p else if True then Sent p else Send_Failed p) \<and>
         meas_nb_tx_ok (jt_meas s') = meas_nb_tx_ok (jt_meas demo_thread) + (if out = Sent p then 1 else 0) \<and>
         meas_nb_tx_fail (jt_meas s') = meas_nb_tx_fail (jt_meas demo_thread) + (if out = Send_Failed p then 1 else 0)
       else out = Nothing_Due \<and> jt_queue s' = demo_queue \<and> jt_meas s' = jt_meas demo_thread"
    using jit_round_sends_due [of demo_thread ?t ?o "Fin 1" "\<lambda>f. f" hal_example "Some 1" True, unfolded q now]
      demo_queue_inv ne fresh mn by auto
  have "size (mset (live (jt_queue s'))) = 1"
    using k(4) first [OF k(1)] by (simp add: mn lead_def Let_def)
  then show ?thesis
    using k first [OF k(1)] by (intro exI [of _ "pkt m"] exI [of _ s']) (simp add: mn lead_def hal_example_def Let_def)
qed

section \<open>Runs\<close>

text \<open>
  Any interleaving of enqueues by \<open>thread_down\<close> and rounds of \<open>thread_jit\<close>, with the packets that were
  accepted and those that were handed over so far.
\<close>

inductive jit_runs :: "hal \<Rightarrow> timeval \<Rightarrow> jit_thread \<Rightarrow> lgw_pkt_tx list \<Rightarrow> lgw_pkt_tx list \<Rightarrow> bool" for H offset where
  start: "jt_queue s = jit_queue_init H \<Longrightarrow> jit_runs H offset s [] []"
| enqueue: "jit_runs H offset s acc out \<Longrightarrow>
    jit_enqueue H (jt_queue s) now (Some p) ty = Inr (e, q, Some p') \<Longrightarrow>
    jit_runs H offset (s\<lparr>jt_queue := q\<rparr>) (if e = JIT_ERROR_OK then p' # acc else acc) out"
| round: "jit_runs H offset s acc out \<Longrightarrow>
    thread_jit_round H offset t x tst ok s = Inr (r, s') \<Longrightarrow> TX_JIT_DELAY \<le> 0 - time_us_of (timersub t offset) \<Longrightarrow>
    jit_runs H offset s' acc (handed r @ out)"

definition queued :: "jit_thread \<Rightarrow> (u32 \<times> u16 \<times> bytes \<times> u32) multiset" where
  "queued s = image_mset (ident \<circ> pkt) (mset (live (jt_queue s)))"

lemma jit_runs_account:
  assumes "jit_runs H offset s acc out"
  shows "jit_inv (jt_queue s) \<and> (\<exists>d. mset (map ident acc) = mset (map ident out) + d + queued s)"
  using assms
proof (induction rule: jit_runs.induct)
  case (start s)
  have "live (jit_queue_init H) = []" by (simp add: live_def jit_queue_init_def)
  then show ?case using jit_queue_init_inv [of H] by (simp add: queued_def start)
next
  case (enqueue s acc out now p ty e q p')
  then have inv: "jit_inv (jt_queue s)" "jit_wf (jt_queue s)" by (auto simp: jit_inv_def)
  obtain d where d: "mset (map ident acc) = mset (map ident out) + d + queued s" using enqueue.IH by blast
  have q: "jit_inv q" by (rule jit_enqueue_inv [OF inv(1) enqueue.hyps(2)])
  have "queued (s\<lparr>jt_queue := q\<rparr>) = (if e = JIT_ERROR_OK then add_mset (ident p') (queued s) else queued s)"
  proof (cases "e = JIT_ERROR_OK")
    case True
    then have ins: "insert_node (jt_queue s) (new_node H p p' ty) = Inr q" "\<not> jit_queue_is_full (jt_queue s)"
      using jit_enqueue_cases [OF inv(2) enqueue.hyps(2)] by auto
    have "mset (live q) = add_mset (new_node H p p' ty) (mset (live (jt_queue s)))"
      using insert_node_wf [OF inv(2) ins(2), of "new_node H p p' ty"] ins(1) by auto
    then show ?thesis using True by (simp add: queued_def new_node_def)
  next
    case False
    then show ?thesis using jit_enqueue_cases [OF inv(2) enqueue.hyps(2)] by (auto simp: queued_def)
  qed
  then show ?case using q d by auto
next
  case (round s acc out t x tst ok r s')
  obtain d where d: "mset (map ident acc) = mset (map ident out) + d + queued s" using round.IH by blast
  obtain d' taken where r: "jit_inv (jt_queue s')" "mset (live (jt_queue s)) = mset (live (jt_queue s')) + d' + mset taken"
      "map ident (handed r @ busy r) = map (ident \<circ> pkt) taken"
    using thread_jit_round_cases [OF _ round.hyps(3,2)] round.IH by blast
  have "queued s = queued s' + image_mset (ident \<circ> pkt) d' + mset (map ident (handed r @ busy r))"
    by (simp only: queued_def r(2,3) image_mset_union mset_map)
  then have "mset (map ident acc) = mset (map ident (handed r @ out)) +
      (d + image_mset (ident \<circ> pkt) d' + mset (map ident (busy r))) + queued s'"
    using d by simp
  then show ?case using r(1) by blast
qed

text \<open>
  C8. In every run of enqueues and rounds (the rounds not in the last 30 ms before the roll-over of the
  counter) the packets given to \<open>lgw_send\<close> are among those that were accepted, each at most as often as it
  was accepted: together with those still queued and those that were dropped they are exactly the
  accepted ones. No packet is transmitted twice and none is invented.
\<close>

theorem packets_sent_at_most_once:
  assumes "jit_runs H offset s acc out"
  shows "\<exists>dropped. mset (map ident acc) = mset (map ident out) + dropped + queued s"
  using jit_runs_account [OF assms] by blast

definition demo_start :: jit_thread where
  "demo_start = demo_thread\<lparr>jt_queue := jit_queue_init hal_example\<rparr>"

lemma demo_start_enqueue:
  "case class_a (jit_queue_init hal_example) 3000000 of
     Inr (e, q, Some p) \<Rightarrow> e = JIT_ERROR_OK \<and> num_pkt q = 1 | _ \<Rightarrow> False"
  by code_simp

theorem packets_sent_at_most_once_witness:
  "\<exists>s p. jit_runs hal_example \<lparr>tv_sec = 0, tv_usec = 0\<rparr> s [p] [] \<and> queued s = {#ident p#}"
proof -
  obtain q p where e: "class_a (jit_queue_init hal_example) 3000000 = Inr (JIT_ERROR_OK, q, Some p)" "num_pkt q = 1"
    using demo_start_enqueue by (auto split: sum.splits option.splits)
  have s0: "jit_runs hal_example \<lparr>tv_sec = 0, tv_usec = 0\<rparr> demo_start [] []"
    by (rule jit_runs.start) (simp add: demo_start_def)
  have "jit_enqueue hal_example (jt_queue demo_start) \<lparr>tv_sec = 0, tv_usec = 0\<rparr> (Some (downlink_at 3000000))
      JIT_PKT_TYPE_DOWNLINK_CLASS_A = Inr (JIT_ERROR_OK, q, Some p)"
    using e by (simp add: class_a_def demo_start_def)
  from jit_runs.enqueue [OF s0 this]
  have run: "jit_runs hal_example \<lparr>tv_sec = 0, tv_usec = 0\<rparr> (demo_start\<lparr>jt_queue := q\<rparr>) [p] []" by simp
  obtain dropped where d: "{#ident p#} = dropped + queued (demo_start\<lparr>jt_queue := q\<rparr>)"
    using packets_sent_at_most_once [OF run] by auto
  have "jit_inv q"
    by (rule jit_enqueue_inv [OF jit_queue_init_inv e(1) [unfolded class_a_def]])
  then have "size (queued (demo_start\<lparr>jt_queue := q\<rparr>)) = 1"
    using e(2) by (simp add: queued_def length_live jit_inv_def)
  then obtain z where "queued (demo_start\<lparr>jt_queue := q\<rparr>) = {#z#}"
    using size_1_singleton_mset by blast
  with d run show ?thesis by auto
qed

end
