(* ===== verification/Printf.thy ===== *)
theory Printf
  imports Doubles
begin

text \<open>
  What the forwarder uses of the C library to write numbers and dates: \<open>%u\<close>, \<open>%0\<close>\<open>w\<close>\<open>i\<close>, \<open>%.\<close>\<open>p\<close>\<open>f\<close> of \<open>printf\<close>, and \<open>gmtime\<close>.
\<close>

section \<open>Integers\<close>

definition digit :: "int \<Rightarrow> char" where
  "digit n = char_of (48 + n)"

text \<open>The decimal digits of a number that is not negative.\<close>

function dec :: "int \<Rightarrow> string" where
  "dec n = (if n < 10 then [digit n] else dec (n div 10) @ [digit (n mod 10)])"
  by auto
termination
  by (relation "measure nat") auto

declare dec.simps [simp del]

definition pad0 :: "nat \<Rightarrow> string \<Rightarrow> string" where
  "pad0 w s = replicate (w - length s) CHR ''0'' @ s"

text \<open>\<open>%0\<close>\<open>w\<close>\<open>i\<close>: the sign counts for the width.\<close>

definition fmt_i :: "nat \<Rightarrow> int \<Rightarrow> string" where
  "fmt_i w i = (if i < 0 then CHR ''-'' # pad0 (w - 1) (dec (- i)) else pad0 w (dec i))"

section \<open>Fixed-point notation\<close>

text \<open>\<open>%.\<close>\<open>p\<close>\<open>f\<close>: the exact value, rounded to \<open>p\<close> decimals, ties to even. The sign of a zero is not kept in \<open>dbl\<close>.\<close>

definition point :: "nat \<Rightarrow> string \<Rightarrow> string" where
  "point p s = (if p = 0 then s else take (length s - p) s @ CHR ''.'' # drop (length s - p) s)"

definition fmt_f :: "nat \<Rightarrow> dbl \<Rightarrow> string" where
  "fmt_f p d =
     (case d of
        Fin x \<Rightarrow> (if x < 0 then ''-'' else '''') @ point p (pad0 (Suc p) (dec (round_half_even (\<bar>x\<bar> * 10 ^ p))))
      | Infinity neg \<Rightarrow> (if neg then ''-inf'' else ''inf'')
      | NaN \<Rightarrow> ''nan'')"

section \<open>Dates\<close>

text \<open>Days from the first of January 1970 to that of a year, and the year a day lies in.\<close>

definition days_before_year :: "int \<Rightarrow> int" where
  "days_before_year y = 365 * (y - 1970) + (y - 1969) div 4 - (y - 1901) div 100 + (y - 1601) div 400"

definition year_of_day :: "int \<Rightarrow> int" where
  "year_of_day d =
     (let y = 1970 + d * 400 div 146097 in
      if d < days_before_year y then y - 1 else if days_before_year (y + 1) \<le> d then y + 1 else y)"

definition leap_year :: "int \<Rightarrow> bool" where
  "leap_year y \<longleftrightarrow> 4 dvd y \<and> (\<not> 100 dvd y \<or> 400 dvd y)"

definition month_lengths :: "int \<Rightarrow> int list" where
  "month_lengths y = [31, if leap_year y then 29 else 28, 31, 30, 31, 30, 31, 31, 30, 31, 30, 31]"

fun month_day :: "int list \<Rightarrow> int \<Rightarrow> int \<times> int" where
  "month_day [] d = (0, d)"
| "month_day (l # ls) d = (if d < l then (0, d) else (case month_day ls (d - l) of (m, d) \<Rightarrow> (m + 1, d)))"

record tm =
  tm_sec :: int
  tm_min :: int
  tm_hour :: int
  tm_mday :: int
  tm_mon :: int
  tm_year :: int

text \<open>\<open>None\<close>: the year does not fit an \<open>int\<close>.\<close>

definition gmtime :: "int \<Rightarrow> tm option" where
  "gmtime t =
     (let d = t div 86400; s = t mod 86400; y = year_of_day d;
          (mon, day) = month_day (month_lengths y) (d - days_before_year y) in
      if y - 1900 < - 2147483648 \<or> 2147483647 < y - 1900 then None
      else Some \<lparr>tm_sec = s mod 60, tm_min = s div 60 mod 60, tm_hour = s div 3600,
                 tm_mday = day + 1, tm_mon = mon, tm_year = y - 1900\<rparr>)"

section \<open>How long the texts are\<close>

lemma length_dec_pos [simp]: "0 < length (dec n)"
  by (subst dec.simps) simp

lemma dec_not_Nil [simp]: "dec n \<noteq> []"
  using length_dec_pos [of n] by (metis length_greater_0_conv)

lemma length_dec_le: "n < 10 ^ k \<Longrightarrow> 0 < k \<Longrightarrow> length (dec n) \<le> k"
proof (induction k arbitrary: n)
  case (Suc k)
  show ?case
  proof (cases "n < 10")
    case False
    then have "k \<noteq> 0" using Suc.prems(1) by (cases k) auto
    moreover have "n div 10 < 10 ^ k" using Suc.prems(1) by (simp add: less_mult_imp_div_less mult.commute)
    ultimately show ?thesis using Suc.IH [of "n div 10"] False by (subst dec.simps) simp
  qed (subst dec.simps, simp)
qed simp

lemma length_pad0 [simp]: "length (pad0 w s) = max w (length s)"
  by (simp add: pad0_def max_def)

lemma length_point: "p < length s \<Longrightarrow> length (point p s) = length s + (if p = 0 then 0 else 1)"
  by (simp add: point_def)

lemma length_fmt_i: "\<bar>i\<bar> < 10 ^ k \<Longrightarrow> 0 < k \<Longrightarrow> 0 \<le> i \<Longrightarrow> length (fmt_i w i) \<le> max w k"
  using length_dec_le [of i k] by (auto simp: fmt_i_def)

lemma fmt_i_not_Nil [simp]: "fmt_i w i \<noteq> []"
  by (simp add: fmt_i_def pad0_def)

lemma fmt_f_not_Nil [simp]: "fmt_f p d \<noteq> []"
  by (auto simp: fmt_f_def point_def pad0_def split: dbl.splits)

lemma length_fmt_f:
  assumes "\<bar>x\<bar> * 10 ^ p + 1 \<le> 10 ^ k" and "p < k"
  shows "length (fmt_f p (Fin x)) \<le> k + 1 + (if p = 0 then 0 else 1)"
proof -
  let ?n = "round_half_even (\<bar>x\<bar> * 10 ^ p)"
  have "of_int ?n \<le> \<bar>x\<bar> * 10 ^ p + 1 / 2"
    using round_half_even_near [of "\<bar>x\<bar> * 10 ^ p"] by linarith
  then have "(of_int ?n :: rat) < of_int (10 ^ k)" using assms(1) unfolding of_int_power of_int_numeral by linarith
  then have "?n < 10 ^ k" unfolding of_int_less_iff .
  then have "length (dec ?n) \<le> k" using assms(2) by (intro length_dec_le) auto
  then show ?thesis using assms(2) by (auto simp: fmt_f_def length_point)
qed

section \<open>The calendar\<close>

lemma div_near: "0 < (b::int) \<Longrightarrow> a - b < b * (a div b) \<and> b * (a div b) \<le> a"
  using pos_mod_bound [of b a] pos_mod_sign [of b a] minus_mod_eq_mult_div [of a b] by linarith

lemma days_before_year_near:
  "146097 * (y - 1970) - 600 < 400 * days_before_year y \<and> 400 * days_before_year y < 146097 * (y - 1970) + 600"
  using div_near [of 4 "y - 1969"] div_near [of 100 "y - 1901"] div_near [of 400 "y - 1601"]
  unfolding days_before_year_def by (simp add: algebra_simps)

lemma year_of_day: "days_before_year (year_of_day d) \<le> d \<and> d < days_before_year (year_of_day d + 1)"
proof -
  define g where "g = d * 400 div 146097"
  have g: "146097 * g \<le> d * 400" "d * 400 - 146097 < 146097 * g"
    using div_near [of 146097 "d * 400"] by (simp_all add: g_def)
  have "400 * days_before_year (g + 1969) < 146097 * g - 145497" "146097 * g + 290994 < 400 * days_before_year (g + 1972)"
    using days_before_year_near [of "g + 1969"] days_before_year_near [of "g + 1972"] by simp_all
  then have "days_before_year (g + 1969) \<le> d" "d < days_before_year (g + 1972)"
    using g by linarith+
  moreover have "1970 + g - 1 = g + 1969" "1970 + g + 1 + 1 = g + 1972" by simp_all
  ultimately show ?thesis unfolding year_of_day_def g_def [symmetric] Let_def by (auto simp: ac_simps)
qed

lemma div_plus1:
  assumes "1 < (n::int)"
  shows "(a + 1) div n = a div n + (if n dvd a + 1 then 1 else 0)"
proof -
  have r: "0 \<le> a mod n" "a mod n + 1 \<le> n" using assms pos_mod_bound [of n a] pos_mod_sign [of n a] by linarith+
  have "n dvd a + 1 \<longleftrightarrow> (a mod n + 1) mod n = 0" by (simp add: dvd_eq_mod_eq_0 mod_add_left_eq)
  also have "\<dots> \<longleftrightarrow> a mod n + 1 = n" using r by (cases "a mod n + 1 = n") auto
  finally show ?thesis using r assms by (auto simp: div_add1_eq [of a 1 n] div_pos_pos_trivial)
qed

text \<open>A year is as long as its months.\<close>

lemma days_in_year: "days_before_year (y + 1) = days_before_year y + sum_list (month_lengths y)"
proof -
  have shift: "n dvd c \<Longrightarrow> n dvd y - c \<longleftrightarrow> n dvd y" for n c :: int
    by (simp add: dvd_diff_left_iff)
  have "(y + 1 - 1969) div 4 = (y - 1969) div 4 + (if 4 dvd y then 1 else 0)"
      "(y + 1 - 1901) div 100 = (y - 1901) div 100 + (if 100 dvd y then 1 else 0)"
      "(y + 1 - 1601) div 400 = (y - 1601) div 400 + (if 400 dvd y then 1 else 0)"
    using div_plus1 [of 4 "y - 1969"] div_plus1 [of 100 "y - 1901"] div_plus1 [of 400 "y - 1601"]
    by (simp_all add: shift [of 4 1968] shift [of 100 1900] shift [of 400 1600])
  moreover have "400 dvd y \<Longrightarrow> 100 dvd y" "100 dvd y \<Longrightarrow> 4 dvd y"
    using dvd_trans [of 100 400 y] dvd_trans [of 4 100 y] by simp_all
  moreover have "sum_list (month_lengths y) = 365 + (if 4 dvd y then 1 else 0) - (if 100 dvd y then 1 else 0) + (if 400 dvd y then 1 else 0)"
    using calculation(4,5) by (cases "4 dvd y"; cases "100 dvd y"; cases "400 dvd y") (simp_all only: month_lengths_def leap_year_def, simp_all)
  moreover have "365 * (y + 1 - 1970) + a' - b' + c' = 365 * (y - 1970) + a - b + c + s"
    if "a' = a + i" "b' = b + j" "c' = c + k" "s = 365 + i - j + k" for a a' b b' c c' i j k s :: int
    using that by simp
  ultimately show ?thesis unfolding days_before_year_def by blast
qed

lemma month_day_sum:
  "0 \<le> d \<Longrightarrow> d < sum_list ls \<Longrightarrow> month_day ls d = (m, e) \<Longrightarrow> \<forall>l \<in> set ls. 0 < l \<Longrightarrow>
   0 \<le> m \<and> m < int (length ls) \<and> 0 \<le> e \<and> e < ls ! nat m \<and> d = sum_list (take (nat m) ls) + e"
proof (induction ls arbitrary: d m)
  case (Cons l ls)
  show ?case
  proof (cases "d < l")
    case False
    then obtain m' where m: "month_day ls (d - l) = (m', e)" "m = m' + 1"
      using Cons.prems(3) by (auto split: prod.splits)
    moreover have "nat (m' + 1) = Suc (nat m')" if "0 \<le> m'" using that by simp
    ultimately show ?thesis using Cons.IH [OF _ _ m(1)] Cons.prems False by auto
  qed (use Cons.prems in auto)
qed simp

text \<open>\<open>gmtime\<close> is the Gregorian calendar: the fields are in their ranges and count up to the given second.\<close>

lemma gmtime_calendar:
  assumes "gmtime t = Some x"
  shows "0 \<le> tm_mon x \<and> tm_mon x < 12 \<and> 1 \<le> tm_mday x \<and> tm_mday x \<le> month_lengths (tm_year x + 1900) ! nat (tm_mon x) \<and>
    0 \<le> tm_hour x \<and> tm_hour x < 24 \<and> 0 \<le> tm_min x \<and> tm_min x < 60 \<and> 0 \<le> tm_sec x \<and> tm_sec x < 60 \<and>
    t = 86400 * (days_before_year (tm_year x + 1900) + sum_list (take (nat (tm_mon x)) (month_lengths (tm_year x + 1900))) +
          tm_mday x - 1) + 3600 * tm_hour x + 60 * tm_min x + tm_sec x"
proof -
  let ?d = "t div 86400" and ?s = "t mod 86400"
  let ?y = "year_of_day ?d"
  obtain mon day where md: "month_day (month_lengths ?y) (?d - days_before_year ?y) = (mon, day)" by force
  have x: "x = \<lparr>tm_sec = ?s mod 60, tm_min = ?s div 60 mod 60, tm_hour = ?s div 3600,
      tm_mday = day + 1, tm_mon = mon, tm_year = ?y - 1900\<rparr>"
    using assms by (simp add: gmtime_def Let_def md split: if_splits)
  have l: "length (month_lengths ?y) = 12" "\<forall>l \<in> set (month_lengths ?y). 0 < l"
    by (auto simp: month_lengths_def)
  have "0 \<le> mon \<and> mon < 12 \<and> 0 \<le> day \<and> day < month_lengths ?y ! nat mon \<and>
      ?d - days_before_year ?y = sum_list (take (nat mon) (month_lengths ?y)) + day"
    using month_day_sum [OF _ _ md l(2)] year_of_day [of ?d] days_in_year [of ?y] l(1) by simp
  then have m: "0 \<le> mon" "mon < 12" "0 \<le> day" "day < month_lengths ?y ! nat mon"
      "?d = days_before_year ?y + sum_list (take (nat mon) (month_lengths ?y)) + day" by auto
  have lin: "t = 3600 * h + 60 * u + w + 86400 * d" if "d * 86400 + s = t" "v * 60 + w = s" "h * 60 + u = v" for d s v w h u :: int
    using that by linarith
  have s: "t = 3600 * (?s div 60 div 60) + 60 * (?s div 60 mod 60) + ?s mod 60 + 86400 * ?d"
    by (rule lin) (rule div_mult_mod_eq)+
  have h: "0 \<le> ?s div 3600" "?s div 3600 < 24"
    using div_near [of 3600 ?s] pos_mod_bound [of 86400 t] pos_mod_sign [of 86400 t] by (simp_all add: pos_imp_zdiv_nonneg_iff)
  have t: "t = 86400 * (days_before_year ?y + sum_list (take (nat mon) (month_lengths ?y)) + (day + 1) - 1) +
      3600 * (?s div 3600) + 60 * (?s div 60 mod 60) + ?s mod 60"
  proof -
    have "?s div 60 div 60 = ?s div 3600" using zdiv_zmult2_eq [of 60 ?s 60] by simp
    with s have "t = 3600 * (?s div 3600) + 60 * (?s div 60 mod 60) + ?s mod 60 + 86400 * ?d" by (simp only:)
    moreover have "86400 * a + b + c + e = b + c + e + 86400 * a" for a b c e :: int by simp
    moreover have "n + (day + 1) - 1 = n + day" for n by simp
    ultimately show ?thesis using m(5) by (simp only:)
  qed
  have sel: "tm_sec x = ?s mod 60" "tm_min x = ?s div 60 mod 60" "tm_hour x = ?s div 3600" "tm_mday x = day + 1"
      "tm_mon x = mon" "tm_year x + 1900 = ?y"
    unfolding x by (simp_all only: tm.simps diff_add_cancel)
  have r: "0 \<le> ?s mod 60" "?s mod 60 < 60" "0 \<le> ?s div 60 mod 60" "?s div 60 mod 60 < 60" "1 \<le> day + 1"
      "day + 1 \<le> month_lengths ?y ! nat mon"
    using m(3,4) by (simp_all only: pos_mod_sign pos_mod_bound)
  show ?thesis unfolding sel using m(1,2) h r t by blast
qed

section \<open>Frequencies\<close>

lemma freq_near:
  fixes f :: int
  assumes "0 < f" and "f < 2 ^ 32"
  shows "\<exists>y. round_dbl (of_int f / 1000000) = Fin y \<and> \<bar>y - of_int f / 1000000\<bar> < 1 / 2000000"
proof -
  let ?x = "of_int f / 1000000 :: rat"
  have x: "1 / 1000000 \<le> ?x" "?x < 4295" using assms by (simp_all add: divide_right_mono)
  have pos: "0 < ?x" using assms(1) by simp
  have b: "2 powi (expo ?x) \<le> ?x" "?x < 2 powi (expo ?x + 1)" using expo_bounds [OF pos] by blast+
  have "\<not> 13 \<le> expo ?x" using power_int_increasing [of 13 "expo ?x" "2 :: rat"] b(1) x(2) by auto
  moreover have "(2 :: rat) powi (- 20) < 1 / 1000000" by (simp add: power_int_minus)
  then have "\<not> expo ?x + 1 \<le> - 20"
    using power_int_increasing [of "expo ?x + 1" "- 20" "2 :: rat"] less_le_trans [OF b(2)] x(1) by fastforce
  ultimately have e: "- 1022 \<le> expo ?x" "expo ?x \<le> 12" by auto
  obtain y where y: "round_dbl ?x = Fin y" "\<bar>y - ?x\<bar> \<le> 2 powi (expo ?x - 53)"
    using round_dbl_near [OF b] e by auto
  have "2 powi (expo ?x - 53) \<le> (2 :: rat) powi (- 41)" using e by (intro power_int_increasing) auto
  also have "\<dots> < 1 / 2000000" by (simp add: power_int_minus)
  finally show ?thesis using y by auto
qed

text \<open>The frequency is written exactly, to the hertz, although it goes through a \<open>double\<close> in megahertz.\<close>

lemma freq_text:
  assumes "0 \<le> f" and "f < 2 ^ 32"
  shows "fmt_f 6 (round_dbl (of_int f / 1000000)) = point 6 (pad0 7 (dec f))"
proof (cases "f = 0")
  case True
  then show ?thesis by (simp add: round_dbl_def fmt_f_def round_half_even_def)
next
  case False
  let ?x = "of_int f / 1000000 :: rat"
  obtain y where y: "round_dbl ?x = Fin y" "\<bar>y - ?x\<bar> < 1 / 2000000" using freq_near [of f] assms False by auto
  have "of_int 1 \<le> (of_int f :: rat)" using assms False unfolding of_int_le_iff by simp
  then have "1 / 1000000 \<le> ?x" by (intro divide_right_mono) simp_all
  then have pos: "0 < y" using y(2) by linarith
  have "\<bar>\<bar>y\<bar> * 10 ^ 6 - of_int f\<bar> = \<bar>y - ?x\<bar> * 1000000"
  proof -
    have "\<bar>y - ?x\<bar> * 1000000 = \<bar>(y - ?x) * 1000000\<bar>" by (simp only: abs_mult abs_numeral)
    also have "(y - ?x) * 1000000 = y * 10 ^ 6 - of_int f" by (simp add: left_diff_distrib)
    finally show ?thesis using pos by simp
  qed
  also have "\<dots> < 1 / 2" using y(2) by simp
  finally have "round_half_even (\<bar>y\<bar> * 10 ^ 6) = f" by (rule round_half_even_unique)
  then show ?thesis using pos unfolding y(1) by (simp add: fmt_f_def)
qed

end
