(* ===== verification/Thread_Up.thy ===== *)
theory Thread_Up
  imports Base64 Tx_Ack Comms Printf
begin

text \<open>
  \<open>thread_up\<close> (\<open>lora_pkt_fwd.c\<close>): the received packets of one fetch are filtered, counted and written, with
  the status report if there is a new one, into a PUSH_DATA datagram, which is sent and whose
  acknowledgement is awaited. The packets, the tokens, the GPS reference, the report and the datagrams
  received are inputs. \<open>mote_addr\<close> and \<open>mote_fcnt\<close> are only printed and left out.
\<close>

section \<open>Received packets\<close>

record lgw_pkt_rx =
  rx_freq_hz :: u32
  rx_if_chain :: u8
  rx_status :: u8
  rx_count_us :: u32
  rx_rf_chain :: u8
  rx_modulation :: u8
  rx_bandwidth :: u8
  rx_datarate :: u32
  rx_coderate :: u8
  rx_rssi :: dbl  \<comment> \<open>\<open>float\<close>\<close>
  rx_snr :: dbl  \<comment> \<open>\<open>float\<close>\<close>
  rx_size :: u16
  rx_payload :: bytes

text \<open>What \<open>thread_up\<close> uses of the concentrator library beyond \<open>hal\<close>; \<open>None\<close>: not \<open>LGW_GPS_SUCCESS\<close>.\<close>

record hal_rx = hal +
  hal_STAT_CRC_OK :: u8
  hal_STAT_CRC_BAD :: u8
  hal_STAT_NO_CRC :: u8
  lgw_cnt2utc :: "tref \<Rightarrow> u32 \<Rightarrow> (int \<times> int) option"
  lgw_cnt2gps :: "tref \<Rightarrow> u32 \<Rightarrow> (int \<times> int) option"

section \<open>Upstream counters and filtering\<close>

record meas_up =
  meas_nb_rx_rcv :: u32
  meas_nb_rx_ok :: u32
  meas_nb_rx_bad :: u32
  meas_nb_rx_nocrc :: u32
  meas_up_pkt_fwd :: u32
  meas_up_network_byte :: u32
  meas_up_payload_byte :: u32
  meas_up_dgram_sent :: u32
  meas_up_ack_rcv :: u32

definition meas_up_zero :: meas_up where
  "meas_up_zero = \<lparr>meas_nb_rx_rcv = 0, meas_nb_rx_ok = 0, meas_nb_rx_bad = 0, meas_nb_rx_nocrc = 0, meas_up_pkt_fwd = 0,
     meas_up_network_byte = 0, meas_up_payload_byte = 0, meas_up_dgram_sent = 0, meas_up_ack_rcv = 0\<rparr>"

record up_filter =
  fwd_valid_pkt :: bool
  fwd_error_pkt :: bool
  fwd_nocrc_pkt :: bool

text \<open>The first switch on the status: is the packet forwarded, and the counters.\<close>

definition filter_rx :: "hal_rx \<Rightarrow> up_filter \<Rightarrow> lgw_pkt_rx \<Rightarrow> meas_up \<Rightarrow> bool \<times> meas_up" where
  "filter_rx H F p m =
     (let m = m\<lparr>meas_nb_rx_rcv := meas_nb_rx_rcv m + 1\<rparr>;
          (fwd, m) =
            (if rx_status p = hal_STAT_CRC_OK H then (fwd_valid_pkt F, m\<lparr>meas_nb_rx_ok := meas_nb_rx_ok m + 1\<rparr>)
             else if rx_status p = hal_STAT_CRC_BAD H then (fwd_error_pkt F, m\<lparr>meas_nb_rx_bad := meas_nb_rx_bad m + 1\<rparr>)
             else if rx_status p = hal_STAT_NO_CRC H then (fwd_nocrc_pkt F, m\<lparr>meas_nb_rx_nocrc := meas_nb_rx_nocrc m + 1\<rparr>)
             else (False, m)) in
      if fwd then
        (True, m\<lparr>meas_up_pkt_fwd := meas_up_pkt_fwd m + 1,
                 meas_up_payload_byte := meas_up_payload_byte m + ucast (rx_size p)\<rparr>)
      else (False, m))"

section \<open>Writing to \<open>buff_up\<close>\<close>

text \<open>The buffer and \<open>buff_index\<close>.\<close>

type_synonym up_buf = "bytes \<times> nat"

definition put :: "string \<Rightarrow> up_buf \<Rightarrow> up_buf res" where
  "put s = (\<lambda>(buff_up, buff_index). put_bytes buff_up buff_index (lit s))"

text \<open>
  \<open>j = snprintf (buff_up + buff_index, TX_BUFF_SIZE - buff_index, ...)\<close>, which stores at most the given
  number of bytes with the NUL and returns the length of the whole text; \<open>j > 0\<close> is added to
  \<open>buff_index\<close>, otherwise the program exits. Beyond the end the size wraps to a huge one.
\<close>

definition putf :: "bytes \<Rightarrow> up_buf \<Rightarrow> up_buf res" where
  "putf txt = (\<lambda>(buff_up, buff_index).
     let stored = (if TX_BUFF_SIZE < buff_index then txt @ [0]
                   else if TX_BUFF_SIZE = buff_index then []
                   else take (TX_BUFF_SIZE - buff_index - 1) txt @ [0]) in
     bindr (memcpy buff_up buff_index stored) (\<lambda>buff_up.
     if txt = [] then Inl ExitCall else Inr (buff_up, buff_index + length txt)))"

section \<open>One packet\<close>

definition put_separator :: "nat \<Rightarrow> up_buf \<Rightarrow> up_buf res" where
  "put_separator pkt_in_dgram b = (if pkt_in_dgram = 0 then put ''{'' b else put '',{'' b)"

definition put_utc :: "int \<times> int \<Rightarrow> up_buf \<Rightarrow> up_buf res" where
  "put_utc utc b =
     (case gmtime (fst utc) of
        None \<Rightarrow> Inl NullDeref
      | Some x \<Rightarrow>
          putf (lit ('',\"time\":\"'' @ fmt_i 4 (tm_year x + 1900) @ ''-'' @ fmt_i 2 (tm_mon x + 1) @ ''-'' @ fmt_i 2 (tm_mday x) @
                     ''T'' @ fmt_i 2 (tm_hour x) @ '':'' @ fmt_i 2 (tm_min x) @ '':'' @ fmt_i 2 (tm_sec x) @
                     ''.'' @ fmt_i 6 (snd utc sdiv 1000) @ ''Z\"'')) b)"

text \<open>\<open>pkt_gps_time.tv_sec * 1E3 + pkt_gps_time.tv_nsec / 1E6\<close>, as \<open>uint64_t\<close>.\<close>

definition gps_ms :: "int \<times> int \<Rightarrow> u64 res" where
  "gps_ms t =
     (case (dbl_mul (round_dbl (of_int (fst t))) 1000, dbl_div (round_dbl (of_int (snd t))) 1000000) of
        (Fin a, Fin b) \<Rightarrow> dbl_to_u64 (round_dbl (a + b))
      | _ \<Rightarrow> Inl BadConversion)"

definition put_gps :: "int \<times> int \<Rightarrow> up_buf \<Rightarrow> up_buf res" where
  "put_gps t b = bindr (gps_ms t) (\<lambda>ms. putf (lit ('',\"tmms\":'' @ dec (uint ms))) b)"

text \<open>\<open>ref\<close> is \<open>None\<close> when \<open>ref_ok\<close> is false.\<close>

definition put_times :: "hal_rx \<Rightarrow> tref option \<Rightarrow> lgw_pkt_rx \<Rightarrow> up_buf \<Rightarrow> up_buf res" where
  "put_times H ref p b =
     (case ref of
        None \<Rightarrow> Inr b
      | Some r \<Rightarrow>
          bindr (case lgw_cnt2utc H r (rx_count_us p) of None \<Rightarrow> Inr b | Some t \<Rightarrow> put_utc t b) (\<lambda>b.
          case lgw_cnt2gps H r (rx_count_us p) of None \<Rightarrow> Inr b | Some t \<Rightarrow> put_gps t b))"

definition put_radio :: "lgw_pkt_rx \<Rightarrow> up_buf \<Rightarrow> up_buf res" where
  "put_radio p =
     putf (lit ('',\"chan\":'' @ dec (uint (rx_if_chain p)) @ '',\"rfch\":'' @ dec (uint (rx_rf_chain p)) @
                '',\"freq\":'' @ fmt_f 6 (round_dbl (of_int (uint (rx_freq_hz p)) / 1000000))))"

definition put_status :: "hal_rx \<Rightarrow> lgw_pkt_rx \<Rightarrow> up_buf \<Rightarrow> up_buf res" where
  "put_status H p b =
     (if rx_status p = hal_STAT_CRC_OK H then put '',\"stat\":1'' b
      else if rx_status p = hal_STAT_CRC_BAD H then put '',\"stat\":-1'' b
      else if rx_status p = hal_STAT_NO_CRC H then put '',\"stat\":0'' b
      else bindr (put '',\"stat\":?'' b) (\<lambda>_. Inl ExitCall))"

definition put_datr :: "hal_rx \<Rightarrow> lgw_pkt_rx \<Rightarrow> up_buf \<Rightarrow> up_buf res" where
  "put_datr H p b =
     (if rx_datarate p = hal_DR_LORA H 7 then put '',\"datr\":\"SF7'' b
      else if rx_datarate p = hal_DR_LORA H 8 then put '',\"datr\":\"SF8'' b
      else if rx_datarate p = hal_DR_LORA H 9 then put '',\"datr\":\"SF9'' b
      else if rx_datarate p = hal_DR_LORA H 10 then put '',\"datr\":\"SF10'' b
      else if rx_datarate p = hal_DR_LORA H 11 then put '',\"datr\":\"SF11'' b
      else if rx_datarate p = hal_DR_LORA H 12 then put '',\"datr\":\"SF12'' b
      else bindr (put '',\"datr\":\"SF?'' b) (\<lambda>_. Inl ExitCall))"

definition put_bandwidth :: "hal_rx \<Rightarrow> lgw_pkt_rx \<Rightarrow> up_buf \<Rightarrow> up_buf res" where
  "put_bandwidth H p b =
     (if rx_bandwidth p = hal_BW_125KHZ H then put ''BW125\"'' b
      else if rx_bandwidth p = hal_BW_250KHZ H then put ''BW250\"'' b
      else if rx_bandwidth p = hal_BW_500KHZ H then put ''BW500\"'' b
      else bindr (put ''BW?\"'' b) (\<lambda>_. Inl ExitCall))"

definition put_coderate :: "hal_rx \<Rightarrow> lgw_pkt_rx \<Rightarrow> up_buf \<Rightarrow> up_buf res" where
  "put_coderate H p b =
     (if rx_coderate p = hal_CR_LORA H 5 then put '',\"codr\":\"4/5\"'' b
      else if rx_coderate p = hal_CR_LORA H 6 then put '',\"codr\":\"4/6\"'' b
      else if rx_coderate p = hal_CR_LORA H 7 then put '',\"codr\":\"4/7\"'' b
      else if rx_coderate p = hal_CR_LORA H 8 then put '',\"codr\":\"4/8\"'' b
      else if rx_coderate p = 0 then put '',\"codr\":\"OFF\"'' b
      else bindr (put '',\"codr\":\"?\"'' b) (\<lambda>_. Inl ExitCall))"

definition put_modulation :: "hal_rx \<Rightarrow> lgw_pkt_rx \<Rightarrow> up_buf \<Rightarrow> up_buf res" where
  "put_modulation H p b =
     (if rx_modulation p = hal_MOD_LORA H then
        bindr (put '',\"modu\":\"LORA\"'' b) (\<lambda>b.
        bindr (put_datr H p b) (\<lambda>b.
        bindr (put_bandwidth H p b) (\<lambda>b.
        bindr (put_coderate H p b) (\<lambda>b.
        putf (lit ('',\"lsnr\":'' @ fmt_f 1 (rx_snr p))) b))))
      else if rx_modulation p = hal_MOD_FSK H then
        bindr (put '',\"modu\":\"FSK\"'' b) (\<lambda>b.
        putf (lit ('',\"datr\":'' @ dec (uint (rx_datarate p)))) b)
      else Inl ExitCall)"

text \<open>\<open>memcpy\<close> copies the nine bytes of \<open>,"data":"\<close>; then \<open>bin_to_b64\<close> writes into the rest of the buffer.\<close>

definition put_data :: "lgw_pkt_rx \<Rightarrow> up_buf \<Rightarrow> up_buf res" where
  "put_data p b =
     bindr (put '',\"data\":\"'' b) (\<lambda>(buff_up, buff_index).
     bindr (bin_to_b64 (Some (rx_payload p)) (int (unat (rx_size p))) (Some (drop buff_index buff_up)) 341) (\<lambda>(j, out).
     let buff_up = take buff_index buff_up @ (case out of None \<Rightarrow> [] | Some out \<Rightarrow> out) in
     if 0 \<le> j then put ''\"'' (buff_up, buff_index + nat j) else Inl ExitCall))"

definition put_rx :: "hal_rx \<Rightarrow> tref option \<Rightarrow> nat \<Rightarrow> lgw_pkt_rx \<Rightarrow> up_buf \<Rightarrow> up_buf res" where
  "put_rx H ref pkt_in_dgram p b =
     bindr (put_separator pkt_in_dgram b) (\<lambda>b.
     bindr (putf (lit (''\"tmst\":'' @ dec (uint (rx_count_us p)))) b) (\<lambda>b.
     bindr (put_times H ref p b) (\<lambda>b.
     bindr (put_radio p b) (\<lambda>b.
     bindr (put_status H p b) (\<lambda>b.
     bindr (put_modulation H p b) (\<lambda>b.
     bindr (putf (lit ('',\"rssi\":'' @ fmt_f 0 (rx_rssi p) @ '',\"size\":'' @ dec (uint (rx_size p)))) b) (\<lambda>b.
     bindr (put_data p b) (\<lambda>b.
     put ''}'' b))))))))"

section \<open>The datagram\<close>

text \<open>The loop over the fetched packets; \<open>n\<close> is \<open>pkt_in_dgram\<close>.\<close>

fun put_rxs ::
    "hal_rx \<Rightarrow> up_filter \<Rightarrow> tref option \<Rightarrow> lgw_pkt_rx list \<Rightarrow> nat \<Rightarrow> up_buf \<Rightarrow> meas_up \<Rightarrow> (nat \<times> up_buf \<times> meas_up) res" where
  "put_rxs H F ref [] n b m = Inr (n, b, m)"
| "put_rxs H F ref (p # ps) n b m =
     (case filter_rx H F p m of
        (False, m) \<Rightarrow> put_rxs H F ref ps n b m
      | (True, m) \<Rightarrow> bindr (put_rx H ref n p b) (\<lambda>b. put_rxs H F ref ps (n + 1) b m))"

text \<open>After the loop; \<open>report\<close> is the status report when there is a new one. \<open>None\<close>: nothing to send.\<close>

definition put_end :: "bytes option \<Rightarrow> nat \<Rightarrow> up_buf \<Rightarrow> up_buf option res" where
  "put_end report n b =
     (if n = 0 \<and> report = None then Inr None
      else
        bindr (if n = 0 then Inr (fst b, snd b - 8)
               else bindr (put '']'' b) (\<lambda>b. if report = None then Inr b else put '','' b)) (\<lambda>b.
        bindr (case report of None \<Rightarrow> Inr b | Some r \<Rightarrow> putf r b) (\<lambda>b.
        bindr (put ''}'' b) (\<lambda>(buff_up, buff_index).
        bindr (st buff_up buff_index 0) (\<lambda>buff_up.
        Inr (Some (buff_up, buff_index)))))))"

record up =
  up_buff :: bytes
  up_meas :: meas_up

text \<open>The fixed fields are stored once, before the loop; \<open>buff0\<close> is the uninitialised array.\<close>

definition up_start :: "u64 \<Rightarrow> bytes \<Rightarrow> meas_up \<Rightarrow> up res" where
  "up_start lgwm buff0 m =
     bindr (st buff0 0 PROTOCOL_VERSION) (\<lambda>b.
     bindr (st b 3 PKT_PUSH_DATA) (\<lambda>b.
     bindr (memcpy b 4 (net_mac_h lgwm)) (\<lambda>b.
     bindr (memcpy b 8 (net_mac_l lgwm)) (\<lambda>b.
     Inr \<lparr>up_buff = b, up_meas = m\<rparr>))))"

text \<open>Composing: the datagram that is sent, if one is, is the first \<open>buff_index\<close> bytes.\<close>

definition push_data ::
    "hal_rx \<Rightarrow> up_filter \<Rightarrow> u8 \<times> u8 \<Rightarrow> tref option \<Rightarrow> bytes option \<Rightarrow> lgw_pkt_rx list \<Rightarrow> up \<Rightarrow> (bytes option \<times> up) res" where
  "push_data H F tok ref report rxpkt s =
     (if rxpkt = [] \<and> report = None then Inr (None, s)
      else
        bindr (st (up_buff s) 1 (fst tok)) (\<lambda>b.
        bindr (st b 2 (snd tok)) (\<lambda>b.
        bindr (put ''{\"rxpk\":['' (b, 12)) (\<lambda>b.
        bindr (put_rxs H F ref rxpkt 0 b (up_meas s)) (\<lambda>(n, b, m).
        bindr (put_end report n b) (\<lambda>r.
        case r of
          None \<Rightarrow> Inr (None, s\<lparr>up_buff := fst b, up_meas := m\<rparr>)
        | Some (buff_up, buff_index) \<Rightarrow>
            Inr (Some (take buff_index buff_up),
                 s\<lparr>up_buff := buff_up,
                   up_meas := m\<lparr>meas_up_dgram_sent := meas_up_dgram_sent m + 1,
                                meas_up_network_byte := meas_up_network_byte m + of_nat buff_index\<rparr>\<rparr>)))))))"

section \<open>Waiting for the acknowledgement\<close>

definition is_push_ack :: "u8 \<times> u8 \<Rightarrow> bytes \<Rightarrow> bool" where
  "is_push_ack tok a \<longleftrightarrow>
     4 \<le> length a \<and> a ! 0 = PROTOCOL_VERSION \<and> a ! 3 = PKT_PUSH_ACK \<and> a ! 1 = fst tok \<and> a ! 2 = snd tok"

text \<open>Each element is the answer of one \<open>recv\<close>; the loop makes at most \<open>i\<close> of them.\<close>

fun wait_push_ack :: "nat \<Rightarrow> u8 \<times> u8 \<Rightarrow> (errno + bytes) list \<Rightarrow> meas_up \<Rightarrow> meas_up" where
  "wait_push_ack 0 tok rs m = m"
| "wait_push_ack (Suc i) tok [] m = m"
| "wait_push_ack (Suc i) tok (r # rs) m =
     (case r of
        Inl e \<Rightarrow> if e = EAGAIN then wait_push_ack i tok rs m else m
      | Inr a \<Rightarrow>
          if \<not> is_push_ack tok a then wait_push_ack i tok rs m
          else m\<lparr>meas_up_ack_rcv := meas_up_ack_rcv m + 1\<rparr>)"

text \<open>One round of \<open>thread_up\<close>; \<open>fetch\<close> is \<open>None\<close> when \<open>lgw_receive\<close> fails.\<close>

definition thread_up_round ::
    "hal_rx \<Rightarrow> up_filter \<Rightarrow> u8 \<times> u8 \<Rightarrow> tref option \<Rightarrow> bytes option \<Rightarrow> lgw_pkt_rx list option \<Rightarrow> (errno + bytes) list \<Rightarrow>
     up \<Rightarrow> (bytes option \<times> up) res" where
  "thread_up_round H F tok ref report fetch answers s =
     (case fetch of
        None \<Rightarrow> Inl ExitCall
      | Some rxpkt \<Rightarrow>
          bindr (push_data H F tok ref report rxpkt s) (\<lambda>(dgram, s).
          Inr (dgram, if dgram = None then s else s\<lparr>up_meas := wait_push_ack 2 tok answers (up_meas s)\<rparr>)))"

end
