(* ===== verification/Thread_Up_Correct.thy ===== *)
theory Thread_Up_Correct
  imports Thread_Up Base64_Correct
begin

text \<open>
  PUSH_DATA: what the datagram holds and when it fits its buffer. \<open>writes f s\<close> says that \<open>f\<close> appends \<open>s\<close> to the
  text in the buffer when there is room; it composes along the code.
\<close>

section \<open>Appending\<close>

definition holds :: "up_buf \<Rightarrow> bytes \<Rightarrow> bool" where
  "holds b t \<longleftrightarrow> length (fst b) = TX_BUFF_SIZE \<and> snd b = length t \<and> take (length t) (fst b) = t"

definition writes :: "(up_buf \<Rightarrow> up_buf res) \<Rightarrow> bytes \<Rightarrow> bool" where
  "writes f s \<longleftrightarrow> (\<forall>b t. holds b t \<longrightarrow> length t + length s < TX_BUFF_SIZE \<longrightarrow> (\<exists>b'. f b = Inr b' \<and> holds b' (t @ s)))"

lemma writesD: "writes f s \<Longrightarrow> holds b t \<Longrightarrow> length t + length s < TX_BUFF_SIZE \<Longrightarrow> \<exists>b'. f b = Inr b' \<and> holds b' (t @ s)"
  unfolding writes_def by blast

lemma writes_eq: "writes f s \<Longrightarrow> s = t \<Longrightarrow> writes f t"
  by simp

named_theorems writes_intros "what appends to the datagram"

lemma writes_Inr [writes_intros]: "writes Inr []"
  by (simp add: writes_def)

lemma writes_bindr [writes_intros]:
  assumes "writes f s" and "writes g u"
  shows "writes (\<lambda>b. bindr (f b) g) (s @ u)"
  unfolding writes_def
proof (intro allI impI)
  fix b t
  assume b: "holds b t" "length t + length (s @ u) < TX_BUFF_SIZE"
  obtain b1 where b1: "f b = Inr b1" "holds b1 (t @ s)" using writesD [OF assms(1) b(1)] b(2) by auto
  obtain b2 where "g b1 = Inr b2" "holds b2 ((t @ s) @ u)" using writesD [OF assms(2) b1(2)] b(2) by auto
  then show "\<exists>b'. bindr (f b) g = Inr b' \<and> holds b' (t @ s @ u)" using b1(1) by auto
qed

lemma writes_put [writes_intros]: "writes (put s) (lit s)"
  by (auto simp: writes_def put_def holds_def put_bytes_def min_def split: prod.splits)

lemma writes_putf [writes_intros]: "txt \<noteq> [] \<Longrightarrow> writes (putf txt) txt"
  by (auto simp: writes_def putf_def holds_def Let_def min_def split: prod.splits)

lemma lit_Nil_iff [simp]: "lit s = [] \<longleftrightarrow> s = []"
  by (simp add: lit_def)

section \<open>The text of a packet\<close>

definition utc_text :: "int \<times> int \<Rightarrow> bytes" where
  "utc_text utc =
     (case gmtime (fst utc) of
        None \<Rightarrow> []
      | Some x \<Rightarrow> lit ('',\"time\":\"'' @ fmt_i 4 (tm_year x + 1900) @ ''-'' @ fmt_i 2 (tm_mon x + 1) @ ''-'' @
          fmt_i 2 (tm_mday x) @ ''T'' @ fmt_i 2 (tm_hour x) @ '':'' @ fmt_i 2 (tm_min x) @ '':'' @ fmt_i 2 (tm_sec x) @
          ''.'' @ fmt_i 6 (snd utc sdiv 1000) @ ''Z\"''))"

definition gps_text :: "int \<times> int \<Rightarrow> bytes" where
  "gps_text t = (case gps_ms t of Inl e \<Rightarrow> [] | Inr ms \<Rightarrow> lit ('',\"tmms\":'' @ dec (uint ms)))"

definition times_text :: "hal_rx \<Rightarrow> tref option \<Rightarrow> lgw_pkt_rx \<Rightarrow> bytes" where
  "times_text H ref p =
     (case ref of
        None \<Rightarrow> []
      | Some r \<Rightarrow> (case lgw_cnt2utc H r (rx_count_us p) of None \<Rightarrow> [] | Some t \<Rightarrow> utc_text t) @
                  (case lgw_cnt2gps H r (rx_count_us p) of None \<Rightarrow> [] | Some t \<Rightarrow> gps_text t))"

definition times_ok :: "hal_rx \<Rightarrow> tref option \<Rightarrow> lgw_pkt_rx \<Rightarrow> bool" where
  "times_ok H ref p \<longleftrightarrow>
     (case ref of
        None \<Rightarrow> True
      | Some r \<Rightarrow> (case lgw_cnt2utc H r (rx_count_us p) of None \<Rightarrow> True | Some t \<Rightarrow> gmtime (fst t) \<noteq> None) \<and>
                  (case lgw_cnt2gps H r (rx_count_us p) of None \<Rightarrow> True | Some t \<Rightarrow> \<not> isl (gps_ms t)))"

text \<open>The first entry of a table whose constant is the given value, as the code's switches choose.\<close>

definition switch :: "('a \<times> string) list \<Rightarrow> 'a \<Rightarrow> string option" where
  "switch tab v = map_of tab v"

definition status_names :: "hal_rx \<Rightarrow> (u8 \<times> string) list" where
  "status_names H = [(hal_STAT_CRC_OK H, ''1''), (hal_STAT_CRC_BAD H, ''-1''), (hal_STAT_NO_CRC H, ''0'')]"

definition datr_names :: "hal_rx \<Rightarrow> (u32 \<times> string) list" where
  "datr_names H = [(hal_DR_LORA H 7, ''SF7''), (hal_DR_LORA H 8, ''SF8''), (hal_DR_LORA H 9, ''SF9''),
     (hal_DR_LORA H 10, ''SF10''), (hal_DR_LORA H 11, ''SF11''), (hal_DR_LORA H 12, ''SF12'')]"

definition bw_names :: "hal_rx \<Rightarrow> (u8 \<times> string) list" where
  "bw_names H = [(hal_BW_125KHZ H, ''BW125''), (hal_BW_250KHZ H, ''BW250''), (hal_BW_500KHZ H, ''BW500'')]"

definition codr_names :: "hal_rx \<Rightarrow> (u8 \<times> string) list" where
  "codr_names H = [(hal_CR_LORA H 5, ''4/5''), (hal_CR_LORA H 6, ''4/6''), (hal_CR_LORA H 7, ''4/7''), (hal_CR_LORA H 8, ''4/8''),
     (0, ''OFF'')]"

definition modulation_text :: "hal_rx \<Rightarrow> lgw_pkt_rx \<Rightarrow> string" where
  "modulation_text H p =
     (if rx_modulation p = hal_MOD_LORA H then
        '',\"modu\":\"LORA\",\"datr\":\"'' @ the (switch (datr_names H) (rx_datarate p)) @
        the (switch (bw_names H) (rx_bandwidth p)) @ ''\",\"codr\":\"'' @ the (switch (codr_names H) (rx_coderate p)) @
        ''\",\"lsnr\":'' @ fmt_f 1 (rx_snr p)
      else '',\"modu\":\"FSK\",\"datr\":'' @ dec (uint (rx_datarate p)))"

definition rx_known :: "hal_rx \<Rightarrow> lgw_pkt_rx \<Rightarrow> bool" where
  "rx_known H p \<longleftrightarrow> switch (status_names H) (rx_status p) \<noteq> None \<and>
     (if rx_modulation p = hal_MOD_LORA H then
        switch (datr_names H) (rx_datarate p) \<noteq> None \<and> switch (bw_names H) (rx_bandwidth p) \<noteq> None \<and>
        switch (codr_names H) (rx_coderate p) \<noteq> None
      else rx_modulation p = hal_MOD_FSK H) \<and>
     rx_size p \<le> 255 \<and> unat (rx_size p) \<le> length (rx_payload p)"

text \<open>The fields of the JSON object of one packet, and the object.\<close>

definition rx_fields :: "hal_rx \<Rightarrow> tref option \<Rightarrow> lgw_pkt_rx \<Rightarrow> bytes" where
  "rx_fields H ref p =
     lit (''\"tmst\":'' @ dec (uint (rx_count_us p))) @ times_text H ref p @
     lit ('',\"chan\":'' @ dec (uint (rx_if_chain p)) @ '',\"rfch\":'' @ dec (uint (rx_rf_chain p)) @
          '',\"freq\":'' @ point 6 (pad0 7 (dec (uint (rx_freq_hz p)))) @
          '',\"stat\":'' @ the (switch (status_names H) (rx_status p)) @ modulation_text H p @
          '',\"rssi\":'' @ fmt_f 0 (rx_rssi p) @ '',\"size\":'' @ dec (uint (rx_size p)) @ '',\"data\":\"'') @
     b64_encode (take (unat (rx_size p)) (rx_payload p)) @ lit ''\"''"

definition rx_text :: "hal_rx \<Rightarrow> tref option \<Rightarrow> lgw_pkt_rx \<Rightarrow> bytes" where
  "rx_text H ref p = lit ''{'' @ rx_fields H ref p @ lit ''}''"

section \<open>Writing one packet\<close>

lemma writes_times:
  assumes "times_ok H ref p"
  shows "writes (put_times H ref p) (times_text H ref p)"
proof (cases ref)
  case None
  then show ?thesis using writes_Inr by (simp add: put_times_def [abs_def] times_text_def)
next
  case (Some r)
  have "writes (\<lambda>b. case lgw_cnt2utc H r (rx_count_us p) of None \<Rightarrow> Inr b | Some t \<Rightarrow> put_utc t b)
      (case lgw_cnt2utc H r (rx_count_us p) of None \<Rightarrow> [] | Some t \<Rightarrow> utc_text t)"
    using assms Some writes_Inr
    by (auto simp: times_ok_def put_utc_def utc_text_def split: option.splits intro!: writes_putf)
  moreover have "writes (\<lambda>b. case lgw_cnt2gps H r (rx_count_us p) of None \<Rightarrow> Inr b | Some t \<Rightarrow> put_gps t b)
      (case lgw_cnt2gps H r (rx_count_us p) of None \<Rightarrow> [] | Some t \<Rightarrow> gps_text t)"
    using assms Some writes_Inr
    by (auto simp: times_ok_def put_gps_def gps_text_def split: option.splits sum.splits intro!: writes_putf)
  ultimately show ?thesis
    using writes_bindr by (simp add: Some put_times_def [abs_def] times_text_def)
qed

lemma writes_status:
  "switch (status_names H) (rx_status p) \<noteq> None \<Longrightarrow>
   writes (put_status H p) (lit ('',\"stat\":'' @ the (switch (status_names H) (rx_status p))))"
  using writes_put by (auto simp: put_status_def [abs_def] switch_def status_names_def)

lemma writes_datr:
  "switch (datr_names H) (rx_datarate p) \<noteq> None \<Longrightarrow>
   writes (put_datr H p) (lit ('',\"datr\":\"'' @ the (switch (datr_names H) (rx_datarate p))))"
  using writes_put by (auto simp: put_datr_def [abs_def] switch_def datr_names_def)

lemma writes_bandwidth:
  "switch (bw_names H) (rx_bandwidth p) \<noteq> None \<Longrightarrow>
   writes (put_bandwidth H p) (lit (the (switch (bw_names H) (rx_bandwidth p)) @ ''\"''))"
  using writes_put by (auto simp: put_bandwidth_def [abs_def] switch_def bw_names_def)

lemma writes_coderate:
  "switch (codr_names H) (rx_coderate p) \<noteq> None \<Longrightarrow>
   writes (put_coderate H p) (lit ('',\"codr\":\"'' @ the (switch (codr_names H) (rx_coderate p)) @ ''\"''))"
  using writes_put by (auto simp: put_coderate_def [abs_def] switch_def codr_names_def)

lemma writes_modulation:
  assumes "rx_known H p"
  shows "writes (put_modulation H p) (lit (modulation_text H p))"
proof (cases "rx_modulation p = hal_MOD_LORA H")
  case True
  note k = assms [unfolded rx_known_def if_P [OF True]]
  have "put_modulation H p = (\<lambda>b. bindr (put '',\"modu\":\"LORA\"'' b) (\<lambda>b. bindr (put_datr H p b) (\<lambda>b. bindr (put_bandwidth H p b)
      (\<lambda>b. bindr (put_coderate H p b) (putf (lit ('',\"lsnr\":'' @ fmt_f 1 (rx_snr p))))))))"
    using True by (simp add: put_modulation_def [abs_def])
  moreover have "lit (modulation_text H p) = lit '',\"modu\":\"LORA\"'' @ lit ('',\"datr\":\"'' @ the (switch (datr_names H) (rx_datarate p))) @
      lit (the (switch (bw_names H) (rx_bandwidth p)) @ ''\"'') @
      lit ('',\"codr\":\"'' @ the (switch (codr_names H) (rx_coderate p)) @ ''\"'') @ lit ('',\"lsnr\":'' @ fmt_f 1 (rx_snr p))"
    using True by (simp add: modulation_text_def lit_append flip: lit_append)
  ultimately show ?thesis
    using k by (simp only:) (intro writes_intros writes_datr writes_bandwidth writes_coderate; simp)
next
  case False
  then have "put_modulation H p = (\<lambda>b. bindr (put '',\"modu\":\"FSK\"'' b) (putf (lit ('',\"datr\":'' @ dec (uint (rx_datarate p))))))"
    using assms by (simp add: put_modulation_def [abs_def] rx_known_def)
  moreover have "lit (modulation_text H p) = lit '',\"modu\":\"FSK\"'' @ lit ('',\"datr\":'' @ dec (uint (rx_datarate p)))"
    using False by (simp add: modulation_text_def flip: lit_append)
  ultimately show ?thesis by (simp only:) (intro writes_intros; simp)
qed

lemma writes_data:
  assumes "rx_size p \<le> 255" and "unat (rx_size p) \<le> length (rx_payload p)"
  shows "writes (put_data p) (lit '',\"data\":\"'' @ b64_encode (take (unat (rx_size p)) (rx_payload p)) @ lit ''\"'')"
proof -
  let ?n = "unat (rx_size p)" and ?d = "b64_encode (take (unat (rx_size p)) (rx_payload p))"
  have "?n \<le> 255" using assms(1) by (simp add: word_le_nat_alt)
  then have "(?n + 2) div 3 \<le> 85" using div_le_mono [of "?n + 2" 257 3] by simp
  then have l: "int (length ?d) < 341" using assms(2) by (simp add: length_b64_encode min_def)
  have "writes (\<lambda>(buff_up, buff_index).
      bindr (bin_to_b64 (Some (rx_payload p)) (int ?n) (Some (drop buff_index buff_up)) 341) (\<lambda>(j, out).
      let buff_up = take buff_index buff_up @ (case out of None \<Rightarrow> [] | Some out \<Rightarrow> out) in
      if 0 \<le> j then put ''\"'' (buff_up, buff_index + nat j) else Inl ExitCall)) (?d @ lit ''\"'')"
    unfolding writes_def
  proof (intro allI impI)
    fix b t
    assume b: "holds b t" "length t + length (?d @ lit ''\"'') < TX_BUFF_SIZE"
    obtain buf where bb: "b = (buf, length t)" "length buf = TX_BUFF_SIZE" "take (length t) buf = t"
      using b(1) by (cases b) (auto simp: holds_def)
    have e: "bin_to_b64 (Some (rx_payload p)) (int ?n) (Some (drop (length t) buf)) 341 =
        Inr (int (length ?d), Some (?d @ 0 # drop (length ?d + 1) (drop (length t) buf)))"
      by (rule bin_to_b64_ok [OF assms(2) refl _ l]) (use b(2) bb(2) in simp)
    have h: "holds (t @ ?d @ 0 # drop (length ?d + 1) (drop (length t) buf), length t + length ?d) (t @ ?d)"
      using b(2) bb(2) by (simp add: holds_def)
    obtain b' where "put ''\"'' (t @ ?d @ 0 # drop (length ?d + 1) (drop (length t) buf), length t + length ?d) = Inr b'"
        "holds b' ((t @ ?d) @ lit ''\"'')"
      using writesD [OF writes_put h, of "''\"''"] b(2) by auto
    then show "\<exists>b'. (case b of (buff_up, buff_index) \<Rightarrow>
        bindr (bin_to_b64 (Some (rx_payload p)) (int ?n) (Some (drop buff_index buff_up)) 341) (\<lambda>(j, out).
        let buff_up = take buff_index buff_up @ (case out of None \<Rightarrow> [] | Some out \<Rightarrow> out) in
        if 0 \<le> j then put ''\"'' (buff_up, buff_index + nat j) else Inl ExitCall)) = Inr b' \<and> holds b' (t @ ?d @ lit ''\"'')"
      using e bb by simp
  qed
  from writes_bindr [OF writes_put this, of "'',\"data\":\"''"] show ?thesis
    by (simp add: put_data_def [abs_def])
qed

lemma writes_rx:
  assumes "rx_known H p" and "times_ok H ref p"
  shows "writes (put_rx H ref n p) (if n = 0 then rx_text H ref p else lit '','' @ rx_text H ref p)"
proof -
  have sep: "writes (put_separator n) (lit (if n = 0 then ''{'' else '',{''))"
    using writes_put by (simp add: put_separator_def [abs_def])
  have radio: "writes (put_radio p) (lit ('',\"chan\":'' @ dec (uint (rx_if_chain p)) @ '',\"rfch\":'' @ dec (uint (rx_rf_chain p)) @
                '',\"freq\":'' @ fmt_f 6 (round_dbl (of_int (uint (rx_freq_hz p)) / 1000000))))"
    unfolding put_radio_def by (rule writes_putf) simp
  have stat: "writes (put_status H p) (lit ('',\"stat\":'' @ the (switch (status_names H) (rx_status p))))"
    and data: "writes (put_data p) (lit '',\"data\":\"'' @ b64_encode (take (unat (rx_size p)) (rx_payload p)) @ lit ''\"'')"
    using assms(1) writes_status [of H p] writes_data [of p] by (simp_all add: rx_known_def)
  have t: "lit (''\"tmst\":'' @ dec (uint (rx_count_us p))) \<noteq> []"
      "lit ('',\"rssi\":'' @ fmt_f 0 (rx_rssi p) @ '',\"size\":'' @ dec (uint (rx_size p))) \<noteq> []" by simp_all
  have e: "put_rx H ref n p = (\<lambda>b. bindr (put_separator n b) (\<lambda>b. bindr (putf (lit (''\"tmst\":'' @ dec (uint (rx_count_us p)))) b)
      (\<lambda>b. bindr (put_times H ref p b) (\<lambda>b. bindr (put_radio p b) (\<lambda>b. bindr (put_status H p b) (\<lambda>b. bindr (put_modulation H p b)
      (\<lambda>b. bindr (putf (lit ('',\"rssi\":'' @ fmt_f 0 (rx_rssi p) @ '',\"size\":'' @ dec (uint (rx_size p)))) b)
      (\<lambda>b. bindr (put_data p b) (put ''}'')))))))))"
    by (simp add: put_rx_def [abs_def])
  note w = writes_bindr [OF sep writes_bindr [OF writes_putf [OF t(1)] writes_bindr [OF writes_times [OF assms(2)]
      writes_bindr [OF radio writes_bindr [OF stat writes_bindr [OF writes_modulation [OF assms(1)]
      writes_bindr [OF writes_putf [OF t(2)] writes_bindr [OF data writes_put [of "''}''"]]]]]]]]]
  have f: "fmt_f 6 (round_dbl (unsigned (rx_freq_hz p) / 1000000)) = point 6 (pad0 7 (dec (uint (rx_freq_hz p))))"
    using freq_text [of "uint (rx_freq_hz p)"] unsigned_less [of "rx_freq_hz p", where 'a = int] by simp
  show ?thesis unfolding e by (rule writes_eq [OF w]) (simp add: rx_text_def rx_fields_def lit_def f)
qed

section \<open>The packets of a datagram\<close>

definition forwarded :: "hal_rx \<Rightarrow> up_filter \<Rightarrow> lgw_pkt_rx \<Rightarrow> bool" where
  "forwarded H F p \<longleftrightarrow> fst (filter_rx H F p meas_up_zero)"

lemma filter_rx_forwarded: "fst (filter_rx H F p m) \<longleftrightarrow> forwarded H F p"
  by (simp add: forwarded_def filter_rx_def Let_def)

fun commas :: "bytes list \<Rightarrow> bytes" where
  "commas [] = []"
| "commas [x] = x"
| "commas (x # xs) = x @ lit '','' @ commas xs"

definition rxpk_text :: "hal_rx \<Rightarrow> up_filter \<Rightarrow> tref option \<Rightarrow> lgw_pkt_rx list \<Rightarrow> bytes" where
  "rxpk_text H F ref ps = commas (map (rx_text H ref) (filter (forwarded H F) ps))"

text \<open>The counters after a list of packets.\<close>

definition count_rxs :: "hal_rx \<Rightarrow> up_filter \<Rightarrow> lgw_pkt_rx list \<Rightarrow> meas_up \<Rightarrow> meas_up" where
  "count_rxs H F ps m = foldl (\<lambda>m p. snd (filter_rx H F p m)) m ps"

lemma commas_Cons: "commas (x # xs) = x @ concat (map (\<lambda>y. lit '','' @ y) xs)"
  by (induction xs arbitrary: x) simp_all

lemma put_rxs_writes:
  assumes "\<forall>p \<in> set ps. forwarded H F p \<longrightarrow> rx_known H p \<and> times_ok H ref p"
    and "holds b t"
    and "length t + length (concat (map (\<lambda>p. lit '','' @ rx_text H ref p) (filter (forwarded H F) ps))) < TX_BUFF_SIZE"
  shows "\<exists>b'. put_rxs H F ref ps n b m = Inr (n + length (filter (forwarded H F) ps), b', count_rxs H F ps m) \<and>
    holds b' (t @ (if n = 0 then rxpk_text H F ref ps
                   else concat (map (\<lambda>p. lit '','' @ rx_text H ref p) (filter (forwarded H F) ps))))"
  using assms
proof (induction ps arbitrary: n b t m)
  case (Cons p ps)
  obtain f m' where f: "filter_rx H F p m = (f, m')" by force
  then have fwd: "forwarded H F p \<longleftrightarrow> f" using filter_rx_forwarded [of H F p m] by simp
  show ?case
  proof (cases f)
    case True
    define u where "u = (if n = 0 then rx_text H ref p else lit '','' @ rx_text H ref p)"
    let ?r = "concat (map (\<lambda>p. lit '','' @ rx_text H ref p) (filter (forwarded H F) ps))"
    have w: "writes (put_rx H ref n p) u"
      unfolding u_def using writes_rx Cons.prems(1) fwd True by simp
    have l: "length t + length u + length ?r < TX_BUFF_SIZE"
      using Cons.prems(3) fwd True by (simp add: u_def)
    obtain b1 where b1: "put_rx H ref n p b = Inr b1" "holds b1 (t @ u)"
      using writesD [OF w Cons.prems(2)] l by (meson add_lessD1)
    have "\<exists>b2. put_rxs H F ref ps (n + 1) b1 m' = Inr (n + 1 + length (filter (forwarded H F) ps), b2, count_rxs H F ps m') \<and>
        holds b2 ((t @ u) @ (if n + 1 = 0 then rxpk_text H F ref ps else ?r))"
      by (rule Cons.IH [OF _ b1(2)]) (use Cons.prems(1) l in auto)
    then obtain b2 where b2: "put_rxs H F ref ps (n + 1) b1 m' =
          Inr (n + 1 + length (filter (forwarded H F) ps), b2, count_rxs H F ps m')" "holds b2 (t @ u @ ?r)"
      by auto
    have "u @ ?r = (if n = 0 then rxpk_text H F ref (p # ps)
        else concat (map (\<lambda>p. lit '','' @ rx_text H ref p) (filter (forwarded H F) (p # ps))))"
      using fwd True by (simp add: u_def rxpk_text_def commas_Cons comp_def)
    then show ?thesis
      using b1(1) b2 f True fwd by (simp add: count_rxs_def)
  next
    case False
    then show ?thesis using Cons.IH [OF _ Cons.prems(2), where n = n and m = m'] Cons.prems(1,3) f fwd
      by (cases "n = 0") (simp_all add: count_rxs_def rxpk_text_def)
  qed
qed (simp add: count_rxs_def rxpk_text_def)

section \<open>The datagram\<close>

definition push_header :: "u64 \<Rightarrow> u8 \<times> u8 \<Rightarrow> bytes" where
  "push_header lgwm tok = [PROTOCOL_VERSION, fst tok, snd tok, PKT_PUSH_DATA] @ net_mac_h lgwm @ net_mac_l lgwm"

definition push_json :: "hal_rx \<Rightarrow> up_filter \<Rightarrow> tref option \<Rightarrow> bytes option \<Rightarrow> lgw_pkt_rx list \<Rightarrow> bytes" where
  "push_json H F ref report ps =
     (let rxpk = (if filter (forwarded H F) ps = [] then [] else [lit ''\"rxpk\":['' @ rxpk_text H F ref ps @ lit '']'']);
          stat = (case report of None \<Rightarrow> [] | Some r \<Rightarrow> [r]) in
      lit ''{'' @ commas (rxpk @ stat) @ lit ''}'')"

text \<open>The buffer between two rounds: its size and the fixed fields of the header.\<close>

definition up_ready :: "u64 \<Rightarrow> up \<Rightarrow> bool" where
  "up_ready lgwm s \<longleftrightarrow> length (up_buff s) = TX_BUFF_SIZE \<and> (\<exists>tok. take 12 (up_buff s) = push_header lgwm tok)"

lemma length_push_header [simp]: "length (push_header lgwm tok) = 12"
  by (simp add: push_header_def net_mac_h_def net_mac_l_def be32_def)

lemma up_start_ready:
  assumes "length buff0 = TX_BUFF_SIZE"
  shows "\<exists>s. up_start lgwm buff0 m = Inr s \<and> up_ready lgwm s \<and> up_meas s = m"
proof -
  have "length buff0 = Suc (Suc (Suc (Suc 4546)))" using assms by (simp add: TX_BUFF_SIZE_def NB_PKT_MAX_def STATUS_SIZE_def)
  then obtain a b c d rest where b: "buff0 = a # b # c # d # rest" "length rest = 4546"
    unfolding length_Suc_conv by blast
  let ?h = "net_mac_h lgwm" and ?l = "net_mac_l lgwm"
  have l: "length ?h = 4" "length ?l = 4" by (simp_all add: net_mac_h_def net_mac_l_def be32_def)
  have "memcpy (PROTOCOL_VERSION # b # c # PKT_PUSH_DATA # rest) 4 ?h =
      Inr ([PROTOCOL_VERSION, b, c, PKT_PUSH_DATA] @ ?h @ drop 4 rest)"
    using b(2) l by (simp add: memcpy_def)
  moreover have "memcpy ([PROTOCOL_VERSION, b, c, PKT_PUSH_DATA] @ ?h @ drop 4 rest) 8 ?l =
      Inr ([PROTOCOL_VERSION, b, c, PKT_PUSH_DATA] @ ?h @ ?l @ drop 8 rest)"
    using b(2) l by (simp add: memcpy_def)
  ultimately have "up_start lgwm buff0 m =
      Inr \<lparr>up_buff = [PROTOCOL_VERSION, b, c, PKT_PUSH_DATA] @ ?h @ ?l @ drop 8 rest, up_meas = m\<rparr>"
    by (simp add: up_start_def b(1) st_def)
  moreover have "up_ready lgwm \<lparr>up_buff = [PROTOCOL_VERSION, b, c, PKT_PUSH_DATA] @ ?h @ ?l @ drop 8 rest, up_meas = m\<rparr>"
    using b(2) l by (auto simp: up_ready_def push_header_def TX_BUFF_SIZE_def NB_PKT_MAX_def STATUS_SIZE_def intro!: exI [of _ b] exI [of _ c])
  ultimately show ?thesis by (metis up.select_convs(2))
qed

lemma push_header_stored:
  assumes "up_ready lgwm s"
  shows "\<exists>b b'. st (up_buff s) 1 (fst tok) = Inr b \<and> st b 2 (snd tok) = Inr b' \<and> holds (b', 12) (push_header lgwm tok)"
proof -
  obtain tok0 where t: "length (up_buff s) = TX_BUFF_SIZE" "take 12 (up_buff s) = push_header lgwm tok0"
    using assms by (auto simp: up_ready_def)
  have "12 < TX_BUFF_SIZE" by (simp add: TX_BUFF_SIZE_def NB_PKT_MAX_def STATUS_SIZE_def)
  moreover from this have "take 12 ((up_buff s)[1 := fst tok, 2 := snd tok]) = push_header lgwm tok"
    unfolding take_update_swap using t by (simp add: push_header_def)
  ultimately show ?thesis using t(1) by (auto simp: st_def holds_def)
qed

lemma push_data_body:
  assumes "up_ready lgwm s" and "\<forall>p \<in> set ps. forwarded H F p \<longrightarrow> rx_known H p \<and> times_ok H ref p"
    and "length (push_header lgwm tok @ lit ''{\"rxpk\":['' @ rxpk_text H F ref ps) + 1 < TX_BUFF_SIZE"
  shows "\<exists>b b' b1 b2. st (up_buff s) 1 (fst tok) = Inr b \<and> st b 2 (snd tok) = Inr b' \<and> put ''{\"rxpk\":['' (b', 12) = Inr b1 \<and>
    put_rxs H F ref ps 0 b1 m = Inr (length (filter (forwarded H F) ps), b2, count_rxs H F ps m) \<and>
    holds b2 (push_header lgwm tok @ lit ''{\"rxpk\":['' @ rxpk_text H F ref ps)"
proof -
  obtain b b' where b: "st (up_buff s) 1 (fst tok) = Inr b" "st b 2 (snd tok) = Inr b'" "holds (b', 12) (push_header lgwm tok)"
    using push_header_stored [OF assms(1)] by blast
  have "12 + length (lit ''{\"rxpk\":['') < TX_BUFF_SIZE" using assms(3) by simp
  then obtain b1 where b1: "put ''{\"rxpk\":['' (b', 12) = Inr b1" "holds b1 (push_header lgwm tok @ lit ''{\"rxpk\":['')"
    using writesD [OF writes_put b(3), of "''{\"rxpk\":[''"] unfolding length_push_header by blast
  have "length (concat (map (\<lambda>p. lit '','' @ rx_text H ref p) (filter (forwarded H F) ps))) \<le> length (rxpk_text H F ref ps) + 1"
    by (cases "filter (forwarded H F) ps") (simp_all add: rxpk_text_def commas_Cons comp_def)
  then have "length (push_header lgwm tok @ lit ''{\"rxpk\":['') +
      length (concat (map (\<lambda>p. lit '','' @ rx_text H ref p) (filter (forwarded H F) ps))) < TX_BUFF_SIZE"
    using assms(3) by simp
  from put_rxs_writes [OF assms(2) b1(2) this, of 0 m]
  obtain b2 where "put_rxs H F ref ps 0 b1 m = Inr (length (filter (forwarded H F) ps), b2, count_rxs H F ps m)"
      "holds b2 (push_header lgwm tok @ lit ''{\"rxpk\":['' @ rxpk_text H F ref ps)"
    unfolding append_assoc by auto
  then show ?thesis using b(1,2) b1(1) by blast
qed

lemma put_end_writes:
  assumes "holds b (h @ lit ''{\"rxpk\":['' @ rxpk)" and "report \<noteq> Some []" and "n = 0 \<Longrightarrow> rxpk = [] \<and> report \<noteq> None"
    and "json = lit ''{'' @ commas ((if n = 0 then [] else [lit ''\"rxpk\":['' @ rxpk @ lit '']'']) @
           (case report of None \<Rightarrow> [] | Some r \<Rightarrow> [r])) @ lit ''}''"
    and "length (h @ json) < TX_BUFF_SIZE"
  shows "\<exists>buf. put_end report n b = Inr (Some (buf, length (h @ json))) \<and> take (length (h @ json)) buf = h @ json \<and>
    length buf = TX_BUFF_SIZE"
proof -
  define sep where "sep = (if n = 0 then h @ lit ''{'' else h @ lit ''{\"rxpk\":['' @ rxpk @ lit '']'' @ (if report = None then [] else lit '',''))"
  define rep where "rep = (case report of None \<Rightarrow> [] | Some r \<Rightarrow> r)"
  have j: "h @ json = sep @ rep @ lit ''}''"
    using assms(3,4) by (cases report) (auto simp: sep_def rep_def lit_def)
  have l: "length sep + length rep + 1 < TX_BUFF_SIZE" using assms(5) unfolding j by simp
  have "\<exists>b1. (if n = 0 then Inr (fst b, snd b - 8)
      else bindr (put '']'' b) (\<lambda>b. if report = None then Inr b else put '','' b)) = Inr b1 \<and> holds b1 sep"
  proof (cases "n = 0")
    case True
    moreover have "take (length sep) (fst b) = sep"
    proof -
      have "take (length sep) (fst b) = take (length sep) (take (length (h @ lit ''{\"rxpk\":['')) (fst b))"
        using True by (simp add: sep_def min_def)
      also have "take (length (h @ lit ''{\"rxpk\":['')) (fst b) = h @ lit ''{\"rxpk\":[''"
        using assms(1,3) True unfolding holds_def by (metis append_Nil2)
      finally show ?thesis using True by (simp add: sep_def lit_def)
    qed
    ultimately show ?thesis using assms(1,3) by (simp add: holds_def sep_def)
  next
    case False
    have "writes (\<lambda>b. bindr (put '']'' b) (\<lambda>b. if report = None then Inr b else put '','' b)) (lit '']'' @ (if report = None then [] else lit '',''))"
      using writes_bindr [OF writes_put writes_put] writes_bindr [OF writes_put writes_Inr] by (cases report) auto
    from writesD [OF this assms(1)] show ?thesis using False l by (auto simp: sep_def)
  qed
  then obtain b1 where b1: "(if n = 0 then Inr (fst b, snd b - 8)
      else bindr (put '']'' b) (\<lambda>b. if report = None then Inr b else put '','' b)) = Inr b1" "holds b1 sep" by blast
  have "writes (\<lambda>b. bindr (case report of None \<Rightarrow> Inr b | Some r \<Rightarrow> putf r b) (put ''}'')) (rep @ lit ''}'')"
    using assms(2) writes_put writes_Inr by (cases report) (auto simp: rep_def intro!: writes_bindr writes_putf)
  then obtain b2 where b2: "bindr (case report of None \<Rightarrow> Inr b1 | Some r \<Rightarrow> putf r b1) (put ''}'') = Inr b2"
      "holds b2 (sep @ rep @ lit ''}'')"
    using writesD [OF _ b1(2)] l by fastforce
  have idx: "snd b2 < length (fst b2)" using b2(2) l by (simp add: holds_def)
  have "\<not> (n = 0 \<and> report = None)" using assms(3) by auto
  then have "put_end report n b = Inr (Some ((fst b2)[snd b2 := 0], snd b2))"
    using b1(1) b2(1) idx unfolding put_end_def bindr_assoc [symmetric] by (simp add: case_prod_beta st_def)
  then show ?thesis using b2(2) by (simp add: j holds_def)
qed

lemma push_data_sends:
  assumes "up_ready lgwm s" and "\<forall>p \<in> set ps. forwarded H F p \<longrightarrow> rx_known H p \<and> times_ok H ref p"
    and "report \<noteq> Some []" and "filter (forwarded H F) ps \<noteq> [] \<or> report \<noteq> None"
    and "length (push_header lgwm tok @ push_json H F ref report ps) < TX_BUFF_SIZE"
  shows "\<exists>s'. push_data H F tok ref report ps s = Inr (Some (push_header lgwm tok @ push_json H F ref report ps), s') \<and>
    up_ready lgwm s' \<and> up_meas s' = (let m = count_rxs H F ps (up_meas s) in
      m\<lparr>meas_up_dgram_sent := meas_up_dgram_sent m + 1,
        meas_up_network_byte := meas_up_network_byte m + of_nat (length (push_header lgwm tok @ push_json H F ref report ps))\<rparr>)"
proof -
  let ?n = "length (filter (forwarded H F) ps)" and ?rxpk = "rxpk_text H F ref ps" and ?j = "push_json H F ref report ps"
  have "length (push_header lgwm tok @ lit ''{\"rxpk\":['' @ ?rxpk) + 1 < TX_BUFF_SIZE"
    using assms(4,5) by (cases "?n = 0"; cases report)
      (auto simp: push_json_def rxpk_text_def TX_BUFF_SIZE_def NB_PKT_MAX_def STATUS_SIZE_def)
  from push_data_body [OF assms(1,2) this]
  obtain b b' b1 b2 where b: "st (up_buff s) 1 (fst tok) = Inr b" "st b 2 (snd tok) = Inr b'" "put ''{\"rxpk\":['' (b', 12) = Inr b1"
      "put_rxs H F ref ps 0 b1 (up_meas s) = Inr (?n, b2, count_rxs H F ps (up_meas s))"
      "holds b2 (push_header lgwm tok @ lit ''{\"rxpk\":['' @ ?rxpk)"
    by blast
  have c1: "?n = 0 \<Longrightarrow> ?rxpk = [] \<and> report \<noteq> None" using assms(4) by (simp add: rxpk_text_def)
  have c2: "?j = lit ''{'' @ commas ((if ?n = 0 then [] else [lit ''\"rxpk\":['' @ ?rxpk @ lit '']'']) @
      (case report of None \<Rightarrow> [] | Some r \<Rightarrow> [r])) @ lit ''}''"
    by (simp add: push_json_def Let_def)
  have "\<exists>buf. put_end report ?n b2 = Inr (Some (buf, length (push_header lgwm tok @ ?j))) \<and>
      take (length (push_header lgwm tok @ ?j)) buf = push_header lgwm tok @ ?j \<and> length buf = TX_BUFF_SIZE"
    by (rule put_end_writes [OF b(5) assms(3) c1 c2 assms(5)])
  then
  obtain buf where e: "put_end report ?n b2 = Inr (Some (buf, length (push_header lgwm tok @ ?j)))"
      "take (length (push_header lgwm tok @ ?j)) buf = push_header lgwm tok @ ?j" "length buf = TX_BUFF_SIZE"
    by blast
  have "take 12 buf = take 12 (take (length (push_header lgwm tok @ ?j)) buf)" by (simp add: min_def)
  then have "take 12 buf = push_header lgwm tok" unfolding e(2) by simp
  moreover have "\<not> (ps = [] \<and> report = None)" using assms(4) by auto
  ultimately show ?thesis
    using b(1-4) e by (auto simp: push_data_def up_ready_def Let_def simp del: split_paired_Ex)
qed

text \<open>\<open>snprintf\<close> stays in the buffer, but the index moves on by the length of the whole text.\<close>

lemma putf_long:
  assumes "holds b t" and "length t < TX_BUFF_SIZE" and "txt \<noteq> []"
  shows "\<exists>buf. putf txt b = Inr (buf, length t + length txt) \<and> length buf = TX_BUFF_SIZE"
proof -
  obtain buf where b: "b = (buf, length t)" "length buf = TX_BUFF_SIZE"
    using assms(1) by (cases b) (simp add: holds_def)
  define stored where "stored = take (TX_BUFF_SIZE - length t - 1) txt @ [0]"
  have l: "length t + length stored \<le> length buf" using assms(2) b(2) by (simp add: stored_def)
  have "putf txt b = bindr (memcpy buf (length t) stored) (\<lambda>buf. Inr (buf, length t + length txt))"
    using assms(2,3) by (simp add: putf_def b(1) stored_def)
  then show ?thesis using l b(2) by simp
qed

end
