(* ===== verification/Thread_Up_Properties.thy ===== *)
theory Thread_Up_Properties
  imports Thread_Up_Correct
begin

text \<open>
  The properties of \<open>thread_up\<close>: the text of a PUSH_DATA, when it fits \<open>buff_up\<close> and when it does not, and the
  upstream counters.
\<close>

section \<open>How long the text of a packet is\<close>

lemma length_dec_word: "length (dec (uint (w :: 'a::len word))) \<le> k" if "2 ^ LENGTH('a) \<le> (10::int) ^ k" "0 < k"
  using that less_le_trans [OF unsigned_less [of w, where 'a = int]] by (intro length_dec_le) auto

lemma length_dec_sizes:
  "length (dec (uint (a :: u8))) \<le> 3" "length (dec (uint (b :: u32))) \<le> 10" "length (dec (uint (c :: u64))) \<le> 20"
  by (rule length_dec_word; simp)+

lemma length_freq_text: "length (point 6 (pad0 7 (dec (uint (f :: u32))))) \<le> 11"
  using length_dec_sizes(2) [of f] by (simp add: length_point)

text \<open>Times of day and of the GPS era before the year 10000.\<close>

definition times_short :: "hal_rx \<Rightarrow> tref option \<Rightarrow> lgw_pkt_rx \<Rightarrow> bool" where
  "times_short H ref p \<longleftrightarrow>
     (case ref of
        None \<Rightarrow> True
      | Some r \<Rightarrow>
          (case lgw_cnt2utc H r (rx_count_us p) of
             None \<Rightarrow> True
           | Some t \<Rightarrow> 0 \<le> snd t \<and> snd t < 1000000000 \<and>
               (case gmtime (fst t) of None \<Rightarrow> True | Some x \<Rightarrow> - 1900 \<le> tm_year x \<and> tm_year x < 8100)))"

lemma length_utc_text:
  assumes "0 \<le> snd t" and "snd t < 1000000000" and "gmtime (fst t) = Some x" and "- 1900 \<le> tm_year x" and "tm_year x < 8100"
  shows "length (utc_text t) \<le> 37"
proof -
  note c = gmtime_calendar [OF assms(3)]
  have ml: "l \<in> set (month_lengths y) \<Longrightarrow> l \<le> 31" for l y by (auto simp: month_lengths_def split: if_splits)
  have "month_lengths (tm_year x + 1900) ! nat (tm_mon x) \<le> 31"
  proof (rule ml [OF nth_mem])
    have "length (month_lengths y) = 12" for y by (simp add: month_lengths_def)
    then show "nat (tm_mon x) < length (month_lengths (tm_year x + 1900))" using c by (simp only: nat_less_iff) simp
  qed
  then have d: "tm_mday x \<le> 31" using c by linarith
  have "snd t sdiv 1000 = snd t div 1000" using assms(1) by simp
  then have "length (fmt_i 6 (snd t sdiv 1000)) \<le> 6" "length (fmt_i 4 (tm_year x + 1900)) \<le> 4"
      "length (fmt_i 2 (tm_mon x + 1)) \<le> 2" "length (fmt_i 2 (tm_mday x)) \<le> 2" "length (fmt_i 2 (tm_hour x)) \<le> 2"
      "length (fmt_i 2 (tm_min x)) \<le> 2" "length (fmt_i 2 (tm_sec x)) \<le> 2"
    using length_fmt_i [of _ 6 6] length_fmt_i [of _ 4 4] length_fmt_i [of _ 2 2] c d assms by auto
  then show ?thesis by (simp add: utc_text_def assms(3))
qed

lemma length_times_text:
  assumes "times_short H ref p"
  shows "length (times_text H ref p) \<le> (if ref = None then 0 else 65)"
proof (cases ref)
  case (Some r)
  have "length (gps_text t) \<le> 28" for t
    using length_dec_sizes(3) by (auto simp: gps_text_def split: sum.splits)
  moreover have "length (utc_text t) \<le> 37" if "lgw_cnt2utc H r (rx_count_us p) = Some t" for t
  proof (cases "gmtime (fst t)")
    case None
    then show ?thesis by (simp add: utc_text_def)
  next
    case (Some x)
    then show ?thesis using assms that \<open>ref = Some r\<close> length_utc_text [of t x] by (simp add: times_short_def)
  qed
  ultimately have "length (case lgw_cnt2utc H r (rx_count_us p) of None \<Rightarrow> [] | Some t \<Rightarrow> utc_text t) \<le> 37"
      "length (case lgw_cnt2gps H r (rx_count_us p) of None \<Rightarrow> [] | Some t \<Rightarrow> gps_text t) \<le> 28"
    by (auto split: option.splits)
  then show ?thesis by (simp add: times_text_def Some)
qed (simp add: times_text_def)

text \<open>Signal levels below 100 in the two floating fields: \<open>dBm\<close> and \<open>dB\<close>.\<close>

definition levels_short :: "lgw_pkt_rx \<Rightarrow> bool" where
  "levels_short p \<longleftrightarrow> (\<exists>r s. rx_rssi p = Fin r \<and> rx_snr p = Fin s \<and> \<bar>r\<bar> \<le> 900 \<and> \<bar>s\<bar> \<le> 900)"

lemma length_switch:
  "switch tab v \<noteq> None \<Longrightarrow> \<forall>(a, s) \<in> set tab. length s \<le> k \<Longrightarrow> length (the (switch tab v)) \<le> k"
  by (fastforce simp: switch_def dest: map_of_SomeD)

lemma length_modulation_text:
  assumes "rx_known H p" and "levels_short p"
  shows "length (modulation_text H p) \<le> 60"
proof (cases "rx_modulation p = hal_MOD_LORA H")
  case True
  obtain s where s: "rx_snr p = Fin s" "\<bar>s\<bar> \<le> 900" using assms(2) by (auto simp: levels_short_def)
  have "length (fmt_f 1 (rx_snr p)) \<le> 6" unfolding s(1) using length_fmt_f [of s 1 4] s(2) by simp
  moreover have "length (the (switch (datr_names H) (rx_datarate p))) \<le> 4" "length (the (switch (bw_names H) (rx_bandwidth p))) \<le> 5"
      "length (the (switch (codr_names H) (rx_coderate p))) \<le> 3"
    using assms(1) True by (auto simp: rx_known_def datr_names_def bw_names_def codr_names_def intro!: length_switch)
  ultimately show ?thesis using True by (simp add: modulation_text_def)
next
  case False
  then show ?thesis using length_dec_sizes(2) [of "rx_datarate p"] by (simp add: modulation_text_def)
qed

lemma length_rx_text:
  assumes "rx_known H p" and "times_short H ref p" and "levels_short p"
  shows "length (rx_text H ref p) \<le> 505 + (if ref = None then 0 else 65)"
proof -
  obtain r where r: "rx_rssi p = Fin r" "\<bar>r\<bar> \<le> 900" using assms(3) by (auto simp: levels_short_def)
  have "length (fmt_f 0 (rx_rssi p)) \<le> 4" unfolding r(1) using length_fmt_f [of r 0 3] r(2) by simp
  moreover have "length (the (switch (status_names H) (rx_status p))) \<le> 2"
    using assms(1) by (intro length_switch) (auto simp: rx_known_def status_names_def)
  moreover have n: "unat (rx_size p) \<le> 255" "unat (rx_size p) \<le> length (rx_payload p)"
    using assms(1) by (auto simp: rx_known_def word_le_nat_alt)
  moreover have "length (dec (uint (rx_size p))) \<le> 3"
    using assms(1) by (intro length_dec_le) (simp_all add: rx_known_def word_le_def)
  moreover have "(unat (rx_size p) + 2) div 3 \<le> 85" using div_le_mono [of "unat (rx_size p) + 2" 257 3] n(1) by simp
  then have "length (b64_encode (take (unat (rx_size p)) (rx_payload p))) \<le> 340"
    using n(2) by (simp add: length_b64_encode min_def)
  moreover note length_times_text [OF assms(2)] length_modulation_text [OF assms(1,3)] length_freq_text [of "rx_freq_hz p"]
    length_dec_sizes(1) [of "rx_if_chain p"] length_dec_sizes(1) [of "rx_rf_chain p"] length_dec_sizes(2) [of "rx_count_us p"]
  ultimately show ?thesis by (simp add: rx_text_def rx_fields_def del: of_int_uint)
qed

section \<open>When a datagram fits\<close>

lemma length_commas: "length (commas xs) \<le> sum_list (map (\<lambda>x. length x + 1) xs)"
  by (induction xs rule: commas.induct) auto

lemma length_rxpk_text:
  assumes "\<forall>p \<in> set ps. forwarded H F p \<longrightarrow> length (rx_text H ref p) \<le> n"
  shows "length (rxpk_text H F ref ps) \<le> length ps * (n + 1)"
proof -
  have "sum_list (map (\<lambda>x. length x + 1) (map (rx_text H ref) (filter (forwarded H F) ps))) \<le> length ps * (n + 1)"
    using assms by (induction ps) (auto simp: le_SucI add_mono trans_le_add2)
  then show ?thesis unfolding rxpk_text_def using length_commas le_trans by blast
qed

lemma length_push_json:
  assumes "\<forall>p \<in> set ps. forwarded H F p \<longrightarrow> length (rx_text H ref p) \<le> n" and "\<forall>r. report = Some r \<longrightarrow> length r < STATUS_SIZE"
  shows "length (push_json H F ref report ps) \<le> length ps * (n + 1) + STATUS_SIZE + 11"
  using length_rxpk_text [OF assms(1)] assms(2) by (cases report) (auto simp: push_json_def)

lemma push_json_fits:
  assumes "\<forall>p \<in> set ps. forwarded H F p \<longrightarrow> rx_known H p \<and> times_short H ref p \<and> levels_short p"
    and "\<forall>r. report = Some r \<longrightarrow> length r < STATUS_SIZE"
    and "length ps \<le> 7 \<or> ref = None \<and> length ps \<le> NB_PKT_MAX"
  shows "length (push_header lgwm tok @ push_json H F ref report ps) < TX_BUFF_SIZE"
proof -
  let ?n = "505 + (if ref = None then 0 else 65)"
  have "length (push_json H F ref report ps) \<le> length ps * (?n + 1) + STATUS_SIZE + 11"
    using assms(1) by (intro length_push_json [OF _ assms(2)]) (use length_rx_text in blast)
  moreover have "length ps * (?n + 1) \<le> 4130"
    using assms(3) by (cases "ref = None") (auto simp: NB_PKT_MAX_def)
  ultimately show ?thesis by (simp add: TX_BUFF_SIZE_def STATUS_SIZE_def NB_PKT_MAX_def)
qed

text \<open>
  C13. A PUSH_DATA has exactly the documented form: the header with the gateway's address and the token, and
  one JSON object with the array \<open>rxpk\<close> of the forwarded packets, in the order they were fetched, unless there
  are none, and the status report if there is one. Of each packet the frequency is exact to the hertz
  and the payload is its base64 text. It is sent whenever it fits the buffer.
\<close>

theorem push_data_format:
  assumes "up_ready lgwm s" and "\<forall>p \<in> set ps. forwarded H F p \<longrightarrow> rx_known H p \<and> times_ok H ref p"
    and "report \<noteq> Some []" and "filter (forwarded H F) ps \<noteq> [] \<or> report \<noteq> None"
    and "length (push_header lgwm tok @ push_json H F ref report ps) < TX_BUFF_SIZE"
  shows "\<exists>s'. push_data H F tok ref report ps s = Inr (Some (push_header lgwm tok @ push_json H F ref report ps), s') \<and>
    up_ready lgwm s'"
  using push_data_sends [OF assms] by blast

text \<open>
  C33. Up to seven packets always fit the buffer with the longest status report, and eight do when there is no GPS
  time reference; payloads of 255 bytes, every frequency and counter and signal levels up to 900 included.
\<close>

theorem push_data_fits:
  assumes "up_ready lgwm s"
    and "\<forall>p \<in> set ps. forwarded H F p \<longrightarrow> rx_known H p \<and> times_ok H ref p \<and> times_short H ref p \<and> levels_short p"
    and "\<forall>r. report = Some r \<longrightarrow> 0 < length r \<and> length r < STATUS_SIZE"
    and "filter (forwarded H F) ps \<noteq> [] \<or> report \<noteq> None"
    and "length ps \<le> 7 \<or> ref = None \<and> length ps \<le> NB_PKT_MAX"
  shows "\<exists>dgram s'. push_data H F tok ref report ps s = Inr (Some dgram, s') \<and> length dgram < TX_BUFF_SIZE \<and> up_ready lgwm s'"
proof -
  have "length (push_header lgwm tok @ push_json H F ref report ps) < TX_BUFF_SIZE"
    by (rule push_json_fits) (use assms(2,3,5) in auto)
  moreover have "\<forall>p \<in> set ps. forwarded H F p \<longrightarrow> rx_known H p \<and> times_ok H ref p" "report \<noteq> Some []" using assms(2,3) by auto
  from push_data_sends [OF assms(1) this assms(4) calculation]
  have "\<exists>s'. push_data H F tok ref report ps s =
      Inr (Some (push_header lgwm tok @ push_json H F ref report ps), s') \<and> up_ready lgwm s'" by blast
  ultimately show ?thesis by blast
qed

text \<open>
  C34. Eight packets of 255 bytes with GPS time do not: the array fits, but with a status report behind it the text runs
  over the end of \<open>buff_up\<close>. \<open>snprintf\<close> cuts the report and still moves \<open>buff_index\<close> on, so the closing brace is
  stored outside the array. \<open>TX_BUFF_SIZE\<close> has 540 bytes for a packet, as before the field \<open>tmms\<close> was added.
\<close>

theorem push_data_overflow:
  assumes "up_ready lgwm s" and "\<forall>p \<in> set ps. forwarded H F p \<longrightarrow> rx_known H p \<and> times_ok H ref p"
    and "filter (forwarded H F) ps \<noteq> []" and "r \<noteq> []"
    and "length (push_header lgwm tok @ push_json H F ref None ps) < TX_BUFF_SIZE"
    and "TX_BUFF_SIZE \<le> length (push_header lgwm tok @ push_json H F ref (Some r) ps)"
  shows "push_data H F tok ref (Some r) ps s = Inl OutOfBounds"
proof -
  let ?n = "length (filter (forwarded H F) ps)" and ?rxpk = "rxpk_text H F ref ps"
  let ?B = "push_header lgwm tok @ lit ''{\"rxpk\":['' @ ?rxpk @ lit ''],''"
  have B: "length ?B < TX_BUFF_SIZE" "TX_BUFF_SIZE \<le> length ?B + length r + 1"
    using assms(3,5,6) by (simp_all add: push_json_def)
  have "length (push_header lgwm tok @ lit ''{\"rxpk\":['' @ ?rxpk) + 1 < TX_BUFF_SIZE" using B(1) by simp
  from push_data_body [OF assms(1,2) this]
  obtain b b' b1 b2 where b: "st (up_buff s) 1 (fst tok) = Inr b" "st b 2 (snd tok) = Inr b'" "put ''{\"rxpk\":['' (b', 12) = Inr b1"
      "put_rxs H F ref ps 0 b1 (up_meas s) = Inr (?n, b2, count_rxs H F ps (up_meas s))"
      "holds b2 (push_header lgwm tok @ lit ''{\"rxpk\":['' @ ?rxpk)"
    by blast
  have "writes (\<lambda>b. bindr (put '']'' b) (put '','')) (lit '']'' @ lit '','')"
    by (rule writes_bindr [OF writes_put writes_put])
  from writesD [OF this b(5)] obtain b3 where b3: "bindr (put '']'' b2) (put '','') = Inr b3" "holds b3 ?B"
    using B(1) by (auto simp: lit_def)
  obtain buf' where p: "putf r b3 = Inr (buf', length ?B + length r)" "length buf' = TX_BUFF_SIZE"
    using putf_long [OF b3(2) B(1) assms(4)] by blast
  have "bindr (put ''}'' (buf', length ?B + length r)) (\<lambda>(buff_up, buff_index). bindr (st buff_up buff_index 0)
      (\<lambda>buff_up. Inr (Some (buff_up, buff_index)))) = Inl OutOfBounds"
    using p(2) B(2) by (auto simp: put_def put_bytes_def memcpy_def st_def bindr_def)
  then have "put_end (Some r) ?n b2 = Inl OutOfBounds"
    using assms(3) b3(1) p(1) by (simp add: put_end_def del: length_append)
  then show ?thesis using b(1-4) assms(3) by (auto simp: push_data_def)
qed

section \<open>Counting\<close>

lemma put_rxs_counts: "put_rxs H F ref ps n b m = Inr (n', b', m') \<Longrightarrow> m' = count_rxs H F ps m"
  by (induction ps arbitrary: n b m) (auto simp: count_rxs_def bindr_eq_Inr_iff split: prod.splits bool.splits)

lemma put_end_index: "put_end report n b = Inr (Some (buf, i)) \<Longrightarrow> i < length buf"
  by (auto simp: put_end_def bindr_eq_Inr_iff st_def split: if_splits prod.splits)

text \<open>What one fetch adds to the counters, as numbers of packets with a property.\<close>

definition packets :: "(lgw_pkt_rx \<Rightarrow> bool) \<Rightarrow> lgw_pkt_rx list \<Rightarrow> u32" where
  "packets P ps = of_nat (length (filter P ps))"

definition has_status :: "hal_rx \<Rightarrow> string \<Rightarrow> lgw_pkt_rx \<Rightarrow> bool" where
  "has_status H name p \<longleftrightarrow> switch (status_names H) (rx_status p) = Some name"

lemma packets_simps [simp]:
  "packets P [] = 0"
  "packets P (p # ps) = (if P p then 1 else 0) + packets P ps"
  by (simp_all add: packets_def)

lemma filter_rx_counts:
  "meas_nb_rx_rcv (snd (filter_rx H F p m)) = meas_nb_rx_rcv m + 1"
  "meas_nb_rx_ok (snd (filter_rx H F p m)) = meas_nb_rx_ok m + (if has_status H ''1'' p then 1 else 0)"
  "meas_nb_rx_bad (snd (filter_rx H F p m)) = meas_nb_rx_bad m + (if has_status H ''-1'' p then 1 else 0)"
  "meas_nb_rx_nocrc (snd (filter_rx H F p m)) = meas_nb_rx_nocrc m + (if has_status H ''0'' p then 1 else 0)"
  "meas_up_pkt_fwd (snd (filter_rx H F p m)) = meas_up_pkt_fwd m + (if forwarded H F p then 1 else 0)"
  "meas_up_payload_byte (snd (filter_rx H F p m)) = meas_up_payload_byte m + (if forwarded H F p then ucast (rx_size p) else 0)"
  "meas_up_network_byte (snd (filter_rx H F p m)) = meas_up_network_byte m"
  "meas_up_dgram_sent (snd (filter_rx H F p m)) = meas_up_dgram_sent m"
  "meas_up_ack_rcv (snd (filter_rx H F p m)) = meas_up_ack_rcv m"
  by (auto simp: filter_rx_def forwarded_def has_status_def switch_def status_names_def meas_up_zero_def Let_def)

lemma count_rxs_counts:
  "meas_nb_rx_rcv (count_rxs H F ps m) = meas_nb_rx_rcv m + of_nat (length ps)"
  "meas_nb_rx_ok (count_rxs H F ps m) = meas_nb_rx_ok m + packets (has_status H ''1'') ps"
  "meas_nb_rx_bad (count_rxs H F ps m) = meas_nb_rx_bad m + packets (has_status H ''-1'') ps"
  "meas_nb_rx_nocrc (count_rxs H F ps m) = meas_nb_rx_nocrc m + packets (has_status H ''0'') ps"
  "meas_up_pkt_fwd (count_rxs H F ps m) = meas_up_pkt_fwd m + packets (forwarded H F) ps"
  "meas_up_payload_byte (count_rxs H F ps m) =
     meas_up_payload_byte m + sum_list (map (ucast \<circ> rx_size) (filter (forwarded H F) ps))"
  "meas_up_network_byte (count_rxs H F ps m) = meas_up_network_byte m"
  "meas_up_dgram_sent (count_rxs H F ps m) = meas_up_dgram_sent m"
  "meas_up_ack_rcv (count_rxs H F ps m) = meas_up_ack_rcv m"
  unfolding count_rxs_def by (induction ps arbitrary: m) (simp_all add: filter_rx_counts)

text \<open>One of the first two datagrams received is the acknowledgement, and the receiving had not been given up.\<close>

definition push_acked :: "u8 \<times> u8 \<Rightarrow> (errno + bytes) list \<Rightarrow> bool" where
  "push_acked tok answers \<longleftrightarrow> (\<exists>i < 2. i < length answers \<and> (\<exists>a. answers ! i = Inr a \<and> is_push_ack tok a) \<and>
     (\<forall>j < i. answers ! j = Inl EAGAIN \<or> (\<exists>a. answers ! j = Inr a \<and> \<not> is_push_ack tok a)))"

lemma wait_push_ack_two:
  "wait_push_ack 2 tok answers m =
     (if push_acked tok answers then m\<lparr>meas_up_ack_rcv := meas_up_ack_rcv m + 1\<rparr> else m)"
proof (cases answers)
  case Nil
  then show ?thesis by (simp add: push_acked_def numeral_2_eq_2)
next
  case (Cons r rs)
  have one: "(\<exists>i < (2::nat). P i) \<longleftrightarrow> P 0 \<or> P 1" for P using less_2_cases_iff by auto
  show ?thesis unfolding push_acked_def one Cons
    by (cases r; cases rs) (auto simp: numeral_2_eq_2 split: sum.splits)
qed

lemma bindrE:
  assumes "bindr m f = Inr y"
  obtains x where "m = Inr x" and "f x = Inr y"
  using assms by (auto simp: bindr_eq_Inr_iff)

lemma push_data_counts:
  assumes "push_data H F tok ref report ps s = Inr (dgram, s')"
  shows "up_meas s' = (let m = count_rxs H F ps (up_meas s) in
    case dgram of None \<Rightarrow> m
    | Some d \<Rightarrow> m\<lparr>meas_up_dgram_sent := meas_up_dgram_sent m + 1, meas_up_network_byte := meas_up_network_byte m + of_nat (length d)\<rparr>)"
proof (cases "ps = [] \<and> report = None")
  case True
  then show ?thesis using assms by (auto simp: push_data_def count_rxs_def)
next
  case False
  from assms show ?thesis
    unfolding push_data_def if_not_P [OF False]
  proof (elim bindrE, goal_cases)
    case (1 b b' b1 x)
    obtain n b2 m where x: "x = (n, b2, m)" by (cases x)
    have m: "m = count_rxs H F ps (up_meas s)" using 1(4) unfolding x by (rule put_rxs_counts)
    from 1(5) show ?case
      unfolding x prod.case
    proof (elim bindrE, goal_cases)
      case (1 r)
      show ?case
      proof (cases r)
        case None
        then show ?thesis using 1(2) m by auto
      next
        case (Some y)
        obtain buf i where y: "y = (buf, i)" by (cases y)
        have "i < length buf" using put_end_index 1(1) unfolding Some y .
        then show ?thesis using 1(2) m by (auto simp: Some y Let_def min_def)
      qed
    qed
  qed
qed

text \<open>
  C14. The upstream counters are exact after every round: each packet fetched is counted as received and under its
  status, each forwarded one with its payload, a datagram with its length when one is sent, and an acknowledgement
  exactly when one of the first two answers carries the token of this datagram and no connection error came
  before it.
\<close>

theorem upstream_counters_exact:
  assumes "thread_up_round H F tok ref report (Some ps) answers s = Inr (dgram, s')"
  shows "meas_nb_rx_rcv (up_meas s') = meas_nb_rx_rcv (up_meas s) + of_nat (length ps) \<and>
    meas_nb_rx_ok (up_meas s') = meas_nb_rx_ok (up_meas s) + packets (has_status H ''1'') ps \<and>
    meas_nb_rx_bad (up_meas s') = meas_nb_rx_bad (up_meas s) + packets (has_status H ''-1'') ps \<and>
    meas_nb_rx_nocrc (up_meas s') = meas_nb_rx_nocrc (up_meas s) + packets (has_status H ''0'') ps \<and>
    meas_up_pkt_fwd (up_meas s') = meas_up_pkt_fwd (up_meas s) + packets (forwarded H F) ps \<and>
    meas_up_payload_byte (up_meas s') =
      meas_up_payload_byte (up_meas s) + sum_list (map (ucast \<circ> rx_size) (filter (forwarded H F) ps)) \<and>
    meas_up_dgram_sent (up_meas s') = meas_up_dgram_sent (up_meas s) + (if dgram = None then 0 else 1) \<and>
    meas_up_network_byte (up_meas s') =
      meas_up_network_byte (up_meas s) + (case dgram of None \<Rightarrow> 0 | Some d \<Rightarrow> of_nat (length d)) \<and>
    meas_up_ack_rcv (up_meas s') = meas_up_ack_rcv (up_meas s) + (if dgram \<noteq> None \<and> push_acked tok answers then 1 else 0)"
proof -
  obtain s1 where s1: "push_data H F tok ref report ps s = Inr (dgram, s1)"
      "s' = (if dgram = None then s1 else s1\<lparr>up_meas := wait_push_ack 2 tok answers (up_meas s1)\<rparr>)"
    using assms by (auto simp: thread_up_round_def bindr_eq_Inr_iff)
  show ?thesis
    unfolding s1(2) wait_push_ack_two using push_data_counts [OF s1(1)]
    by (cases dgram) (simp_all add: Let_def count_rxs_counts)
qed

section \<open>Runs\<close>

definition hal_rx_example :: hal_rx where
  "hal_rx_example = hal.extend hal_example
     (hal_rx.fields 16 17 1 (\<lambda>r c. Some (fst (tref_utc r), uint c mod 1000000 * 1000))
        (\<lambda>r c. Some (fst (tref_gps r), uint c mod 1000000 * 1000)))"

definition demo_ref :: tref where
  "demo_ref = \<lparr>systime = 1700000000, tref_count_us = 0, tref_utc = (1700000000, 0), tref_gps = (1384035218, 0), xtal_err = Fin 1\<rparr>"

definition demo_rx :: "nat \<Rightarrow> lgw_pkt_rx" where
  "demo_rx n = \<lparr>rx_freq_hz = 868100000, rx_if_chain = 1, rx_status = 16, rx_count_us = 4000000000, rx_rf_chain = 0,
     rx_modulation = 16, rx_bandwidth = 3, rx_datarate = 2, rx_coderate = 1, rx_rssi = Fin (- 112), rx_snr = Fin (- 5 / 2),
     rx_size = of_nat n, rx_payload = replicate 256 0x40\<rparr>"

definition demo_filter :: up_filter where
  "demo_filter = \<lparr>fwd_valid_pkt = True, fwd_error_pkt = False, fwd_nocrc_pkt = False\<rparr>"

definition demo_up :: up where
  "demo_up = (case up_start 0xAA555A0000000101 (replicate TX_BUFF_SIZE 0) meas_up_zero of Inr s \<Rightarrow> s | Inl e \<Rightarrow> undefined)"

lemma demo_up_ready: "up_ready 0xAA555A0000000101 demo_up"
  using up_start_ready [of "replicate TX_BUFF_SIZE 0" "0xAA555A0000000101" meas_up_zero] by (auto simp: demo_up_def)

lemma demo_rx_facts:
  "rx_known hal_rx_example (demo_rx 3)" "rx_known hal_rx_example (demo_rx 255)" "times_ok hal_rx_example (Some demo_ref) (demo_rx 3)"
  "times_ok hal_rx_example (Some demo_ref) (demo_rx 255)" "times_ok hal_rx_example None (demo_rx 255)"
  by code_simp+

lemma demo_rx_forwarded: "forwarded hal_rx_example demo_filter (demo_rx n)"
  by (simp add: forwarded_def filter_rx_def demo_filter_def demo_rx_def hal_rx_example_def hal.defs hal_rx.defs Let_def)

lemma demo_rx_text: "rx_text hal_rx_example (Some demo_ref) (demo_rx 3) = lit (''{\"tmst\":4000000000,\"time\":\"2023-11-14T22:13:20.000000Z\",'' @
    ''\"tmms\":1384035218000,\"chan\":1,\"rfch\":0,\"freq\":868.100000,\"stat\":1,\"modu\":\"LORA\",\"datr\":\"SF7BW125\",\"codr\":\"4/5\",'' @
    ''\"lsnr\":-2.5,\"rssi\":-112,\"size\":3,\"data\":\"QEBA\"}'')"
  by code_simp

theorem push_data_format_witness:
  "\<exists>s'. push_data hal_rx_example demo_filter (7, 9) (Some demo_ref) None [demo_rx 3] demo_up =
     Inr (Some ([2, 7, 9, 0, 0xAA, 0x55, 0x5A, 0, 0, 0, 1, 1] @
       lit (''{\"rxpk\":[{\"tmst\":4000000000,\"time\":\"2023-11-14T22:13:20.000000Z\",'' @
         ''\"tmms\":1384035218000,\"chan\":1,\"rfch\":0,\"freq\":868.100000,\"stat\":1,\"modu\":\"LORA\",\"datr\":\"SF7BW125\",'' @
         ''\"codr\":\"4/5\",\"lsnr\":-2.5,\"rssi\":-112,\"size\":3,\"data\":\"QEBA\"}]}'')), s')"
proof -
  let ?j = "push_json hal_rx_example demo_filter (Some demo_ref) None [demo_rx 3]"
  have h: "push_header 0xAA555A0000000101 (7, 9) = [2, 7, 9, 0, 0xAA, 0x55, 0x5A, 0, 0, 0, 1, 1]" by code_simp
  have j: "?j = lit ''{\"rxpk\":['' @ rx_text hal_rx_example (Some demo_ref) (demo_rx 3) @ lit '']}''"
    by (simp add: push_json_def rxpk_text_def demo_rx_forwarded lit_def)
  have "length (push_header 0xAA555A0000000101 (7, 9) @ ?j) < TX_BUFF_SIZE"
    unfolding j demo_rx_text by (simp add: TX_BUFF_SIZE_def NB_PKT_MAX_def STATUS_SIZE_def)
  from push_data_format [OF demo_up_ready _ _ _ this] show ?thesis
    unfolding j demo_rx_text h using demo_rx_facts demo_rx_forwarded by (auto simp: lit_def)
qed

lemma demo_rx_short: "times_short hal_rx_example (Some demo_ref) (demo_rx n)" "levels_short (demo_rx n)"
proof -
  have "times_short hal_rx_example (Some demo_ref) (demo_rx 3)" by code_simp
  then show "times_short hal_rx_example (Some demo_ref) (demo_rx n)" by (simp add: times_short_def demo_rx_def)
qed (simp add: levels_short_def demo_rx_def)

theorem push_data_fits_witness:
  "\<exists>dgram s'. push_data hal_rx_example demo_filter (7, 9) (Some demo_ref) (Some (replicate 199 65)) (replicate 7 (demo_rx 255)) demo_up =
     Inr (Some dgram, s') \<and> length dgram < TX_BUFF_SIZE"
proof -
  have "\<forall>p \<in> set (replicate 7 (demo_rx 255)). forwarded hal_rx_example demo_filter p \<longrightarrow> rx_known hal_rx_example p \<and>
      times_ok hal_rx_example (Some demo_ref) p \<and> times_short hal_rx_example (Some demo_ref) p \<and> levels_short p"
    using demo_rx_facts demo_rx_short by simp
  from push_data_fits [OF demo_up_ready this, of "Some (replicate 199 65)" "(7, 9)"] show ?thesis
    by (auto simp: STATUS_SIZE_def)
qed

lemma demo_rx_length: "length (rx_text hal_rx_example (Some demo_ref) (demo_rx 255)) = 552"
proof -
  have "length (times_text hal_rx_example (Some demo_ref) (demo_rx 255)) = 58"
    "length (modulation_text hal_rx_example (demo_rx 255)) = 57"
    "length (dec (uint (rx_count_us (demo_rx 255)))) = 10" "length (dec (uint (rx_if_chain (demo_rx 255)))) = 1"
    "length (dec (uint (rx_rf_chain (demo_rx 255)))) = 1" "length (point 6 (pad0 7 (dec (uint (rx_freq_hz (demo_rx 255)))))) = 10"
    "length (the (switch (status_names hal_rx_example) (rx_status (demo_rx 255)))) = 1"
    "length (fmt_f 0 (rx_rssi (demo_rx 255))) = 4" "length (dec (uint (rx_size (demo_rx 255)))) = 3"
    "unat (rx_size (demo_rx 255)) = 255" "length (rx_payload (demo_rx 255)) = 256"
    by code_simp+
  then show ?thesis unfolding rx_text_def rx_fields_def by (simp add: length_b64_encode)
qed

lemma length_commas_replicate: "length (commas (replicate (Suc n) x)) = (n + 1) * length x + n"
proof (induction n)
  case (Suc n)
  have "commas (replicate (Suc (Suc n)) x) = x @ lit '','' @ commas (replicate (Suc n) x)" by simp
  then show ?case using Suc.IH by simp
qed simp

theorem push_data_overflow_witness:
  "push_data hal_rx_example demo_filter (7, 9) (Some demo_ref) (Some (replicate 150 65)) (replicate 8 (demo_rx 255)) demo_up =
     Inl OutOfBounds"
proof -
  have f: "filter (forwarded hal_rx_example demo_filter) (replicate 8 (demo_rx 255)) = replicate 8 (demo_rx 255)"
    by (simp add: demo_rx_forwarded filter_id_conv)
  have l: "length (rxpk_text hal_rx_example demo_filter (Some demo_ref) (replicate 8 (demo_rx 255))) = 4423"
    unfolding rxpk_text_def f map_replicate using length_commas_replicate [of 7] demo_rx_length by simp
  show ?thesis
  proof (rule push_data_overflow [OF demo_up_ready])
    show "\<forall>p \<in> set (replicate 8 (demo_rx 255)). forwarded hal_rx_example demo_filter p \<longrightarrow>
        rx_known hal_rx_example p \<and> times_ok hal_rx_example (Some demo_ref) p"
      using demo_rx_facts by simp
  qed (simp_all add: f push_json_def l TX_BUFF_SIZE_def NB_PKT_MAX_def STATUS_SIZE_def)
qed

lemma demo_round:
  "case thread_up_round hal_rx_example demo_filter (7, 9) (Some demo_ref) None (Some [demo_rx 3])
      [Inl EAGAIN, Inr [2, 7, 9, 1]] demo_up of Inr (d, s) \<Rightarrow> d \<noteq> None | Inl e \<Rightarrow> False"
proof -
  have "length (push_header 0xAA555A0000000101 (7, 9) @ push_json hal_rx_example demo_filter (Some demo_ref) None [demo_rx 3]) < TX_BUFF_SIZE"
    by (rule push_json_fits) (use demo_rx_facts demo_rx_short in \<open>auto\<close>)
  from push_data_sends [OF demo_up_ready _ _ _ this] show ?thesis
    using demo_rx_facts demo_rx_forwarded by (auto simp: thread_up_round_def)
qed

theorem upstream_counters_exact_witness:
  "\<exists>d s. thread_up_round hal_rx_example demo_filter (7, 9) (Some demo_ref) None (Some [demo_rx 3])
      [Inl EAGAIN, Inr [2, 7, 9, 1]] demo_up = Inr (d, s) \<and> meas_nb_rx_rcv (up_meas s) = 1 \<and> meas_up_ack_rcv (up_meas s) = 1"
proof -
  obtain d s where r: "thread_up_round hal_rx_example demo_filter (7, 9) (Some demo_ref) None (Some [demo_rx 3])
      [Inl EAGAIN, Inr [2, 7, 9, 1]] demo_up = Inr (d, s)" "d \<noteq> None"
    using demo_round by (auto split: sum.splits)
  have "up_meas demo_up = meas_up_zero"
    using up_start_ready [of "replicate TX_BUFF_SIZE 0" "0xAA555A0000000101" meas_up_zero] by (auto simp: demo_up_def)
  moreover have "push_acked (7, 9) [Inl EAGAIN, Inr [2, 7, 9, 1]]"
    unfolding push_acked_def by (intro exI [of _ 1]) (auto simp: is_push_ack_def protocol_consts)
  ultimately show ?thesis using upstream_counters_exact [OF r(1)] r
    by (intro exI conjI) (auto simp: meas_up_zero_def)
qed

end
