(* ===== verification/Thread_Gps.thy ===== *)
theory Thread_Gps
  imports Hal
begin

text \<open>
  \<open>thread_gps\<close> and \<open>thread_valid\<close> (\<open>lora_pkt_fwd.c\<close>): the first reads the serial line of the GPS receiver into
  \<open>serial_buff\<close> and cuts frames out of it, the second validates the time reference and averages the crystal
  error. The frame parsers, \<open>lgw_gps_get\<close>, \<open>lgw_get_trigcnt\<close> and \<open>lgw_gps_sync\<close> are the concentrator library's.
\<close>

section \<open>The library's side\<close>

text \<open>The values of \<open>enum gps_msg\<close> the thread looks at.\<close>

datatype gps_msg = INCOMPLETE | INVALID | UNKNOWN | UBX_NAV_TIMEGPS | NMEA_RMC | Other_Msg nat

text \<open>\<open>lgw_parse_ubx\<close> returns the message and stores a frame size; \<open>lgw_parse_nmea\<close> is given a whole line.\<close>

record gps_lib =
  gl_UBX_SYNC_CHAR :: u8
  gl_NMEA_SYNC_CHAR :: u8
  gl_MIN_MSG_SIZE :: nat
  lgw_parse_ubx :: "bytes \<Rightarrow> gps_msg \<times> nat"
  lgw_parse_nmea :: "bytes \<Rightarrow> gps_msg"

section \<open>Scanning the buffer\<close>

definition SERIAL_BUFF_SIZE :: nat where "SERIAL_BUFF_SIZE = 128"

text \<open>\<open>memchr (s, c, length s)\<close>\<close>

fun memchr :: "u8 \<Rightarrow> bytes \<Rightarrow> nat option" where
  "memchr c [] = None"
| "memchr c (b # bs) = (if b = c then Some 0 else map_option Suc (memchr c bs))"

text \<open>
  The two branches on the sync character at the head of \<open>s\<close>, the bytes from \<open>rd_idx\<close> to \<open>wr_idx\<close>: the message and
  the size of the frame to remove, \<open>None\<close> for \<open>frame_size = 0\<close>.
\<close>

definition ubx_frame :: "gps_lib \<Rightarrow> bytes \<Rightarrow> (gps_msg \<times> nat) option" where
  "ubx_frame L s =
     (case lgw_parse_ubx L s of (latest_msg, frame_size) \<Rightarrow>
        if 0 < frame_size then
          (if latest_msg = INCOMPLETE then None
           else if latest_msg = INVALID then None
           else Some (latest_msg, frame_size))
        else None)"

definition nmea_frame :: "gps_lib \<Rightarrow> bytes \<Rightarrow> (gps_msg \<times> nat) option" where
  "nmea_frame L s =
     (case memchr 0x0A s of
        None \<Rightarrow> None
      | Some i \<Rightarrow>
          (let frame_size = i + 1; latest_msg = lgw_parse_nmea L (take frame_size s) in
           if latest_msg = INVALID \<or> latest_msg = UNKNOWN then None else Some (latest_msg, frame_size)))"

definition find_frame :: "gps_lib \<Rightarrow> bytes \<Rightarrow> (gps_msg \<times> nat) option" where
  "find_frame L s =
     (if s ! 0 = gl_UBX_SYNC_CHAR L then ubx_frame L s
      else if s ! 0 = gl_NMEA_SYNC_CHAR L then nmea_frame L s
      else None)"

text \<open>
  The inner loop: the messages found, each with the bytes of its frame, and \<open>frame_end_idx\<close>. \<open>buf\<close> is what
  \<open>serial_buff\<close> holds below \<open>wr_idx\<close>.
\<close>

function scan_frames :: "gps_lib \<Rightarrow> bytes \<Rightarrow> nat \<Rightarrow> nat \<Rightarrow> (gps_msg \<times> bytes) list \<times> nat" where
  "scan_frames L buf rd_idx frame_end_idx =
     (if rd_idx < length buf then
        (case find_frame L (drop rd_idx buf) of
           None \<Rightarrow> scan_frames L buf (rd_idx + 1) frame_end_idx
         | Some (msg, frame_size) \<Rightarrow>
             if frame_size = 0 then scan_frames L buf (rd_idx + 1) frame_end_idx
             else
               (let (msgs, e) = scan_frames L buf (rd_idx + frame_size) (rd_idx + frame_size) in
                ((msg, take frame_size (drop rd_idx buf)) # msgs, e)))
      else ([], frame_end_idx))"
  by auto
termination
  by (relation "measure (\<lambda>(L, buf, rd_idx, _). length buf - rd_idx)") auto

declare scan_frames.simps [simp del]

section \<open>One round of thread_gps\<close>

record gps_thread =
  serial_buff :: bytes
  wr_idx :: nat

definition gps_start :: gps_thread where
  "gps_start = \<lparr>serial_buff = replicate SERIAL_BUFF_SIZE 0, wr_idx = 0\<rparr>"

text \<open>
  \<open>memcpy (serial_buff, &serial_buff[k], wr_idx - k); wr_idx -= k\<close> in \<open>size_t\<close>: a negative length is a huge one. When
  more than \<open>k\<close> bytes are left, source and destination overlap, which C leaves undefined.
\<close>

definition shift_buff :: "nat \<Rightarrow> gps_thread \<Rightarrow> gps_thread res" where
  "shift_buff k s =
     (if wr_idx s < k then Inl OutOfBounds
      else if k < wr_idx s - k then Inl OverlappingCopy
      else
        bindr (memcpy (serial_buff s) 0 (take (wr_idx s - k) (drop k (serial_buff s)))) (\<lambda>b.
        Inr (s\<lparr>serial_buff := b, wr_idx := wr_idx s - k\<rparr>)))"

text \<open>\<open>chars\<close> is what \<open>read\<close> delivers, \<open>None\<close> when it returns a value that is not positive.\<close>

definition gps_round :: "gps_lib \<Rightarrow> bytes option \<Rightarrow> gps_thread \<Rightarrow> ((gps_msg \<times> bytes) list \<times> gps_thread) res" where
  "gps_round L chars s =
     (case chars of
        None \<Rightarrow> Inr ([], s)
      | Some cs \<Rightarrow>
          if cs = [] then Inr ([], s)
          else
            bindr (memcpy (serial_buff s) (wr_idx s) cs) (\<lambda>b.
            let s = s\<lparr>serial_buff := b, wr_idx := wr_idx s + length cs\<rparr>;
                (msgs, frame_end_idx) = scan_frames L (take (wr_idx s) (serial_buff s)) 0 0 in
            bindr (if frame_end_idx \<noteq> 0 then shift_buff frame_end_idx s else Inr s) (\<lambda>s.
            bindr (if SERIAL_BUFF_SIZE - wr_idx s < gl_MIN_MSG_SIZE L then shift_buff (gl_MIN_MSG_SIZE L) s else Inr s) (\<lambda>s.
            Inr (msgs, s)))))"

fun gps_rounds :: "gps_lib \<Rightarrow> bytes option list \<Rightarrow> gps_thread \<Rightarrow> ((gps_msg \<times> bytes) list \<times> gps_thread) res" where
  "gps_rounds L [] s = Inr ([], s)"
| "gps_rounds L (r # rs) s =
     bindr (gps_round L r s) (\<lambda>(msgs, s).
     bindr (gps_rounds L rs s) (\<lambda>(msgs', s).
     Inr (msgs @ msgs', s)))"

section \<open>What a frame does\<close>

text \<open>The time reference and the position the thread maintains.\<close>

record coord =
  lat :: dbl
  lon :: dbl
  alt :: int

record gps_state =
  time_reference_gps :: tref
  gps_coord_valid :: bool
  meas_gps_coord :: coord
  meas_gps_err :: coord

text \<open>
  \<open>got\<close> are the UTC and GPS time of \<open>lgw_gps_get\<close>, \<open>trig\<close> the counter of \<open>lgw_get_trigcnt\<close>, \<open>None\<close> when the call
  fails; \<open>sync\<close> is the reference \<open>lgw_gps_sync\<close> leaves, whether it reports success or not.
\<close>

definition gps_process_sync ::
    "((int \<times> int) \<times> (int \<times> int)) option \<Rightarrow> u32 option \<Rightarrow> (tref \<Rightarrow> u32 \<Rightarrow> int \<times> int \<Rightarrow> int \<times> int \<Rightarrow> tref) \<Rightarrow> gps_state \<Rightarrow> gps_state" where
  "gps_process_sync got trig sync s =
     (case got of
        None \<Rightarrow> s
      | Some (utc, gps_time) \<Rightarrow>
          (case trig of
             None \<Rightarrow> s
           | Some trig_tstamp \<Rightarrow>
               s\<lparr>time_reference_gps := sync (time_reference_gps s) trig_tstamp utc gps_time\<rparr>))"

definition gps_process_coords :: "(coord \<times> coord) option \<Rightarrow> gps_state \<Rightarrow> gps_state" where
  "gps_process_coords got s =
     (case got of
        Some (c, gpserr) \<Rightarrow> s\<lparr>gps_coord_valid := True, meas_gps_coord := c, meas_gps_err := gpserr\<rparr>
      | None \<Rightarrow> s\<lparr>gps_coord_valid := False\<rparr>)"

section \<open>thread_valid\<close>

definition GPS_REF_MAX_AGE :: int where "GPS_REF_MAX_AGE = 30"
definition XERR_INIT_AVG :: u32 where "XERR_INIT_AVG = 128"
definition XERR_FILT_COEF :: rat where "XERR_FILT_COEF = 256"

record valid_state =
  gps_ref_valid :: bool
  xtal_correct_ok :: bool
  xtal_correct :: dbl
  init_cpt :: u32
  init_acc :: dbl

definition valid_start :: valid_state where
  "valid_start = \<lparr>gps_ref_valid = False, xtal_correct_ok = False, xtal_correct = Fin 1, init_cpt = 0, init_acc = Fin 0\<rparr>"

definition ref_fresh :: "int \<Rightarrow> tref \<Rightarrow> bool" where
  "ref_fresh now ref \<longleftrightarrow> 0 \<le> now - systime ref \<and> now - systime ref \<le> GPS_REF_MAX_AGE"

text \<open>\<open>xtal_correct - xtal_correct/XERR_FILT_COEF + x/XERR_FILT_COEF\<close>\<close>

definition xtal_track :: "dbl \<Rightarrow> dbl \<Rightarrow> dbl" where
  "xtal_track c x = dbl_add (dbl_sub c (dbl_div c XERR_FILT_COEF)) (dbl_div x XERR_FILT_COEF)"

text \<open>One round at second \<open>now\<close>.\<close>

definition valid_round :: "int \<Rightarrow> tref \<Rightarrow> valid_state \<Rightarrow> valid_state" where
  "valid_round now ref s =
     (if ref_fresh now ref then
        (let s = s\<lparr>gps_ref_valid := True\<rparr> in
         if init_cpt s < XERR_INIT_AVG then
           s\<lparr>init_acc := dbl_add (init_acc s) (xtal_err ref), init_cpt := init_cpt s + 1\<rparr>
         else if init_cpt s = XERR_INIT_AVG then
           s\<lparr>xtal_correct := dbl_quot (of_int (uint XERR_INIT_AVG)) (init_acc s), xtal_correct_ok := True,
             init_cpt := init_cpt s + 1\<rparr>
         else s\<lparr>xtal_correct := xtal_track (xtal_correct s) (dbl_quot 1 (xtal_err ref))\<rparr>)
      else
        s\<lparr>gps_ref_valid := False, xtal_correct_ok := False, xtal_correct := Fin 1, init_cpt := 0, init_acc := Fin 0\<rparr>)"

end
