(* ===== verification/Thread_Gps_Correct.thy ===== *)
theory Thread_Gps_Correct
  imports Thread_Gps "HOL-Library.Sublist"
begin

text \<open>
  The GPS buffer is a window on the stream of bytes read: the frames processed are segments of the stream, in
  order and apart, until an overlapping \<open>memcpy\<close> leaves the buffer undefined. The crystal correction is announced only after enough rounds with a fresh reference.
\<close>

section \<open>Frames in the buffer\<close>





definition segments :: "(bytes \<times> bytes) list \<Rightarrow> bytes" where
  "segments gs = concat (map (\<lambda>(gap, frame). gap @ frame) gs)"

lemma segments_simps [simp]: "segments [] = []" "segments ((g, f) # gs) = g @ f @ segments gs" "segments (gs @ hs) = segments gs @ segments hs"
  by (simp_all add: segments_def)


section \<open>Rounds\<close>

definition content :: "gps_thread \<Rightarrow> bytes" where
  "content s = take (wr_idx s) (serial_buff s)"

text \<open>Between two reads the buffer has room for the next one.\<close>

definition gps_inv :: "gps_lib \<Rightarrow> gps_thread \<Rightarrow> bool" where
  "gps_inv L s \<longleftrightarrow> length (serial_buff s) = SERIAL_BUFF_SIZE \<and> wr_idx s + gl_MIN_MSG_SIZE L \<le> SERIAL_BUFF_SIZE"


lemma shift_buff_overlap: "k \<le> wr_idx s \<Longrightarrow> k < wr_idx s - k \<Longrightarrow> shift_buff k s = Inl OverlappingCopy"
  by (simp add: shift_buff_def)

text \<open>The buffer behind a read, and the round from there on.\<close>

definition after_read :: "bytes \<Rightarrow> gps_thread \<Rightarrow> gps_thread" where
  "after_read cs s = s\<lparr>serial_buff := take (wr_idx s) (serial_buff s) @ cs @ drop (wr_idx s + length cs) (serial_buff s),
     wr_idx := wr_idx s + length cs\<rparr>"

lemma after_read_content:
  assumes "gps_inv L s" and "length cs \<le> gl_MIN_MSG_SIZE L"
  shows "length (serial_buff (after_read cs s)) = SERIAL_BUFF_SIZE" "wr_idx (after_read cs s) \<le> SERIAL_BUFF_SIZE"
    "content (after_read cs s) = content s @ cs" "wr_idx (after_read cs s) = wr_idx s + length cs"
  using assms by (auto simp: after_read_def gps_inv_def content_def)

lemma gps_round_after_read:
  assumes "gps_inv L s" and "length cs \<le> gl_MIN_MSG_SIZE L" and "cs \<noteq> []"
    and "scan_frames L (content s @ cs) 0 0 = (msgs, e)"
  shows "gps_round L (Some cs) s =
    bindr (if e \<noteq> 0 then shift_buff e (after_read cs s) else Inr (after_read cs s)) (\<lambda>s.
    bindr (if SERIAL_BUFF_SIZE - wr_idx s < gl_MIN_MSG_SIZE L then shift_buff (gl_MIN_MSG_SIZE L) s else Inr s) (\<lambda>s.
    Inr (msgs, s)))"
proof -
  have "memcpy (serial_buff s) (wr_idx s) cs = Inr (serial_buff (after_read cs s))"
    using assms(1,2) by (simp add: gps_inv_def after_read_def)
  moreover have "s\<lparr>serial_buff := serial_buff (after_read cs s), wr_idx := wr_idx s + length cs\<rparr> = after_read cs s"
    by (simp add: after_read_def)
  moreover have "take (wr_idx (after_read cs s)) (serial_buff (after_read cs s)) = content s @ cs"
    using after_read_content(3) [OF assms(1,2)] by (simp only: content_def)
  ultimately show ?thesis
    using assms(3,4) by (simp only: gps_round_def option.case if_False bindr_Inr Let_def prod.case)
qed





text \<open>
  When the buffer fills up without a frame in it, as with noise or a long line, the thread calls \<open>memcpy\<close> on overlapping regions,
  which C leaves undefined: the source begins \<open>LGW_GPS_MIN_MSG_SIZE\<close> bytes behind the destination and is longer than that.
\<close>

theorem gps_full_buffer_overlapping_memcpy:
  assumes "3 * gl_MIN_MSG_SIZE L \<le> SERIAL_BUFF_SIZE" and "cs \<noteq> []" and "length cs \<le> gl_MIN_MSG_SIZE L" and "gps_inv L s"
    and "scan_frames L (content s @ cs) 0 0 = ([], 0)" and "SERIAL_BUFF_SIZE < wr_idx s + length cs + gl_MIN_MSG_SIZE L"
  shows "gps_round L (Some cs) s = Inl OverlappingCopy"
proof -
  have w: "wr_idx (after_read cs s) = wr_idx s + length cs" by (rule after_read_content(4) [OF assms(4,3)])
  have "shift_buff (gl_MIN_MSG_SIZE L) (after_read cs s) = Inl OverlappingCopy"
    using assms(1,6) by (intro shift_buff_overlap) (simp_all add: w)
  moreover have "SERIAL_BUFF_SIZE - (wr_idx s + length cs) < gl_MIN_MSG_SIZE L"
    using assms(2,3,6) by (cases cs) auto
  ultimately show ?thesis by (simp add: gps_round_after_read [OF assms(4,3,2,5)] w)
qed

text \<open>So does a frame that is shorter than what follows it in the buffer.\<close>

lemma gps_short_frame_overlapping_memcpy:
  assumes "cs \<noteq> []" and "length cs \<le> gl_MIN_MSG_SIZE L" and "gps_inv L s"
    and "scan_frames L (content s @ cs) 0 0 = (msgs, e)" and "0 < e" and "2 * e < wr_idx s + length cs"
  shows "gps_round L (Some cs) s = Inl OverlappingCopy"
proof -
  have "shift_buff e (after_read cs s) = Inl OverlappingCopy"
    using assms(6) after_read_content(4) [OF assms(3,2)] by (intro shift_buff_overlap) simp_all
  then show ?thesis
    using assms(5) by (simp add: gps_round_after_read [OF assms(3,2,1,4)])
qed

definition gps_lib_example :: gps_lib where
  "gps_lib_example = \<lparr>gl_UBX_SYNC_CHAR = 0xB5, gl_NMEA_SYNC_CHAR = 0x24, gl_MIN_MSG_SIZE = 8,
     lgw_parse_ubx = (\<lambda>s. if length s < 4 then (INCOMPLETE, 4) else (UBX_NAV_TIMEGPS, 4)),
     lgw_parse_nmea = (\<lambda>s. if 6 \<le> length s \<and> s ! 3 = 0x52 then NMEA_RMC else UNKNOWN)\<rparr>"





definition demo_noise :: gps_thread where
  "demo_noise = \<lparr>serial_buff = replicate 128 1, wr_idx = 118\<rparr>"

lemma demo_noise_scan: "scan_frames gps_lib_example (content demo_noise @ [1, 1, 1]) 0 0 = ([], 0)"
  by code_simp

theorem gps_full_buffer_overlapping_memcpy_witness:
  "gps_round gps_lib_example (Some [1, 1, 1]) demo_noise = Inl OverlappingCopy"
  by (rule gps_full_buffer_overlapping_memcpy [OF _ _ _ _ demo_noise_scan])
    (simp_all add: gps_lib_example_def SERIAL_BUFF_SIZE_def gps_inv_def demo_noise_def)

section \<open>The crystal correction\<close>

definition valid_rounds :: "(int \<times> tref) list \<Rightarrow> valid_state" where
  "valid_rounds xs = foldl (\<lambda>s (now, ref). valid_round now ref s) valid_start xs"

text \<open>The rounds with a fresh reference since the last one without, the latest first.\<close>

definition fresh_run :: "(int \<times> tref) list \<Rightarrow> (int \<times> tref) list" where
  "fresh_run xs = takeWhile (\<lambda>(now, ref). ref_fresh now ref) (rev xs)"

lemma fresh_run_snoc: "fresh_run (xs @ [x]) = (if case x of (now, ref) \<Rightarrow> ref_fresh now ref then x # fresh_run xs else [])"
  by (simp add: fresh_run_def)

definition err_sum :: "(int \<times> tref) list \<Rightarrow> dbl" where
  "err_sum xs = foldl dbl_add (Fin 0) (map (xtal_err \<circ> snd) xs)"

lemma valid_rounds_inv:
  "let s = valid_rounds xs; r = fresh_run xs; n = length r in
     init_cpt s = of_nat (min n 129) \<and> xtal_correct_ok s = (129 \<le> n) \<and> (n < 129 \<longrightarrow> xtal_correct s = Fin 1) \<and>
     init_acc s = err_sum (take 128 (rev r)) \<and> gps_ref_valid s = (r \<noteq> []) \<and>
     (n = 129 \<longrightarrow> xtal_correct s = dbl_quot 128 (err_sum (take 128 (rev r))))"
proof (induction xs rule: rev_induct)
  case Nil
  then show ?case by (simp add: valid_rounds_def valid_start_def fresh_run_def err_sum_def Let_def)
next
  case (snoc x xs)
  obtain now ref where x: "x = (now, ref)" by (cases x)
  define s where "s = valid_rounds xs"
  define n where "n = length (fresh_run xs)"
  have step: "valid_rounds (xs @ [x]) = valid_round now ref s" by (simp add: valid_rounds_def s_def x)
  have IH: "init_cpt s = of_nat (min n 129)" "xtal_correct_ok s = (129 \<le> n)" "n < 129 \<longrightarrow> xtal_correct s = Fin 1"
      "init_acc s = err_sum (take 128 (rev (fresh_run xs)))" "gps_ref_valid s = (fresh_run xs \<noteq> [])"
      "n = 129 \<longrightarrow> xtal_correct s = dbl_quot 128 (err_sum (take 128 (rev (fresh_run xs))))"
    using snoc.IH by (simp_all add: Let_def s_def n_def)
  show ?case
  proof (cases "ref_fresh now ref")
    case False
    then show ?thesis unfolding step by (simp add: fresh_run_snoc x valid_round_def err_sum_def Let_def)
  next
    case True
    have r: "fresh_run (xs @ [x]) = x # fresh_run xs" using True by (simp add: fresh_run_snoc x)
    have u: "unat (init_cpt s) = min n 129" by (simp add: IH(1) unsigned_of_nat take_bit_nat_eq_self)
    have lt: "init_cpt s < XERR_INIT_AVG \<longleftrightarrow> n < 128" by (auto simp: word_less_nat_alt u XERR_INIT_AVG_def)
    have eq: "init_cpt s = XERR_INIT_AVG \<longleftrightarrow> n = 128" by (auto simp: word_unat_eq_iff u XERR_INIT_AVG_def)
    consider "n < 128" | "n = 128" | "128 < n" by linarith
    then show ?thesis
    proof cases
      case 1
      then show ?thesis using True IH lt unfolding step r
        by (simp add: valid_round_def Let_def err_sum_def x n_def)
    next
      case 2
      then show ?thesis using True IH lt eq unfolding step r
        by (simp add: valid_round_def Let_def n_def XERR_INIT_AVG_def)
    next
      case 3
      then show ?thesis using True IH lt eq unfolding step r
        by (simp add: valid_round_def Let_def n_def)
    qed
  qed
qed

text \<open>
  C36. The correction is announced exactly while the last 129 rounds at least found a reference that is not older than 30
  seconds; it is then 128 divided by the sum of the first 128 crystal errors of that run, before tracking sets in.
  As soon as a reference is too old, or from the future, the correction is withdrawn and is 1 until it is announced
  again.
\<close>

theorem xtal_correction_validated:
  "xtal_correct_ok (valid_rounds xs) = (129 \<le> length (fresh_run xs)) \<and>
   (\<not> xtal_correct_ok (valid_rounds xs) \<longrightarrow> xtal_correct (valid_rounds xs) = Fin 1) \<and>
   (length (fresh_run xs) = 129 \<longrightarrow>
      xtal_correct (valid_rounds xs) = dbl_quot 128 (err_sum (take 128 (rev (fresh_run xs))))) \<and>
   gps_ref_valid (valid_rounds xs) = (fresh_run xs \<noteq> [])"
  using valid_rounds_inv [of xs] by (auto simp: Let_def)

theorem xtal_correction_validated_witness:
  "xtal_correct_ok (valid_rounds (replicate 129 (5, \<lparr>systime = 4, tref_count_us = 0, tref_utc = (0, 0), tref_gps = (0, 0), xtal_err = Fin 1\<rparr>))) \<and>
   xtal_correct (valid_rounds []) = Fin 1"
proof -
  let ?x = "(5, \<lparr>systime = 4, tref_count_us = 0, tref_utc = (0, 0), tref_gps = (0, 0), xtal_err = Fin 1\<rparr>) :: int \<times> tref"
  have "fresh_run (replicate n ?x) = replicate n ?x" for n
    by (simp add: fresh_run_def ref_fresh_def GPS_REF_MAX_AGE_def takeWhile_eq_all_conv)
  moreover have "fresh_run [] = []" by (simp add: fresh_run_def)
  ultimately show ?thesis using xtal_correction_validated [of "replicate 129 ?x"] xtal_correction_validated [of "[]"] by simp
qed

end
