(* ===== verification/Config.thy ===== *)
theory Config
  imports Json_Parse Printf Beacon Downlink Thread_Up
begin

text \<open>
  Reading the configuration files (\<open>lora_pkt_fwd.c\<close>): \<open>parse_SX1301_configuration\<close>,
  \<open>parse_gateway_configuration\<close> and the choice of files in \<open>main\<close>. The globals the functions assign are
  two records; every structure handed to the concentrator library is kept in a list of calls, and
  \<open>lgw_accepts\<close> is what the library answers to a call after the calls before it. A field of a structure
  has the width of the cast in the code.
\<close>

section \<open>What is handed to the library\<close>

record conf_board =
  lorawan_public :: bool
  clksrc :: u8

record lbt_channel =
  lbt_freq_hz :: u32
  scan_time_us :: u16

record conf_lbt =
  lbt_enable :: bool
  rssi_target :: u8  \<comment> \<open>\<open>int8_t\<close>\<close>
  lbt_rssi_offset :: u8  \<comment> \<open>\<open>int8_t\<close>\<close>
  nb_channel :: nat
  lbt_channels :: "lbt_channel list"

record tx_gain =
  pa_gain :: u8
  dac_gain :: u8
  dig_gain :: u8
  mix_gain :: u8
  lut_rf_power :: u8  \<comment> \<open>\<open>int8_t\<close>\<close>

record tx_gain_lut =
  lut :: "tx_gain list"
  lut_size :: nat

record conf_rxrf =
  rf_enable :: bool
  rf_freq_hz :: u32
  rf_rssi_offset :: dbl  \<comment> \<open>\<open>float\<close>\<close>
  rf_type :: nat
  rf_tx_enable :: bool
  tx_notch_freq :: u32

record conf_rxif =
  if_enable :: bool
  if_rf_chain :: u32
  if_freq_hz :: u32  \<comment> \<open>\<open>int32_t\<close>\<close>
  if_bandwidth :: u8
  if_datarate :: u32

text \<open>\<open>memset\<close> to zero.\<close>

definition board_zero :: conf_board where
  "board_zero = \<lparr>lorawan_public = False, clksrc = 0\<rparr>"

definition lbt_zero :: "nat \<Rightarrow> conf_lbt" where
  "lbt_zero n = \<lparr>lbt_enable = False, rssi_target = 0, lbt_rssi_offset = 0, nb_channel = 0,
     lbt_channels = replicate n \<lparr>lbt_freq_hz = 0, scan_time_us = 0\<rparr>\<rparr>"

definition txlut_zero :: "nat \<Rightarrow> tx_gain_lut" where
  "txlut_zero n =
     \<lparr>lut = replicate n \<lparr>pa_gain = 0, dac_gain = 0, dig_gain = 0, mix_gain = 0, lut_rf_power = 0\<rparr>, lut_size = 0\<rparr>"

definition rxrf_zero :: conf_rxrf where
  "rxrf_zero = \<lparr>rf_enable = False, rf_freq_hz = 0, rf_rssi_offset = Fin 0, rf_type = 0, rf_tx_enable = False,
     tx_notch_freq = 0\<rparr>"

definition rxif_zero :: conf_rxif where
  "rxif_zero = \<lparr>if_enable = False, if_rf_chain = 0, if_freq_hz = 0, if_bandwidth = 0, if_datarate = 0\<rparr>"

datatype conf_call =
  Board_setconf conf_board
| Lbt_setconf conf_lbt
| Txgain_setconf tx_gain_lut
| Rxrf_setconf nat conf_rxrf
| Rxif_setconf nat conf_rxif

text \<open>
  The constants of the library the configuration needs. \<open>lbt_nb_channel\<close> is what the field \<open>nb_channel\<close>
  keeps of a count.
\<close>

record hal_conf = hal +
  LGW_RF_CHAIN_NB :: nat
  TX_GAIN_LUT_SIZE_MAX :: nat
  LGW_MULTI_NB :: nat
  LBT_CHANNEL_FREQ_NB :: nat
  lbt_nb_channel :: "nat \<Rightarrow> nat"
  LGW_RADIO_TYPE_SX1255 :: nat
  LGW_RADIO_TYPE_SX1257 :: nat
  hal_BW_UNDEFINED :: u8
  hal_BW_7K8HZ :: u8
  hal_BW_15K6HZ :: u8
  hal_BW_31K2HZ :: u8
  hal_BW_62K5HZ :: u8
  hal_DR_UNDEFINED :: u32
  lgw_accepts :: "conf_call list \<Rightarrow> conf_call \<Rightarrow> bool"

section \<open>Sequencing\<close>

text \<open>A part of a configuration function returns whether to go on (\<open>False\<close>: the function returns -1) and the state.\<close>

definition andgo :: "(bool \<times> 's) res \<Rightarrow> ('s \<Rightarrow> (bool \<times> 's) res) \<Rightarrow> (bool \<times> 's) res" where
  "andgo m f = bindr m (\<lambda>(ok, s). if ok then f s else Inr (False, s))"

fun each :: "('i \<Rightarrow> 's \<Rightarrow> (bool \<times> 's) res) \<Rightarrow> 'i list \<Rightarrow> 's \<Rightarrow> (bool \<times> 's) res" where
  "each f [] s = Inr (True, s)"
| "each f (i # is) s = andgo (f i s) (each f is)"

section \<open>Fields\<close>

text \<open>A field of the wrong type, like a missing one, gets the default.\<close>

definition number_or :: "(dbl \<Rightarrow> 'a res) \<Rightarrow> 'a \<Rightarrow> json_value option \<Rightarrow> 'a res" where
  "number_or cnv dflt val = (case val of Some (JSONNumber x) \<Rightarrow> cnv x | _ \<Rightarrow> Inr dflt)"

definition boolean_or :: "bool \<Rightarrow> json_value option \<Rightarrow> bool" where
  "boolean_or dflt val = (case val of Some (JSONBoolean b) \<Rightarrow> b | _ \<Rightarrow> dflt)"

text \<open>\<open>snprintf (param_name, sizeof param_name, ...)\<close> with an index in the name.\<close>

definition param_name :: "string \<Rightarrow> nat \<Rightarrow> string \<Rightarrow> bytes" where
  "param_name pre i post = take 31 (lit (pre @ fmt_i 0 (int i) @ post))"

definition param_value :: "json_object option \<Rightarrow> string \<Rightarrow> nat \<Rightarrow> string \<Rightarrow> json_value option" where
  "param_value conf_obj pre i post = json_object_dotget_value conf_obj (param_name pre i post)"

definition param_number :: "json_object option \<Rightarrow> string \<Rightarrow> nat \<Rightarrow> string \<Rightarrow> dbl" where
  "param_number conf_obj pre i post = json_object_dotget_number conf_obj (param_name pre i post)"

text \<open>\<open>json_value_get_type (val) == JSONObject\<close> for the value of the name itself.\<close>

definition param_present :: "json_object option \<Rightarrow> bytes \<Rightarrow> bool" where
  "param_present conf_obj name = (json_value_get_object (json_object_get_value conf_obj name) \<noteq> None)"

section \<open>The concentrator\<close>

record radio_conf =
  antenna_gain :: u8  \<comment> \<open>\<open>int8_t\<close>\<close>
  txlut :: tx_gain_lut
  tx_freq_min :: "u32 list"
  tx_freq_max :: "u32 list"
  conf_calls :: "conf_call list"

definition radio_init :: "hal_conf \<Rightarrow> radio_conf" where
  "radio_init H = \<lparr>antenna_gain = 0, txlut = txlut_zero (TX_GAIN_LUT_SIZE_MAX H),
     tx_freq_min = replicate (LGW_RF_CHAIN_NB H) 0, tx_freq_max = replicate (LGW_RF_CHAIN_NB H) 0, conf_calls = []\<rparr>"

definition submit :: "hal_conf \<Rightarrow> conf_call \<Rightarrow> radio_conf \<Rightarrow> (bool \<times> radio_conf) res" where
  "submit H c s = Inr (lgw_accepts H (conf_calls s) c, s\<lparr>conf_calls := conf_calls s @ [c]\<rparr>)"

definition conf_board_part :: "hal_conf \<Rightarrow> json_object option \<Rightarrow> radio_conf \<Rightarrow> (bool \<times> radio_conf) res" where
  "conf_board_part H conf_obj s =
     (let public = boolean_or False (json_object_get_value conf_obj (lit ''lorawan_public'')) in
      bindr (number_or dbl_to_u8 0 (json_object_get_value conf_obj (lit ''clksrc''))) (\<lambda>clk.
      submit H (Board_setconf \<lparr>lorawan_public = public, clksrc = clk\<rparr>) s))"

text \<open>The channels of listen-before-talk; the loop breaks at the size of the table, \<open>nb_channel\<close> stays.\<close>

definition conf_lbt_channel :: "json_value list option \<Rightarrow> nat \<Rightarrow> conf_lbt \<Rightarrow> conf_lbt res" where
  "conf_lbt_channel conf_array i c =
     (let ch = json_value_get_object (json_array_get_value conf_array i) in
      bindr (number_or dbl_to_u32 0 (json_object_dotget_value ch (lit ''freq_hz''))) (\<lambda>hz.
      bindr (number_or dbl_to_u16 0 (json_object_dotget_value ch (lit ''scan_time_us''))) (\<lambda>us.
      bindr (st (lbt_channels c) i \<lparr>lbt_freq_hz = hz, scan_time_us = us\<rparr>) (\<lambda>chs.
      Inr (c\<lparr>lbt_channels := chs\<rparr>)))))"

definition conf_lbt_part :: "hal_conf \<Rightarrow> json_object option \<Rightarrow> radio_conf \<Rightarrow> (bool \<times> radio_conf) res" where
  "conf_lbt_part H conf_obj s =
     (case json_object_get_object conf_obj (lit ''lbt_cfg'') of
        None \<Rightarrow> Inr (True, s)
      | Some lbt_obj \<Rightarrow>
          if boolean_or False (json_object_get_value (Some lbt_obj) (lit ''enable'')) then
            bindr (number_or dbl_to_s8 0 (json_object_get_value (Some lbt_obj) (lit ''rssi_target''))) (\<lambda>tgt.
            bindr (number_or dbl_to_s8 0 (json_object_get_value (Some lbt_obj) (lit ''sx127x_rssi_offset''))) (\<lambda>off.
            let conf_array = json_object_get_array (Some lbt_obj) (lit ''chan_cfg'');
                nb = (case conf_array of None \<Rightarrow> 0 | Some _ \<Rightarrow> lbt_nb_channel H (json_array_get_count conf_array)) in
            bindr
              (each_res (conf_lbt_channel conf_array) [0..<min nb (LBT_CHANNEL_FREQ_NB H)]
                 ((lbt_zero (LBT_CHANNEL_FREQ_NB H))
                    \<lparr>lbt_enable := True, rssi_target := tgt, lbt_rssi_offset := off, nb_channel := nb\<rparr>)) (\<lambda>c.
            submit H (Lbt_setconf c) s)))
          else Inr (True, s))"

definition conf_antenna_part :: "json_object option \<Rightarrow> radio_conf \<Rightarrow> radio_conf res" where
  "conf_antenna_part conf_obj s =
     (case json_object_get_value conf_obj (lit ''antenna_gain'') of
        None \<Rightarrow> Inr s
      | Some val \<Rightarrow> bindr (number_or dbl_to_s8 0 (Some val)) (\<lambda>g. Inr (s\<lparr>antenna_gain := g\<rparr>)))"

text \<open>One entry of the gain table: it is stored at its index, while \<open>size\<close> counts the entries that are there.\<close>

definition conf_tx_lut :: "json_object option \<Rightarrow> nat \<Rightarrow> tx_gain_lut \<Rightarrow> tx_gain_lut res" where
  "conf_tx_lut conf_obj i t =
     (if param_present conf_obj (param_name ''tx_lut_'' i '''') then
        bindr (number_or dbl_to_u8 0 (param_value conf_obj ''tx_lut_'' i ''.pa_gain'')) (\<lambda>pa.
        bindr (number_or dbl_to_u8 3 (param_value conf_obj ''tx_lut_'' i ''.dac_gain'')) (\<lambda>dac.
        bindr (number_or dbl_to_u8 0 (param_value conf_obj ''tx_lut_'' i ''.dig_gain'')) (\<lambda>dig.
        bindr (number_or dbl_to_u8 0 (param_value conf_obj ''tx_lut_'' i ''.mix_gain'')) (\<lambda>mix.
        bindr (number_or dbl_to_s8 0 (param_value conf_obj ''tx_lut_'' i ''.rf_power'')) (\<lambda>pow.
        bindr (st (lut t) i \<lparr>pa_gain = pa, dac_gain = dac, dig_gain = dig, mix_gain = mix, lut_rf_power = pow\<rparr>) (\<lambda>l.
        Inr (t\<lparr>lut := l, lut_size := lut_size t + 1\<rparr>)))))))
      else Inr t)"

definition conf_txlut_part :: "hal_conf \<Rightarrow> json_object option \<Rightarrow> radio_conf \<Rightarrow> (bool \<times> radio_conf) res" where
  "conf_txlut_part H conf_obj s =
     bindr (each_res (conf_tx_lut conf_obj) [0..<TX_GAIN_LUT_SIZE_MAX H] (txlut_zero (TX_GAIN_LUT_SIZE_MAX H))) (\<lambda>t.
     let s = s\<lparr>txlut := t\<rparr> in
     if 0 < lut_size t then submit H (Txgain_setconf t) s else Inr (True, s))"

text \<open>The type of a radio: \<open>strncmp\<close> reads the string, also when there is none; an unknown type leaves zero.\<close>

definition radio_type_of :: "hal_conf \<Rightarrow> bytes option \<Rightarrow> nat res" where
  "radio_type_of H str =
     (case str of
        None \<Rightarrow> Inl NullDeref
      | Some s \<Rightarrow>
          Inr (if is_prefix (lit ''SX1255'') s then LGW_RADIO_TYPE_SX1255 H
               else if is_prefix (lit ''SX1257'') s then LGW_RADIO_TYPE_SX1257 H
               else 0))"

text \<open>\<open>radio_i.tx_enable\<close> and the fields that go with it.\<close>

definition conf_radio_tx :: "json_object option \<Rightarrow> nat \<Rightarrow> conf_rxrf \<Rightarrow> radio_conf \<Rightarrow> (conf_rxrf \<times> radio_conf) res" where
  "conf_radio_tx conf_obj i rf s =
     (let tx = boolean_or False (param_value conf_obj ''radio_'' i ''.tx_enable''); rf = rf\<lparr>rf_tx_enable := tx\<rparr> in
      if tx then
        bindr (dbl_to_u32 (param_number conf_obj ''radio_'' i ''.tx_freq_min'')) (\<lambda>lo.
        bindr (st (tx_freq_min s) i lo) (\<lambda>los.
        bindr (dbl_to_u32 (param_number conf_obj ''radio_'' i ''.tx_freq_max'')) (\<lambda>hi.
        bindr (st (tx_freq_max s) i hi) (\<lambda>his.
        bindr (dbl_to_u32 (param_number conf_obj ''radio_'' i ''.tx_notch_freq'')) (\<lambda>notch.
        Inr (rf\<lparr>tx_notch_freq := notch\<rparr>, s\<lparr>tx_freq_min := los, tx_freq_max := his\<rparr>))))))
      else Inr (rf, s))"

definition conf_radio :: "hal_conf \<Rightarrow> json_object option \<Rightarrow> nat \<Rightarrow> radio_conf \<Rightarrow> (bool \<times> radio_conf) res" where
  "conf_radio H conf_obj i s =
     (if param_present conf_obj (param_name ''radio_'' i '''') then
        if boolean_or False (param_value conf_obj ''radio_'' i ''.enable'') then
          bindr (dbl_to_u32 (param_number conf_obj ''radio_'' i ''.freq'')) (\<lambda>hz.
          let off = dbl_to_flt (param_number conf_obj ''radio_'' i ''.rssi_offset'') in
          bindr (radio_type_of H (json_object_dotget_string conf_obj (param_name ''radio_'' i ''.type''))) (\<lambda>ty.
          bindr (conf_radio_tx conf_obj i
                   (rxrf_zero\<lparr>rf_enable := True, rf_freq_hz := hz, rf_rssi_offset := off, rf_type := ty\<rparr>) s) (\<lambda>(rf, s).
          submit H (Rxrf_setconf i rf) s)))
        else submit H (Rxrf_setconf i rxrf_zero) s
      else Inr (True, s))"

definition conf_multiSF :: "hal_conf \<Rightarrow> json_object option \<Rightarrow> nat \<Rightarrow> radio_conf \<Rightarrow> (bool \<times> radio_conf) res" where
  "conf_multiSF H conf_obj i s =
     (if param_present conf_obj (param_name ''chan_multiSF_'' i '''') then
        if boolean_or False (param_value conf_obj ''chan_multiSF_'' i ''.enable'') then
          bindr (dbl_to_u32 (param_number conf_obj ''chan_multiSF_'' i ''.radio'')) (\<lambda>rf.
          bindr (dbl_to_s32 (param_number conf_obj ''chan_multiSF_'' i ''.if'')) (\<lambda>hz.
          submit H (Rxif_setconf i (rxif_zero\<lparr>if_enable := True, if_rf_chain := rf, if_freq_hz := hz\<rparr>)) s))
        else submit H (Rxif_setconf i rxif_zero) s
      else Inr (True, s))"

definition std_bandwidth :: "hal_conf \<Rightarrow> u32 \<Rightarrow> u8" where
  "std_bandwidth H bw =
     (if bw = 500000 then hal_BW_500KHZ H else if bw = 250000 then hal_BW_250KHZ H
      else if bw = 125000 then hal_BW_125KHZ H else hal_BW_UNDEFINED H)"

definition std_datarate :: "hal_conf \<Rightarrow> u32 \<Rightarrow> u32" where
  "std_datarate H sf = (if 7 \<le> sf \<and> sf \<le> 12 then hal_DR_LORA H (unat sf) else hal_DR_UNDEFINED H)"

definition conf_lora_std :: "hal_conf \<Rightarrow> json_object option \<Rightarrow> radio_conf \<Rightarrow> (bool \<times> radio_conf) res" where
  "conf_lora_std H conf_obj s =
     (if param_present conf_obj (lit ''chan_Lora_std'') then
        if boolean_or False (json_object_dotget_value conf_obj (lit ''chan_Lora_std.enable'')) then
          bindr (dbl_to_u32 (json_object_dotget_number conf_obj (lit ''chan_Lora_std.radio''))) (\<lambda>rf.
          bindr (dbl_to_s32 (json_object_dotget_number conf_obj (lit ''chan_Lora_std.if''))) (\<lambda>hz.
          bindr (dbl_to_u32 (json_object_dotget_number conf_obj (lit ''chan_Lora_std.bandwidth''))) (\<lambda>bw.
          bindr (dbl_to_u32 (json_object_dotget_number conf_obj (lit ''chan_Lora_std.spread_factor''))) (\<lambda>sf.
          submit H (Rxif_setconf 8 \<lparr>if_enable = True, if_rf_chain = rf, if_freq_hz = hz,
                                     if_bandwidth = std_bandwidth H bw, if_datarate = std_datarate H sf\<rparr>) s))))
        else submit H (Rxif_setconf 8 rxif_zero) s
      else Inr (True, s))"

text \<open>The FSK bandwidth: without one it is \<open>2 * fdev + datarate\<close>, in 32 bits; then the next larger filter.\<close>

definition fsk_bandwidth :: "hal_conf \<Rightarrow> u32 \<Rightarrow> u32 \<Rightarrow> u32 \<Rightarrow> u8" where
  "fsk_bandwidth H bw fdev dr =
     (let bw = (if bw = 0 \<and> fdev \<noteq> 0 then 2 * fdev + dr else bw) in
      if bw = 0 then hal_BW_UNDEFINED H
      else if bw \<le> 7800 then hal_BW_7K8HZ H
      else if bw \<le> 15600 then hal_BW_15K6HZ H
      else if bw \<le> 31200 then hal_BW_31K2HZ H
      else if bw \<le> 62500 then hal_BW_62K5HZ H
      else if bw \<le> 125000 then hal_BW_125KHZ H
      else if bw \<le> 250000 then hal_BW_250KHZ H
      else if bw \<le> 500000 then hal_BW_500KHZ H
      else hal_BW_UNDEFINED H)"

definition conf_fsk :: "hal_conf \<Rightarrow> json_object option \<Rightarrow> radio_conf \<Rightarrow> (bool \<times> radio_conf) res" where
  "conf_fsk H conf_obj s =
     (if param_present conf_obj (lit ''chan_FSK'') then
        if boolean_or False (json_object_dotget_value conf_obj (lit ''chan_FSK.enable'')) then
          bindr (dbl_to_u32 (json_object_dotget_number conf_obj (lit ''chan_FSK.radio''))) (\<lambda>rf.
          bindr (dbl_to_s32 (json_object_dotget_number conf_obj (lit ''chan_FSK.if''))) (\<lambda>hz.
          bindr (dbl_to_u32 (json_object_dotget_number conf_obj (lit ''chan_FSK.bandwidth''))) (\<lambda>bw.
          bindr (dbl_to_u32 (json_object_dotget_number conf_obj (lit ''chan_FSK.freq_deviation''))) (\<lambda>fdev.
          bindr (dbl_to_u32 (json_object_dotget_number conf_obj (lit ''chan_FSK.datarate''))) (\<lambda>dr.
          submit H (Rxif_setconf 9 \<lparr>if_enable = True, if_rf_chain = rf, if_freq_hz = hz,
                                     if_bandwidth = fsk_bandwidth H bw fdev dr, if_datarate = dr\<rparr>) s)))))
        else submit H (Rxif_setconf 9 rxif_zero) s
      else Inr (True, s))"

text \<open>The whole function on the object \<open>SX1301_conf\<close>.\<close>

definition conf_SX1301 :: "hal_conf \<Rightarrow> json_object option \<Rightarrow> radio_conf \<Rightarrow> (bool \<times> radio_conf) res" where
  "conf_SX1301 H conf_obj s =
     andgo (conf_board_part H conf_obj s) (\<lambda>s.
     andgo (conf_lbt_part H conf_obj s) (\<lambda>s.
     bindr (conf_antenna_part conf_obj s) (\<lambda>s.
     andgo (conf_txlut_part H conf_obj s) (\<lambda>s.
     andgo (each (conf_radio H conf_obj) [0..<LGW_RF_CHAIN_NB H] s) (\<lambda>s.
     andgo (each (conf_multiSF H conf_obj) [0..<LGW_MULTI_NB H] s) (\<lambda>s.
     andgo (conf_lora_std H conf_obj s) (\<lambda>s.
     conf_fsk H conf_obj s)))))))"

section \<open>Files\<close>

text \<open>
  A file as \<open>main\<close> sees it: \<open>None\<close> when \<open>access\<close> fails, otherwise what \<open>read_file\<close> returns. A file that is
  not JSON ends the program.
\<close>

type_synonym cfg_file = "bytes option"

definition json_parse_file_with_comments :: "cfg_file \<Rightarrow> json_value option option" where
  "json_parse_file_with_comments contents =
     (case contents of
        None \<Rightarrow> Some None
      | Some s \<Rightarrow> json_parse_string_with_comments (takeWhile (\<lambda>c. c \<noteq> 0) s))"

definition conf_object :: "cfg_file \<Rightarrow> string \<Rightarrow> json_object option res" where
  "conf_object f conf_obj_name =
     (case json_parse_file_with_comments f of
        Some (Some root_val) \<Rightarrow>
          Inr (json_object_get_object (json_value_get_object (Some root_val)) (lit conf_obj_name))
      | _ \<Rightarrow> Inl ExitCall)"

definition parse_SX1301_configuration :: "hal_conf \<Rightarrow> cfg_file \<Rightarrow> radio_conf \<Rightarrow> (bool \<times> radio_conf) res" where
  "parse_SX1301_configuration H f s =
     bindr (conf_object f ''SX1301_conf'') (\<lambda>conf_obj.
     case conf_obj of None \<Rightarrow> Inr (False, s) | Some _ \<Rightarrow> conf_SX1301 H conf_obj s)"

end
