(* ===== verification/Gateway_Config.thy ===== *)
theory Gateway_Config
  imports Config
begin

unbundle bit_operations_syntax

text \<open>
  \<open>parse_gateway_configuration\<close> (\<open>lora_pkt_fwd.c\<close>) with its globals and their defaults, which files \<open>main\<close>
  reads and in which order, and what the threads see of the result.
\<close>

section \<open>State\<close>

record gateway_conf =
  lgwm :: u64
  serv_addr :: bytes
  serv_port_up :: bytes
  serv_port_down :: bytes
  keepalive_time :: u32  \<comment> \<open>\<open>int\<close>\<close>
  stat_interval :: u32
  push_timeout_half :: int  \<comment> \<open>\<open>tv_usec\<close>, a \<open>long\<close> of 64 bits\<close>
  pkt_filter :: up_filter
  gps_tty_path :: bytes
  beacon_conf :: beacon_cfg
  reference_alt :: u16  \<comment> \<open>\<open>short\<close>\<close>
  gps_fake_enable :: bool
  autoquit_threshold :: u32

definition gateway_default :: gateway_conf where
  "gateway_default = \<lparr>lgwm = 0, serv_addr = lit ''127.0.0.1'', serv_port_up = lit ''1780'',
     serv_port_down = lit ''1782'', keepalive_time = 5, stat_interval = 30, push_timeout_half = 100 * 500,
     pkt_filter = \<lparr>fwd_valid_pkt = True, fwd_error_pkt = False, fwd_nocrc_pkt = False\<rparr>, gps_tty_path = [],
     beacon_conf = \<lparr>beacon_period = 0, beacon_freq_hz = 869525000, beacon_freq_nb = 1, beacon_freq_step = 0,
       beacon_datarate = 9, beacon_bw_hz = 125000, beacon_power = 14, beacon_infodesc = 0,
       reference_lat = Fin 0, reference_lon = Fin 0\<rparr>,
     reference_alt = 0, gps_fake_enable = False, autoquit_threshold = 0\<rparr>"

section \<open>Fields\<close>

text \<open>\<open>val = json_object_get_value (...); if (val != NULL)\<close> and a conversion of its number, whatever its type.\<close>

definition set_number ::
    "json_object option \<Rightarrow> string \<Rightarrow> (dbl \<Rightarrow> 'a res) \<Rightarrow> ('a \<Rightarrow> 's \<Rightarrow> 's) \<Rightarrow> 's \<Rightarrow> 's res" where
  "set_number conf_obj name cnv upd s =
     (case json_object_get_value conf_obj (lit name) of
        None \<Rightarrow> Inr s
      | Some val \<Rightarrow> bindr (cnv (json_value_get_number (Some val))) (\<lambda>x. Inr (upd x s)))"

definition set_boolean ::
    "json_object option \<Rightarrow> string \<Rightarrow> (bool \<Rightarrow> 's \<Rightarrow> 's) \<Rightarrow> 's \<Rightarrow> 's" where
  "set_boolean conf_obj name upd s =
     (case json_object_get_value conf_obj (lit name) of Some (JSONBoolean b) \<Rightarrow> upd b s | _ \<Rightarrow> s)"

definition set_string ::
    "json_object option \<Rightarrow> string \<Rightarrow> (bytes \<Rightarrow> 's \<Rightarrow> 's) \<Rightarrow> 's \<Rightarrow> 's" where
  "set_string conf_obj name upd s =
     (case json_object_get_string conf_obj (lit name) of None \<Rightarrow> s | Some str \<Rightarrow> upd str s)"

text \<open>\<open>STRNCPY_SAFE (dest, src, n)\<close>: the C string that \<open>dest\<close> holds then.\<close>

definition strncpy_safe :: "nat \<Rightarrow> bytes \<Rightarrow> bytes" where
  "strncpy_safe n src = take (n - 1) src"

text \<open>
  \<open>sscanf (str, "%llx", &ull)\<close> with \<open>ull = 0\<close> before: blanks, a sign, \<open>0x\<close>, hexadecimal digits; a value
  beyond 64 bits becomes the largest one, and without digits \<open>ull\<close> stays 0.
\<close>

definition hex_value :: "bytes \<Rightarrow> int" where
  "hex_value ds = foldl (\<lambda>n d. n * 16 + uint (hex_digit d)) 0 ds"

definition scan_llx :: "bytes \<Rightarrow> u64" where
  "scan_llx str =
     (let s = skip_whitespaces str;
          minus = (cur s = asc CHR ''-'');
          s = (if minus \<or> cur s = asc CHR ''+'' then tl s else s);
          s = (if is_prefix_nocase (lit ''0x'') s then drop 2 s else s);
          v = hex_value (takeWhile isxdigit s) in
      if 2 ^ 64 \<le> v then - 1 else if minus then word_of_int (- v) else word_of_int v)"

text \<open>\<open>snprintf (dest, 8, "%u", (uint16_t)number)\<close>\<close>

definition port_text :: "u16 \<Rightarrow> bytes" where
  "port_text p = take 7 (lit (dec (uint p)))"

text \<open>\<open>500 * (long int)number\<close>\<close>

definition half_timeout :: "dbl \<Rightarrow> int res" where
  "half_timeout d =
     bindr (dbl_to_int (- (2 ^ 63)) (2 ^ 63 - 1) d) (\<lambda>n.
     if - (2 ^ 63) \<le> 500 * n \<and> 500 * n < 2 ^ 63 then Inr (500 * n) else Inl SignedOverflow)"

section \<open>The function\<close>

text \<open>Up to the beacon period; the numbers of the network, the filter and the reference coordinates.\<close>

definition conf_network :: "json_object option \<Rightarrow> gateway_conf \<Rightarrow> gateway_conf res" where
  "conf_network conf_obj g =
     (let g = set_string conf_obj ''gateway_ID'' (\<lambda>str g. g\<lparr>lgwm := scan_llx str\<rparr>) g;
          g = set_string conf_obj ''server_address'' (\<lambda>str g. g\<lparr>serv_addr := strncpy_safe 65 str\<rparr>) g in
      bindr (set_number conf_obj ''serv_port_up'' dbl_to_u16 (\<lambda>p g. g\<lparr>serv_port_up := port_text p\<rparr>) g) (\<lambda>g.
      bindr (set_number conf_obj ''serv_port_down'' dbl_to_u16 (\<lambda>p g. g\<lparr>serv_port_down := port_text p\<rparr>) g) (\<lambda>g.
      bindr (set_number conf_obj ''keepalive_interval'' dbl_to_s32 (\<lambda>n g. g\<lparr>keepalive_time := n\<rparr>) g) (\<lambda>g.
      bindr (set_number conf_obj ''stat_interval'' dbl_to_u32 (\<lambda>n g. g\<lparr>stat_interval := n\<rparr>) g) (\<lambda>g.
      set_number conf_obj ''push_timeout_ms'' half_timeout (\<lambda>n g. g\<lparr>push_timeout_half := n\<rparr>) g)))))"

definition conf_filter :: "json_object option \<Rightarrow> gateway_conf \<Rightarrow> gateway_conf" where
  "conf_filter conf_obj g =
     (let F = pkt_filter g;
          F = set_boolean conf_obj ''forward_crc_valid'' (\<lambda>b F. F\<lparr>fwd_valid_pkt := b\<rparr>) F;
          F = set_boolean conf_obj ''forward_crc_error'' (\<lambda>b F. F\<lparr>fwd_error_pkt := b\<rparr>) F;
          F = set_boolean conf_obj ''forward_crc_disabled'' (\<lambda>b F. F\<lparr>fwd_nocrc_pkt := b\<rparr>) F in
      g\<lparr>pkt_filter := F\<rparr>)"

definition conf_gps :: "json_object option \<Rightarrow> gateway_conf \<Rightarrow> gateway_conf res" where
  "conf_gps conf_obj g =
     (let g = set_string conf_obj ''gps_tty_path'' (\<lambda>str g. g\<lparr>gps_tty_path := strncpy_safe 65 str\<rparr>) g in
      bindr (set_number conf_obj ''ref_latitude'' Inr
               (\<lambda>x g. g\<lparr>beacon_conf := (beacon_conf g)\<lparr>reference_lat := x\<rparr>\<rparr>) g) (\<lambda>g.
      bindr (set_number conf_obj ''ref_longitude'' Inr
               (\<lambda>x g. g\<lparr>beacon_conf := (beacon_conf g)\<lparr>reference_lon := x\<rparr>\<rparr>) g) (\<lambda>g.
      bindr (set_number conf_obj ''ref_altitude'' dbl_to_s16 (\<lambda>n g. g\<lparr>reference_alt := n\<rparr>) g) (\<lambda>g.
      Inr (set_boolean conf_obj ''fake_gps'' (\<lambda>b g. g\<lparr>gps_fake_enable := b\<rparr>) g)))))"

text \<open>The period is stored before it is judged.\<close>

definition conf_beacon_period :: "json_object option \<Rightarrow> gateway_conf \<Rightarrow> (bool \<times> gateway_conf) res" where
  "conf_beacon_period conf_obj g =
     bindr (set_number conf_obj ''beacon_period'' dbl_to_u32
              (\<lambda>n g. g\<lparr>beacon_conf := (beacon_conf g)\<lparr>beacon_period := n\<rparr>\<rparr>) g) (\<lambda>g.
     let present = (json_object_get_value conf_obj (lit ''beacon_period'') \<noteq> None);
         n = beacon_period (beacon_conf g) in
     Inr (\<not> (present \<and> 0 < n \<and> n < 6), g))"

definition conf_beacon :: "json_object option \<Rightarrow> beacon_cfg \<Rightarrow> beacon_cfg res" where
  "conf_beacon conf_obj b =
     bindr (set_number conf_obj ''beacon_freq_hz'' dbl_to_u32 (\<lambda>n b. b\<lparr>beacon_freq_hz := n\<rparr>) b) (\<lambda>b.
     bindr (set_number conf_obj ''beacon_freq_nb'' dbl_to_u8 (\<lambda>n b. b\<lparr>beacon_freq_nb := n\<rparr>) b) (\<lambda>b.
     bindr (set_number conf_obj ''beacon_freq_step'' dbl_to_u32 (\<lambda>n b. b\<lparr>beacon_freq_step := n\<rparr>) b) (\<lambda>b.
     bindr (set_number conf_obj ''beacon_datarate'' dbl_to_u8 (\<lambda>n b. b\<lparr>beacon_datarate := n\<rparr>) b) (\<lambda>b.
     bindr (set_number conf_obj ''beacon_bw_hz'' dbl_to_u32 (\<lambda>n b. b\<lparr>beacon_bw_hz := n\<rparr>) b) (\<lambda>b.
     bindr (set_number conf_obj ''beacon_power'' dbl_to_s8 (\<lambda>n b. b\<lparr>beacon_power := n\<rparr>) b) (\<lambda>b.
     set_number conf_obj ''beacon_infodesc'' dbl_to_u8 (\<lambda>n b. b\<lparr>beacon_infodesc := n\<rparr>) b))))))"

definition conf_gateway :: "json_object option \<Rightarrow> gateway_conf \<Rightarrow> (bool \<times> gateway_conf) res" where
  "conf_gateway conf_obj g =
     bindr (conf_network conf_obj g) (\<lambda>g.
     bindr (conf_gps conf_obj (conf_filter conf_obj g)) (\<lambda>g.
     andgo (conf_beacon_period conf_obj g) (\<lambda>g.
     bindr (conf_beacon conf_obj (beacon_conf g)) (\<lambda>b.
     bindr (set_number conf_obj ''autoquit_threshold'' dbl_to_u32 (\<lambda>n g. g\<lparr>autoquit_threshold := n\<rparr>)
              (g\<lparr>beacon_conf := b\<rparr>)) (\<lambda>g.
     Inr (True, g))))))"

definition parse_gateway_configuration :: "cfg_file \<Rightarrow> gateway_conf \<Rightarrow> (bool \<times> gateway_conf) res" where
  "parse_gateway_configuration f g =
     bindr (conf_object f ''gateway_conf'') (\<lambda>conf_obj.
     case conf_obj of None \<Rightarrow> Inr (False, g) | Some _ \<Rightarrow> conf_gateway conf_obj g)"

section \<open>The files \<open>main\<close> reads\<close>

record conf =
  conf_radio_part :: radio_conf
  conf_gateway_part :: gateway_conf

definition conf_start :: "hal_conf \<Rightarrow> conf" where
  "conf_start H = \<lparr>conf_radio_part = radio_init H, conf_gateway_part = gateway_default\<rparr>"

text \<open>Both functions on one file; \<open>main\<close> exits when one of them fails.\<close>

definition read_config :: "hal_conf \<Rightarrow> cfg_file \<Rightarrow> conf \<Rightarrow> conf res" where
  "read_config H f c =
     bindr (parse_SX1301_configuration H f (conf_radio_part c)) (\<lambda>(ok, r).
     if \<not> ok then Inl ExitCall
     else bindr (parse_gateway_configuration f (conf_gateway_part c)) (\<lambda>(ok, g).
     if \<not> ok then Inl ExitCall
     else Inr \<lparr>conf_radio_part = r, conf_gateway_part = g\<rparr>))"

text \<open>The local file after the global one: the results are not looked at.\<close>

definition read_local_config :: "hal_conf \<Rightarrow> cfg_file \<Rightarrow> conf \<Rightarrow> conf res" where
  "read_local_config H f c =
     bindr (parse_SX1301_configuration H f (conf_radio_part c)) (\<lambda>(_, r).
     bindr (parse_gateway_configuration f (conf_gateway_part c)) (\<lambda>(_, g).
     Inr \<lparr>conf_radio_part = r, conf_gateway_part = g\<rparr>))"

definition load_configuration ::
    "hal_conf \<Rightarrow> cfg_file option \<Rightarrow> cfg_file option \<Rightarrow> cfg_file option \<Rightarrow> conf \<Rightarrow> conf res" where
  "load_configuration H debug_cfg global_cfg local_cfg c =
     (case debug_cfg of
        Some f \<Rightarrow> read_config H f c
      | None \<Rightarrow>
          (case global_cfg of
             Some f \<Rightarrow>
               bindr (read_config H f c) (\<lambda>c.
               case local_cfg of None \<Rightarrow> Inr c | Some f \<Rightarrow> read_local_config H f c)
           | None \<Rightarrow> (case local_cfg of Some f \<Rightarrow> read_config H f c | None \<Rightarrow> Inl ExitCall)))"

section \<open>What the threads see\<close>

text \<open>The state the downstream thread reads, with the GPS part as \<open>main\<close> and the GPS thread left it.\<close>

definition gateway_of :: "conf \<Rightarrow> bool \<Rightarrow> bool \<Rightarrow> tref \<Rightarrow> gateway" where
  "gateway_of c gps_on ref_valid ref =
     (let r = conf_radio_part c in
      \<lparr>gw_lgwm = lgwm (conf_gateway_part c), gw_antenna_gain = antenna_gain r, gw_gps_enabled = gps_on,
       gw_gps_ref_valid = ref_valid, gw_time_reference = ref,
       gw_txlut = map lut_rf_power (take (lut_size (txlut r)) (lut (txlut r))),
       gw_tx_freq_min = tx_freq_min r, gw_tx_freq_max = tx_freq_max r\<rparr>)"

end
