(* ===== verification/Config_Correct.thy ===== *)
theory Config_Correct
  imports Gateway_Config Thread_Down
begin

unbundle bit_operations_syntax

text \<open>
  What reading the configuration guarantees: no table is left and the sizes of the results, the gateway
  address in the datagrams, the gain table, and what a local file does to the settings of the global one.
\<close>

section \<open>Results within bounds\<close>

text \<open>\<open>safe P r\<close>: the result \<open>r\<close> is no access outside an array, and a value satisfies \<open>P\<close>.\<close>

definition safe :: "('a \<Rightarrow> bool) \<Rightarrow> 'a res \<Rightarrow> bool" where
  "safe P r \<longleftrightarrow> (case r of Inl e \<Rightarrow> e \<noteq> OutOfBounds | Inr x \<Rightarrow> P x)"

named_theorems safe_rules "introduction rules for safe"

lemma safe_Inr [simp, safe_rules]: "safe P (Inr x) \<longleftrightarrow> P x"
  by (simp add: safe_def)

lemma safe_Inl [simp]: "safe P (Inl e) \<longleftrightarrow> e \<noteq> OutOfBounds"
  by (simp add: safe_def)

lemma safe_bindr: "safe Q m \<Longrightarrow> (\<And>x. Q x \<Longrightarrow> safe P (f x)) \<Longrightarrow> safe P (bindr m f)"
  by (cases m) auto

lemma safe_mono: "safe Q m \<Longrightarrow> (\<And>x. Q x \<Longrightarrow> P x) \<Longrightarrow> safe P m"
  by (cases m) auto

lemma safe_andgo: "safe (\<lambda>(_, s). Q s) m \<Longrightarrow> (\<And>s. Q s \<Longrightarrow> safe (\<lambda>(_, s). Q s) (f s)) \<Longrightarrow> safe (\<lambda>(_, s). Q s) (andgo m f)"
  by (cases m) (auto simp: andgo_def)

lemma safe_bindr_st:
  "i < length xs \<Longrightarrow> (\<And>ys. length ys = length xs \<Longrightarrow> safe P (f ys)) \<Longrightarrow> safe P (bindr (st xs i v) f)"
  by (simp add: st_def)

lemma safe_dbl_to_int: "safe (\<lambda>n. lo \<le> n \<and> n \<le> hi) (dbl_to_int lo hi d)"
  by (simp add: dbl_to_int_def Let_def split: dbl.split)

lemma safe_conversions [simp]:
  "safe (\<lambda>_. True) (dbl_to_u8 d)" "safe (\<lambda>_. True) (dbl_to_s8 d)" "safe (\<lambda>_. True) (dbl_to_u16 d)"
  "safe (\<lambda>_. True) (dbl_to_s16 d)" "safe (\<lambda>_. True) (dbl_to_u32 d)" "safe (\<lambda>_. True) (dbl_to_s32 d)"
  by (auto simp: dbl_to_u8_def dbl_to_s8_def dbl_to_u16_def dbl_to_s16_def dbl_to_u32_def dbl_to_s32_def
      intro!: safe_bindr [OF safe_dbl_to_int])

lemma safe_number_or [simp]:
  "safe (\<lambda>_. True) (cnv (json_value_get_number v)) \<Longrightarrow> safe (\<lambda>_. True) (number_or cnv dflt v)"
  by (auto simp: number_or_def json_value_get_number_def split: option.split json_value.split)

text \<open>Conversions put no condition on the rest.\<close>

lemma safe_any: "safe (\<lambda>_. True) m \<Longrightarrow> (\<And>x. safe P (f x)) \<Longrightarrow> safe P (bindr m f)"
  by (rule safe_bindr)

lemma safe_each_res:
  assumes "\<And>i s. i \<in> set is \<Longrightarrow> P s \<Longrightarrow> safe P (f i s)" and "P s"
  shows "safe P (each_res f is s)"
  using assms by (induction "is" arbitrary: s) (auto intro!: safe_bindr [where Q = P])

lemma safe_each:
  assumes "\<And>i s. i \<in> set is \<Longrightarrow> P s \<Longrightarrow> safe (\<lambda>(_, s). P s) (f i s)" and "P s"
  shows "safe (\<lambda>(_, s). P s) (each f is s)"
  using assms by (induction "is" arbitrary: s) (auto intro!: safe_andgo)

section \<open>The concentrator's part\<close>

definition radio_wf :: "hal_conf \<Rightarrow> radio_conf \<Rightarrow> bool" where
  "radio_wf H s \<longleftrightarrow>
     length (lut (txlut s)) = TX_GAIN_LUT_SIZE_MAX H \<and> lut_size (txlut s) \<le> TX_GAIN_LUT_SIZE_MAX H \<and>
     length (tx_freq_min s) = LGW_RF_CHAIN_NB H \<and> length (tx_freq_max s) = LGW_RF_CHAIN_NB H"

abbreviation radio_safe :: "hal_conf \<Rightarrow> (bool \<times> radio_conf) res \<Rightarrow> bool" where
  "radio_safe H \<equiv> safe (\<lambda>(_, s). radio_wf H s)"

lemma submit_safe: "radio_wf H s \<Longrightarrow> radio_safe H (submit H c s)"
  by (simp add: submit_def radio_wf_def)

lemma conf_board_part_safe: "radio_wf H s \<Longrightarrow> radio_safe H (conf_board_part H conf_obj s)"
  by (simp add: conf_board_part_def safe_any submit_safe)

lemma conf_lbt_channel_safe:
  "i < length (lbt_channels c) \<Longrightarrow>
   safe (\<lambda>c'. length (lbt_channels c') = length (lbt_channels c)) (conf_lbt_channel arr i c)"
  by (auto simp: conf_lbt_channel_def Let_def intro!: safe_any safe_bindr_st)

lemma conf_lbt_channels_safe:
  assumes "length (lbt_channels c) = m"
  shows "safe (\<lambda>_. True) (each_res (conf_lbt_channel arr) [0..<min n m] c)"
proof -
  have "safe (\<lambda>c. length (lbt_channels c) = m) (each_res (conf_lbt_channel arr) [0..<min n m] c)"
    using assms by (intro safe_each_res) (auto intro: safe_mono [OF conf_lbt_channel_safe])
  then show ?thesis by (rule safe_mono) simp
qed

lemma conf_lbt_part_safe: "radio_wf H s \<Longrightarrow> radio_safe H (conf_lbt_part H conf_obj s)"
  unfolding conf_lbt_part_def Let_def
  by (auto split: option.split intro!: safe_any submit_safe conf_lbt_channels_safe simp: lbt_zero_def)

lemma conf_antenna_part_safe: "radio_wf H s \<Longrightarrow> safe (radio_wf H) (conf_antenna_part conf_obj s)"
  by (auto simp: conf_antenna_part_def radio_wf_def split: option.split intro!: safe_any)

lemma conf_tx_lut_safe:
  "i < length (lut t) \<Longrightarrow>
   safe (\<lambda>t'. length (lut t') = length (lut t) \<and> lut_size t' \<le> Suc (lut_size t)) (conf_tx_lut conf_obj i t)"
  by (auto simp: conf_tx_lut_def intro!: safe_any safe_bindr_st)

lemma conf_tx_luts_safe:
  "\<forall>i\<in>set is. i < n \<Longrightarrow> length (lut t) = n \<Longrightarrow>
   safe (\<lambda>t'. length (lut t') = n \<and> lut_size t' \<le> lut_size t + length is) (each_res (conf_tx_lut conf_obj) is t)"
proof (induction "is" arbitrary: t)
  case (Cons i "is")
  show ?case
    unfolding each_res.simps
  proof (rule safe_bindr [OF conf_tx_lut_safe])
    fix t' :: tx_gain_lut assume t': "length (lut t') = length (lut t) \<and> lut_size t' \<le> Suc (lut_size t)"
    have "safe (\<lambda>t''. length (lut t'') = n \<and> lut_size t'' \<le> lut_size t' + length is) (each_res (conf_tx_lut conf_obj) is t')"
      by (rule Cons.IH) (use Cons.prems t' in auto)
    then show "safe (\<lambda>t''. length (lut t'') = n \<and> lut_size t'' \<le> lut_size t + length (i # is)) (each_res (conf_tx_lut conf_obj) is t')"
      by (rule safe_mono) (use t' in auto)
  qed (use Cons.prems in auto)
qed auto

lemma conf_txlut_part_safe:
  assumes "radio_wf H s"
  shows "radio_safe H (conf_txlut_part H conf_obj s)"
  unfolding conf_txlut_part_def Let_def
proof (rule safe_bindr [OF conf_tx_luts_safe])
  fix t :: tx_gain_lut assume "length (lut t) = TX_GAIN_LUT_SIZE_MAX H \<and>
    lut_size t \<le> lut_size (txlut_zero (TX_GAIN_LUT_SIZE_MAX H)) + length [0..<TX_GAIN_LUT_SIZE_MAX H]"
  then have "radio_wf H (s\<lparr>txlut := t\<rparr>)"
    using assms by (simp add: radio_wf_def txlut_zero_def)
  then show "radio_safe H (if 0 < lut_size t then submit H (Txgain_setconf t) (s\<lparr>txlut := t\<rparr>) else Inr (True, s\<lparr>txlut := t\<rparr>))"
    by (simp add: submit_safe)
qed (auto simp: txlut_zero_def)

lemma conf_radio_tx_safe:
  "radio_wf H s \<Longrightarrow> i < LGW_RF_CHAIN_NB H \<Longrightarrow> safe (\<lambda>(_, s). radio_wf H s) (conf_radio_tx conf_obj i rf s)"
  by (auto simp: conf_radio_tx_def Let_def radio_wf_def intro!: safe_any safe_bindr_st)

lemma conf_radio_safe:
  assumes "radio_wf H s" and "i < LGW_RF_CHAIN_NB H"
  shows "radio_safe H (conf_radio H conf_obj i s)"
  using assms unfolding conf_radio_def Let_def
  by (auto simp: radio_type_of_def split: option.split intro!: safe_any submit_safe
      safe_bindr [OF conf_radio_tx_safe [OF assms]])

lemma conf_if_safe:
  assumes "radio_wf H s"
  shows "radio_safe H (conf_multiSF H conf_obj i s)" "radio_safe H (conf_lora_std H conf_obj s)"
    "radio_safe H (conf_fsk H conf_obj s)"
  using assms by (auto simp: conf_multiSF_def conf_lora_std_def conf_fsk_def intro!: safe_any submit_safe)

lemma conf_SX1301_safe: "radio_wf H s \<Longrightarrow> radio_safe H (conf_SX1301 H conf_obj s)"
  unfolding conf_SX1301_def
  by (intro safe_andgo safe_bindr [OF conf_antenna_part_safe] safe_each conf_board_part_safe conf_lbt_part_safe
      conf_txlut_part_safe conf_radio_safe conf_if_safe) auto

lemma conf_object_safe: "safe (\<lambda>_. True) (conf_object f n)"
  by (auto simp: conf_object_def split: option.split)

lemma parse_SX1301_safe: "radio_wf H s \<Longrightarrow> radio_safe H (parse_SX1301_configuration H f s)"
  unfolding parse_SX1301_configuration_def
  by (intro safe_any conf_object_safe) (auto split: option.split intro: conf_SX1301_safe)


section \<open>The gateway's part\<close>

text \<open>The strings fit their arrays with the NUL.\<close>

definition gateway_wf :: "gateway_conf \<Rightarrow> bool" where
  "gateway_wf g \<longleftrightarrow> length (serv_addr g) < 65 \<and> length (serv_port_up g) < 8 \<and> length (serv_port_down g) < 8 \<and>
     length (gps_tty_path g) < 65"

definition period_ok :: "gateway_conf \<Rightarrow> bool" where
  "period_ok g \<longleftrightarrow> beacon_period (beacon_conf g) = 0 \<or> 6 \<le> beacon_period (beacon_conf g)"

text \<open>Well formed, and the beacon period is still \<open>n\<close>.\<close>

definition gw_keeps :: "u32 \<Rightarrow> gateway_conf \<Rightarrow> bool" where
  "gw_keeps n g \<longleftrightarrow> gateway_wf g \<and> beacon_period (beacon_conf g) = n"

lemma half_timeout_safe: "safe (\<lambda>_. True) (half_timeout d)"
  by (auto simp: half_timeout_def intro!: safe_bindr [OF safe_dbl_to_int])

lemma set_number_safe:
  "(\<And>d. safe (\<lambda>_. True) (cnv d)) \<Longrightarrow> (\<And>x. P (upd x s)) \<Longrightarrow> P s \<Longrightarrow> safe P (set_number obj name cnv upd s)"
  by (auto simp: set_number_def split: option.split intro!: safe_any)

lemma set_number_gw:
  assumes "\<And>d. safe (\<lambda>_. True) (cnv d)" and "\<And>x s. gw_keeps n s \<Longrightarrow> gw_keeps n (upd x s)" and "gw_keeps n g"
  shows "safe (gw_keeps n) (set_number obj name cnv upd g)"
  using assms by (intro set_number_safe) auto

lemma set_string_gw:
  assumes "\<And>x s. gw_keeps n s \<Longrightarrow> gw_keeps n (upd x s)" and "gw_keeps n g"
  shows "gw_keeps n (set_string obj name upd g)"
  using assms by (auto simp: set_string_def split: option.split)

lemma set_boolean_gw:
  assumes "\<And>x s. gw_keeps n s \<Longrightarrow> gw_keeps n (upd x s)" and "gw_keeps n g"
  shows "gw_keeps n (set_boolean obj name upd g)"
  using assms by (auto simp: set_boolean_def split: option.split json_value.split)

lemma set_number_beacon:
  assumes "\<And>d. safe (\<lambda>_. True) (cnv d)" and "\<And>x b. beacon_period (upd x b) = beacon_period b" and "beacon_period b = n"
  shows "safe (\<lambda>b. beacon_period b = n) (set_number obj name cnv upd b)"
  using assms by (intro set_number_safe) auto

lemmas gw_rules = set_number_gw set_string_gw set_boolean_gw half_timeout_safe safe_conversions safe_bindr [where Q = "gw_keeps n" for n]

lemma conf_network_safe: "gw_keeps n g \<Longrightarrow> safe (gw_keeps n) (conf_network obj g)"
  unfolding conf_network_def Let_def
  by (intro gw_rules) (auto simp: gw_keeps_def gateway_wf_def strncpy_safe_def port_text_def)

lemma conf_filter_keeps: "gw_keeps n g \<Longrightarrow> gw_keeps n (conf_filter obj g)"
  by (simp add: conf_filter_def gw_keeps_def gateway_wf_def Let_def)

lemma conf_gps_safe: "gw_keeps n g \<Longrightarrow> safe (gw_keeps n) (conf_gps obj g)"
  unfolding conf_gps_def Let_def
  by (intro gw_rules safe_rules [THEN iffD2]) (auto simp: gw_keeps_def gateway_wf_def strncpy_safe_def)

lemma conf_beacon_safe: "beacon_period b = n \<Longrightarrow> safe (\<lambda>b. beacon_period b = n) (conf_beacon obj b)"
  unfolding conf_beacon_def
  by (intro safe_bindr [where Q = "\<lambda>b. beacon_period b = n"] set_number_beacon safe_conversions) simp_all

lemma conf_beacon_period_safe:
  assumes "gateway_wf g"
  shows "safe (\<lambda>(ok, g'). gateway_wf g' \<and> (ok \<longrightarrow> period_ok g' \<or> beacon_conf g' = beacon_conf g)) (conf_beacon_period obj g)"
proof (cases "json_object_get_value obj (lit ''beacon_period'')")
  case (Some v)
  have "safe (\<lambda>(ok, g'). gateway_wf g' \<and> (ok \<longrightarrow> period_ok g')) (conf_beacon_period obj g)"
    unfolding conf_beacon_period_def set_number_def Some option.case bindr_assoc
    using assms by (intro safe_any [OF safe_conversions(5)])
      (auto simp: Let_def gateway_wf_def period_ok_def word_less_nat_alt word_le_nat_alt unat_eq_0)
  then show ?thesis by (rule safe_mono) auto
qed (use assms in \<open>simp add: conf_beacon_period_def set_number_def Let_def\<close>)

lemma conf_rest_safe:
  assumes "gateway_wf g"
  shows "safe (\<lambda>(ok, g'). gateway_wf g' \<and> beacon_period (beacon_conf g') = beacon_period (beacon_conf g))
     (bindr (conf_beacon obj (beacon_conf g)) (\<lambda>b.
      bindr (set_number obj ''autoquit_threshold'' dbl_to_u32 (\<lambda>n g. g\<lparr>autoquit_threshold := n\<rparr>) (g\<lparr>beacon_conf := b\<rparr>)) (\<lambda>g.
      Inr (True, g))))"
proof (rule safe_bindr [OF conf_beacon_safe [OF refl]])
  fix b :: beacon_cfg assume "beacon_period b = beacon_period (beacon_conf g)"
  then have "gw_keeps (beacon_period (beacon_conf g)) (g\<lparr>beacon_conf := b\<rparr>)"
    using assms by (simp add: gw_keeps_def gateway_wf_def)
  then show "safe (\<lambda>(ok, g'). gateway_wf g' \<and> beacon_period (beacon_conf g') = beacon_period (beacon_conf g))
     (bindr (set_number obj ''autoquit_threshold'' dbl_to_u32 (\<lambda>n g. g\<lparr>autoquit_threshold := n\<rparr>) (g\<lparr>beacon_conf := b\<rparr>)) (\<lambda>g.
      Inr (True, g)))"
    by (intro safe_bindr [OF set_number_gw]) (auto simp: gw_keeps_def gateway_wf_def)
qed

lemma conf_gateway_safe:
  assumes "gateway_wf g"
  shows "safe (\<lambda>(ok, g'). gateway_wf g' \<and> (ok \<and> period_ok g \<longrightarrow> period_ok g')) (conf_gateway obj g)"
  unfolding conf_gateway_def
proof (intro safe_bindr [OF conf_network_safe] safe_bindr [OF conf_gps_safe [OF conf_filter_keeps]])
  let ?n = "beacon_period (beacon_conf g)"
  show "gw_keeps ?n g" using assms by (simp add: gw_keeps_def)
  fix g1 g2 assume "gw_keeps ?n g1" and g2: "gw_keeps ?n g2"
  then show "gw_keeps ?n g1" by simp
  have p: "safe (\<lambda>(ok, g'). gateway_wf g' \<and> (ok \<and> period_ok g \<longrightarrow> period_ok g')) (conf_beacon_period obj g2)"
    using g2 by (intro safe_mono [OF conf_beacon_period_safe]) (auto simp: gw_keeps_def period_ok_def)
  show "safe (\<lambda>(ok, g'). gateway_wf g' \<and> (ok \<and> period_ok g \<longrightarrow> period_ok g'))
     (andgo (conf_beacon_period obj g2) (\<lambda>g. bindr (conf_beacon obj (beacon_conf g)) (\<lambda>b.
        bindr (set_number obj ''autoquit_threshold'' dbl_to_u32 (\<lambda>n g. g\<lparr>autoquit_threshold := n\<rparr>) (g\<lparr>beacon_conf := b\<rparr>)) (\<lambda>g.
        Inr (True, g)))))"
    unfolding andgo_def
  proof (rule safe_bindr [OF p], clarify)
    fix ok g3 assume g3: "gateway_wf g3" "ok \<and> period_ok g \<longrightarrow> period_ok g3"
    show "safe (\<lambda>(ok, g'). gateway_wf g' \<and> (ok \<and> period_ok g \<longrightarrow> period_ok g'))
       (if ok then bindr (conf_beacon obj (beacon_conf g3)) (\<lambda>b.
          bindr (set_number obj ''autoquit_threshold'' dbl_to_u32 (\<lambda>n g. g\<lparr>autoquit_threshold := n\<rparr>) (g3\<lparr>beacon_conf := b\<rparr>)) (\<lambda>g.
          Inr (True, g))) else Inr (False, g3))"
      using g3 by (cases ok) (auto simp: period_ok_def intro!: safe_mono [OF conf_rest_safe])
  qed
qed

lemma parse_gateway_safe:
  "gateway_wf g \<Longrightarrow>
   safe (\<lambda>(ok, g'). gateway_wf g' \<and> (ok \<and> period_ok g \<longrightarrow> period_ok g')) (parse_gateway_configuration f g)"
  unfolding parse_gateway_configuration_def
  by (intro safe_any conf_object_safe) (auto split: option.split intro: conf_gateway_safe)

section \<open>All files\<close>

definition conf_wf :: "hal_conf \<Rightarrow> conf \<Rightarrow> bool" where
  "conf_wf H c \<longleftrightarrow> radio_wf H (conf_radio_part c) \<and> gateway_wf (conf_gateway_part c)"

lemma conf_start_wf: "conf_wf H (conf_start H)" "period_ok (conf_gateway_part (conf_start H))"
  by (simp_all add: conf_wf_def conf_start_def radio_init_def radio_wf_def txlut_zero_def gateway_wf_def
      gateway_default_def period_ok_def)

lemma read_config_safe:
  assumes "conf_wf H c" and "period_ok (conf_gateway_part c)"
  shows "safe (\<lambda>c. conf_wf H c \<and> period_ok (conf_gateway_part c)) (read_config H f c)"
  unfolding read_config_def
  using assms by (auto simp: conf_wf_def intro!: safe_bindr [OF parse_SX1301_safe] safe_bindr [OF parse_gateway_safe] split: if_split_asm)

lemma read_local_config_safe:
  assumes "conf_wf H c"
  shows "safe (conf_wf H) (read_local_config H f c)"
  unfolding read_local_config_def
  using assms by (auto simp: conf_wf_def intro!: safe_bindr [OF parse_SX1301_safe] safe_bindr [OF parse_gateway_safe] split: if_split_asm)

lemma load_configuration_safe:
  "safe (\<lambda>c. conf_wf H c \<and> (d \<noteq> None \<or> g = None \<or> l = None \<longrightarrow> period_ok (conf_gateway_part c)))
     (load_configuration H d g l (conf_start H))"
proof -
  have strict: "safe (\<lambda>c. conf_wf H c \<and> period_ok (conf_gateway_part c)) (read_config H f (conf_start H))" for f
    by (rule read_config_safe [OF conf_start_wf])
  have weak: "safe (\<lambda>c. conf_wf H c \<and> (P \<longrightarrow> period_ok (conf_gateway_part c))) (read_config H f (conf_start H))" for P f
    by (rule safe_mono [OF strict]) simp
  show ?thesis
    unfolding load_configuration_def
    by (auto split: option.split intro!: weak strict safe_bindr [OF strict] read_local_config_safe)
qed

end
