(* ===== verification/Config_Properties.thy ===== *)
theory Config_Properties
  imports Config_Correct
begin

unbundle bit_operations_syntax

text \<open>
  Properties of the configuration: bounds, the gateway address, the gain table and the downlinks it admits,
  and the two surprises a local file has for the settings of the global one.
\<close>

section \<open>Partial correctness\<close>

text \<open>\<open>ends P r\<close>: if there is a value, it satisfies \<open>P\<close>.\<close>

definition ends :: "('a \<Rightarrow> bool) \<Rightarrow> 'a res \<Rightarrow> bool" where
  "ends P r \<longleftrightarrow> (\<forall>x. r = Inr x \<longrightarrow> P x)"

lemma ends_simps [simp]: "ends P (Inr x) \<longleftrightarrow> P x" "ends P (Inl e)"
  by (simp_all add: ends_def)

lemma endsD: "ends P r \<Longrightarrow> r = Inr x \<Longrightarrow> P x"
  by (simp add: ends_def)

lemma ends_bindr: "ends Q m \<Longrightarrow> (\<And>x. Q x \<Longrightarrow> ends P (f x)) \<Longrightarrow> ends P (bindr m f)"
  by (cases m) auto

lemma ends_any: "(\<And>x. ends P (f x)) \<Longrightarrow> ends P (bindr m f)"
  by (cases m) auto

lemma ends_mono: "ends Q m \<Longrightarrow> (\<And>x. Q x \<Longrightarrow> P x) \<Longrightarrow> ends P m"
  by (auto simp: ends_def)

lemma ends_st: "(i < length xs \<Longrightarrow> ends P (f (xs[i := v]))) \<Longrightarrow> ends P (bindr (st xs i v) f)"
  by (simp add: st_def)

lemma ends_number: "(\<And>x. ends P (f x)) \<Longrightarrow> ends P (bindr (number_or cnv d v) f)"
  by (rule ends_any)

section \<open>What leaves the gain table alone\<close>

text \<open>A part that leaves \<open>get s\<close> as it is, whether it goes on or not.\<close>

definition leaves :: "('s \<Rightarrow> 'v) \<Rightarrow> 'v \<Rightarrow> (bool \<times> 's) res \<Rightarrow> bool" where
  "leaves get v = ends (\<lambda>(_, s). get s = v)"

lemma leaves_Inr [simp]: "leaves get v (Inr (ok, s)) \<longleftrightarrow> get s = v"
  by (simp add: leaves_def)

lemma leaves_andgo: "leaves get v m \<Longrightarrow> (\<And>s. get s = v \<Longrightarrow> leaves get v (f s)) \<Longrightarrow> leaves get v (andgo m f)"
  by (cases m) (auto simp: leaves_def andgo_def)

lemma leaves_each: "(\<And>i s. get s = v \<Longrightarrow> leaves get v (f i s)) \<Longrightarrow> get s = v \<Longrightarrow> leaves get v (each f is s)"
  by (induction "is" arbitrary: s) (auto intro: leaves_andgo)

lemma leaves_any: "(\<And>x. leaves get v (f x)) \<Longrightarrow> leaves get v (bindr m f)"
  unfolding leaves_def by (rule ends_any)

lemma submit_leaves: "txlut s = t \<Longrightarrow> leaves txlut t (submit H c s)"
  by (simp add: submit_def)

lemma parts_leave:
  assumes "txlut s = t"
  shows "leaves txlut t (conf_board_part H conf_obj s)" "leaves txlut t (conf_lbt_part H conf_obj s)"
    "leaves txlut t (conf_multiSF H conf_obj i s)" "leaves txlut t (conf_lora_std H conf_obj s)"
    "leaves txlut t (conf_fsk H conf_obj s)"
  using assms by (auto simp: conf_board_part_def conf_lbt_part_def conf_multiSF_def conf_lora_std_def conf_fsk_def Let_def
      split: option.split intro!: leaves_any submit_leaves)

lemma conf_radio_leaves:
  assumes s: "txlut s = t"
  shows "leaves txlut t (conf_radio H conf_obj i s)"
proof -
  have tx: "ends (\<lambda>(_, s'). txlut s' = t) (conf_radio_tx conf_obj i rf s)" for rf
    using s by (auto simp: conf_radio_tx_def Let_def intro!: ends_any)
  have "leaves txlut t (bindr (conf_radio_tx conf_obj i rf s) (\<lambda>(rf, s). submit H (Rxrf_setconf i rf) s))" for rf
    unfolding leaves_def by (rule ends_bindr [OF tx]) (auto simp: submit_leaves [unfolded leaves_def])
  note radio = leaves_any [OF leaves_any [OF this]]
  show ?thesis
    unfolding conf_radio_def Let_def
    by (auto simp: s submit_leaves [OF s] intro: radio)
qed

lemma rest_leaves:
  assumes "txlut s = t"
  shows "leaves txlut t
     (andgo (each (conf_radio H conf_obj) is s) (\<lambda>s.
      andgo (each (conf_multiSF H conf_obj) js s) (\<lambda>s.
      andgo (conf_lora_std H conf_obj s) (\<lambda>s. conf_fsk H conf_obj s))))"
  using assms by (intro leaves_andgo leaves_each conf_radio_leaves parts_leave)

section \<open>The gain table\<close>

text \<open>Is there an entry \<open>i\<close>, and the power it is read with.\<close>

definition lut_present :: "json_object option \<Rightarrow> nat \<Rightarrow> bool" where
  "lut_present conf_obj i = param_present conf_obj (param_name ''tx_lut_'' i '''')"

definition lut_power :: "json_object option \<Rightarrow> nat \<Rightarrow> u8 res" where
  "lut_power conf_obj i = number_or dbl_to_s8 0 (param_value conf_obj ''tx_lut_'' i ''.rf_power'')"

lemma conf_tx_lut_entry:
  "ends (\<lambda>t'. length (lut t') = length (lut t) \<and>
     (if lut_present conf_obj i then
        lut_size t' = Suc (lut_size t) \<and> i < length (lut t) \<and> lut_power conf_obj i = Inr (lut_rf_power (lut t' ! i)) \<and>
        (\<forall>j. j \<noteq> i \<longrightarrow> lut t' ! j = lut t ! j)
      else t' = t)) (conf_tx_lut conf_obj i t)"
proof (cases "lut_present conf_obj i")
  case True
  show ?thesis
    unfolding conf_tx_lut_def
    using True by (cases "lut_power conf_obj i")
      (auto simp: lut_present_def [symmetric] lut_power_def [symmetric] intro!: ends_number ends_st)
qed (simp add: conf_tx_lut_def lut_present_def)

lemma conf_tx_luts_entries:
  "ends (\<lambda>t'. length (lut t') = length (lut t) \<and> lut_size t' = lut_size t + length (filter (lut_present conf_obj) is) \<and>
     (\<forall>j. if j \<in> set is \<and> lut_present conf_obj j then lut_power conf_obj j = Inr (lut_rf_power (lut t' ! j))
          else lut t' ! j = lut t ! j)) (each_res (conf_tx_lut conf_obj) is t)"
proof (induction "is" arbitrary: t)
  case (Cons i "is")
  show ?case
    unfolding each_res.simps
  proof (rule ends_bindr [OF conf_tx_lut_entry], rule ends_mono [OF Cons.IH])
    fix t1 t2 :: tx_gain_lut
    assume 1: "length (lut t1) = length (lut t) \<and>
       (if lut_present conf_obj i then
          lut_size t1 = Suc (lut_size t) \<and> i < length (lut t) \<and> lut_power conf_obj i = Inr (lut_rf_power (lut t1 ! i)) \<and>
          (\<forall>j. j \<noteq> i \<longrightarrow> lut t1 ! j = lut t ! j)
        else t1 = t)"
      and 2: "length (lut t2) = length (lut t1) \<and> lut_size t2 = lut_size t1 + length (filter (lut_present conf_obj) is) \<and>
        (\<forall>j. if j \<in> set is \<and> lut_present conf_obj j then lut_power conf_obj j = Inr (lut_rf_power (lut t2 ! j))
             else lut t2 ! j = lut t1 ! j)"
    show "length (lut t2) = length (lut t) \<and> lut_size t2 = lut_size t + length (filter (lut_present conf_obj) (i # is)) \<and>
       (\<forall>j. if j \<in> set (i # is) \<and> lut_present conf_obj j then lut_power conf_obj j = Inr (lut_rf_power (lut t2 ! j))
            else lut t2 ! j = lut t ! j)"
      using 1 2 by (auto split: if_splits)
  qed
qed simp

text \<open>The table after a file with an object \<open>SX1301_conf\<close>.\<close>

definition table_of :: "hal_conf \<Rightarrow> json_object option \<Rightarrow> tx_gain_lut \<Rightarrow> bool" where
  "table_of H conf_obj t \<longleftrightarrow>
     length (lut t) = TX_GAIN_LUT_SIZE_MAX H \<and>
     lut_size t = length (filter (lut_present conf_obj) [0..<TX_GAIN_LUT_SIZE_MAX H]) \<and>
     (\<forall>j < TX_GAIN_LUT_SIZE_MAX H.
        if lut_present conf_obj j then lut_power conf_obj j = Inr (lut_rf_power (lut t ! j))
        else lut_rf_power (lut t ! j) = 0)"

lemma conf_txlut_table:
  "ends (\<lambda>(_, s'). table_of H conf_obj (txlut s')) (conf_txlut_part H conf_obj s)"
  unfolding conf_txlut_part_def
proof (rule ends_bindr [OF conf_tx_luts_entries])
  fix t :: tx_gain_lut
  let ?z = "txlut_zero (TX_GAIN_LUT_SIZE_MAX H)"
  assume t: "length (lut t) = length (lut ?z) \<and>
     lut_size t = lut_size ?z + length (filter (lut_present conf_obj) [0..<TX_GAIN_LUT_SIZE_MAX H]) \<and>
     (\<forall>j. if j \<in> set [0..<TX_GAIN_LUT_SIZE_MAX H] \<and> lut_present conf_obj j
          then lut_power conf_obj j = Inr (lut_rf_power (lut t ! j)) else lut t ! j = lut ?z ! j)"
  have "table_of H conf_obj t"
    unfolding table_of_def
  proof (intro conjI allI impI)
    fix j assume j: "j < TX_GAIN_LUT_SIZE_MAX H"
    show "if lut_present conf_obj j then lut_power conf_obj j = Inr (lut_rf_power (lut t ! j)) else lut_rf_power (lut t ! j) = 0"
      using conjunct2 [OF conjunct2 [OF t], THEN spec, of j] j by (simp add: txlut_zero_def split: if_splits)
  qed (use t in \<open>simp_all add: txlut_zero_def\<close>)
  then show "ends (\<lambda>(_, s'). table_of H conf_obj (txlut s'))
     (let s = s\<lparr>txlut := t\<rparr> in if 0 < lut_size t then submit H (Txgain_setconf t) s else Inr (True, s))"
    by (simp add: submit_def Let_def)
qed

text \<open>The function goes on beyond the gain table only if nothing before it was refused.\<close>

lemma conf_SX1301_table: "ends (\<lambda>(ok, s'). ok \<longrightarrow> table_of H conf_obj (txlut s')) (conf_SX1301 H conf_obj s)"
proof -
  let ?P = "\<lambda>(ok, s'). ok \<longrightarrow> table_of H conf_obj (txlut s')"
  have step: "ends ?P (andgo m f)" if "\<And>s. m = Inr (True, s) \<Longrightarrow> ends ?P (f s)" for m and f :: "radio_conf \<Rightarrow> _"
    using that by (cases m) (auto simp: andgo_def ends_def split: if_splits)
  show ?thesis
    unfolding conf_SX1301_def
  proof (rule step, rule step, rule ends_any, rule step)
    fix s1 s2 assume "conf_txlut_part H conf_obj s1 = Inr (True, s2)"
    then have "table_of H conf_obj (txlut s2)"
      using endsD [OF conf_txlut_table [of H conf_obj s1]] by simp
    then show "ends ?P (andgo (each (conf_radio H conf_obj) [0..<LGW_RF_CHAIN_NB H] s2) (\<lambda>s.
        andgo (each (conf_multiSF H conf_obj) [0..<LGW_MULTI_NB H] s) (\<lambda>s.
        andgo (conf_lora_std H conf_obj s) (\<lambda>s. conf_fsk H conf_obj s))))"
      by (intro ends_mono [OF rest_leaves [OF refl, unfolded leaves_def]]) auto
  qed
qed

section \<open>What the downlink check sees\<close>

lemma parse_SX1301_table:
  assumes "conf_object f ''SX1301_conf'' = Inr (Some obj)" and "parse_SX1301_configuration H f s = Inr (True, r)"
  shows "table_of H (Some obj) (txlut r)"
  using assms endsD [OF conf_SX1301_table [of H "Some obj" s]] by (auto simp: parse_SX1301_configuration_def)

lemma read_config_table:
  assumes "conf_object f ''SX1301_conf'' = Inr (Some obj)" and "read_config H f c0 = Inr c"
  shows "table_of H (Some obj) (txlut (conf_radio_part c))"
  using assms parse_SX1301_table [OF assms(1), of H "conf_radio_part c0"]
  by (auto simp: read_config_def bindr_eq_Inr_iff split: if_splits)

lemma gw_txlut_table:
  assumes t: "table_of H obj (txlut (conf_radio_part c))"
  shows "length (gw_txlut (gateway_of c on valid ref)) = length (filter (lut_present obj) [0..<TX_GAIN_LUT_SIZE_MAX H])"
    and "i < length (gw_txlut (gateway_of c on valid ref)) \<Longrightarrow>
      if lut_present obj i then lut_power obj i = Inr (gw_txlut (gateway_of c on valid ref) ! i)
      else gw_txlut (gateway_of c on valid ref) ! i = 0"
proof -
  have "length (filter (lut_present obj) [0..<TX_GAIN_LUT_SIZE_MAX H]) \<le> TX_GAIN_LUT_SIZE_MAX H"
    using length_filter_le [of "lut_present obj" "[0..<TX_GAIN_LUT_SIZE_MAX H]"] by simp
  then show len: "length (gw_txlut (gateway_of c on valid ref)) = length (filter (lut_present obj) [0..<TX_GAIN_LUT_SIZE_MAX H])"
    using t by (simp add: table_of_def gateway_of_def Let_def)
  show "if lut_present obj i then lut_power obj i = Inr (gw_txlut (gateway_of c on valid ref) ! i)
      else gw_txlut (gateway_of c on valid ref) ! i = 0"
    if "i < length (gw_txlut (gateway_of c on valid ref))"
    using that t by (auto simp: table_of_def gateway_of_def Let_def)
qed

lemma filter_upto_less: "n \<le> m \<Longrightarrow> filter (\<lambda>i. i < n) [0..<m] = [0..<n]"
  by (induction m) (auto simp: le_Suc_eq filter_empty_conv)

text \<open>
  C37. When \<open>main\<close> gets through a configuration file, which it does only if the library refused nothing, and the entries
  \<open>tx_lut_0\<close>, \<open>tx_lut_1\<close>, ... of the file leave no gap, the gain table has exactly their powers; and a downlink on an existing
  radio and within that radio's frequency limits passes the check exactly if its power is one of them. With a gap this is false,
  see \<open>gain_table_gap\<close>.
\<close>

theorem gain_table_follows_file:
  assumes "conf_object f ''SX1301_conf'' = Inr (Some obj)" and "read_config H f c0 = Inr c"
    and n: "n \<le> TX_GAIN_LUT_SIZE_MAX H" and present: "\<forall>i < TX_GAIN_LUT_SIZE_MAX H. lut_present (Some obj) i \<longleftrightarrow> i < n"
    and gw: "gw = gateway_of c on valid ref"
    and chain: "unat (rf_chain p) < length (gw_tx_freq_min gw)" "unat (rf_chain p) < length (gw_tx_freq_max gw)"
    and freq: "gw_tx_freq_min gw ! unat (rf_chain p) \<le> freq_hz p" "freq_hz p \<le> gw_tx_freq_max gw ! unat (rf_chain p)"
  shows "map Inr (gw_txlut gw) = map (lut_power (Some obj)) [0..<n] \<and>
    (check_tx gw p = Inr JIT_ERROR_OK \<longleftrightarrow> (\<exists>i < n. lut_power (Some obj) i = Inr (rf_power p)))"
proof -
  note t = read_config_table [OF assms(1,2)]
  have "filter (lut_present (Some obj)) [0..<TX_GAIN_LUT_SIZE_MAX H] = filter (\<lambda>i. i < n) [0..<TX_GAIN_LUT_SIZE_MAX H]"
    using present by (intro filter_cong) auto
  then have len: "length (gw_txlut gw) = n"
    using gw_txlut_table(1) [OF t] gw n by (simp add: filter_upto_less)
  have nth: "lut_power (Some obj) i = Inr (gw_txlut gw ! i)" if "i < n" for i
    using gw_txlut_table(2) [OF t, of i] that len n present gw by (auto split: if_splits)
  have "map Inr (gw_txlut gw) = map (lut_power (Some obj)) [0..<n]"
    using len nth by (intro nth_equalityI) auto
  moreover have "check_tx gw p = Inr JIT_ERROR_OK \<longleftrightarrow> rf_power p \<in> set (gw_txlut gw)"
    using chain freq by (simp add: check_tx_def leD)
  moreover have "rf_power p \<in> set (gw_txlut gw) \<longleftrightarrow> (\<exists>i < n. lut_power (Some obj) i = Inr (rf_power p))"
    using len nth by (auto simp: in_set_conv_nth)
  ultimately show ?thesis by simp
qed

text \<open>
  An entry behind a gap is stored beyond \<open>txlut.size\<close>: a power that only the last entry has is not in the
  table, and downlinks with it are rejected.
\<close>

theorem gain_table_gap:
  assumes "conf_object f ''SX1301_conf'' = Inr (Some obj)" and "read_config H f c0 = Inr c"
    and k: "k < TX_GAIN_LUT_SIZE_MAX H" "\<forall>i < TX_GAIN_LUT_SIZE_MAX H. lut_present (Some obj) i \<longrightarrow> i \<le> k"
    and gap: "j < k" "\<not> lut_present (Some obj) j"
    and pow: "rf_power p \<noteq> 0" "\<forall>i. i \<noteq> k \<longrightarrow> lut_power (Some obj) i \<noteq> Inr (rf_power p)"
  shows "check_tx (gateway_of c on valid ref) p \<noteq> Inr JIT_ERROR_OK"
proof -
  let ?gw = "gateway_of c on valid ref" and ?max = "TX_GAIN_LUT_SIZE_MAX H"
  note t = read_config_table [OF assms(1,2)]
  have "length (filter (lut_present (Some obj)) [0..<?max]) = card {i. i < ?max \<and> lut_present (Some obj) i}"
    by (simp add: length_filter_conv_card conj_commute cong: conj_cong)
  also have "\<dots> \<le> card ({..k} - {j})"
    using k gap by (intro card_mono) auto
  also have "\<dots> = k" using gap by simp
  finally have len: "length (gw_txlut ?gw) \<le> k"
    using gw_txlut_table(1) [OF t] by simp
  have "gw_txlut ?gw ! i \<noteq> rf_power p" if "i < length (gw_txlut ?gw)" for i
    using gw_txlut_table(2) [OF t that] that len pow by (auto split: if_splits)
  then have "rf_power p \<notin> set (gw_txlut ?gw)" by (auto simp: in_set_conv_nth)
  then show ?thesis by (auto simp: check_tx_def bindr_eq_Inr_iff split: if_splits)
qed

text \<open>
  A local file that has an object \<open>SX1301_conf\<close> without gain entries does not just keep those of
  the global file: when the library refuses nothing, the table is empty afterwards and no downlink passes the check any more, whatever
  the global file defines.
\<close>

theorem local_conf_empties_gain_table:
  assumes "load_configuration H None (Some gf) None c0 = Inr c1" and "load_configuration H None (Some gf) (Some lf) c0 = Inr c"
    and "conf_object lf ''SX1301_conf'' = Inr (Some obj)" and "parse_SX1301_configuration H lf (conf_radio_part c1) = Inr (True, r)"
    and "\<forall>i < TX_GAIN_LUT_SIZE_MAX H. \<not> lut_present (Some obj) i"
  shows "gw_txlut (gateway_of c on valid ref) = [] \<and> check_tx (gateway_of c on valid ref) p \<noteq> Inr JIT_ERROR_OK"
proof -
  have "conf_radio_part c = r"
    using assms(1,2,4) by (auto simp: load_configuration_def read_local_config_def bindr_eq_Inr_iff)
  then have t: "table_of H (Some obj) (txlut (conf_radio_part c))"
    using parse_SX1301_table [OF assms(3,4)] by simp
  then have "gw_txlut (gateway_of c on valid ref) = []"
    using gw_txlut_table(1) [OF t] assms(5) by (simp add: filter_empty_conv)
  then show ?thesis
    by (auto simp: check_tx_def bindr_eq_Inr_iff split: if_splits)
qed

section \<open>Reading the files\<close>

text \<open>
  C10. Reading the configuration never leaves an array, for any files and any answers of the library. What
  it leaves behind is well formed: the tables have their sizes, \<open>txlut.size\<close> is within the table, the
  strings fit; and unless a local file followed a global one, the beacon period is 0 or at least 6.
\<close>

theorem config_within_bounds:
  "load_configuration H d g l (conf_start H) \<noteq> Inl OutOfBounds \<and>
   (\<forall>c. load_configuration H d g l (conf_start H) = Inr c \<longrightarrow>
      conf_wf H c \<and> (d \<noteq> None \<or> g = None \<or> l = None \<longrightarrow> period_ok (conf_gateway_part c)))"
  using load_configuration_safe [of H d g l] by (auto simp: safe_def)

text \<open>
  A beacon period of 1 to 5 seconds is refused, also in a local file, but by then it has been stored,
  and after a global file nobody looks at the refusal: the program goes on with the bad period. As
  the only file, the same file ends the program.
\<close>

theorem local_conf_bad_beacon_period:
  assumes "load_configuration H None (Some gf) (Some lf) c0 = Inr c"
    and "conf_object lf ''gateway_conf'' = Inr (Some obj)"
    and period: "json_object_get_value (Some obj) (lit ''beacon_period'') = Some (JSONNumber (Fin (of_int n)))" "0 < n" "n < 6"
  shows "beacon_period (beacon_conf (conf_gateway_part c)) = word_of_int n \<and>
    \<not> period_ok (conf_gateway_part c) \<and> (\<forall>c1. \<not> (\<exists>c2. load_configuration H None None (Some lf) c1 = Inr c2))"
proof -
  have conv: "dbl_to_u32 (Fin (of_int n)) = Inr (word_of_int n)"
    using period by (simp add: dbl_to_u32_def dbl_to_int_def)
  have n: "0 < (word_of_int n :: u32)" "(word_of_int n :: u32) < 6"
    using period by (simp_all add: word_less_def uint_word_of_int)
  have part: "ends (\<lambda>(ok, g'). \<not> ok \<and> beacon_period (beacon_conf g') = word_of_int n) (conf_gateway (Some obj) g)" for g
    unfolding conf_gateway_def conf_beacon_period_def set_number_def period option.case
    by (intro ends_any) (simp add: json_value_get_number_def conv andgo_def Let_def n)
  have parse: "ends (\<lambda>(ok, g'). \<not> ok \<and> beacon_period (beacon_conf g') = word_of_int n) (parse_gateway_configuration lf g)" for g
    by (simp add: parse_gateway_configuration_def assms(2) part)
  have "beacon_period (beacon_conf (conf_gateway_part c)) = word_of_int n"
    using assms(1) endsD [OF parse] by (auto simp: load_configuration_def read_local_config_def bindr_eq_Inr_iff)
  moreover have "read_config H lf c1 \<noteq> Inr c2" for c1 c2
    using endsD [OF parse] by (auto simp: read_config_def bindr_eq_Inr_iff split: if_splits)
  ultimately show ?thesis
    using n by (auto simp: load_configuration_def period_ok_def)
qed

text \<open>
  An enabled radio without a \<open>type\<close>, or with one that is not a string, is not reported: \<open>strncmp\<close> reads
  through NULL.
\<close>

theorem radio_without_type_null:
  assumes "param_present obj (param_name ''radio_'' i '''')"
    and "param_value obj ''radio_'' i ''.enable'' = Some (JSONBoolean True)"
    and "param_number obj ''radio_'' i ''.freq'' = Fin (of_int hz)" and "0 \<le> hz" and "hz < 2 ^ 32"
    and "json_value_get_string (param_value obj ''radio_'' i ''.type'') = None"
  shows "conf_radio H obj i s = Inl NullDeref"
  using assms by (simp add: conf_radio_def boolean_or_def dbl_to_u32_def dbl_to_int_def radio_type_of_def
      json_object_dotget_string_def param_value_def Let_def)

section \<open>The gateway address\<close>

text \<open>The bytes that pairs of hexadecimal digits stand for.\<close>

fun hex_bytes :: "bytes \<Rightarrow> bytes" where
  "hex_bytes (a # b # ds) = word_of_int (hex_value [a, b]) # hex_bytes ds"
| "hex_bytes ds = []"

lemma hex_digit_less: "isxdigit c \<Longrightarrow> uint (hex_digit c) < 16"
  by (auto simp: isxdigit_def isdigit_def hex_digit_def word_le_def uint_word_ariths unsigned_ucast_eq
      take_bit_int_eq_self mod_pos_pos_trivial)

lemma hex_value_snoc: "hex_value (ds @ [d]) = hex_value ds * 16 + uint (hex_digit d)"
  by (simp add: hex_value_def)

lemma hex_value_append: "hex_value (xs @ ys) = hex_value xs * 16 ^ length ys + hex_value ys"
proof (induction ys rule: rev_induct)
  case (snoc y ys)
  have "hex_value (xs @ ys @ [y]) = hex_value (xs @ ys) * 16 + uint (hex_digit y)"
    using hex_value_snoc [of "xs @ ys" y] by simp
  then show ?case using snoc.IH by (simp add: hex_value_snoc algebra_simps)
qed (simp add: hex_value_def)

lemma hex_value_bounds: "list_all isxdigit ds \<Longrightarrow> 0 \<le> hex_value ds \<and> hex_value ds < 16 ^ length ds"
proof (induction ds rule: rev_induct)
  case (snoc d ds)
  then show ?case using hex_digit_less [of d] by (simp add: hex_value_snoc)
qed (simp add: hex_value_def)

lemma xdigit_facts:
  assumes "isxdigit c"
  shows "\<not> isspace c" "c \<noteq> asc CHR ''-''" "c \<noteq> asc CHR ''+''" "lower c \<noteq> asc CHR ''x''"
  using assms by (auto simp: isxdigit_def isdigit_def isspace_def asc_def lower_def word_le_nat_alt)

lemma scan_llx_digits:
  assumes "list_all isxdigit str" and "length str = 16"
  shows "scan_llx str = word_of_int (hex_value str)"
proof -
  obtain a b s where str: "str = a # b # s" using assms(2) by (auto simp: length_Suc_conv numeral_eq_Suc)
  have x: "isxdigit a" "isxdigit b" using assms(1) str by auto
  have 1: "skip_whitespaces str = str" "cur str = a"
    using xdigit_facts [OF x(1)] by (simp_all add: skip_whitespaces_def cur_def str)
  have 2: "\<not> is_prefix_nocase (lit ''0x'') str"
    using xdigit_facts [OF x(2)] by (auto simp: is_prefix_nocase_def str lit_def asc_def)
  have 3: "takeWhile isxdigit str = str"
    using assms(1) by (simp add: takeWhile_eq_all_conv list_all_iff)
  have 4: "hex_value str < 2 ^ 64"
    using hex_value_bounds [OF assms(1)] assms(2) by simp
  show ?thesis
    unfolding scan_llx_def Let_def 1
    using xdigit_facts [OF x(1)] 2 3 4 by (simp del: takeWhile_eq_all_conv)
qed

lemma ucast_drop_bit_int:
  fixes x :: int
  assumes "0 \<le> x" and "x < 2 ^ LENGTH('a::len)"
  shows "(ucast (drop_bit n (word_of_int x :: 'a word)) :: 'b::len word) = word_of_int (x div 2 ^ n)"
proof -
  have "uint (word_of_int x :: 'a word) = x"
    using assms by (simp add: uint_word_of_int)
  then have "uint (drop_bit n (word_of_int x :: 'a word)) = x div 2 ^ n"
    using assms by (simp only: unsigned_drop_bit_eq) (simp add: drop_bit_eq_div take_bit_int_eq_self)
  then show ?thesis by (metis word_of_int_uint ucast_eq)
qed

lemma div_decomp: "0 \<le> r \<Longrightarrow> r < m \<Longrightarrow> (q * m + r) div m = (q :: int)"
  by simp

lemma byte_word: "(word_of_int (k * 256 + b) :: u8) = word_of_int b"
proof -
  have "(of_int (k * 256 + b) :: u8) = of_int k * of_int 256 + of_int b"
    by (simp only: of_int_add of_int_mult)
  moreover have "(of_int 256 :: u8) = 0" by simp
  ultimately show ?thesis by (simp only: mult_zero_right add_0)
qed

lemma be32_bytes:
  fixes a b c d :: int
  assumes "0 \<le> a" "a < 256" "0 \<le> b" "b < 256" "0 \<le> c" "c < 256" "0 \<le> d" "d < 256"
  shows "be32 (word_of_int (((a * 256 + b) * 256 + c) * 256 + d)) = [word_of_int a, word_of_int b, word_of_int c, word_of_int d]"
proof -
  let ?x = "((a * 256 + b) * 256 + c) * 256 + d"
  have x: "0 \<le> ?x" "?x < 2 ^ LENGTH(32)" using assms by auto
  have "?x div 2 ^ 24 = a" using div_decomp [of "(b * 256 + c) * 256 + d" "2 ^ 24" a] assms
    by (simp add: algebra_simps)
  moreover have "?x div 2 ^ 16 = a * 256 + b" using div_decomp [of "c * 256 + d" "2 ^ 16" "a * 256 + b"] assms
    by (simp add: algebra_simps)
  moreover have "?x div 2 ^ 8 = (a * 256 + b) * 256 + c" using div_decomp [of d "2 ^ 8" "(a * 256 + b) * 256 + c"] assms
    by (simp add: algebra_simps)
  ultimately show ?thesis
    using ucast_drop_bit_int [OF x, of 24, where 'b = 8] ucast_drop_bit_int [OF x, of 16, where 'b = 8]
      ucast_drop_bit_int [OF x, of 8, where 'b = 8] ucast_drop_bit_int [OF x, of 0, where 'b = 8]
    unfolding be32_def by (simp only: byte_word drop_bit_0 id_apply power_0 div_by_1)
qed

lemma be32_hex:
  assumes "list_all isxdigit ds" and "length ds = 8"
  shows "be32 (word_of_int (hex_value ds)) = hex_bytes ds"
proof -
  obtain a b c d e f g h where ds: "ds = [a, b, c, d, e, f, g, h]"
    using assms(2) by (auto simp: length_Suc_conv numeral_eq_Suc)
  have b: "list_all isxdigit [p, q] \<Longrightarrow> 0 \<le> hex_value [p, q] \<and> hex_value [p, q] < 256" for p q
    using hex_value_bounds [of "[p, q]"] by simp
  have v: "hex_value ds = ((hex_value [a, b] * 256 + hex_value [c, d]) * 256 + hex_value [e, f]) * 256 + hex_value [g, h]"
    by (simp add: ds hex_value_def algebra_simps)
  show ?thesis
    unfolding v unfolding ds hex_bytes.simps
    using assms(1) b [of a b] b [of c d] b [of e f] b [of g h] by (intro be32_bytes) (simp_all add: ds)
qed

lemma net_mac_words:
  fixes hi lo :: int
  assumes "0 \<le> hi" "hi < 2 ^ 32" "0 \<le> lo" "lo < 2 ^ 32"
  shows "net_mac_h (word_of_int (hi * 2 ^ 32 + lo)) = be32 (word_of_int hi)"
    and "net_mac_l (word_of_int (hi * 2 ^ 32 + lo)) = be32 (word_of_int lo)"
proof -
  have m: "ucast (0xFFFFFFFF AND w) = (ucast w :: u32)" for w :: u64
  proof -
    have eq: "(0xFFFFFFFF :: u64) = mask 32" by (simp add: mask_eq_exp_minus_1)
    show ?thesis unfolding eq by (rule bit_word_eqI) (auto simp: bit_simps)
  qed
  have x: "0 \<le> hi * 2 ^ 32 + lo" "hi * 2 ^ 32 + lo < 2 ^ LENGTH(64)" using assms by auto
  show "net_mac_h (word_of_int (hi * 2 ^ 32 + lo)) = be32 (word_of_int hi)"
    unfolding net_mac_h_def m ucast_drop_bit_int [OF x] using assms by simp
  have "(of_int (hi * 2 ^ 32 + lo) :: u32) = of_int hi * of_int (2 ^ 32) + of_int lo"
    by (simp only: of_int_add of_int_mult)
  moreover have "(of_int (2 ^ 32) :: u32) = 0" by simp
  ultimately have "(word_of_int (hi * 2 ^ 32 + lo) :: u32) = word_of_int lo"
    by (simp only: mult_zero_right add_0)
  moreover have "(ucast (word_of_int (hi * 2 ^ 32 + lo) :: u64) :: u32) = word_of_int (hi * 2 ^ 32 + lo)"
    using ucast_drop_bit_int [OF x, of 0, where 'b = 32] by (simp only: drop_bit_0 id_apply power_0 div_by_1)
  ultimately show "net_mac_l (word_of_int (hi * 2 ^ 32 + lo)) = be32 (word_of_int lo)"
    unfolding net_mac_l_def m by simp
qed

lemma hex_bytes_append: "even (length xs) \<Longrightarrow> hex_bytes (xs @ ys) = hex_bytes xs @ hex_bytes ys"
  by (induction xs rule: hex_bytes.induct) auto

text \<open>\<open>gateway_ID\<close> is the only field that sets \<open>lgwm\<close>.\<close>

lemma set_number_keeps:
  assumes "\<And>x s. get (upd x s) = get s" and "get s = v"
  shows "ends (\<lambda>s. get s = v) (set_number obj name cnv upd s)"
  using assms by (auto simp: set_number_def split: option.split intro!: ends_any)

lemma conf_gateway_lgwm:
  assumes str: "json_object_get_string obj (lit ''gateway_ID'') = Some str"
  shows "ends (\<lambda>(ok, g'). lgwm g' = scan_llx str) (conf_gateway obj g)"
proof -
  let ?P = "\<lambda>g'. lgwm g' = scan_llx str"
  have 1: "ends ?P (conf_network obj g)" for g
    unfolding conf_network_def Let_def
    by (intro ends_bindr [where Q = ?P] set_number_keeps) (auto simp: str set_string_def split: option.split)
  have 2: "ends ?P (conf_gps obj (conf_filter obj g))" if "?P g" for g
    unfolding conf_gps_def Let_def
    by (intro ends_bindr [where Q = ?P] set_number_keeps)
      (auto simp: that set_string_def set_boolean_def conf_filter_def Let_def split: option.split json_value.split)
  have 3: "ends (\<lambda>(ok, g'). ?P g') (conf_beacon_period obj g)" if "?P g" for g
    unfolding conf_beacon_period_def Let_def
    by (intro ends_bindr [where Q = ?P] set_number_keeps) (auto simp: that)
  have 4: "ends (\<lambda>(ok, g'). ?P g') (bindr (conf_beacon obj (beacon_conf g)) (\<lambda>b.
      bindr (set_number obj ''autoquit_threshold'' dbl_to_u32 (\<lambda>n g. g\<lparr>autoquit_threshold := n\<rparr>) (g\<lparr>beacon_conf := b\<rparr>)) (\<lambda>g.
      Inr (True, g))))" if "?P g" for g
    by (intro ends_any ends_bindr [where Q = ?P and m = "set_number obj ''autoquit_threshold'' cnv upd s" for cnv upd s] set_number_keeps)
      (auto simp: that)
  show ?thesis
    unfolding conf_gateway_def andgo_def
    by (rule ends_bindr [OF 1], rule ends_bindr [OF 2], assumption, rule ends_bindr [OF 3]) (auto simp: 4)
qed

text \<open>
  C38. A \<open>gateway_ID\<close> of 16 hexadecimal digits, in either case, arrives in the datagrams byte for byte: bytes 4 to 11 of
  every PULL_DATA are the bytes the digits spell.
\<close>

theorem gateway_id_bytes:
  assumes "json_object_get_string (Some obj) (lit ''gateway_ID'') = Some str"
    and "list_all isxdigit str" and "length str = 16" and "conf_gateway (Some obj) g = Inr (ok, g')"
  shows "drop 4 (pull_data (lgwm g') tok) = hex_bytes str"
proof -
  let ?a = "take 8 str" and ?b = "drop 8 str"
  have d: "list_all isxdigit ?a" "length ?a = 8" "list_all isxdigit ?b" "length ?b = 8"
    using assms(2,3) by (auto simp: list_all_iff dest: in_set_takeD in_set_dropD)
  have "hex_value str = hex_value ?a * 2 ^ 32 + hex_value ?b"
    using hex_value_append [of ?a ?b] d(4) by simp
  then have w: "lgwm g' = word_of_int (hex_value ?a * 2 ^ 32 + hex_value ?b)"
    using endsD [OF conf_gateway_lgwm [OF assms(1)] assms(4)] scan_llx_digits [OF assms(2,3)] by simp
  have r: "0 \<le> hex_value ?a" "hex_value ?a < 2 ^ 32" "0 \<le> hex_value ?b" "hex_value ?b < 2 ^ 32"
    using hex_value_bounds [OF d(1)] hex_value_bounds [OF d(3)] d(2,4) by simp_all
  have "hex_bytes str = hex_bytes ?a @ hex_bytes ?b"
    using hex_bytes_append [of ?a ?b] d(2) by simp
  then show ?thesis
    using be32_hex [OF d(1,2)] be32_hex [OF d(3,4)] by (simp only: pull_data_def w net_mac_words [OF r]) simp
qed


section \<open>Witnesses\<close>

definition hal_conf_example :: hal_conf where
  "hal_conf_example = hal.extend hal_example
     (hal_conf.fields 2 2 1 1 (\<lambda>n. n) 1 2 0 7 6 5 4 0 (\<lambda>cs c. True))"

definition dq :: "string \<Rightarrow> bytes" where  \<comment> \<open>a text with \<open>#\<close> for the double quote\<close>
  "dq s = map (\<lambda>c. if c = 35 then 34 else c) (lit s)"

definition demo_radio :: json_object where
  "demo_radio = [(lit ''enable'', JSONBoolean True), (lit ''tx_enable'', JSONBoolean True),
     (lit ''tx_freq_max'', JSONNumber (Fin 870000000))]"

definition demo_SX1301 :: json_object where
  "demo_SX1301 = [(lit ''tx_lut_0'', JSONObject [(lit ''rf_power'', JSONNumber (Fin 14))]),
     (lit ''radio_0'', JSONObject (demo_radio @ [(lit ''type'', JSONString (lit ''SX1257''))]))]"

definition demo_gateway :: json_object where
  "demo_gateway = [(lit ''gateway_ID'', JSONString (lit ''AA555A0000000101''))]"

definition demo_conf_file :: cfg_file where
  "demo_conf_file = Some (dq (''{#SX1301_conf#:{#tx_lut_0#:{#rf_power#:14},#radio_0#:{#enable#:true,'' @
     ''#tx_enable#:true,#tx_freq_max#:870000000,#type#:#SX1257#}},#gateway_conf#:{}}''))"

definition demo_local_file :: cfg_file where
  "demo_local_file = Some (dq ''{#SX1301_conf#:{},#gateway_conf#:{#beacon_period#:3}}'')"

lemma demo_conf_parsed:
  "json_parse_file_with_comments demo_conf_file =
     Some (Some (JSONObject [(lit ''SX1301_conf'', JSONObject demo_SX1301), (lit ''gateway_conf'', JSONObject [])]))"
  by code_simp

lemma demo_local_parsed:
  "json_parse_file_with_comments demo_local_file =
     Some (Some (JSONObject [(lit ''SX1301_conf'', JSONObject []),
       (lit ''gateway_conf'', JSONObject [(lit ''beacon_period'', JSONNumber (Fin 3))])]))"
  by code_simp

lemma demo_conf_objects:
  "conf_object demo_conf_file ''SX1301_conf'' = Inr (Some demo_SX1301)"
  "conf_object demo_conf_file ''gateway_conf'' = Inr (Some [])"
  "conf_object demo_local_file ''SX1301_conf'' = Inr (Some [])"
  "conf_object demo_local_file ''gateway_conf'' = Inr (Some [(lit ''beacon_period'', JSONNumber (Fin 3))])"
  unfolding conf_object_def demo_conf_parsed demo_local_parsed option.case by code_simp+

lemma demo_read:
  "case read_config hal_conf_example demo_conf_file (conf_start hal_conf_example) of
     Inr c \<Rightarrow> tx_freq_min (conf_radio_part c) = [0, 0] \<and> tx_freq_max (conf_radio_part c) = [870000000, 0]
   | Inl _ \<Rightarrow> False"
  unfolding read_config_def parse_SX1301_configuration_def parse_gateway_configuration_def demo_conf_objects bindr_Inr option.case
  by code_simp

lemma demo_read_local:
  "case load_configuration hal_conf_example None (Some demo_conf_file) None (conf_start hal_conf_example) of
     Inr c \<Rightarrow> (case parse_SX1301_configuration hal_conf_example demo_local_file (conf_radio_part c) of Inr (ok, _) \<Rightarrow> ok | Inl _ \<Rightarrow> False)
   | Inl _ \<Rightarrow> False"
  "case load_configuration hal_conf_example None (Some demo_conf_file) (Some demo_local_file) (conf_start hal_conf_example) of
     Inr c \<Rightarrow> True | Inl _ \<Rightarrow> False"
  unfolding load_configuration_def read_local_config_def read_config_def parse_SX1301_configuration_def
    parse_gateway_configuration_def demo_conf_objects bindr_Inr option.case
  by code_simp+

theorem config_within_bounds_witness:
  "\<exists>c. load_configuration hal_conf_example None (Some demo_conf_file) None (conf_start hal_conf_example) = Inr c \<and>
     conf_wf hal_conf_example c \<and> period_ok (conf_gateway_part c)"
proof -
  obtain c where "load_configuration hal_conf_example None (Some demo_conf_file) None (conf_start hal_conf_example) = Inr c"
    using demo_read by (auto simp: load_configuration_def split: sum.splits)
  then show ?thesis
    using config_within_bounds [of hal_conf_example None "Some demo_conf_file" None] by auto
qed

theorem local_conf_bad_beacon_period_witness:
  "\<exists>c. load_configuration hal_conf_example None (Some demo_conf_file) (Some demo_local_file) (conf_start hal_conf_example) = Inr c \<and>
     \<not> period_ok (conf_gateway_part c)"
proof -
  obtain c where c: "load_configuration hal_conf_example None (Some demo_conf_file) (Some demo_local_file) (conf_start hal_conf_example) = Inr c"
    using demo_read_local(2) by (auto split: sum.splits)
  show ?thesis
    using local_conf_bad_beacon_period [OF c demo_conf_objects(4), of 3] c by (simp add: json_object_get_value_def)
qed

theorem local_conf_empties_gain_table_witness:
  "\<exists>c. load_configuration hal_conf_example None (Some demo_conf_file) (Some demo_local_file) (conf_start hal_conf_example) = Inr c \<and>
     gw_txlut (gateway_of c False False \<lparr>systime = 0, tref_count_us = 0, tref_utc = (0, 0), tref_gps = (0, 0), xtal_err = Fin 1\<rparr>) = []"
proof -
  obtain c where c: "load_configuration hal_conf_example None (Some demo_conf_file) (Some demo_local_file) (conf_start hal_conf_example) = Inr c"
    using demo_read_local(2) by (auto split: sum.splits)
  obtain c1 r where c1: "load_configuration hal_conf_example None (Some demo_conf_file) None (conf_start hal_conf_example) = Inr c1"
      "parse_SX1301_configuration hal_conf_example demo_local_file (conf_radio_part c1) = Inr (True, r)"
    using demo_read_local(1) by (auto split: sum.splits)
  show ?thesis
    using local_conf_empties_gain_table [OF c1(1) c demo_conf_objects(3) c1(2)] c
    by (auto simp: lut_present_def param_present_def json_object_get_value_def json_value_get_object_def)
qed

theorem radio_without_type_witness:
  "conf_radio hal_conf_example (Some [(lit ''radio_0'', JSONObject demo_radio)]) 0 (radio_init hal_conf_example) = Inl NullDeref"
  by (rule radio_without_type_null [where hz = 0]) code_simp+

theorem gateway_id_bytes_witness:
  "\<exists>g. conf_gateway (Some demo_gateway) gateway_default = Inr (True, g) \<and>
     drop 4 (pull_data (lgwm g) (7, 8)) = [0xAA, 0x55, 0x5A, 0, 0, 0, 1, 1]"
proof -
  have "case conf_gateway (Some demo_gateway) gateway_default of Inr (ok, g) \<Rightarrow> ok | Inl _ \<Rightarrow> False"
    by code_simp
  then obtain g where g: "conf_gateway (Some demo_gateway) gateway_default = Inr (True, g)"
    by (auto split: sum.splits)
  have "drop 4 (pull_data (lgwm g) (7, 8)) = hex_bytes (lit ''AA555A0000000101'')"
    by (rule gateway_id_bytes [OF _ _ _ g]) code_simp+
  moreover have "hex_bytes (lit ''AA555A0000000101'') = [0xAA, 0x55, 0x5A, 0, 0, 0, 1, 1]"
    by code_simp
  ultimately show ?thesis using g by simp
qed

definition demo_downlink :: lgw_pkt_tx where
  "demo_downlink = (pkt_zero 4)\<lparr>freq_hz := 868100000, rf_power := 14\<rparr>"

theorem gain_table_follows_file_witness:
  "\<exists>c. read_config hal_conf_example demo_conf_file (conf_start hal_conf_example) = Inr c \<and>
     check_tx (gateway_of c False False \<lparr>systime = 0, tref_count_us = 0, tref_utc = (0, 0), tref_gps = (0, 0), xtal_err = Fin 1\<rparr>)
       demo_downlink = Inr JIT_ERROR_OK"
proof -
  obtain c where c: "read_config hal_conf_example demo_conf_file (conf_start hal_conf_example) = Inr c"
    and f: "tx_freq_min (conf_radio_part c) = [0, 0]" "tx_freq_max (conf_radio_part c) = [870000000, 0]"
    using demo_read by (auto split: sum.splits)
  have "list_all (\<lambda>i. lut_present (Some demo_SX1301) i \<longleftrightarrow> i < 1) [0..<2]"
    by code_simp
  moreover have max: "TX_GAIN_LUT_SIZE_MAX hal_conf_example = 2"
    by (simp add: hal_conf_example_def hal.defs hal_conf.defs)
  ultimately have p: "\<forall>i < TX_GAIN_LUT_SIZE_MAX hal_conf_example. lut_present (Some demo_SX1301) i \<longleftrightarrow> i < 1" "1 \<le> TX_GAIN_LUT_SIZE_MAX hal_conf_example"
    by (simp_all add: list_all_iff atLeast0LessThan del: upt_Suc)
  have "lut_power (Some demo_SX1301) 0 = Inr (rf_power demo_downlink)"
    by code_simp
  then show ?thesis
    using gain_table_follows_file [OF demo_conf_objects(1) c p(2,1) refl, of demo_downlink False False
        "\<lparr>systime = 0, tref_count_us = 0, tref_utc = (0, 0), tref_gps = (0, 0), xtal_err = Fin 1\<rparr>"] c f
    by (auto simp: gateway_of_def demo_downlink_def pkt_zero_def Let_def)
qed

end
