(* ===== verification/Main_Loop.thy ===== *)
theory Main_Loop
  imports Gateway_Config Thread_Gps Thread_Down Timersync
begin

unbundle bit_operations_syntax

text \<open>
  The main thread (\<open>main\<close> of \<open>lora_pkt_fwd.c\<close>): start-up from the configuration files to the threads, one
  round of the statistics loop with the status report, and the end. What the environment answers (files,
  name lookup, the library, \<open>pthread_create\<close>, the clock) is an argument. The display of the statistics
  is left out; the sockets are those of \<open>lora_comms.cc\<close>.
\<close>

section \<open>Start\<close>

record main_env =
  env_debug :: "cfg_file option"
  env_global :: "cfg_file option"
  env_local :: "cfg_file option"
  env_gps_enable :: bool  \<comment> \<open>\<open>lgw_gps_enable\<close> succeeds\<close>
  env_addrs_up :: "nat option"  \<comment> \<open>how many addresses \<open>getaddrinfo\<close> finds; \<open>None\<close>: it fails\<close>
  env_addrs_down :: "nat option"
  env_lgw_start :: bool
  env_time :: timeval
  env_trigcnt :: "u32 option"
  env_threads :: "nat \<Rightarrow> bool"  \<comment> \<open>\<open>pthread_create\<close> of the \<open>i\<close>th thread succeeds\<close>

record started =
  sr_conf :: conf
  sr_gps_enabled :: bool
  sr_net_mac :: bytes  \<comment> \<open>\<open>net_mac_h\<close>, \<open>net_mac_l\<close>\<close>
  sr_sock_up :: int
  sr_sock_down :: int
  sr_offset :: timeval
  sr_comms :: comms

text \<open>The loop over the results of \<open>getaddrinfo\<close>: the first one a socket can be opened for.\<close>

fun open_socket :: "nat \<Rightarrow> comms \<Rightarrow> int option \<times> comms" where
  "open_socket 0 C = (None, C)"
| "open_socket (Suc n) C =
     (case mem_socket C of
        (Inr fd, C) \<Rightarrow> (Some fd, C)
      | (Inl _, C) \<Rightarrow> open_socket n C)"

text \<open>Lookup, socket and connect for one direction.\<close>

definition open_link :: "nat option \<Rightarrow> comms \<Rightarrow> (int \<times> comms) res" where
  "open_link addrs C =
     (case addrs of
        None \<Rightarrow> Inl ExitCall
      | Some n \<Rightarrow>
          (case open_socket n C of
             (None, _) \<Rightarrow> Inl ExitCall
           | (Some fd, C) \<Rightarrow> (case mem_connect fd of Inl _ \<Rightarrow> Inl ExitCall | Inr _ \<Rightarrow> Inr (fd, C))))"

text \<open>\<open>thread_up\<close>, \<open>thread_down\<close>, \<open>thread_jit\<close>, \<open>thread_timersync\<close>, and with GPS \<open>thread_gps\<close> and \<open>thread_valid\<close>.\<close>

definition spawn_threads :: "bool \<Rightarrow> (nat \<Rightarrow> bool) \<Rightarrow> unit res" where
  "spawn_threads gps_on created =
     (if list_all created [0..<4] \<and> (gps_on \<longrightarrow> list_all created [4..<6]) then Inr () else Inl ExitCall)"

definition main_start :: "hal_conf \<Rightarrow> main_env \<Rightarrow> comms \<Rightarrow> started res" where
  "main_start H E C =
     bindr (load_configuration H (env_debug E) (env_global E) (env_local E) (conf_start H)) (\<lambda>c.
     let gps_on = (gps_tty_path (conf_gateway_part c) \<noteq> [] \<and> env_gps_enable E);
         mac = net_mac_h (lgwm (conf_gateway_part c)) @ net_mac_l (lgwm (conf_gateway_part c)) in
     bindr (open_link (env_addrs_up E) C) (\<lambda>(up, C).
     bindr (open_link (env_addrs_down E) C) (\<lambda>(down, C).
     if \<not> env_lgw_start E then Inl ExitCall
     else
       let offset = fst (set_concentrator_time \<lparr>tv_sec = 0, tv_usec = 0\<rparr> (env_time E) (env_trigcnt E)) in
       bindr (spawn_threads gps_on (env_threads E)) (\<lambda>_.
       Inr \<lparr>sr_conf = c, sr_gps_enabled = gps_on, sr_net_mac = mac, sr_sock_up = up, sr_sock_down = down,
            sr_offset = offset, sr_comms = C\<rparr>))))"

section \<open>Statistics\<close>

record main_stats =
  cp_up :: meas_up
  cp_dw :: meas_dw  \<comment> \<open>from \<open>meas_nb_tx_requested\<close> on: totals since the start\<close>
  coord_ok :: bool
  cp_gps_coord :: coord
  status_report :: bytes
  report_ready :: bool

text \<open>What \<open>main\<close> starts with; the copies that are assigned before they are read are 0 here.\<close>

definition stats_start :: main_stats where
  "stats_start = \<lparr>cp_up = meas_up_zero, cp_dw = meas_dw_zero, coord_ok = False,
     cp_gps_coord = \<lparr>lat = Fin 0, lon = Fin 0, alt = 0\<rparr>, status_report = [], report_ready = False\<rparr>"

text \<open>Copy and reset of the downstream counters: the first seven are copied, the others added up.\<close>

definition copy_meas_dw :: "meas_dw \<Rightarrow> meas_dw \<Rightarrow> meas_dw" where
  "copy_meas_dw m cp =
     cp\<lparr>meas_dw_pull_sent := meas_dw_pull_sent m, meas_dw_ack_rcv := meas_dw_ack_rcv m,
        meas_dw_dgram_rcv := meas_dw_dgram_rcv m, meas_dw_network_byte := meas_dw_network_byte m,
        meas_dw_payload_byte := meas_dw_payload_byte m, meas_nb_tx_ok := meas_nb_tx_ok m,
        meas_nb_tx_fail := meas_nb_tx_fail m,
        meas_nb_tx_requested := meas_nb_tx_requested cp + meas_nb_tx_requested m,
        meas_nb_tx_rejected_collision_packet :=
          meas_nb_tx_rejected_collision_packet cp + meas_nb_tx_rejected_collision_packet m,
        meas_nb_tx_rejected_collision_beacon :=
          meas_nb_tx_rejected_collision_beacon cp + meas_nb_tx_rejected_collision_beacon m,
        meas_nb_tx_rejected_too_late := meas_nb_tx_rejected_too_late cp + meas_nb_tx_rejected_too_late m,
        meas_nb_tx_rejected_too_early := meas_nb_tx_rejected_too_early cp + meas_nb_tx_rejected_too_early m,
        meas_nb_beacon_queued := meas_nb_beacon_queued cp + meas_nb_beacon_queued m,
        meas_nb_beacon_sent := meas_nb_beacon_sent cp + meas_nb_beacon_sent m,
        meas_nb_beacon_rejected := meas_nb_beacon_rejected cp + meas_nb_beacon_rejected m\<rparr>"

text \<open>\<open>(float)a / (float)b\<close>, and 0 when \<open>b\<close> is 0; then \<open>100.0 * ratio\<close> in doubles.\<close>

definition flt_quot :: "dbl \<Rightarrow> dbl \<Rightarrow> dbl" where
  "flt_quot x y = (case (x, y) of (Fin a, Fin b) \<Rightarrow> if b = 0 then NaN else round_flt (a / b) | _ \<Rightarrow> NaN)"

definition ack_ratio :: "u32 \<Rightarrow> u32 \<Rightarrow> dbl" where
  "ack_ratio a b =
     (if 0 < b then flt_quot (round_flt (of_int (uint a))) (round_flt (of_int (uint b))) else Fin 0)"

definition percent :: "dbl \<Rightarrow> dbl" where
  "percent r = dbl_mul r 100"

text \<open>
  \<open>strftime (stat_timestamp, 24, "%F %T %Z", gmtime (&t))\<close>: a text that does not fit leaves the array with
  contents the standard does not say, here \<open>unspecified\<close>.
\<close>

definition stat_timestamp :: "string \<Rightarrow> int \<Rightarrow> string res" where
  "stat_timestamp unspecified t =
     (case gmtime t of
        None \<Rightarrow> Inl NullDeref
      | Some x \<Rightarrow>
          let s = fmt_i 4 (tm_year x + 1900) @ ''-'' @ fmt_i 2 (tm_mon x + 1) @ ''-'' @ fmt_i 2 (tm_mday x) @ '' '' @
                  fmt_i 2 (tm_hour x) @ '':'' @ fmt_i 2 (tm_min x) @ '':'' @ fmt_i 2 (tm_sec x) @ '' GMT'' in
          Inr (if length s < 24 then s else unspecified))"

text \<open>The JSON text of the report, with the position or without.\<close>

definition report_text :: "string \<Rightarrow> coord option \<Rightarrow> meas_up \<Rightarrow> meas_dw \<Rightarrow> string" where
  "report_text timestamp pos up dw =
     ''\"stat\":{\"time\":\"'' @ timestamp @ ''\",'' @
     (case pos of
        None \<Rightarrow> ''''
      | Some p \<Rightarrow> ''\"lati\":'' @ fmt_f 5 (lat p) @ '',\"long\":'' @ fmt_f 5 (lon p) @ '',\"alti\":'' @ fmt_i 0 (alt p) @ '','') @
     ''\"rxnb\":'' @ dec (uint (meas_nb_rx_rcv up)) @ '',\"rxok\":'' @ dec (uint (meas_nb_rx_ok up)) @
     '',\"rxfw\":'' @ dec (uint (meas_up_pkt_fwd up)) @
     '',\"ackr\":'' @ fmt_f 1 (percent (ack_ratio (meas_up_ack_rcv up) (meas_up_dgram_sent up))) @
     '',\"dwnb\":'' @ dec (uint (meas_dw_dgram_rcv dw)) @ '',\"txnb\":'' @ dec (uint (meas_nb_tx_ok dw)) @ ''}''"

text \<open>
  One round behind the wait: the counters of the threads before and after, and the state of \<open>main\<close>.
  \<open>pos\<close> are \<open>gps_coord_valid\<close> and \<open>meas_gps_coord\<close>, \<open>ref\<close> the reference coordinates.
\<close>

definition stats_round ::
    "bool \<Rightarrow> bool \<Rightarrow> coord \<Rightarrow> string \<Rightarrow> int \<Rightarrow> bool \<times> coord \<Rightarrow> meas_up \<times> meas_dw \<times> main_stats
     \<Rightarrow> (meas_up \<times> meas_dw \<times> main_stats) res" where
  "stats_round gps_on gps_fake ref unspecified t pos = (\<lambda>(up, dw, s).
     bindr (stat_timestamp unspecified t) (\<lambda>timestamp.
     let s = s\<lparr>cp_up := up, cp_dw := copy_meas_dw dw (cp_dw s)\<rparr>;
         s = (if gps_on then s\<lparr>coord_ok := fst pos, cp_gps_coord := snd pos\<rparr> else s);
         s = (if gps_fake then s\<lparr>cp_gps_coord := ref\<rparr> else s);
         where_to = (if gps_on \<and> coord_ok s \<or> gps_fake then Some (cp_gps_coord s) else None) in
     Inr (meas_up_zero, meas_dw_zero,
          s\<lparr>status_report := take (STATUS_SIZE - 1) (lit (report_text timestamp where_to (cp_up s) (cp_dw s))),
            report_ready := True\<rparr>)))"

text \<open>\<open>wait_ms (1000 * stat_interval)\<close>: the product is an \<open>unsigned\<close>.\<close>

definition stats_wait :: "u32 \<Rightarrow> u32" where
  "stats_wait interval = 1000 * interval"

section \<open>End\<close>

datatype main_action =
  Join_thread nat
| Gps_disable
| Shutdown_socket int
| Lgw_stop
| Exit_success

text \<open>\<open>pthread_cancel\<close> is \<open>mem_pthread_cancel\<close>, which joins the thread.\<close>

definition main_end :: "bool \<Rightarrow> bool \<Rightarrow> int \<Rightarrow> int \<Rightarrow> main_action list" where
  "main_end gps_on exit_sig_set up down =
     map Join_thread [0, 1, 2, 3] @
     (if gps_on then [Join_thread 4, Join_thread 5, Gps_disable] else []) @
     (if exit_sig_set then [Shutdown_socket up, Shutdown_socket down, Lgw_stop] else []) @
     [Exit_success]"

end
