(* ===== verification/Main_Properties.thy ===== *)
theory Main_Properties
  imports Main_Loop Config_Properties
begin

unbundle bit_operations_syntax

text \<open>
  Properties of the main thread: the status report always fits its buffer, no count is lost or reported
  twice, and the two sockets are the two links of \<open>lora_comms.cc\<close>.
\<close>

section \<open>Single precision\<close>

lemma round_flt_near:
  assumes "2 powi k \<le> x" and "x < 2 powi (k + 1)" and "- 126 \<le> k" and "k \<le> 100"
  shows "\<exists>y. round_flt x = Fin y \<and> \<bar>y - x\<bar> \<le> 2 powi (k - 24)"
proof -
  let ?u = "2 powi (k - 23) :: rat"
  let ?n = "of_int (round_half_even (x / ?u)) :: rat"
  have "0 < x" using assms(1) zero_less_power_int [of "2 :: rat" k] by linarith
  moreover from this have "max (expo \<bar>x\<bar> - 23) (-149) = k - 23"
    using assms(3) expo_eq [OF assms(1,2)] by simp
  ultimately have r: "round_flt x = Fin (?n * ?u)"
    using assms(4) unfolding round_flt_def Let_def by auto
  have "\<bar>x / ?u - ?n\<bar> * ?u \<le> 1 / 2 * ?u"
    using round_half_even_near [of "x / ?u"] by (intro mult_right_mono) auto
  moreover have "\<bar>x / ?u - ?n\<bar> * ?u = \<bar>(x / ?u - ?n) * ?u\<bar>"
    by (simp add: abs_mult)
  moreover have "(x / ?u - ?n) * ?u = x - ?n * ?u"
    by (simp add: left_diff_distrib)
  moreover have "1 / 2 * ?u = 2 powi (k - 24)"
    using power_int_add [of "2 :: rat" "k - 24" 1] by simp
  ultimately show ?thesis using r by (simp add: abs_minus_commute)
qed

text \<open>Coarse bounds: rounding at most doubles and at most halves.\<close>

lemma expo_range:
  assumes "1 / 2 ^ 90 \<le> x" and "x \<le> 2 ^ 90"
  shows "- 91 \<le> expo x \<and> expo x \<le> 90"
proof -
  have "0 < x" using assms(1) by (rule less_le_trans [rotated]) simp
  note b = expo_bounds [OF this]
  have "(2 :: rat) powi (- 90) = 1 / 2 ^ 90" "(2 :: rat) powi 90 = 2 ^ 90"
    by (simp_all add: power_int_def field_simps)
  then have lt: "(2 :: rat) powi (- 90) < 2 powi (expo x + 1)" "(2 :: rat) powi (expo x) < 2 powi 91"
    using b assms by (auto simp: power_int_def)
  have "\<not> expo x + 1 \<le> - 90" using power_int_increasing [of "expo x + 1" "- 90" "2 :: rat"] lt(1) by auto
  moreover have "\<not> 91 \<le> expo x" using power_int_increasing [of 91 "expo x" "2 :: rat"] lt(2) by auto
  ultimately show ?thesis by simp
qed

lemma near_bounds:
  fixes x y :: rat
  assumes "2 powi k \<le> x" and "\<bar>y - x\<bar> \<le> 2 powi (k - n)" and "1 \<le> n"
  shows "x / 2 \<le> y \<and> y \<le> 2 * x"
proof -
  have "2 powi (k - n) \<le> (2 :: rat) powi (k - 1)" using assms(3) by (intro power_int_increasing) auto
  also have "\<dots> = 2 powi k / 2" by (simp add: power_int_diff)
  finally have "\<bar>y - x\<bar> \<le> x / 2" using assms(1,2) by linarith
  then show ?thesis using assms(1) zero_less_power_int [of "2 :: rat" k] by linarith
qed

lemma round_flt_coarse:
  assumes "1 / 2 ^ 90 \<le> x" and "x \<le> 2 ^ 90"
  obtains y where "round_flt x = Fin y" and "x / 2 \<le> y" and "y \<le> 2 * x"
proof -
  have "0 < x" using assms(1) by (rule less_le_trans [rotated]) simp
  note b = expo_bounds [OF this] and r = expo_range [OF assms]
  obtain y where "round_flt x = Fin y" "\<bar>y - x\<bar> \<le> 2 powi (expo x - 24)"
    using round_flt_near [OF b] r by auto
  then show thesis using near_bounds [OF b(1), of y 24] that by auto
qed

lemma round_dbl_coarse:
  assumes "1 / 2 ^ 90 \<le> x" and "x \<le> 2 ^ 90"
  obtains y where "round_dbl x = Fin y" and "x / 2 \<le> y" and "y \<le> 2 * x"
proof -
  have "0 < x" using assms(1) by (rule less_le_trans [rotated]) simp
  note b = expo_bounds [OF this] and r = expo_range [OF assms]
  obtain y where "round_dbl x = Fin y" "\<bar>y - x\<bar> \<le> 2 powi (expo x - 53)"
    using round_dbl_near [OF b] r by auto
  then show thesis using near_bounds [OF b(1), of y 53] that by auto
qed

text \<open>The percentage of acknowledged datagrams is far from needing more than four digits.\<close>

lemma percent_ack_ratio:
  assumes "uint a \<le> uint b + 1"
  shows "\<exists>x. percent (ack_ratio a b) = Fin x \<and> 0 \<le> x \<and> x \<le> 3200"
proof (cases "b = 0")
  case True
  then show ?thesis by (simp add: percent_def ack_ratio_def dbl_mul_def round_dbl_def)
next
  case b: False
  then have b1: "1 \<le> uint b" "uint b < 2 ^ 32"
    using uint_lt2p [of b] by (auto simp: word_less_def word_neq_0_conv)
  define n where "n = uint b"
  let ?b = "of_int n :: rat"
  have qb: "1 \<le> ?b" "?b \<le> 2 ^ 32"
    using b1 of_int_le_iff [of n "2 ^ 32", where 'a = rat] by (simp_all add: n_def [symmetric])
  have big: "(2 :: rat) ^ 32 \<le> 2 ^ 90" "(1 :: rat) / 2 ^ 90 \<le> 1" by simp_all
  obtain B where B: "round_flt ?b = Fin B" "?b / 2 \<le> B" "B \<le> 2 * ?b"
    by (rule round_flt_coarse [of ?b]) (use qb big in linarith)+
  have B0: "0 < B" using B qb by linarith
  show ?thesis
  proof (cases "a = 0")
    case True
    have "round_flt 0 = Fin 0" "round_dbl 0 = Fin 0" by (simp_all add: round_flt_def round_dbl_def)
    then show ?thesis
      using True b B(1) B0 by (simp add: n_def word_neq_0_conv percent_def ack_ratio_def flt_quot_def dbl_mul_def)
  next
    case False
    then have a1: "1 \<le> uint a" "uint a < 2 ^ 32"
      using uint_lt2p [of a] by (auto simp: word_less_def word_neq_0_conv)
    define m where "m = uint a"
    let ?a = "of_int m :: rat"
    have mn: "m \<le> 2 * n" using a1 b1 assms by (simp add: m_def n_def)
    have qa: "1 \<le> ?a" "?a \<le> 2 ^ 32" "?a \<le> 2 * ?b"
      using a1 mn of_int_le_iff [of m "2 ^ 32", where 'a = rat] of_int_le_iff [of m "2 * n", where 'a = rat]
      by (simp_all add: m_def [symmetric])
    obtain A where A: "round_flt ?a = Fin A" "?a / 2 \<le> A" "A \<le> 2 * ?a"
      by (rule round_flt_coarse [of ?a]) (use qa big in linarith)+
    have "A \<le> 8 * B" using A B qa by linarith
    then have hi: "A / B \<le> 8" using B0 by (simp add: pos_divide_le_eq)
    have "B \<le> 2 ^ 34 * A" using A B qa qb by (simp add: field_simps)
    then have "1 / 2 ^ 34 \<le> A / B" using B0 by (simp add: field_simps)
    then have lo: "1 / 2 ^ 90 \<le> A / B" by (rule order_trans [rotated]) simp
    obtain R where R: "round_flt (A / B) = Fin R" "A / B / 2 \<le> R" "R \<le> 2 * (A / B)"
      by (rule round_flt_coarse [of "A / B"]) (use hi lo in \<open>auto intro: order_trans\<close>)
    have "(1 :: rat) / 2 ^ 35 = 1 / 2 ^ 34 / 2" by simp
    also have "\<dots> \<le> A / B / 2" using \<open>1 / 2 ^ 34 \<le> A / B\<close> by (rule divide_right_mono) simp
    also have "\<dots> \<le> R" by (rule R(2))
    finally have R16: "1 / 2 ^ 35 \<le> R" "R \<le> 16" using R(3) hi by simp_all
    have R100: "1 / 2 ^ 90 \<le> R * 100" "R * 100 \<le> 2 ^ 90"
      using R16 by (auto intro: order_trans [of _ "1 / 2 ^ 35"])
    obtain P where P: "round_dbl (R * 100) = Fin P" "R * 100 / 2 \<le> P" "P \<le> 2 * (R * 100)"
      by (rule round_dbl_coarse [OF R100])
    have "percent (ack_ratio a b) = Fin P"
      using b A(1) B(1) B0 R(1) P(1) by (simp add: m_def n_def percent_def ack_ratio_def flt_quot_def dbl_mul_def word_neq_0_conv)
    moreover have "(0 :: rat) \<le> 1 / 2 ^ 35" by simp
    then have "0 \<le> P" "P \<le> 3200" using P R16 by linarith+
    ultimately show ?thesis by blast
  qed
qed


section \<open>The report fits\<close>

lemma length_fmt_i_signed:
  assumes "\<bar>i\<bar> < 10 ^ k" and "0 < k"
  shows "length (fmt_i 0 i) \<le> k + 1"
  using length_dec_le [of i k] length_dec_le [of "- i" k] assms by (auto simp: fmt_i_def pad0_def)

lemma length_fmt_i_width:
  assumes "0 \<le> i" and "i < 10 ^ k" and "0 < k" and "w \<le> k"
  shows "length (fmt_i w i) \<le> k"
  using length_fmt_i [of i k w] assms by auto

lemma length_dec_u32: "length (dec (uint (w :: u32))) \<le> 10"
  using uint_lt2p [of w] by (intro length_dec_le) auto

definition position_ok :: "coord \<Rightarrow> bool" where
  "position_ok p \<longleftrightarrow>
     (\<exists>x y. lat p = Fin x \<and> \<bar>x\<bar> \<le> 90 \<and> lon p = Fin y \<and> \<bar>y\<bar> \<le> 180) \<and> \<bar>alt p\<bar> \<le> 32768"

lemma report_text_length:
  assumes "length timestamp \<le> 23" and "\<forall>p. pos = Some p \<longrightarrow> position_ok p"
    and "uint (meas_up_ack_rcv up) \<le> uint (meas_up_dgram_sent up) + 1"
  shows "length (report_text timestamp pos up dw) < STATUS_SIZE"
proof -
  obtain x where x: "percent (ack_ratio (meas_up_ack_rcv up) (meas_up_dgram_sent up)) = Fin x" "0 \<le> x" "x \<le> 3200"
    using percent_ack_ratio [OF assms(3)] by blast
  have ackr: "length (fmt_f 1 (percent (ack_ratio (meas_up_ack_rcv up) (meas_up_dgram_sent up)))) \<le> 7"
    using length_fmt_f [of x 1 5] x by simp
  have pos: "length (case pos of None \<Rightarrow> '''' | Some p \<Rightarrow> ''\"lati\":'' @ fmt_f 5 (lat p) @ '',\"long\":'' @ fmt_f 5 (lon p) @
      '',\"alti\":'' @ fmt_i 0 (alt p) @ '','') \<le> 49"
  proof (cases pos)
    case (Some p)
    then obtain x y where p: "lat p = Fin x" "\<bar>x\<bar> \<le> 90" "lon p = Fin y" "\<bar>y\<bar> \<le> 180" "\<bar>alt p\<bar> \<le> 32768"
      using assms(2) by (auto simp: position_ok_def)
    have "length (fmt_f 5 (Fin x)) \<le> 9" using length_fmt_f [of x 5 7] p(2) by simp
    moreover have "length (fmt_f 5 (Fin y)) \<le> 10" using length_fmt_f [of y 5 8] p(4) by simp
    moreover have "length (fmt_i 0 (alt p)) \<le> 6" using length_fmt_i_signed [of "alt p" 5] p(5) by simp
    ultimately show ?thesis by (simp add: Some p(1,3))
  qed simp
  note u = length_dec_u32 [of "meas_nb_rx_rcv up"] length_dec_u32 [of "meas_nb_rx_ok up"] length_dec_u32 [of "meas_up_pkt_fwd up"]
    length_dec_u32 [of "meas_dw_dgram_rcv dw"] length_dec_u32 [of "meas_nb_tx_ok dw"]
  show ?thesis
    using assms(1) ackr pos u unfolding report_text_def STATUS_SIZE_def by simp
qed

text \<open>The time stamp fills its 24 bytes exactly.\<close>

lemma gmtime_year:
  assumes "gmtime t = Some x" and "0 \<le> t" and "t < 2 ^ 37"
  shows "0 \<le> tm_year x + 1900 \<and> tm_year x + 1900 < 10 ^ 4"
proof -
  define d where "d = t div 86400"
  have "86400 * d \<le> t" "t < 86400 * d + 86400"
    using div_near [of 86400 t] by (simp_all add: d_def)
  then have d: "0 \<le> d" "d < 1600000" using assms(2,3) by simp_all
  have y: "tm_year x + 1900 = year_of_day d"
    using assms(1) by (auto simp: gmtime_def Let_def d_def split: prod.splits if_splits)
  define y where "y = year_of_day d"
  have "days_before_year y \<le> d" "d < days_before_year (y + 1)"
    using year_of_day [of d] by (simp_all add: y_def)
  then have "0 \<le> y \<and> y < 10000"
    using days_before_year_near [of y] days_before_year_near [of "y + 1"] d by simp
  then show ?thesis by (simp add: y y_def)
qed

lemma gmtime_small:
  assumes "0 \<le> t" and "t < 2 ^ 37"
  shows "gmtime t \<noteq> None"
proof -
  define d where "d = t div 86400"
  have "86400 * d \<le> t" "t < 86400 * d + 86400"
    using div_near [of 86400 t] by (simp_all add: d_def)
  then have d: "0 \<le> d" "d < 1600000" using assms by simp_all
  define y where "y = year_of_day d"
  have "days_before_year y \<le> d" "d < days_before_year (y + 1)"
    using year_of_day [of d] by (simp_all add: y_def)
  then have "0 \<le> y \<and> y < 10000"
    using days_before_year_near [of y] days_before_year_near [of "y + 1"] d by simp
  then show ?thesis
    by (auto simp: gmtime_def Let_def d_def [symmetric] y_def [symmetric] split: prod.splits)
qed

lemma month_lengths_le: "i < 12 \<Longrightarrow> month_lengths y ! i \<le> 31"
proof -
  assume "i < 12"
  then have "month_lengths y ! i \<in> set (month_lengths y)" by (intro nth_mem) (simp add: month_lengths_def)
  then show ?thesis by (auto simp: month_lengths_def)
qed

lemma stat_timestamp_fits:
  assumes "0 \<le> t" and "t < 2 ^ 37"
  shows "\<exists>s. stat_timestamp unspecified t = Inr s \<and> length s \<le> 23"
proof -
  obtain x where x: "gmtime t = Some x" using gmtime_small [OF assms] by auto
  have c: "0 \<le> tm_mon x" "tm_mon x < 12" "1 \<le> tm_mday x" "tm_mday x \<le> 31" "0 \<le> tm_hour x" "tm_hour x < 24"
    "0 \<le> tm_min x" "tm_min x < 60" "0 \<le> tm_sec x" "tm_sec x < 60"
    using gmtime_calendar [OF x] order_trans [OF _ month_lengths_le [of "nat (tm_mon x)" "tm_year x + 1900"]] by auto
  have "length (fmt_i 4 (tm_year x + 1900)) \<le> 4"
    using gmtime_year [OF x assms] by (intro length_fmt_i_width) auto
  moreover have "length (fmt_i 2 (tm_mon x + 1)) \<le> 2" "length (fmt_i 2 (tm_mday x)) \<le> 2" "length (fmt_i 2 (tm_hour x)) \<le> 2"
    "length (fmt_i 2 (tm_min x)) \<le> 2" "length (fmt_i 2 (tm_sec x)) \<le> 2"
    using c by (auto intro!: length_fmt_i_width)
  ultimately show ?thesis by (simp add: stat_timestamp_def x Let_def)
qed

text \<open>The position a report gives.\<close>

definition reported_position :: "bool \<Rightarrow> bool \<Rightarrow> coord \<Rightarrow> bool \<times> coord \<Rightarrow> main_stats \<Rightarrow> coord option" where
  "reported_position gps_on gps_fake ref pos s =
     (if gps_fake then Some ref else if gps_on \<and> fst pos then Some (snd pos) else None)"

text \<open>
  C39. The status report is never cut: with a position on the globe and no more than one late
  acknowledgement in the interval, the whole text fits \<open>status_report\<close>, is the documented object and is
  shorter than \<open>STATUS_SIZE\<close>, as \<open>thread_up\<close> relies on; the counters start again from 0.
\<close>

theorem status_report_complete:
  assumes "0 \<le> t" and "t < 2 ^ 37"
    and pos: "gps_fake \<longrightarrow> position_ok ref" "gps_on \<and> fst pos \<longrightarrow> position_ok (snd pos)"
    and ack: "uint (meas_up_ack_rcv up) \<le> uint (meas_up_dgram_sent up) + 1"
  shows "\<exists>s' timestamp. stats_round gps_on gps_fake ref unspecified t pos (up, dw, s) = Inr (meas_up_zero, meas_dw_zero, s') \<and>
    report_ready s' \<and> stat_timestamp unspecified t = Inr timestamp \<and>
    status_report s' = lit (report_text timestamp (reported_position gps_on gps_fake ref pos s) up (copy_meas_dw dw (cp_dw s))) \<and>
    length (status_report s') < STATUS_SIZE"
proof -
  obtain ts where ts: "stat_timestamp unspecified t = Inr ts" "length ts \<le> 23"
    using stat_timestamp_fits [OF assms(1,2)] by blast
  let ?pos = "reported_position gps_on gps_fake ref pos s"
  have "length (report_text ts ?pos up (copy_meas_dw dw (cp_dw s))) < STATUS_SIZE"
    using pos by (intro report_text_length [OF ts(2) _ ack]) (auto simp: reported_position_def split: if_splits)
  then show ?thesis
    using ts(1) by (simp add: stats_round_def reported_position_def Let_def STATUS_SIZE_def split: if_split_asm)
qed

theorem status_report_complete_witness:
  "\<exists>s. stats_round True False \<lparr>lat = Fin 0, lon = Fin 0, alt = 0\<rparr> [] 1700000000 (True, \<lparr>lat = Fin 48, lon = Fin (- 3), alt = 145\<rparr>)
      (meas_up_zero\<lparr>meas_up_dgram_sent := 2, meas_up_ack_rcv := 2\<rparr>, meas_dw_zero, stats_start) = Inr (meas_up_zero, meas_dw_zero, s) \<and>
    length (status_report s) < 200"
  using status_report_complete [of 1700000000 False "\<lparr>lat = Fin 0, lon = Fin 0, alt = 0\<rparr>" True "(True, \<lparr>lat = Fin 48, lon = Fin (- 3), alt = 145\<rparr>)"
      "meas_up_zero\<lparr>meas_up_dgram_sent := 2, meas_up_ack_rcv := 2\<rparr>" "[]" meas_dw_zero stats_start]
  by (auto simp: position_ok_def STATUS_SIZE_def)


section \<open>No count is lost\<close>

text \<open>What the threads count between two rounds is added to the counters.\<close>

definition add_meas_up :: "meas_up \<Rightarrow> meas_up \<Rightarrow> meas_up" where
  "add_meas_up a b = \<lparr>meas_nb_rx_rcv = meas_nb_rx_rcv a + meas_nb_rx_rcv b, meas_nb_rx_ok = meas_nb_rx_ok a + meas_nb_rx_ok b,
     meas_nb_rx_bad = meas_nb_rx_bad a + meas_nb_rx_bad b, meas_nb_rx_nocrc = meas_nb_rx_nocrc a + meas_nb_rx_nocrc b,
     meas_up_pkt_fwd = meas_up_pkt_fwd a + meas_up_pkt_fwd b, meas_up_network_byte = meas_up_network_byte a + meas_up_network_byte b,
     meas_up_payload_byte = meas_up_payload_byte a + meas_up_payload_byte b, meas_up_dgram_sent = meas_up_dgram_sent a + meas_up_dgram_sent b,
     meas_up_ack_rcv = meas_up_ack_rcv a + meas_up_ack_rcv b\<rparr>"

definition add_meas_dw :: "meas_dw \<Rightarrow> meas_dw \<Rightarrow> meas_dw" where
  "add_meas_dw a b = \<lparr>meas_dw_pull_sent = meas_dw_pull_sent a + meas_dw_pull_sent b, meas_dw_ack_rcv = meas_dw_ack_rcv a + meas_dw_ack_rcv b,
     meas_dw_dgram_rcv = meas_dw_dgram_rcv a + meas_dw_dgram_rcv b, meas_dw_network_byte = meas_dw_network_byte a + meas_dw_network_byte b,
     meas_dw_payload_byte = meas_dw_payload_byte a + meas_dw_payload_byte b, meas_nb_tx_ok = meas_nb_tx_ok a + meas_nb_tx_ok b,
     meas_nb_tx_fail = meas_nb_tx_fail a + meas_nb_tx_fail b, meas_nb_tx_requested = meas_nb_tx_requested a + meas_nb_tx_requested b,
     meas_nb_tx_rejected_collision_packet = meas_nb_tx_rejected_collision_packet a + meas_nb_tx_rejected_collision_packet b,
     meas_nb_tx_rejected_collision_beacon = meas_nb_tx_rejected_collision_beacon a + meas_nb_tx_rejected_collision_beacon b,
     meas_nb_tx_rejected_too_late = meas_nb_tx_rejected_too_late a + meas_nb_tx_rejected_too_late b,
     meas_nb_tx_rejected_too_early = meas_nb_tx_rejected_too_early a + meas_nb_tx_rejected_too_early b,
     meas_nb_beacon_queued = meas_nb_beacon_queued a + meas_nb_beacon_queued b, meas_nb_beacon_sent = meas_nb_beacon_sent a + meas_nb_beacon_sent b,
     meas_nb_beacon_rejected = meas_nb_beacon_rejected a + meas_nb_beacon_rejected b\<rparr>"

lemma add_meas_zero [simp]: "add_meas_up meas_up_zero u = u" "add_meas_dw meas_dw_zero d = d"
  by (cases u, simp add: add_meas_up_def meas_up_zero_def, cases d, simp add: add_meas_dw_def meas_dw_zero_def)

text \<open>An interval: what the threads count in it, the clock and the position at its end.\<close>

type_synonym interval = "meas_up \<times> meas_dw \<times> int \<times> (bool \<times> coord)"

fun stats_run ::
    "bool \<Rightarrow> bool \<Rightarrow> coord \<Rightarrow> string \<Rightarrow> interval list \<Rightarrow> meas_up \<times> meas_dw \<times> main_stats
     \<Rightarrow> (main_stats list \<times> meas_up \<times> meas_dw \<times> main_stats) res" where
  "stats_run gps_on gps_fake ref unspecified [] s = Inr ([], s)"
| "stats_run gps_on gps_fake ref unspecified ((du, dd, t, pos) # ivs) (up, dw, s) =
     bindr (stats_round gps_on gps_fake ref unspecified t pos (add_meas_up up du, add_meas_dw dw dd, s)) (\<lambda>s1.
     bindr (stats_run gps_on gps_fake ref unspecified ivs s1) (\<lambda>(rs, s2).
     Inr (snd (snd s1) # rs, s2)))"

definition interval_counters :: "(meas_dw \<Rightarrow> u32) list" where
  "interval_counters = [meas_dw_pull_sent, meas_dw_ack_rcv, meas_dw_dgram_rcv, meas_dw_network_byte, meas_dw_payload_byte,
     meas_nb_tx_ok, meas_nb_tx_fail]"

definition total_counters :: "(meas_dw \<Rightarrow> u32) list" where
  "total_counters = [meas_nb_tx_requested, meas_nb_tx_rejected_collision_packet, meas_nb_tx_rejected_collision_beacon,
     meas_nb_tx_rejected_too_late, meas_nb_tx_rejected_too_early, meas_nb_beacon_queued, meas_nb_beacon_sent, meas_nb_beacon_rejected]"

lemma copy_meas_dw_counters:
  "c \<in> set interval_counters \<Longrightarrow> c (copy_meas_dw m cp) = c m"
  "c \<in> set total_counters \<Longrightarrow> c (copy_meas_dw m cp) = c cp + c m"
  by (auto simp: interval_counters_def total_counters_def copy_meas_dw_def)

lemma stats_round_counters:
  assumes "stats_round gps_on gps_fake ref unspecified t pos (up, dw, s) = Inr (up', dw', s')"
  shows "up' = meas_up_zero \<and> dw' = meas_dw_zero \<and> cp_up s' = up \<and> cp_dw s' = copy_meas_dw dw (cp_dw s)"
  using assms by (auto simp: stats_round_def bindr_eq_Inr_iff Let_def)

text \<open>
  C9. Over any number of intervals every count is reported once: the report of an interval has exactly what
  was counted in it, the totals are those before plus everything counted since, modulo \<open>2 ^ 32\<close>, and
  nothing is left in the counters.
\<close>

theorem statistics_lossless:
  assumes "stats_run gps_on gps_fake ref unspecified ivs (meas_up_zero, meas_dw_zero, s) = Inr (rs, up', dw', s')"
  shows "map cp_up rs = map fst ivs \<and> up' = meas_up_zero \<and> dw' = meas_dw_zero \<and>
    (\<forall>c \<in> set interval_counters. map (\<lambda>r. c (cp_dw r)) rs = map (\<lambda>(_, dd, _). c dd) ivs) \<and>
    (\<forall>c \<in> set total_counters. c (cp_dw s') = c (cp_dw s) + sum_list (map (\<lambda>(_, dd, _). c dd) ivs))"
  using assms
proof (induction ivs arbitrary: s rs)
  case (Cons iv ivs)
  obtain du dd t pos where iv: "iv = (du, dd, t, pos)" by (cases iv) auto
  obtain up1 dw1 s1 rs1 where r: "stats_round gps_on gps_fake ref unspecified t pos (du, dd, s) = Inr (up1, dw1, s1)"
      "stats_run gps_on gps_fake ref unspecified ivs (up1, dw1, s1) = Inr (rs1, up', dw', s')" "rs = s1 # rs1"
    using Cons.prems by (auto simp: iv bindr_eq_Inr_iff)
  note c = stats_round_counters [OF r(1)]
  show ?case
    using Cons.IH [of s1 rs1] r(2) c by (simp add: iv r(3) copy_meas_dw_counters add.assoc)
qed auto

definition demo_interval :: "u32 \<Rightarrow> interval" where
  "demo_interval n = (meas_up_zero\<lparr>meas_nb_rx_rcv := n\<rparr>, meas_dw_zero\<lparr>meas_nb_tx_requested := n\<rparr>, 1700000000,
     (False, \<lparr>lat = Fin 0, lon = Fin 0, alt = 0\<rparr>))"

theorem statistics_lossless_witness:
  "\<exists>rs s. stats_run False False \<lparr>lat = Fin 0, lon = Fin 0, alt = 0\<rparr> [] [demo_interval 3, demo_interval 4]
       (meas_up_zero, meas_dw_zero, stats_start) = Inr (rs, meas_up_zero, meas_dw_zero, s) \<and>
     map (\<lambda>r. meas_nb_rx_rcv (cp_up r)) rs = [3, 4] \<and> meas_nb_tx_requested (cp_dw s) = 7"
proof -
  obtain ts where ts: "stat_timestamp [] 1700000000 = Inr ts"
    using stat_timestamp_fits [of 1700000000 "[]"] by auto
  obtain rs u d s where r: "stats_run False False \<lparr>lat = Fin 0, lon = Fin 0, alt = 0\<rparr> [] [demo_interval 3, demo_interval 4]
       (meas_up_zero, meas_dw_zero, stats_start) = Inr (rs, u, d, s)"
    by (simp add: demo_interval_def stats_round_def ts Let_def)
  note t = statistics_lossless [OF r]
  have "map cp_up rs = [meas_up_zero\<lparr>meas_nb_rx_rcv := 3\<rparr>, meas_up_zero\<lparr>meas_nb_rx_rcv := 4\<rparr>]"
    using t by (simp add: demo_interval_def)
  then have "map meas_nb_rx_rcv (map cp_up rs) = [3, 4]" by simp
  moreover have "meas_nb_tx_requested (cp_dw s) = 7"
    using conjunct2 [OF conjunct2 [OF conjunct2 [OF conjunct2 [OF t]]], THEN bspec, of meas_nb_tx_requested]
    by (simp add: total_counters_def demo_interval_def stats_start_def meas_dw_zero_def)
  moreover have "u = meas_up_zero" "d = meas_dw_zero" using t by blast+
  ultimately show ?thesis
    using r by (intro exI [of _ rs] exI [of _ s]) (simp add: comp_def)
qed

section \<open>The sockets\<close>

text \<open>
  A start of the forwarder that succeeds has the upstream socket on link 0 and the downstream socket on
  link 1, the links the program around it reads and writes; and it takes both, so that a second start
  without \<open>reset\<close> ends at the first socket.
\<close>

theorem main_start_links:
  assumes "main_start H E C = Inr r" and "next_socket C = uplink"
  shows "sr_sock_up r = uplink \<and> sr_sock_down r = downlink \<and> next_socket (sr_comms r) = 2 \<and>
    (\<forall>E' r'. main_start H E' (sr_comms r) \<noteq> Inr r')"
proof -
  have no_socket: "fst (open_socket n D) = None" if "next_socket D = 2" for n D
    using that by (induction n) (simp_all add: mem_socket_def downlink_def)
  have full: "open_link a D = Inl ExitCall" if "next_socket D = 2" for a D
    using no_socket [OF that] by (auto simp: open_link_def split: option.split prod.split) (metis fst_conv option.distinct(1))+
  have first: "fd = next_socket D \<and> next_socket D' = next_socket D + 1"
    if l: "open_link a D = Inr (fd, D')" and le: "next_socket D \<le> downlink" for a D fd D'
  proof -
    obtain n where "open_socket n D = (Some fd, D')"
      using l by (auto simp: open_link_def split: option.splits prod.splits sum.splits)
    then show ?thesis
      using le by (cases n) (auto simp: mem_socket_def Let_def)
  qed
  obtain up down C1 C2 where o: "open_link (env_addrs_up E) C = Inr (up, C1)" "open_link (env_addrs_down E) C1 = Inr (down, C2)"
      "sr_sock_up r = up" "sr_sock_down r = down" "sr_comms r = C2"
    using assms(1) by (auto simp: main_start_def bindr_eq_Inr_iff Let_def split: if_splits)
  have 1: "up = uplink" "next_socket C1 = 1"
    using first [OF o(1)] assms(2) by (auto simp: uplink_def downlink_def)
  have 2: "down = downlink" "next_socket C2 = 2"
    using first [OF o(2)] 1 by (auto simp: downlink_def)
  have "main_start H E' C2 \<noteq> Inr r'" for E' r'
    using full [OF 2(2)] by (auto simp: main_start_def bindr_eq_Inr_iff)
  then show ?thesis using o 1 2 by auto
qed


definition demo_env :: main_env where
  "demo_env = \<lparr>env_debug = None, env_global = Some demo_conf_file, env_local = None, env_gps_enable = False,
     env_addrs_up = Some 1, env_addrs_down = Some 2, env_lgw_start = True, env_time = \<lparr>tv_sec = 1700000000, tv_usec = 0\<rparr>,
     env_trigcnt = Some 1000000, env_threads = (\<lambda>_. True)\<rparr>"

lemma demo_main_start: "\<exists>r. main_start hal_conf_example demo_env comms_init = Inr r"
proof -
  obtain c where "load_configuration hal_conf_example None (Some demo_conf_file) None (conf_start hal_conf_example) = Inr c"
    using demo_read by (auto simp: load_configuration_def split: sum.splits)
  then show ?thesis
    by (simp add: main_start_def demo_env_def Let_def spawn_threads_def open_link_def comms_init_def mem_socket_def mem_connect_def
        bad_socket_def uplink_def downlink_def set_link_def numeral_2_eq_2 list_all_iff)
qed

theorem main_start_links_witness:
  "\<exists>r. main_start hal_conf_example demo_env comms_init = Inr r \<and> sr_sock_down r = 1 \<and>
     main_start hal_conf_example demo_env (sr_comms r) \<noteq> Inr r"
proof -
  obtain r where r: "main_start hal_conf_example demo_env comms_init = Inr r" using demo_main_start by blast
  show ?thesis
    using main_start_links [OF r] r by (auto simp: comms_init_def downlink_def)
qed

end
