(* ===== verification/Json_Edit.thy ===== *)
theory Json_Edit
  imports Json_Correct
begin

unbundle bit_operations_syntax

text \<open>
  The rest of the tree interface of \<open>parson.c\<close>: access by index, new values with their UTF-8 check, the functions
  that change an array or an object in place, deep copy, validation and comparison. A pointer to an object or an array
  is an option; a function that changes what it points to returns the status and the new contents. The tree owns its
  values, so freeing needs no trace, and a pointer into a tree is a path to it.
\<close>

section \<open>Texts without comments\<close>

definition json_parse_string :: "bytes option \<Rightarrow> json_value option option" where
  "json_parse_string str =
     (case str of
        None \<Rightarrow> Some None
      | Some s \<Rightarrow>
          let s = skip_whitespaces s in
          if cur s \<noteq> asc CHR 0x7B \<and> cur s \<noteq> asc CHR 0x5B then Some None
          else map_option (map_option fst) (parse_value (2 * length s + 1) s 0))"

text \<open>The file as \<open>read_file\<close> returns it; \<open>None\<close>: it cannot be read.\<close>

definition json_parse_file :: "bytes option \<Rightarrow> json_value option option" where
  "json_parse_file contents =
     (case contents of None \<Rightarrow> Some None | Some s \<Rightarrow> json_parse_string (Some (takeWhile (\<lambda>c. c \<noteq> 0) s)))"

section \<open>Types and access\<close>

datatype json_status = JSONSuccess | JSONFailure  \<comment> \<open>0 and -1\<close>

definition json_value_get_type :: "json_value option \<Rightarrow> int" where
  "json_value_get_type v =
     (case v of None \<Rightarrow> -1 | Some JSONNull \<Rightarrow> 1 | Some (JSONString _) \<Rightarrow> 2 | Some (JSONNumber _) \<Rightarrow> 3
      | Some (JSONObject _) \<Rightarrow> 4 | Some (JSONArray _) \<Rightarrow> 5 | Some (JSONBoolean _) \<Rightarrow> 6)"

definition json_object_get_name :: "json_object option \<Rightarrow> nat \<Rightarrow> bytes option" where
  "json_object_get_name obj index =
     (if json_object_get_count obj \<le> index then None
      else case obj of None \<Rightarrow> None | Some ms \<Rightarrow> Some (fst (ms ! index)))"

definition json_object_dotget_object :: "json_object option \<Rightarrow> bytes \<Rightarrow> json_object option" where
  "json_object_dotget_object obj name = json_value_get_object (json_object_dotget_value obj name)"

definition json_object_dotget_array :: "json_object option \<Rightarrow> bytes \<Rightarrow> json_value list option" where
  "json_object_dotget_array obj name = json_value_get_array (json_object_dotget_value obj name)"

definition json_object_dotget_boolean :: "json_object option \<Rightarrow> bytes \<Rightarrow> int" where
  "json_object_dotget_boolean obj name = json_value_get_boolean (json_object_dotget_value obj name)"

definition json_array_get_string :: "json_value list option \<Rightarrow> nat \<Rightarrow> bytes option" where
  "json_array_get_string arr i = json_value_get_string (json_array_get_value arr i)"

definition json_array_get_number :: "json_value list option \<Rightarrow> nat \<Rightarrow> dbl" where
  "json_array_get_number arr i = json_value_get_number (json_array_get_value arr i)"

definition json_array_get_object :: "json_value list option \<Rightarrow> nat \<Rightarrow> json_object option" where
  "json_array_get_object arr i = json_value_get_object (json_array_get_value arr i)"

definition json_array_get_array :: "json_value list option \<Rightarrow> nat \<Rightarrow> json_value list option" where
  "json_array_get_array arr i = json_value_get_array (json_array_get_value arr i)"

definition json_array_get_boolean :: "json_value list option \<Rightarrow> nat \<Rightarrow> int" where
  "json_array_get_boolean arr i = json_value_get_boolean (json_array_get_value arr i)"

section \<open>UTF-8\<close>

definition is_cont :: "u8 \<Rightarrow> bool" where
  "is_cont b \<longleftrightarrow> b AND 0xC0 = 0x80"

definition num_bytes_in_utf8_sequence :: "u8 \<Rightarrow> nat" where
  "num_bytes_in_utf8_sequence c =
     (if c = 0xC0 \<or> c = 0xC1 \<or> 0xF4 < c \<or> is_cont c then 0
      else if c AND 0x80 = 0 then 1
      else if c AND 0xE0 = 0xC0 then 2
      else if c AND 0xF0 = 0xE0 then 3
      else if c AND 0xF8 = 0xF0 then 4
      else 0)"

text \<open>The code point of a sequence, \<open>None\<close> where a continuation byte is missing.\<close>

definition utf8_code_point :: "bytes \<Rightarrow> nat \<Rightarrow> u32 option" where
  "utf8_code_point s len =
     (let bits = (\<lambda>i. ucast (char_at s i) AND 0x3F) in
      if len = 1 then Some (ucast (char_at s 0))
      else if len = 2 \<and> is_cont (char_at s 1) then
        Some (push_bit 6 (ucast (char_at s 0) AND 0x1F) OR bits 1)
      else if len = 3 \<and> is_cont (char_at s 1) \<and> is_cont (char_at s 2) then
        Some (push_bit 6 (push_bit 6 (ucast (char_at s 0) AND 0xF) OR bits 1) OR bits 2)
      else if len = 4 \<and> is_cont (char_at s 1) \<and> is_cont (char_at s 2) \<and> is_cont (char_at s 3) then
        Some (push_bit 6 (push_bit 6 (push_bit 6 (ucast (char_at s 0) AND 0x7) OR bits 1) OR bits 2) OR bits 3)
      else None)"

definition verify_utf8_sequence :: "bytes \<Rightarrow> bool \<times> nat" where
  "verify_utf8_sequence s =
     (let len = num_bytes_in_utf8_sequence (char_at s 0) in
      case utf8_code_point s len of
        None \<Rightarrow> (False, len)
      | Some cp \<Rightarrow>
          if cp < 0x80 \<and> 1 < len \<or> cp < 0x800 \<and> 2 < len \<or> cp < 0x10000 \<and> 3 < len then (False, len)
          else if 0x10FFFF < cp then (False, len)
          else if 0xD800 \<le> cp \<and> cp \<le> 0xDFFF then (False, len)
          else (True, len))"

lemma verify_utf8_sequence_pos: "fst (verify_utf8_sequence s) \<Longrightarrow> 0 < snd (verify_utf8_sequence s)"
proof (rule ccontr)
  assume v: "fst (verify_utf8_sequence s)" and "\<not> 0 < snd (verify_utf8_sequence s)"
  moreover have "snd (verify_utf8_sequence s) = num_bytes_in_utf8_sequence (char_at s 0)"
    by (simp only: verify_utf8_sequence_def Let_def split: option.split if_split) simp
  ultimately have "num_bytes_in_utf8_sequence (char_at s 0) = 0" by simp
  then show False using v by (simp add: verify_utf8_sequence_def utf8_code_point_def Let_def)
qed

text \<open>The callers pass \<open>strlen (string)\<close>, which is the length of the list.\<close>

function is_valid_utf8 :: "bytes \<Rightarrow> bool" where
  "is_valid_utf8 s =
     (if s = [] then True
      else if \<not> fst (verify_utf8_sequence s) then False
      else is_valid_utf8 (drop (snd (verify_utf8_sequence s)) s))"
  by auto
termination
  by (relation "measure length") (auto dest: verify_utf8_sequence_pos)

declare is_valid_utf8.simps [simp del]

section \<open>New values\<close>

definition json_value_init_object :: json_value where "json_value_init_object = JSONObject []"
definition json_value_init_array :: json_value where "json_value_init_array = JSONArray []"

definition json_value_init_string :: "bytes option \<Rightarrow> json_value option" where
  "json_value_init_string str =
     (case str of None \<Rightarrow> None | Some s \<Rightarrow> if is_valid_utf8 s then Some (JSONString s) else None)"

definition json_value_init_number :: "dbl \<Rightarrow> json_value" where "json_value_init_number d = JSONNumber d"
definition json_value_init_boolean :: "int \<Rightarrow> json_value" where "json_value_init_boolean b = JSONBoolean (b \<noteq> 0)"
definition json_value_init_null :: json_value where "json_value_init_null = JSONNull"

section \<open>Arrays\<close>

text \<open>The last item takes the place of the one removed.\<close>

definition json_array_remove :: "json_value list option \<Rightarrow> nat \<Rightarrow> json_status \<times> json_value list option" where
  "json_array_remove arr ix =
     (case arr of
        None \<Rightarrow> (JSONFailure, arr)
      | Some vs \<Rightarrow>
          if json_array_get_count arr \<le> ix then (JSONFailure, arr)
          else
            let last_element_ix = json_array_get_count arr - 1;
                vs = (if ix \<noteq> last_element_ix then vs[ix := vs ! last_element_ix] else vs) in
            (JSONSuccess, Some (take last_element_ix vs)))"

definition json_array_replace_value ::
    "json_value list option \<Rightarrow> nat \<Rightarrow> json_value option \<Rightarrow> json_status \<times> json_value list option" where
  "json_array_replace_value arr ix value =
     (case (arr, value) of
        (Some vs, Some v) \<Rightarrow>
          if json_array_get_count arr \<le> ix then (JSONFailure, arr) else (JSONSuccess, Some (vs[ix := v]))
      | _ \<Rightarrow> (JSONFailure, arr))"

definition json_array_replace_string ::
    "json_value list option \<Rightarrow> nat \<Rightarrow> bytes option \<Rightarrow> json_status \<times> json_value list option" where
  "json_array_replace_string arr i str = json_array_replace_value arr i (json_value_init_string str)"

definition json_array_replace_number ::
    "json_value list option \<Rightarrow> nat \<Rightarrow> dbl \<Rightarrow> json_status \<times> json_value list option" where
  "json_array_replace_number arr i number = json_array_replace_value arr i (Some (json_value_init_number number))"

definition json_array_replace_boolean ::
    "json_value list option \<Rightarrow> nat \<Rightarrow> int \<Rightarrow> json_status \<times> json_value list option" where
  "json_array_replace_boolean arr i b = json_array_replace_value arr i (Some (json_value_init_boolean b))"

definition json_array_replace_null :: "json_value list option \<Rightarrow> nat \<Rightarrow> json_status \<times> json_value list option" where
  "json_array_replace_null arr i = json_array_replace_value arr i (Some json_value_init_null)"

definition json_array_clear :: "json_value list option \<Rightarrow> json_status \<times> json_value list option" where
  "json_array_clear arr = (case arr of None \<Rightarrow> (JSONFailure, None) | Some _ \<Rightarrow> (JSONSuccess, Some []))"

text \<open>\<open>cap\<close> is the capacity of the array that is appended to.\<close>

definition json_array_append_value ::
    "nat \<Rightarrow> json_value list option \<Rightarrow> json_value option \<Rightarrow> json_status \<times> json_value list option" where
  "json_array_append_value cap arr value =
     (case (arr, value) of
        (Some vs, Some v) \<Rightarrow>
          (case json_array_add cap vs v of None \<Rightarrow> (JSONFailure, arr) | Some (_, vs) \<Rightarrow> (JSONSuccess, Some vs))
      | _ \<Rightarrow> (JSONFailure, arr))"

definition json_array_append_string ::
    "nat \<Rightarrow> json_value list option \<Rightarrow> bytes option \<Rightarrow> json_status \<times> json_value list option" where
  "json_array_append_string cap arr str = json_array_append_value cap arr (json_value_init_string str)"

definition json_array_append_number :: "nat \<Rightarrow> json_value list option \<Rightarrow> dbl \<Rightarrow> json_status \<times> json_value list option" where
  "json_array_append_number cap arr number = json_array_append_value cap arr (Some (json_value_init_number number))"

definition json_array_append_boolean :: "nat \<Rightarrow> json_value list option \<Rightarrow> int \<Rightarrow> json_status \<times> json_value list option" where
  "json_array_append_boolean cap arr b = json_array_append_value cap arr (Some (json_value_init_boolean b))"

definition json_array_append_null :: "nat \<Rightarrow> json_value list option \<Rightarrow> json_status \<times> json_value list option" where
  "json_array_append_null cap arr = json_array_append_value cap arr (Some json_value_init_null)"

section \<open>Objects\<close>

text \<open>The value of the first member of that name.\<close>

fun replace_member :: "json_object \<Rightarrow> bytes \<Rightarrow> json_value \<Rightarrow> json_object" where
  "replace_member [] name v = []"
| "replace_member ((n, w) # ms) name v = (if n = name then (n, v) # ms else (n, w) # replace_member ms name v)"

text \<open>In this and the following functions \<open>cap\<close> is the capacity of the object that gets a new member.\<close>

definition add_member :: "nat \<Rightarrow> json_object option \<Rightarrow> bytes \<Rightarrow> json_value \<Rightarrow> json_status \<times> json_object option" where
  "add_member cap obj name v =
     (case obj of
        None \<Rightarrow> (JSONFailure, None)
      | Some ms \<Rightarrow> (case json_object_add cap ms name v of
                     None \<Rightarrow> (JSONFailure, obj)
                   | Some (_, ms) \<Rightarrow> (JSONSuccess, Some ms)))"

definition json_object_set_value ::
    "nat \<Rightarrow> json_object option \<Rightarrow> bytes \<Rightarrow> json_value option \<Rightarrow> json_status \<times> json_object option" where
  "json_object_set_value cap obj name value =
     (case (obj, value) of
        (Some ms, Some v) \<Rightarrow>
          if json_object_get_value obj name \<noteq> None then (JSONSuccess, Some (replace_member ms name v))
          else add_member cap obj name v
      | _ \<Rightarrow> (JSONFailure, obj))"

definition json_object_set_string ::
    "nat \<Rightarrow> json_object option \<Rightarrow> bytes \<Rightarrow> bytes option \<Rightarrow> json_status \<times> json_object option" where
  "json_object_set_string cap obj name str = json_object_set_value cap obj name (json_value_init_string str)"

definition json_object_set_number :: "nat \<Rightarrow> json_object option \<Rightarrow> bytes \<Rightarrow> dbl \<Rightarrow> json_status \<times> json_object option" where
  "json_object_set_number cap obj name number = json_object_set_value cap obj name (Some (json_value_init_number number))"

definition json_object_set_boolean :: "nat \<Rightarrow> json_object option \<Rightarrow> bytes \<Rightarrow> int \<Rightarrow> json_status \<times> json_object option" where
  "json_object_set_boolean cap obj name b = json_object_set_value cap obj name (Some (json_value_init_boolean b))"

definition json_object_set_null :: "nat \<Rightarrow> json_object option \<Rightarrow> bytes \<Rightarrow> json_status \<times> json_object option" where
  "json_object_set_null cap obj name = json_object_set_value cap obj name (Some json_value_init_null)"

text \<open>What a function does with the object that \<open>name\<close> leads to: it is changed where it is.\<close>

definition in_member ::
    "json_object option \<Rightarrow> bytes \<Rightarrow> json_status \<times> json_object option \<Rightarrow> json_status \<times> json_object option" where
  "in_member obj name r =
     (fst r, case (obj, snd r) of (Some ms, Some ms') \<Rightarrow> Some (replace_member ms name (JSONObject ms')) | _ \<Rightarrow> obj)"

text \<open>
  The walk passes through objects that exist and adds a member to at most one of them, the last one, whose capacity
  \<open>cap\<close> is; the objects behind it are created, with capacity 0.
\<close>

function json_object_dotset_value ::
    "nat \<Rightarrow> json_object option \<Rightarrow> bytes \<Rightarrow> json_value option \<Rightarrow> json_status \<times> json_object option" where
  "json_object_dotset_value cap obj name value =
     (if value = None then (JSONFailure, obj)
      else
        case split_dot name of
          (current_name, None) \<Rightarrow> json_object_set_value cap obj current_name value
        | (current_name, Some rest) \<Rightarrow>
            (case json_object_get_object obj current_name of
               Some temp_obj \<Rightarrow> in_member obj current_name (json_object_dotset_value cap (Some temp_obj) rest value)
             | None \<Rightarrow>
                 (case add_member cap obj current_name json_value_init_object of
                    (JSONFailure, obj) \<Rightarrow> (JSONFailure, obj)
                  | (JSONSuccess, obj) \<Rightarrow>
                      in_member obj current_name
                        (json_object_dotset_value 0 (json_object_get_object obj current_name) rest value))))"
  by pat_completeness auto
termination
  by (relation "measure (\<lambda>(cap, obj, name, value). length name)") (auto dest: split_dot_shorter [OF sym])

declare json_object_dotset_value.simps [simp del]

definition json_object_dotset_string ::
    "nat \<Rightarrow> json_object option \<Rightarrow> bytes \<Rightarrow> bytes option \<Rightarrow> json_status \<times> json_object option" where
  "json_object_dotset_string cap obj name str = json_object_dotset_value cap obj name (json_value_init_string str)"

definition json_object_dotset_number :: "nat \<Rightarrow> json_object option \<Rightarrow> bytes \<Rightarrow> dbl \<Rightarrow> json_status \<times> json_object option" where
  "json_object_dotset_number cap obj name number = json_object_dotset_value cap obj name (Some (json_value_init_number number))"

definition json_object_dotset_boolean :: "nat \<Rightarrow> json_object option \<Rightarrow> bytes \<Rightarrow> int \<Rightarrow> json_status \<times> json_object option" where
  "json_object_dotset_boolean cap obj name b = json_object_dotset_value cap obj name (Some (json_value_init_boolean b))"

definition json_object_dotset_null :: "nat \<Rightarrow> json_object option \<Rightarrow> bytes \<Rightarrow> json_status \<times> json_object option" where
  "json_object_dotset_null cap obj name = json_object_dotset_value cap obj name (Some json_value_init_null)"

text \<open>The loop finds the first member of that name; the last member takes its place.\<close>

fun member_index :: "json_object \<Rightarrow> bytes \<Rightarrow> nat option" where
  "member_index [] name = None"
| "member_index ((n, v) # ms) name = (if n = name then Some 0 else map_option Suc (member_index ms name))"

definition json_object_remove :: "json_object option \<Rightarrow> bytes \<Rightarrow> json_status \<times> json_object option" where
  "json_object_remove obj name =
     (case obj of
        None \<Rightarrow> (JSONFailure, None)
      | Some ms \<Rightarrow>
          if json_object_get_value obj name = None then (JSONFailure, obj)
          else
            let last_item_index = json_object_get_count obj - 1 in
            (case member_index ms name of
               None \<Rightarrow> (JSONFailure, obj)
             | Some i \<Rightarrow>
                 let ms = (if i \<noteq> last_item_index then ms[i := ms ! last_item_index] else ms) in
                 (JSONSuccess, Some (take last_item_index ms))))"

function json_object_dotremove :: "json_object option \<Rightarrow> bytes \<Rightarrow> json_status \<times> json_object option" where
  "json_object_dotremove obj name =
     (case split_dot name of
        (current_name, None) \<Rightarrow> json_object_remove obj current_name
      | (current_name, Some rest) \<Rightarrow>
          (case json_object_get_object obj current_name of
             None \<Rightarrow> (JSONFailure, obj)
           | Some temp_obj \<Rightarrow> in_member obj current_name (json_object_dotremove (Some temp_obj) rest)))"
  by pat_completeness auto
termination
  by (relation "measure (\<lambda>(obj, name). length name)") (auto dest: split_dot_shorter [OF sym])

declare json_object_dotremove.simps [simp del]

definition json_object_clear :: "json_object option \<Rightarrow> json_status \<times> json_object option" where
  "json_object_clear obj = (case obj of None \<Rightarrow> (JSONFailure, None) | Some _ \<Rightarrow> (JSONSuccess, Some []))"

section \<open>Copies\<close>

text \<open>A loop over a list that may fail.\<close>

fun each_opt :: "('i \<Rightarrow> 's \<Rightarrow> 's option) \<Rightarrow> 'i list \<Rightarrow> 's \<Rightarrow> 's option" where
  "each_opt f [] s = Some s"
| "each_opt f (i # is) s = (case f i s of None \<Rightarrow> None | Some s \<Rightarrow> each_opt f is s)"

lemma each_opt_cong [fundef_cong]:
  "xs = ys \<Longrightarrow> s = t \<Longrightarrow> (\<And>x s. x \<in> set ys \<Longrightarrow> f x s = g x s) \<Longrightarrow> each_opt f xs s = each_opt g ys t"
proof (induction xs arbitrary: ys s t)
  case (Cons x xs)
  then have "f x s = g x s" "each_opt f xs u = each_opt g xs u" for u
    using Cons.prems(3) by (auto simp flip: Cons.prems(1,2) intro!: Cons.IH)
  then show ?case
    using Cons.prems(1,2) by (auto split: option.split)
qed simp

text \<open>The size of what a pointer leads to; values a tree holds are smaller than the tree.\<close>

definition ptr_size :: "json_value option \<Rightarrow> nat" where
  "ptr_size v = (case v of None \<Rightarrow> 0 | Some x \<Rightarrow> Suc (size x))"

lemma nget_value_member: "json_object_nget_value ms k = Some v \<Longrightarrow> (k, v) \<in> set ms"
  by (induction ms k rule: json_object_nget_value.induct) (auto split: if_splits)

lemma member_smaller: "(k, v) \<in> set ms \<Longrightarrow> size v < size (JSONObject ms)"
  by (induction ms) auto

lemma item_smaller: "v \<in> set vs \<Longrightarrow> size v < size (JSONArray vs)"
  by (induction vs) auto

lemma ptr_size_member: "ptr_size (json_object_get_value (Some ms) k) < ptr_size (Some (JSONObject ms))"
  using member_smaller [OF nget_value_member]
  by (auto simp: ptr_size_def json_object_get_value_def split: option.split)

lemma ptr_size_item: "ptr_size (json_array_get_value (Some vs) i) < ptr_size (Some (JSONArray vs))"
  using item_smaller [of "vs ! i" vs]
  by (auto simp: ptr_size_def json_array_get_value_def json_array_get_count_def)

function json_value_deep_copy :: "json_value option \<Rightarrow> json_value option" where
  "json_value_deep_copy value =
     (case value of
        None \<Rightarrow> None
      | Some (JSONArray vs) \<Rightarrow>
          map_option (\<lambda>(_, copy). JSONArray copy)
            (each_opt (\<lambda>i (cap, copy).
               case json_value_deep_copy (json_array_get_value (Some vs) i) of
                 None \<Rightarrow> None
               | Some v \<Rightarrow> json_array_add cap copy v) [0..<length vs] (0, []))
      | Some (JSONObject ms) \<Rightarrow>
          map_option (\<lambda>(_, copy). JSONObject copy)
            (each_opt (\<lambda>(temp_key, _) (cap, copy).
               case json_value_deep_copy (json_object_get_value (Some ms) temp_key) of
                 None \<Rightarrow> None
               | Some v \<Rightarrow> json_object_add cap copy temp_key v) ms (0, []))
      | Some (JSONBoolean b) \<Rightarrow> Some (json_value_init_boolean (json_value_get_boolean value))
      | Some (JSONNumber d) \<Rightarrow> Some (json_value_init_number (json_value_get_number value))
      | Some (JSONString s) \<Rightarrow> Some (JSONString s)
      | Some JSONNull \<Rightarrow> Some json_value_init_null)"
  by auto
termination
  by (relation "measure ptr_size") (simp_all add: ptr_size_item ptr_size_member)

declare json_value_deep_copy.simps [simp del]

section \<open>Validation\<close>

text \<open>
  An item of the array is compared as the code compares it: a result equal to 0, that is \<open>JSONSuccess\<close>, ends the
  loop with \<open>JSONFailure\<close>.
\<close>

function json_validate :: "json_value option \<Rightarrow> json_value option \<Rightarrow> json_status" where
  "json_validate schema value =
     (if schema = None \<or> value = None then JSONFailure
      else if json_value_get_type schema \<noteq> json_value_get_type value \<and> json_value_get_type schema \<noteq> 1 then JSONFailure
      else
        case schema of
          None \<Rightarrow> JSONFailure
        | Some (JSONArray ss) \<Rightarrow>
            if ss = [] then JSONSuccess
            else
              (let value_array = json_value_get_array value in
               if list_all (\<lambda>i. json_validate (json_array_get_value (Some ss) 0) (json_array_get_value value_array i) \<noteq> JSONSuccess)
                    [0..<json_array_get_count value_array]
               then JSONSuccess else JSONFailure)
        | Some (JSONObject ss) \<Rightarrow>
            (let value_object = json_value_get_object value in
             if ss = [] then JSONSuccess
             else if json_object_get_count value_object < length ss then JSONFailure
             else if list_all (\<lambda>(key, _).
                       json_object_get_value value_object key \<noteq> None \<and>
                       json_validate (json_object_get_value (Some ss) key) (json_object_get_value value_object key) \<noteq> JSONFailure) ss
             then JSONSuccess else JSONFailure)
        | _ \<Rightarrow> JSONSuccess)"
  by auto
termination
  by (relation "measure (\<lambda>(schema, value). ptr_size schema)") (simp_all add: ptr_size_item ptr_size_member)

declare json_validate.simps [simp del]

section \<open>Comparison\<close>

text \<open>\<open>fabs (x - y) < 0.000001\<close>, where the constant is the double next to it.\<close>

definition numbers_equal :: "dbl \<Rightarrow> dbl \<Rightarrow> bool" where
  "numbers_equal x y =
     (case (dbl_sub x y, round_dbl (1 / 1000000)) of (Fin d, Fin epsilon) \<Rightarrow> \<bar>d\<bar> < epsilon | _ \<Rightarrow> False)"

function json_value_equals :: "json_value option \<Rightarrow> json_value option \<Rightarrow> bool" where
  "json_value_equals a b =
     (if json_value_get_type a \<noteq> json_value_get_type b then False
      else
        case a of
          Some (JSONArray as) \<Rightarrow>
            (let b_array = json_value_get_array b in
             length as = json_array_get_count b_array \<and>
             list_all (\<lambda>i. json_value_equals (json_array_get_value (Some as) i) (json_array_get_value b_array i)) [0..<length as])
        | Some (JSONObject as) \<Rightarrow>
            (let b_object = json_value_get_object b in
             length as = json_object_get_count b_object \<and>
             list_all (\<lambda>(key, _). json_value_equals (json_object_get_value (Some as) key) (json_object_get_value b_object key)) as)
        | Some (JSONString _) \<Rightarrow> json_value_get_string a = json_value_get_string b
        | Some (JSONBoolean _) \<Rightarrow> json_value_get_boolean a = json_value_get_boolean b
        | Some (JSONNumber _) \<Rightarrow> numbers_equal (json_value_get_number a) (json_value_get_number b)
        | _ \<Rightarrow> True)"
  by auto
termination
  by (relation "measure (\<lambda>(a, b). ptr_size a)") (simp_all add: ptr_size_item ptr_size_member)

declare json_value_equals.simps [simp del]

end
