(* ===== verification/Json_Edit_Correct.thy ===== *)
theory Json_Edit_Correct
  imports Json_Edit "HOL-Library.Sublist"
begin

text \<open>
  What the functions that change a JSON tree promise: a value that has been set under a dotted name is found there and
  nothing else changes, a failed call changes nothing; a deep copy is the same tree; and how the validation of arrays
  differs from what \<open>parson.h\<close> says.
\<close>

section \<open>Members\<close>

lemma nget_map_of: "json_object_nget_value ms n = map_of ms n"
  by (induction ms n rule: json_object_nget_value.induct) auto

lemma get_value_map_of: "json_object_get_value (Some ms) n = map_of ms n" "json_object_get_value None n = None"
  by (simp_all add: json_object_get_value_def nget_map_of)

lemma map_of_replace_member:
  "map_of (replace_member ms n v) = (if map_of ms n = None then map_of ms else (map_of ms)(n \<mapsto> v))"
  by (induction ms n v rule: replace_member.induct) (auto simp: fun_eq_iff)

lemma replace_member_same: "map_of ms n = Some v \<Longrightarrow> replace_member ms n v = ms"
  by (induction ms n v rule: replace_member.induct) (auto split: if_splits)

lemma map_of_snoc: "map_of ms n = None \<Longrightarrow> map_of (ms @ [(n, v)]) = (map_of ms)(n \<mapsto> v)"
  by (auto simp: map_add_def fun_eq_iff split: option.split)

text \<open>No member can be added any more: none of the capacity is left and its double is beyond the maximum.\<close>

definition full :: "nat \<Rightarrow> json_object \<Rightarrow> bool" where
  "full cap ms \<longleftrightarrow> cap \<le> length ms \<and> 960 < 2 * cap"

lemma not_full_empty [simp]: "\<not> full cap []"
  by (auto simp: full_def)

lemma add_member_cases:
  "add_member cap (Some ms) n v = (if full cap ms \<or> map_of ms n \<noteq> None then (JSONFailure, Some ms)
     else (JSONSuccess, Some (ms @ [(n, v)])))"
  by (auto simp: add_member_def json_object_add_def get_value_map_of full_def grown_capacity_def Let_def
      OBJECT_MAX_CAPACITY_def STARTING_CAPACITY_def)

lemma set_value_cases:
  "json_object_set_value cap (Some ms) n (Some v) =
     (if map_of ms n \<noteq> None then (JSONSuccess, Some (replace_member ms n v)) else add_member cap (Some ms) n v)"
  by (simp add: json_object_set_value_def get_value_map_of)

lemma json_status_neq: "s \<noteq> JSONFailure \<longleftrightarrow> s = JSONSuccess" "s \<noteq> JSONSuccess \<longleftrightarrow> s = JSONFailure"
  by (cases s; simp)+

section \<open>Dotted names\<close>

function dot_path :: "bytes \<Rightarrow> bytes list" where
  "dot_path name = (case split_dot name of (n, None) \<Rightarrow> [n] | (n, Some rest) \<Rightarrow> n # dot_path rest)"
  by auto
termination
  by (relation "measure length") (auto dest: split_dot_shorter [OF sym])

declare dot_path.simps [simp del]

lemma dotget_None: "json_object_dotget_value None name = None"
proof (induction "length name" arbitrary: name rule: less_induct)
  case less
  then show ?case
    using split_dot_shorter [of name]
    by (subst json_object_dotget_value.simps)
      (auto simp: get_value_map_of json_value_get_object_def split: prod.split option.split)
qed

lemma dotget_empty: "json_object_dotget_value (Some []) name = None"
  by (subst json_object_dotget_value.simps)
    (auto simp: get_value_map_of json_value_get_object_def dotget_None split: prod.split option.split)

lemma dotget_leaf: "split_dot name = (n, None) \<Longrightarrow> json_object_dotget_value obj name = json_object_get_value obj n"
  by (subst json_object_dotget_value.simps) simp

lemma dotget_inner:
  "split_dot name = (n, Some rest) \<Longrightarrow>
   json_object_dotget_value (Some ms) name = json_object_dotget_value (json_value_get_object (map_of ms n)) rest"
  by (subst json_object_dotget_value.simps) (simp add: nget_map_of)

lemma get_object_map_of: "json_object_get_object (Some ms) n = json_value_get_object (map_of ms n)"
  by (simp add: json_object_get_object_def get_value_map_of)

lemma dotset_empty:
  "\<exists>ms'. json_object_dotset_value cap (Some []) name (Some v) = (JSONSuccess, Some ms')"
proof (induction "length name" arbitrary: name cap rule: less_induct)
  case less
  show ?case
  proof (cases "split_dot name")
    case (Pair n rest)
    show ?thesis
    proof (cases rest)
      case None
      then show ?thesis
        using Pair by (subst json_object_dotset_value.simps) (simp add: set_value_cases add_member_cases OBJECT_MAX_CAPACITY_def)
    next
      case (Some r)
      obtain ms' where "json_object_dotset_value 0 (Some []) r (Some v) = (JSONSuccess, Some ms')"
        using less split_dot_shorter [of name n r] Pair Some by blast
      then show ?thesis
        using Pair Some by (subst json_object_dotset_value.simps)
          (simp add: get_object_map_of add_member_cases OBJECT_MAX_CAPACITY_def json_value_get_object_def
            json_value_init_object_def in_member_def)
    qed
  qed
qed

text \<open>One step of \<open>json_object_dotset_value\<close>: the object that is changed, and what holds it.\<close>

lemma dotset_leaf:
  "split_dot name = (n, None) \<Longrightarrow>
   json_object_dotset_value cap (Some ms) name (Some v) = json_object_set_value cap (Some ms) n (Some v)"
  by (subst json_object_dotset_value.simps) simp

lemma dotset_inner:
  assumes "split_dot name = (n, Some rest)"
  shows "json_object_dotset_value cap (Some ms) name (Some v) =
    (case json_value_get_object (map_of ms n) of
       Some temp \<Rightarrow> in_member (Some ms) n (json_object_dotset_value cap (Some temp) rest (Some v))
     | None \<Rightarrow>
         if full cap ms \<or> map_of ms n \<noteq> None then (JSONFailure, Some ms)
         else in_member (Some (ms @ [(n, JSONObject [])])) n (json_object_dotset_value 0 (Some []) rest (Some v)))"
  using assms
  by (subst json_object_dotset_value.simps)
    (auto simp: get_object_map_of add_member_cases json_value_init_object_def json_value_get_object_def map_of_snoc
      split: option.split json_value.split)

definition untouched :: "json_object \<Rightarrow> bytes \<Rightarrow> json_object \<Rightarrow> bool" where
  "untouched ms name ms' \<longleftrightarrow>
     (\<forall>other. \<not> prefix (dot_path name) (dot_path other) \<longrightarrow> \<not> prefix (dot_path other) (dot_path name) \<longrightarrow>
        json_object_dotget_value (Some ms') other = json_object_dotget_value (Some ms) other)"

lemma dot_path_leaf: "split_dot name = (n, None) \<Longrightarrow> dot_path name = [n]"
  by (subst dot_path.simps) simp

lemma dot_path_inner: "split_dot name = (n, Some rest) \<Longrightarrow> dot_path name = n # dot_path rest"
  by (subst dot_path.simps) simp

lemma untouched_leaf:
  assumes "split_dot name = (n, None)" and "\<And>k. k \<noteq> n \<Longrightarrow> map_of ms' k = map_of ms k"
  shows "untouched ms name ms'"
  unfolding untouched_def
proof (intro allI impI)
  fix other
  assume np: "\<not> prefix (dot_path name) (dot_path other)"
  obtain m r where o: "split_dot other = (m, r)" by force
  have "m \<noteq> n"
    using np o assms(1) by (cases r) (auto simp: dot_path_leaf dot_path_inner)
  then show "json_object_dotget_value (Some ms') other = json_object_dotget_value (Some ms) other"
    using o assms(2) by (cases r) (auto simp: dotget_leaf dotget_inner get_value_map_of)
qed

lemma untouched_inner:
  assumes "split_dot name = (n, Some rest)" and "\<And>k. k \<noteq> n \<Longrightarrow> map_of ms' k = map_of ms k"
    and "map_of ms' n = Some (JSONObject t')" and "untouched t rest t'"
    and "json_value_get_object (map_of ms n) = Some t \<or> json_value_get_object (map_of ms n) = None \<and> t = []"
  shows "untouched ms name ms'"
  unfolding untouched_def
proof (intro allI impI)
  fix other
  assume np: "\<not> prefix (dot_path name) (dot_path other)" "\<not> prefix (dot_path other) (dot_path name)"
  obtain m r where o: "split_dot other = (m, r)" by force
  show "json_object_dotget_value (Some ms') other = json_object_dotget_value (Some ms) other"
  proof (cases "m = n")
    case False
    then show ?thesis
      using o assms(2) by (cases r) (auto simp: dotget_leaf dotget_inner get_value_map_of)
  next
    case True
    obtain q where r: "r = Some q"
      using np(2) o True assms(1) by (cases r) (auto simp: dot_path_leaf dot_path_inner)
    then have "json_object_dotget_value (Some t') q = json_object_dotget_value (Some t) q"
      using np o True assms(1,4) by (auto simp: untouched_def dot_path_inner)
    then show ?thesis
      using o r True assms(3,5)
      by (auto simp: dotget_inner json_value_get_object_def [of "Some (JSONObject t')"] dotget_empty dotget_None)
  qed
qed

lemma dotset_spec:
  "case json_object_dotset_value cap (Some ms) name (Some v) of
     (JSONFailure, obj) \<Rightarrow> obj = Some ms
   | (JSONSuccess, obj) \<Rightarrow> \<exists>ms'. obj = Some ms' \<and> json_object_dotget_value (Some ms') name = Some v \<and> untouched ms name ms'"
proof (induction "length name" arbitrary: name ms cap rule: less_induct)
  case less
  obtain n rest where s: "split_dot name = (n, rest)" by force
  show ?case
  proof (cases rest)
    case None
    then show ?thesis
      using s untouched_leaf [of name n]
      by (auto simp: dotset_leaf set_value_cases add_member_cases dotget_leaf get_value_map_of map_of_replace_member
          map_of_snoc simp del: map_of_append)
  next
    case (Some r)
    note s = s [unfolded Some]
    note IH = less [OF split_dot_shorter [OF s]]
    show ?thesis
    proof (cases "json_value_get_object (map_of ms n)")
      case t: (Some t)
      then have m: "map_of ms n = Some (JSONObject t)"
        by (auto simp: json_value_get_object_def split: option.splits json_value.splits)
      show ?thesis
        using IH [where ms = t and cap = cap] m untouched_inner [OF s _ _ _ disjI1 [OF t]]
        by (auto simp: dotset_inner [OF s] in_member_def dotget_inner [OF s] replace_member_same map_of_replace_member
            json_value_get_object_def split: prod.splits json_status.splits)
    next
      case None
      show ?thesis
      proof (cases "full cap ms \<or> map_of ms n \<noteq> None")
        case True
        then show ?thesis using None by (simp add: dotset_inner [OF s])
      next
        case False
        obtain t' where t': "json_object_dotset_value 0 (Some []) r (Some v) = (JSONSuccess, Some t')"
          using dotset_empty by blast
        have "map_of (ms @ [(n, JSONObject [])]) = (map_of ms)(n \<mapsto> JSONObject [])"
          using False by (intro map_of_snoc) simp
        then show ?thesis
          using IH [where ms = "[]" and cap = 0] t' False None untouched_inner [OF s, where ms = ms and t' = t' and t = "[]"]
          by (auto simp: dotset_inner [OF s] in_member_def dotget_inner [OF s] map_of_replace_member
              json_value_get_object_def simp del: map_of_append)
      qed
    qed
  qed
qed

text \<open>
  Whether there is a way: the objects on it exist up to some name, the object that gets that name next has room for one more
  member, and no name in front of the last one stands for something that is not an object.
\<close>

fun can_set :: "nat \<Rightarrow> json_object \<Rightarrow> bytes list \<Rightarrow> bool" where
  "can_set cap ms [] = False"
| "can_set cap ms [n] \<longleftrightarrow> map_of ms n \<noteq> None \<or> \<not> full cap ms"
| "can_set cap ms (n # m # path) =
     (case map_of ms n of
        None \<Rightarrow> \<not> full cap ms
      | Some (JSONObject t) \<Rightarrow> can_set cap t (m # path)
      | Some _ \<Rightarrow> False)"

lemma dot_path_Cons: "\<exists>n path. dot_path name = n # path"
  by (subst dot_path.simps) (auto split: prod.split option.split)

lemma dotset_succeeds:
  "fst (json_object_dotset_value cap (Some ms) name (Some v)) = JSONSuccess \<longleftrightarrow> can_set cap ms (dot_path name)"
proof (induction "length name" arbitrary: name ms cap rule: less_induct)
  case less
  obtain n rest where s: "split_dot name = (n, rest)" by force
  show ?case
  proof (cases rest)
    case None
    then show ?thesis
      using s by (simp add: dotset_leaf dot_path_leaf set_value_cases add_member_cases)
  next
    case (Some r)
    note s = s [unfolded Some]
    obtain m path where p: "dot_path r = m # path" using dot_path_Cons by blast
    have "fst (json_object_dotset_value cap (Some t) r (Some v)) = JSONSuccess \<longleftrightarrow> can_set cap t (m # path)" for t
      using less [OF split_dot_shorter [OF s]] p by simp
    moreover have "fst (json_object_dotset_value 0 (Some []) r (Some v)) = JSONSuccess"
      using dotset_empty [of 0 r v] by auto
    ultimately show ?thesis
      by (auto simp: dotset_inner [OF s] dot_path_inner [OF s] p in_member_def json_value_get_object_def
          split: option.split json_value.split)
  qed
qed

text \<open>
  C18. For every object, dotted name and value, and whatever capacity the object the walk ends in has left:
  \<open>json_object_dotset_value\<close> succeeds exactly if each name in front of the last one is missing or stands for an object and the
  object that gets a new member has room for it (a free place, or a capacity whose double is at most 960). Then the value is
  found under that name, with objects created on the way as needed, and every name whose path neither starts with the path that
  was set nor leads to it finds what it found before. A call that fails leaves the object as it was.
\<close>

theorem dotset_then_dotget:
  "case json_object_dotset_value cap (Some ms) name (Some v) of
     (JSONFailure, obj) \<Rightarrow> obj = Some ms \<and> \<not> can_set cap ms (dot_path name)
   | (JSONSuccess, obj) \<Rightarrow> can_set cap ms (dot_path name) \<and> json_object_dotget_value obj name = Some v \<and>
       (\<forall>other. prefix (dot_path name) (dot_path other) \<or> prefix (dot_path other) (dot_path name) \<or>
          json_object_dotget_value obj other = json_object_dotget_value (Some ms) other)"
  using dotset_spec [where cap = cap and ms = ms and name = name and v = v] dotset_succeeds [of cap ms name v]
  by (auto simp: untouched_def split: prod.splits json_status.splits)

text \<open>An object read from a text is trimmed to its members: with more than 480 of them it takes no other.\<close>

lemma parsed_object_full:
  assumes "480 < length ms" and "json_object_get_value (Some ms) name = None"
  shows "json_object_set_value (length ms) (Some ms) name (Some v) = (JSONFailure, Some ms)"
  using assms by (simp add: set_value_cases add_member_cases get_value_map_of full_def)

section \<open>Copies and comparison\<close>

fun finite_numbers :: "json_value \<Rightarrow> bool" where
  "finite_numbers (JSONNumber x) = (\<exists>q. x = Fin q)"
| "finite_numbers (JSONObject ms) = (\<forall>m \<in> set ms. finite_numbers (snd m))"
| "finite_numbers (JSONArray vs) = (\<forall>v \<in> set vs. finite_numbers v)"
| "finite_numbers v = True"

lemma map_of_member: "distinct (map fst ms) \<Longrightarrow> (k, x) \<in> set ms \<Longrightarrow> map_of ms k = Some x"
  by simp

lemma copy_array:
  assumes "\<And>v. v \<in> set vs \<Longrightarrow> json_value_deep_copy (Some v) = Some v" and "length vs \<le> ARRAY_MAX_CAPACITY"
  shows "json_value_deep_copy (Some (JSONArray vs)) = Some (JSONArray vs)"
proof -
  let ?f = "\<lambda>i (cap, copy). case json_value_deep_copy (json_array_get_value (Some vs) i) of None \<Rightarrow> None | Some v \<Rightarrow> json_array_add cap copy v"
  have "\<exists>cap'. each_opt ?f [k..<length vs] (cap, take k vs) = Some (cap', vs)"
    if "k \<le> length vs" and "grows_to ARRAY_MAX_CAPACITY cap" "k \<le> cap" for k cap
    using that
  proof (induction arbitrary: cap rule: inc_induct)
    case (step k)
    obtain c where c: "grown_capacity ARRAY_MAX_CAPACITY cap k = Some c" "grows_to ARRAY_MAX_CAPACITY c" "k < c"
      using grows_to_step [OF step.prems _ grows_array] step.hyps assms(2) by auto
    then have "?f k (cap, take k vs) = Some (c, take (Suc k) vs)"
      using step.hyps assms
      by (simp add: json_array_get_value_def json_array_get_count_def json_array_add_def take_Suc_conv_app_nth min_absorb2)
    then show ?case using step.hyps step.IH [of c] c by (simp add: upt_conv_Cons)
  qed simp
  from this [of 0 0] show ?thesis
    by (subst json_value_deep_copy.simps) auto
qed

lemma copy_object:
  assumes "\<And>m. m \<in> set ms \<Longrightarrow> json_value_deep_copy (Some (snd m)) = Some (snd m)" and "distinct (map fst ms)"
    and "length ms \<le> OBJECT_MAX_CAPACITY"
  shows "json_value_deep_copy (Some (JSONObject ms)) = Some (JSONObject ms)"
proof -
  let ?f = "\<lambda>(temp_key, _ :: json_value) (cap, copy).
    case json_value_deep_copy (json_object_get_value (Some ms) temp_key) of None \<Rightarrow> None | Some v \<Rightarrow> json_object_add cap copy temp_key v"
  have "\<exists>cap'. each_opt ?f post (cap, pre) = Some (cap', ms)"
    if "ms = pre @ post" and "grows_to OBJECT_MAX_CAPACITY cap" "length pre \<le> cap" for pre post cap
    using that
  proof (induction post arbitrary: cap pre)
    case (Cons m post)
    obtain k x where m: "m = (k, x)" by force
    have "map_of ms k = Some x"
      using Cons.prems(1) m by (intro map_of_member [OF assms(2)]) simp
    moreover have "map_of pre k = None"
      using Cons.prems(1) assms(2) m by (auto simp: map_of_eq_None_iff)
    moreover obtain c where c: "grown_capacity OBJECT_MAX_CAPACITY cap (length pre) = Some c"
        "grows_to OBJECT_MAX_CAPACITY c" "length pre < c"
      using grows_to_step [OF Cons.prems(2,3) _ grows_object] Cons.prems(1) assms(3) by auto
    ultimately have "?f m (cap, pre) = Some (c, pre @ [m])"
      using assms(1) [of m] Cons.prems(1) m by (simp add: get_value_map_of json_object_add_def)
    then show ?case using Cons.IH [of "pre @ [m]" c] Cons.prems(1) c by simp
  qed simp
  from this [of "[]" ms 0] show ?thesis
    by (subst json_value_deep_copy.simps) auto
qed

lemma deep_copy_same: "json_ok d v \<Longrightarrow> json_value_deep_copy (Some v) = Some v"
proof (induction d v rule: json_ok.induct)
  case (1 d ms)
  then show ?case by (intro copy_object) auto
next
  case (2 d vs)
  then show ?case by (intro copy_array) auto
qed (simp_all add: json_value_deep_copy.simps json_value_init_number_def json_value_init_boolean_def json_value_init_null_def
    json_value_get_boolean_def json_value_get_number_def)

lemma numbers_equal_same: "numbers_equal x x \<longleftrightarrow> (\<exists>q. x = Fin q)"
proof -
  have "round_dbl (1 / 1000000) = Fin (4722366482869645 / 2 ^ 72)" by code_simp
  then show ?thesis
    by (auto simp: numbers_equal_def dbl_sub_def dbl_add_def dbl_neg_def round_dbl_def split: dbl.split)
qed

lemma equals_array:
  "json_value_equals (Some (JSONArray vs)) (Some (JSONArray vs)) \<longleftrightarrow> (\<forall>v \<in> set vs. json_value_equals (Some v) (Some v))"
  by (subst json_value_equals.simps)
    (auto simp: json_value_get_array_def json_array_get_count_def json_array_get_value_def list_all_iff all_set_conv_all_nth)

lemma equals_object:
  assumes "distinct (map fst ms)"
  shows "json_value_equals (Some (JSONObject ms)) (Some (JSONObject ms)) \<longleftrightarrow>
    (\<forall>m \<in> set ms. json_value_equals (Some (snd m)) (Some (snd m)))"
  using map_of_member [OF assms]
  by (subst json_value_equals.simps)
    (fastforce simp: json_value_get_object_def json_object_get_count_def get_value_map_of list_all_iff)

text \<open>
  A deep copy of any tree the parser can return is the same tree; and comparing the two says that they are equal exactly
  if no number in them is infinite or NaN, as the number \<open>1e999\<close> of a text is.
\<close>

theorem deep_copy_and_equals:
  assumes "json_ok d v"
  shows "json_value_deep_copy (Some v) = Some v \<and>
    (json_value_equals (json_value_deep_copy (Some v)) (Some v) \<longleftrightarrow> finite_numbers v)"
proof -
  have "json_value_equals (Some v) (Some v) \<longleftrightarrow> finite_numbers v"
    using assms
  proof (induction d v rule: json_ok.induct)
    case (1 d ms)
    then show ?case using equals_object [of ms] by auto
  next
    case (2 d vs)
    then show ?case using equals_array [of vs] by auto
  qed (simp_all add: json_value_equals.simps json_value_get_number_def numbers_equal_same)
  then show ?thesis using deep_copy_same [OF assms] by simp
qed

theorem deep_copy_and_equals_witness:
  "json_value_equals (json_value_deep_copy (Some (JSONArray [JSONNumber (Fin 1)]))) (Some (JSONArray [JSONNumber (Fin 1)]))"
  using deep_copy_and_equals [of 1 "JSONArray [JSONNumber (Fin 1)]"] by (auto simp: ARRAY_MAX_CAPACITY_def)

section \<open>Validation\<close>

lemma validate_array:
  "json_validate (Some (JSONArray (s # ss))) (Some (JSONArray vs)) =
     (if list_ex (\<lambda>v. json_validate (Some s) (Some v) = JSONSuccess) vs then JSONFailure else JSONSuccess)"
  by (subst json_validate.simps)
    (auto simp: json_value_get_type_def json_value_get_array_def json_array_get_count_def json_array_get_value_def
      list_all_iff list_ex_length json_status_neq)

text \<open>The example of the header, in an array.\<close>

lemma validate_example:
  "json_validate (Some (JSONArray [JSONString []])) (Some (JSONArray [JSONString [74]])) = JSONFailure"
  "json_validate (Some (JSONArray [JSONString []])) (Some (JSONArray [JSONNull])) = JSONSuccess"
  unfolding validate_array by (simp_all add: json_validate.simps json_value_get_type_def)

text \<open>
  The validation of a non-empty array is inverted: \<open>parson.h\<close> says that every item is checked against the first value of the schema,
  but the result 0 of a successful check ends the loop with \<open>JSONFailure\<close>, so an array passes exactly if none of its items does.
\<close>

theorem validate_array_inverted:
  "json_validate (Some (JSONArray (s # ss))) (Some (JSONArray vs)) =
     (if list_ex (\<lambda>v. json_validate (Some s) (Some v) = JSONSuccess) vs then JSONFailure else JSONSuccess)"
  by (rule validate_array)

end
