(* ===== verification/Json_Utf8_Correct.thy ===== *)
theory Json_Utf8_Correct
  imports Json_Edit
begin

unbundle bit_operations_syntax

text \<open>
  The UTF-8 check of new strings against the encoding itself: \<open>is_valid_utf8\<close> accepts exactly the texts that encode
  a sequence of Unicode scalar values in the shortest form (RFC 3629).
\<close>

section \<open>The encoding\<close>

definition scalar_value :: "int \<Rightarrow> bool" where
  "scalar_value cp \<longleftrightarrow> 0 \<le> cp \<and> cp \<le> 0x10FFFF \<and> \<not> (0xD800 \<le> cp \<and> cp \<le> 0xDFFF)"

definition cont_byte :: "int \<Rightarrow> u8" where
  "cont_byte n = word_of_int (0x80 + n mod 64)"

definition utf8_encode :: "int \<Rightarrow> bytes" where
  "utf8_encode cp =
     (if cp < 0x80 then [word_of_int cp]
      else if cp < 0x800 then [word_of_int (0xC0 + cp div 64), cont_byte cp]
      else if cp < 0x10000 then [word_of_int (0xE0 + cp div 4096), cont_byte (cp div 64), cont_byte cp]
      else [word_of_int (0xF0 + cp div 262144), cont_byte (cp div 4096), cont_byte (cp div 64), cont_byte cp])"

section \<open>One byte\<close>

lemma all_bytes: "(\<forall>b :: u8. P b) \<longleftrightarrow> list_all (\<lambda>n. P (word_of_nat n)) [0..<256]"
proof
  assume l: "list_all (\<lambda>n. P (word_of_nat n)) [0..<256]"
  show "\<forall>b. P b"
  proof
    fix b :: u8
    have "unat b < 256" using unsigned_less [of b] by simp
    then have "P (word_of_nat (unat b))" using l unfolding list_all_iff by (metis atLeast0LessThan lessThan_iff set_upt)
    then show "P b" by simp
  qed
qed (simp add: list_all_iff)

lemma byte_kinds:
  "\<forall>b :: u8. (is_cont b \<longleftrightarrow> 128 \<le> uint b \<and> uint b < 192) \<and> (is_cont b \<longrightarrow> uint (b AND 0x3F) = uint b - 128)"
  unfolding all_bytes by code_simp

lemma byte_lengths:
  "\<forall>b :: u8. num_bytes_in_utf8_sequence b =
     (if uint b < 128 then 1 else if uint b < 194 then 0 else if uint b < 224 then 2 else if uint b < 240 then 3
      else if uint b < 245 then 4 else 0)"
  unfolding all_bytes by code_simp

lemma is_cont_iff: "is_cont b \<longleftrightarrow> 128 \<le> uint b \<and> uint b < 192"
  using byte_kinds by blast

lemma lead_bits:
  "\<forall>b :: u8. (uint b < 224 \<longrightarrow> 192 \<le> uint b \<longrightarrow> uint (b AND 0x1F) = uint b - 192) \<and>
     (uint b < 240 \<longrightarrow> 224 \<le> uint b \<longrightarrow> uint (b AND 0xF) = uint b - 224) \<and>
     (uint b < 248 \<longrightarrow> 240 \<le> uint b \<longrightarrow> uint (b AND 0x7) = uint b - 240)"
  unfolding all_bytes by code_simp

lemma push_or:
  fixes x y :: u32
  assumes "uint x < 2 ^ 26" and "uint y < 64"
  shows "uint (push_bit 6 x OR y) = uint x * 64 + uint y"
proof -
  have y: "take_bit 6 (uint y) = uint y"
    using assms(2) by (simp add: take_bit_int_eq_self)
  have "push_bit 6 (uint x) OR uint y = push_bit 6 (uint x) + uint y"
    by (rule disjunctive_add [symmetric]) (metis bit_push_bit_iff bit_take_bit_iff leD y)
  moreover have "take_bit 32 (push_bit 6 (uint x)) = push_bit 6 (uint x)"
    using assms(1) by (simp add: take_bit_int_eq_self push_bit_eq_mult)
  ultimately show ?thesis
    unfolding unsigned_or_eq unsigned_push_bit_eq by (simp add: push_bit_eq_mult)
qed

lemma ucast_and:
  assumes "uint m < 256"
  shows "uint (ucast (b :: u8) AND (m :: u32)) = uint (b AND ucast m)"
proof -
  have "uint b < 256" using unsigned_less [of b] by simp
  then show ?thesis
    using assms by (simp add: unsigned_and_eq unsigned_ucast_eq take_bit_int_eq_self)
qed

section \<open>The code point of a sequence\<close>

lemma cont_bits:
  assumes "is_cont b"
  shows "uint (ucast b AND (0x3F :: u32)) = uint b - 128" and "uint (ucast b AND (0x3F :: u32)) < 64"
  using assms byte_kinds is_cont_iff [of b] by (auto simp: ucast_and)

lemma add_cont:
  fixes x :: u32
  assumes "is_cont b" and "uint x < 2 ^ 26"
  shows "uint (push_bit 6 x OR (ucast b AND 0x3F)) = uint x * 64 + (uint b - 128)"
  using push_or [OF assms(2) cont_bits(2) [OF assms(1)]] cont_bits(1) [OF assms(1)] by simp

lemma code_point_1: "utf8_code_point s 1 = Some (ucast (char_at s 0))"
  by (simp add: utf8_code_point_def)

lemma code_point_2:
  assumes "192 \<le> uint (char_at s 0)" and "uint (char_at s 0) < 224" and "is_cont (char_at s 1)"
  shows "\<exists>cp. utf8_code_point s 2 = Some cp \<and> uint cp = (uint (char_at s 0) - 192) * 64 + (uint (char_at s 1) - 128)"
proof -
  have l: "uint (ucast (char_at s 0) AND (0x1F :: u32)) = uint (char_at s 0) - 192"
    using lead_bits assms by (simp add: ucast_and)
  show ?thesis
    using add_cont [OF assms(3), of "ucast (char_at s 0) AND (0x1F :: u32)"] assms l
    by (simp add: utf8_code_point_def del: push_bit_numeral)
qed

lemma code_point_3:
  assumes "224 \<le> uint (char_at s 0)" and "uint (char_at s 0) < 240" and c: "is_cont (char_at s 1)" "is_cont (char_at s 2)"
  shows "\<exists>cp. utf8_code_point s 3 = Some cp \<and>
    uint cp = ((uint (char_at s 0) - 224) * 64 + (uint (char_at s 1) - 128)) * 64 + (uint (char_at s 2) - 128)"
proof -
  define a where "a = push_bit 6 (ucast (char_at s 0) AND (0xF :: u32)) OR (ucast (char_at s 1) AND 0x3F)"
  have l: "uint (ucast (char_at s 0) AND (0xF :: u32)) = uint (char_at s 0) - 224"
    using lead_bits assms by (simp add: ucast_and)
  have a: "uint a = (uint (char_at s 0) - 224) * 64 + (uint (char_at s 1) - 128)"
    using add_cont [OF c(1), of "ucast (char_at s 0) AND (0xF :: u32)"] assms l by (simp add: a_def)
  have e: "utf8_code_point s 3 = Some (push_bit 6 a OR (ucast (char_at s 2) AND 0x3F))"
    using c by (simp add: utf8_code_point_def a_def)
  have "uint a < 2 ^ 26" using a assms c by (simp add: is_cont_iff)
  then show ?thesis
    using add_cont [OF c(2), of a] a c(1,2) by (auto simp: e)
qed

lemma code_point_4:
  assumes "240 \<le> uint (char_at s 0)" and "uint (char_at s 0) < 248"
    and c: "is_cont (char_at s 1)" "is_cont (char_at s 2)" "is_cont (char_at s 3)"
  shows "\<exists>cp. utf8_code_point s 4 = Some cp \<and>
    uint cp = (((uint (char_at s 0) - 240) * 64 + (uint (char_at s 1) - 128)) * 64 + (uint (char_at s 2) - 128)) * 64 +
      (uint (char_at s 3) - 128)"
proof -
  define a where "a = push_bit 6 (ucast (char_at s 0) AND (0x7 :: u32)) OR (ucast (char_at s 1) AND 0x3F)"
  define b where "b = push_bit 6 a OR (ucast (char_at s 2) AND 0x3F)"
  have l: "uint (ucast (char_at s 0) AND (0x7 :: u32)) = uint (char_at s 0) - 240"
    using lead_bits assms by (simp add: ucast_and)
  have a: "uint a = (uint (char_at s 0) - 240) * 64 + (uint (char_at s 1) - 128)"
    using add_cont [OF c(1), of "ucast (char_at s 0) AND (0x7 :: u32)"] assms l by (simp add: a_def)
  have "uint a < 2 ^ 26" using a assms c by (simp add: is_cont_iff)
  then have b: "uint b = uint a * 64 + (uint (char_at s 2) - 128)"
    using add_cont [OF c(2), of a] by (simp add: b_def)
  have e: "utf8_code_point s 4 = Some (push_bit 6 b OR (ucast (char_at s 3) AND 0x3F))"
    using c by (simp add: utf8_code_point_def a_def b_def)
  have "uint b < 2 ^ 26" using a b assms c by (simp add: is_cont_iff)
  then show ?thesis
    using add_cont [OF c(3), of b] a b by (auto simp: e)
qed

section \<open>One sequence\<close>

lemma lead_range:
  "num_bytes_in_utf8_sequence b = 1 \<longleftrightarrow> uint b < 128"
  "num_bytes_in_utf8_sequence b = 2 \<longleftrightarrow> 194 \<le> uint b \<and> uint b < 224"
  "num_bytes_in_utf8_sequence b = 3 \<longleftrightarrow> 224 \<le> uint b \<and> uint b < 240"
  "num_bytes_in_utf8_sequence b = 4 \<longleftrightarrow> 240 \<le> uint b \<and> uint b < 245"
  using byte_lengths by simp_all

lemma code_point_conts:
  assumes "utf8_code_point s n = Some cp"
  shows "n = 1 \<or> n = 2 \<and> is_cont (char_at s 1) \<or> n = 3 \<and> is_cont (char_at s 1) \<and> is_cont (char_at s 2) \<or>
    n = 4 \<and> is_cont (char_at s 1) \<and> is_cont (char_at s 2) \<and> is_cont (char_at s 3)"
  using assms by (simp only: utf8_code_point_def Let_def split: if_splits) auto

lemma verify_iff:
  "verify_utf8_sequence s = (True, n) \<longleftrightarrow>
     n = num_bytes_in_utf8_sequence (char_at s 0) \<and>
     (\<exists>cp. utf8_code_point s n = Some cp \<and> scalar_value (uint cp) \<and>
        \<not> (uint cp < 0x80 \<and> 1 < n \<or> uint cp < 0x800 \<and> 2 < n \<or> uint cp < 0x10000 \<and> 3 < n))"
  by (auto simp: verify_utf8_sequence_def Let_def word_less_def word_le_def scalar_value_def split: option.split)

lemma cont_present: "is_cont (char_at s i) \<Longrightarrow> i < length s"
  by (rule ccontr) (auto simp: char_at_def cur_def is_cont_iff)

lemma take_Suc_char: "n < length s \<Longrightarrow> take (Suc n) s = take n s @ [char_at s n]"
  by (simp add: char_at_def cur_def take_Suc_conv_app_nth drop_Cons_nth)

lemma take_chars:
  "Suc 0 \<le> length s \<Longrightarrow> take 1 s = [char_at s 0]"
  "2 \<le> length s \<Longrightarrow> take 2 s = [char_at s 0, char_at s 1]"
  "3 \<le> length s \<Longrightarrow> take 3 s = [char_at s 0, char_at s 1, char_at s 2]"
  "4 \<le> length s \<Longrightarrow> take 4 s = [char_at s 0, char_at s 1, char_at s 2, char_at s 3]"
  using take_Suc_char [of 0 s] take_Suc_char [of 1 s] take_Suc_char [of 2 s] take_Suc_char [of 3 s]
  by (cases "s = []"; auto simp: numeral_eq_Suc)+

lemma low_bits: "0 \<le> r \<Longrightarrow> r < 64 \<Longrightarrow> (a * 64 + r) div 64 = (a :: int)" "0 \<le> r \<Longrightarrow> r < 64 \<Longrightarrow> (a * 64 + r) mod 64 = (r :: int)"
  by (simp_all add: div_pos_pos_trivial)

lemma cont_byte_eq: "128 \<le> uint b \<Longrightarrow> n mod 64 = uint b - 128 \<Longrightarrow> cont_byte n = b"
  by (simp add: cont_byte_def)

lemma lead_byte_eq: "n = uint b - c \<Longrightarrow> word_of_int (c + n) = (b :: u8)"
  by simp

lemma utf8_decode:
  assumes "verify_utf8_sequence s = (True, n)" and "s \<noteq> []"
  shows "\<exists>cp. scalar_value cp \<and> utf8_encode cp = take n s \<and> n \<le> length s"
proof -
  let ?b = "\<lambda>i. uint (char_at s i)"
  obtain cp where n: "n = num_bytes_in_utf8_sequence (char_at s 0)" and cp: "utf8_code_point s n = Some cp" "scalar_value (uint cp)"
    and short: "\<not> (uint cp < 0x80 \<and> 1 < n \<or> uint cp < 0x800 \<and> 2 < n \<or> uint cp < 0x10000 \<and> 3 < n)"
    using assms(1) unfolding verify_iff by blast
  consider "n = 1" | "n = 2" "is_cont (char_at s 1)" | "n = 3" "is_cont (char_at s 1)" "is_cont (char_at s 2)"
    | "n = 4" "is_cont (char_at s 1)" "is_cont (char_at s 2)" "is_cont (char_at s 3)"
    using code_point_conts [OF cp(1)] by blast
  then have "utf8_encode (uint cp) = take n s \<and> n \<le> length s"
  proof cases
    case 1
    then have "?b 0 < 128" using n lead_range(1) by metis
    moreover from this have u: "uint cp = ?b 0"
      using 1 cp(1) code_point_1 [of s] by (auto simp: unsigned_ucast_eq take_bit_int_eq_self)
    ultimately show ?thesis
      using 1 assms(2) take_chars(1) [of s] by (simp add: utf8_encode_def Suc_le_eq)
  next
    case 2
    then have b: "194 \<le> ?b 0" "?b 0 < 224" using n lead_range(2) by metis+
    then have u: "uint cp = (?b 0 - 192) * 64 + (?b 1 - 128)"
      using code_point_2 [of s] 2 cp(1) by auto
    have c: "128 \<le> ?b 1" "?b 1 < 192" using 2 by (simp_all only: is_cont_iff)
    then have "uint cp div 64 = ?b 0 - 192" "uint cp mod 64 = ?b 1 - 128" unfolding u by (simp_all only: low_bits)
    moreover have "128 \<le> uint cp" "uint cp < 2048" using b c by (simp_all add: u)
    moreover have "2 \<le> length s" using cont_present [OF 2(2)] by simp
    ultimately show ?thesis
      using 2(1) c by (simp add: utf8_encode_def take_chars cont_byte_eq del: One_nat_def)
  next
    case 3
    then have b: "224 \<le> ?b 0" "?b 0 < 240" using n lead_range(3) by metis+
    then have u: "uint cp = ((?b 0 - 224) * 64 + (?b 1 - 128)) * 64 + (?b 2 - 128)"
      using code_point_3 [of s] 3 cp(1) by auto
    have c: "128 \<le> ?b 1" "?b 1 < 192" "128 \<le> ?b 2" "?b 2 < 192" using 3 by (simp_all only: is_cont_iff)
    then have d: "uint cp div 64 = (?b 0 - 224) * 64 + (?b 1 - 128)" "uint cp mod 64 = ?b 2 - 128"
      unfolding u by (simp_all only: low_bits)
    then have m: "uint cp div 64 mod 64 = ?b 1 - 128" "uint cp div 64 div 64 = ?b 0 - 224"
      unfolding d using c by (simp_all only: low_bits)
    have "cont_byte (uint cp) = char_at s 2" "cont_byte (uint cp div 64) = char_at s 1"
      by (rule cont_byte_eq [OF c(3) d(2)], rule cont_byte_eq [OF c(1) m(1)])
    moreover have "uint cp div 4096 = ?b 0 - 224"
      using zdiv_zmult2_eq [of 64 "uint cp" 64] m(2) by simp
    then have "word_of_int (0xE0 + uint cp div 4096) = char_at s 0" by simp
    moreover have "\<not> uint cp < 2048" "uint cp < 65536" using short 3(1) b c u by simp_all
    moreover have "3 \<le> length s" using cont_present [OF 3(3)] by simp
    ultimately show ?thesis
      using 3(1) by (simp add: utf8_encode_def take_chars del: One_nat_def)
  next
    case 4
    then have b: "240 \<le> ?b 0" "?b 0 < 245" using n lead_range(4) by metis+
    then have u: "uint cp = (((?b 0 - 240) * 64 + (?b 1 - 128)) * 64 + (?b 2 - 128)) * 64 + (?b 3 - 128)"
      using code_point_4 [of s] 4 cp(1) by auto
    have c: "128 \<le> ?b 1" "?b 1 < 192" "128 \<le> ?b 2" "?b 2 < 192" "128 \<le> ?b 3" "?b 3 < 192"
      using 4 by (simp_all only: is_cont_iff)
    then have d: "uint cp div 64 = ((?b 0 - 240) * 64 + (?b 1 - 128)) * 64 + (?b 2 - 128)" "uint cp mod 64 = ?b 3 - 128"
      unfolding u by (simp_all only: low_bits)
    have "uint cp div 64 div 64 = (?b 0 - 240) * 64 + (?b 1 - 128)" and m: "uint cp div 64 mod 64 = ?b 2 - 128"
      unfolding d using c by (simp_all only: low_bits)
    then have e: "uint cp div 4096 = (?b 0 - 240) * 64 + (?b 1 - 128)"
      using zdiv_zmult2_eq [of 64 "uint cp" 64] by simp
    have f: "uint cp div 4096 mod 64 = ?b 1 - 128" "uint cp div 4096 div 64 = ?b 0 - 240"
      unfolding e using c by (simp_all only: low_bits)
    have "cont_byte (uint cp) = char_at s 3" "cont_byte (uint cp div 64) = char_at s 2" "cont_byte (uint cp div 4096) = char_at s 1"
      by (rule cont_byte_eq [OF c(5) d(2)], rule cont_byte_eq [OF c(3) m], rule cont_byte_eq [OF c(1) f(1)])
    moreover have "uint cp div 262144 = ?b 0 - 240"
      using zdiv_zmult2_eq [of 64 "uint cp" 4096] f(2) by simp
    then have "word_of_int (0xF0 + uint cp div 262144) = char_at s 0" by simp
    moreover have "\<not> uint cp < 65536" using short 4(1) by simp
    moreover have "4 \<le> length s" using cont_present [OF 4(4)] by simp
    ultimately show ?thesis
      using 4(1) by (simp add: utf8_encode_def take_chars del: One_nat_def)
  qed
  then show ?thesis using cp(2) by blast
qed

lemma char_at_Cons: "char_at (b # s) 0 = b" "char_at (b # s) 1 = char_at s 0" "char_at (b # s) 2 = char_at s 1"
    "char_at (b # s) 3 = char_at s 2"
  by (simp_all add: char_at_def cur_def eval_nat_numeral)

lemma uint_byte: "0 \<le> n \<Longrightarrow> n < 256 \<Longrightarrow> uint (word_of_int n :: u8) = n"
  by (simp add: uint_word_of_int)

lemma uint_cont_byte: "uint (cont_byte n) = 128 + n mod 64" "is_cont (cont_byte n)"
proof -
  define r where "r = n mod 64"
  have r: "0 \<le> r" "r < 64" by (simp_all add: r_def)
  have "uint (word_of_int (128 + r) :: u8) = 128 + r"
    using r by (intro uint_byte) auto
  then show "uint (cont_byte n) = 128 + n mod 64" "is_cont (cont_byte n)"
    using r by (simp_all add: cont_byte_def r_def [symmetric] is_cont_iff)
qed

text \<open>Shifts by six bits as divisions.\<close>

lemma sextets:
  assumes "0 \<le> (cp :: int)"
  shows "cp = cp div 64 * 64 + cp mod 64" "cp = (cp div 4096 * 64 + cp div 64 mod 64) * 64 + cp mod 64"
    "cp = ((cp div 262144 * 64 + cp div 4096 mod 64) * 64 + cp div 64 mod 64) * 64 + cp mod 64"
proof -
  have a: "cp div 64 * 64 + cp mod 64 = cp" "cp div 64 div 64 * 64 + cp div 64 mod 64 = cp div 64"
    "cp div 4096 div 64 * 64 + cp div 4096 mod 64 = cp div 4096"
    by (rule div_mult_mod_eq)+
  have "cp div 64 div 64 = cp div 4096" "cp div 4096 div 64 = cp div 262144"
    using zdiv_zmult2_eq [of 64 cp 64] zdiv_zmult2_eq [of 64 cp 4096] by simp_all
  then show "cp = cp div 64 * 64 + cp mod 64" "cp = (cp div 4096 * 64 + cp div 64 mod 64) * 64 + cp mod 64"
    "cp = ((cp div 262144 * 64 + cp div 4096 mod 64) * 64 + cp div 64 mod 64) * 64 + cp mod 64"
    using a by simp_all
qed

lemma utf8_encode_verified:
  assumes "scalar_value cp"
  shows "verify_utf8_sequence (utf8_encode cp @ r) = (True, length (utf8_encode cp))"
proof -
  have pos: "0 \<le> cp" "cp \<le> 0x10FFFF" using assms by (simp_all add: scalar_value_def)
  note six = sextets [OF pos(1)]
  consider "cp < 0x80" | "0x80 \<le> cp" "cp < 0x800" | "0x800 \<le> cp" "cp < 0x10000" | "0x10000 \<le> cp" by linarith
  then show ?thesis
  proof cases
    case 1
    let ?s = "(word_of_int cp :: u8) # r"
    have u: "uint (char_at ?s 0) = cp" using 1 pos by (simp add: char_at_Cons uint_byte)
    then have "num_bytes_in_utf8_sequence (char_at ?s 0) = 1" using 1 by (simp only: lead_range)
    moreover have "uint (ucast (char_at ?s 0) :: u32) = cp"
      using u pos by (simp add: unsigned_ucast_eq take_bit_int_eq_self)
    ultimately have "verify_utf8_sequence ?s = (True, 1)"
      unfolding verify_iff using assms code_point_1 [of ?s] by auto
    then show ?thesis using 1 by (simp add: utf8_encode_def)
  next
    case 2
    let ?s = "(word_of_int (0xC0 + cp div 64) :: u8) # cont_byte cp # r"
    have d: "2 \<le> cp div 64" "cp div 64 < 32" using 2 by linarith+
    then have u: "uint (char_at ?s 0) = 192 + cp div 64" "char_at ?s 1 = cont_byte cp"
      by (simp_all only: char_at_Cons, intro uint_byte) auto
    have "num_bytes_in_utf8_sequence (char_at ?s 0) = 2" unfolding lead_range u(1) using d by simp
    moreover have "is_cont (char_at ?s 1)"
      by (simp_all only: u uint_cont_byte)
    then obtain w where "utf8_code_point ?s 2 = Some w" and w: "uint w = cp"
      using code_point_2 [of ?s] d unfolding u uint_cont_byte
      by (smt (verit) six)
    ultimately have "verify_utf8_sequence ?s = (True, 2)"
      unfolding verify_iff using assms 2 by auto
    then show ?thesis using 2 by (simp add: utf8_encode_def)
  next
    case 3
    let ?s = "(word_of_int (0xE0 + cp div 4096) :: u8) # cont_byte (cp div 64) # cont_byte cp # r"
    have d: "0 \<le> cp div 4096" "cp div 4096 < 16" using 3 by linarith+
    then have u: "uint (char_at ?s 0) = 224 + cp div 4096" "char_at ?s 1 = cont_byte (cp div 64)" "char_at ?s 2 = cont_byte cp"
      by (simp_all only: char_at_Cons, intro uint_byte) auto
    have "num_bytes_in_utf8_sequence (char_at ?s 0) = 3" unfolding lead_range u(1) using d by simp
    moreover have "is_cont (char_at ?s 1)" "is_cont (char_at ?s 2)"
      by (simp_all only: u uint_cont_byte)
    then obtain w where "utf8_code_point ?s 3 = Some w" and w: "uint w = cp"
      using code_point_3 [of ?s] d unfolding u uint_cont_byte
      by (smt (verit) six)
    ultimately have "verify_utf8_sequence ?s = (True, 3)"
      unfolding verify_iff using assms 3 by auto
    then show ?thesis using 3 by (simp add: utf8_encode_def)
  next
    case 4
    let ?s = "(word_of_int (0xF0 + cp div 262144) :: u8) # cont_byte (cp div 4096) # cont_byte (cp div 64) # cont_byte cp # r"
    have d: "0 \<le> cp div 262144" "cp div 262144 < 5" using 4 pos by linarith+
    then have u: "uint (char_at ?s 0) = 240 + cp div 262144" "char_at ?s 1 = cont_byte (cp div 4096)"
        "char_at ?s 2 = cont_byte (cp div 64)" "char_at ?s 3 = cont_byte cp"
      by (simp_all only: char_at_Cons, intro uint_byte) auto
    have "num_bytes_in_utf8_sequence (char_at ?s 0) = 4" unfolding lead_range u(1) using d by simp
    moreover have "is_cont (char_at ?s 1)" "is_cont (char_at ?s 2)" "is_cont (char_at ?s 3)"
      by (simp_all only: u uint_cont_byte)
    then obtain w where "utf8_code_point ?s 4 = Some w" and w: "uint w = cp"
      using code_point_4 [of ?s] d unfolding u uint_cont_byte
      by (smt (verit) six)
    ultimately have "verify_utf8_sequence ?s = (True, 4)"
      unfolding verify_iff using assms 4 by auto
    then show ?thesis using 4 by (simp add: utf8_encode_def)
  qed
qed

section \<open>Whole texts\<close>

lemma utf8_encode_not_Nil [simp]: "utf8_encode cp \<noteq> []"
  by (simp add: utf8_encode_def)

text \<open>
  C16. \<open>json_value_init_string\<close> accepts a text exactly if it is the UTF-8 encoding of some Unicode scalar values, each
  in its shortest form; the value then holds the text unchanged.
\<close>

theorem utf8_check_is_rfc3629:
  "json_value_init_string (Some s) =
     (if \<exists>cps. list_all scalar_value cps \<and> s = concat (map utf8_encode cps) then Some (JSONString s) else None)"
proof -
  have "\<exists>cps. list_all scalar_value cps \<and> s = concat (map utf8_encode cps)" if "is_valid_utf8 s"
    using that
  proof (induction s rule: is_valid_utf8.induct)
    case (1 s)
    show ?case
    proof (cases "s = []")
      case True
      then show ?thesis by (intro exI [of _ "[]"]) simp
    next
      case False
      then have v: "fst (verify_utf8_sequence s)" "is_valid_utf8 (drop (snd (verify_utf8_sequence s)) s)"
        using "1.prems" by (simp_all add: is_valid_utf8.simps [of s] split: if_splits)
      then obtain cps where cps: "list_all scalar_value cps" "drop (snd (verify_utf8_sequence s)) s = concat (map utf8_encode cps)"
        using "1.IH" False by blast
      obtain cp where "scalar_value cp" "utf8_encode cp = take (snd (verify_utf8_sequence s)) s"
        using utf8_decode [of s "snd (verify_utf8_sequence s)"] v(1) False by (metis prod.collapse)
      then show ?thesis
        using cps(1) by (intro exI [of _ "cp # cps"]) (simp flip: cps(2))
    qed
  qed
  moreover have "is_valid_utf8 (concat (map utf8_encode cps))" if "list_all scalar_value cps" for cps
    using that by (induction cps) (simp_all add: is_valid_utf8.simps utf8_encode_verified)
  ultimately show ?thesis
    by (auto simp: json_value_init_string_def)
qed

end
