(* ===== verification/Json_Serialize.thy ===== *)
theory Json_Serialize
  imports Json_Edit Printf
begin

unbundle bit_operations_syntax

text \<open>
  The serialiser of \<open>parson.c\<close>. The same recursion runs twice: without a buffer, to count, and into the buffer.
  \<open>buf\<close> is NULL or a memory block with the position it points to; a function returns what it has written, and its
  caller adds that to its own \<open>buf\<close> and \<open>written_total\<close>. Stores are checked, and so is the \<open>int\<close> sum.
\<close>

section \<open>Appending\<close>

type_synonym obuf = "(bytes \<times> nat) option"
type_synonym ser = "obuf \<times> int"  \<comment> \<open>\<open>buf\<close> and \<open>written_total\<close> of one call\<close>
type_synonym ser_res = "ser option res"  \<comment> \<open>\<open>None\<close>: the call returned -1\<close>

definition andthen :: "ser_res \<Rightarrow> (ser \<Rightarrow> ser_res) \<Rightarrow> ser_res" where
  "andthen m f = bindr m (\<lambda>r. case r of None \<Rightarrow> Inr None | Some s \<Rightarrow> f s)"

fun each_ser :: "('i \<Rightarrow> ser \<Rightarrow> ser_res) \<Rightarrow> 'i list \<Rightarrow> ser \<Rightarrow> ser_res" where
  "each_ser f [] s = Inr (Some s)"
| "each_ser f (i # is) s = andthen (f i s) (each_ser f is)"

text \<open>\<open>buf += written; written_total += written\<close>, with the memory as the call left it.\<close>

definition advance :: "obuf \<Rightarrow> obuf \<Rightarrow> int \<Rightarrow> int \<Rightarrow> ser_res" where
  "advance buf after written written_total =
     (if 2 ^ 31 \<le> written_total + written then Inl SignedOverflow
      else Inr (Some (case (buf, after) of (Some (_, p), Some (m, _)) \<Rightarrow> Some (m, p + nat written) | _ \<Rightarrow> None,
                      written_total + written)))"

definition call_ser :: "(ser \<Rightarrow> ser_res) \<Rightarrow> ser \<Rightarrow> ser_res" where
  "call_ser f s = andthen (f (fst s, 0)) (\<lambda>(after, written). advance (fst s) after written (snd s))"

text \<open>\<open>sprintf (buf, ...)\<close> of a text, with its NUL.\<close>

definition sprintf_to :: "bytes \<Rightarrow> bytes \<times> nat \<Rightarrow> obuf res" where
  "sprintf_to str b = bindr (memcpy (fst b) (snd b) (str @ [0])) (\<lambda>m. Inr (Some (m, snd b)))"

definition append_string :: "bytes \<Rightarrow> ser \<Rightarrow> ser_res" where
  "append_string str s =
     bindr (case fst s of None \<Rightarrow> Inr None | Some b \<Rightarrow> sprintf_to str b) (\<lambda>after.
     advance (fst s) after (int (length str)) (snd s))"

definition append_indent :: "nat \<Rightarrow> ser \<Rightarrow> ser_res" where
  "append_indent level = call_ser (each_ser (\<lambda>_. append_string (lit ''    '')) [0..<level])"

text \<open>\<open>buf[0] = c; buf += 1; written_total += 1\<close>\<close>

definition append_char :: "u8 \<Rightarrow> ser \<Rightarrow> ser_res" where
  "append_char c s =
     bindr (case fst s of None \<Rightarrow> Inr None | Some (m, p) \<Rightarrow> bindr (st m p c) (\<lambda>m. Inr (Some (m, p)))) (\<lambda>after.
     advance (fst s) after 1 (snd s))"

section \<open>Values\<close>

definition serialize_char :: "u8 \<Rightarrow> ser \<Rightarrow> ser_res" where
  "serialize_char c =
     (if c = asc CHR 0x22 then append_string (lit [CHR 0x5C, CHR 0x22])
      else if c = asc CHR 0x5C then append_string (lit [CHR 0x5C, CHR 0x5C])
      else if c = asc CHR ''/'' then append_string (lit [CHR 0x5C, CHR ''/''])
      else if c = 8 then append_string (lit [CHR 0x5C, CHR ''b''])
      else if c = 12 then append_string (lit [CHR 0x5C, CHR ''f''])
      else if c = 10 then append_string (lit [CHR 0x5C, CHR ''n''])
      else if c = 13 then append_string (lit [CHR 0x5C, CHR ''r''])
      else if c = 9 then append_string (lit [CHR 0x5C, CHR ''t''])
      else append_char c)"

definition json_serialize_string :: "bytes \<Rightarrow> ser \<Rightarrow> ser_res" where
  "json_serialize_string str =
     call_ser (\<lambda>s. andthen (append_string (lit [CHR 0x22]) s) (\<lambda>s.
       andthen (each_ser serialize_char str s) (append_string (lit [CHR 0x22]))))"

text \<open>
  \<open>num == (double)(int)num\<close>, where the conversion to \<open>int\<close> is only defined for a number in its range, then
  \<open>%d\<close> or \<open>%f\<close>.
\<close>

definition number_text :: "dbl \<Rightarrow> bytes res" where
  "number_text num =
     bindr (dbl_to_int (- (2 ^ 31)) (2 ^ 31 - 1) num) (\<lambda>n.
     Inr (lit (if num = Fin (of_int n) then fmt_i 0 n else fmt_f 6 num)))"

text \<open>In the counting pass the digits go to \<open>num_buf\<close>, given here by its size.\<close>

definition serialize_number :: "nat option \<Rightarrow> dbl \<Rightarrow> ser \<Rightarrow> ser_res" where
  "serialize_number num_buf num s =
     bindr (number_text num) (\<lambda>text.
     bindr (case fst s of
              Some b \<Rightarrow> sprintf_to text b
            | None \<Rightarrow>
                (case num_buf of
                   None \<Rightarrow> Inl NullDeref
                 | Some n \<Rightarrow> if length text < n then Inr None else Inl OutOfBounds)) (\<lambda>after.
     advance (fst s) after (int (length text)) (snd s)))"

definition when_ser :: "bool \<Rightarrow> (ser \<Rightarrow> ser_res) \<Rightarrow> ser \<Rightarrow> ser_res" where
  "when_ser b f s = (if b then f s else Inr (Some s))"

text \<open>The body of the two loops around what is written for one element.\<close>

definition serialize_element :: "nat \<Rightarrow> bool \<Rightarrow> nat \<Rightarrow> nat \<Rightarrow> (ser \<Rightarrow> ser_res) \<Rightarrow> ser \<Rightarrow> ser_res" where
  "serialize_element level is_pretty count i f s =
     andthen (when_ser is_pretty (append_indent (level + 1)) s) (\<lambda>s.
     andthen (f s) (\<lambda>s.
     andthen (when_ser (i < count - 1) (append_string (lit '','')) s)
       (when_ser is_pretty (append_string [10]))))"

definition serialize_brackets :: "nat \<Rightarrow> bool \<Rightarrow> nat \<Rightarrow> string \<Rightarrow> string \<Rightarrow> (ser \<Rightarrow> ser_res) \<Rightarrow> ser \<Rightarrow> ser_res" where
  "serialize_brackets level is_pretty count opening closing f s =
     andthen (append_string (lit opening) s) (\<lambda>s.
     andthen (when_ser (0 < count \<and> is_pretty) (append_string [10]) s) (\<lambda>s.
     andthen (f s) (\<lambda>s.
     andthen (when_ser (0 < count \<and> is_pretty) (append_indent level) s) (append_string (lit closing)))))"

function json_serialize_to_buffer_r :: "json_value option \<Rightarrow> nat \<Rightarrow> bool \<Rightarrow> nat option \<Rightarrow> ser \<Rightarrow> ser_res" where
  "json_serialize_to_buffer_r value level is_pretty num_buf =
     (case value of
        None \<Rightarrow> (\<lambda>s. Inr None)
      | Some (JSONArray vs) \<Rightarrow>
          serialize_brackets level is_pretty (length vs) [CHR 0x5B] [CHR 0x5D]
            (each_ser (\<lambda>i. serialize_element level is_pretty (length vs) i
               (call_ser (json_serialize_to_buffer_r (json_array_get_value (Some vs) i) (level + 1) is_pretty num_buf)))
               [0..<length vs])
      | Some (JSONObject ms) \<Rightarrow>
          serialize_brackets level is_pretty (length ms) [CHR 0x7B] [CHR 0x7D]
            (each_ser (\<lambda>i. serialize_element level is_pretty (length ms) i (\<lambda>s.
               let key = fst (ms ! i) in
               andthen (json_serialize_string key s) (\<lambda>s.
               andthen (append_string (lit '':'') s) (\<lambda>s.
               andthen (when_ser is_pretty (append_string (lit '' '')) s)
                 (call_ser (json_serialize_to_buffer_r (json_object_get_value (Some ms) key) (level + 1) is_pretty num_buf))))))
               [0..<length ms])
      | Some (JSONString str) \<Rightarrow> json_serialize_string str
      | Some (JSONBoolean b) \<Rightarrow> append_string (lit (if b then ''true'' else ''false''))
      | Some (JSONNumber num) \<Rightarrow> serialize_number num_buf num
      | Some JSONNull \<Rightarrow> append_string (lit ''null''))"
  by auto
termination
  by (relation "measure (\<lambda>(value, _). ptr_size value)") (simp_all add: ptr_size_item ptr_size_member)

declare json_serialize_to_buffer_r.simps [simp del]

section \<open>The interface\<close>

text \<open>\<open>res < 0 ? 0 : (size_t)(res + 1)\<close>\<close>

definition size_of_pass :: "bool \<Rightarrow> json_value option \<Rightarrow> nat res" where
  "size_of_pass is_pretty value =
     bindr (json_serialize_to_buffer_r value 0 is_pretty (Some 1100) (None, 0)) (\<lambda>r.
     case r of
       None \<Rightarrow> Inr 0
     | Some (_, res) \<Rightarrow> if res + 1 < 2 ^ 31 then Inr (nat (res + 1)) else Inl SignedOverflow)"

definition json_serialization_size :: "json_value option \<Rightarrow> nat res" where
  "json_serialization_size value = size_of_pass False value"

definition json_serialization_size_pretty :: "json_value option \<Rightarrow> nat res" where
  "json_serialization_size_pretty value = size_of_pass True value"

text \<open>The status and the contents of the buffer, which is all of a memory block.\<close>

definition write_pass :: "bool \<Rightarrow> json_value option \<Rightarrow> bytes \<Rightarrow> (json_status \<times> bytes) res" where
  "write_pass is_pretty value buf =
     bindr (size_of_pass is_pretty value) (\<lambda>needed.
     if needed = 0 \<or> length buf < needed then Inr (JSONFailure, buf)
     else
       bindr (json_serialize_to_buffer_r value 0 is_pretty None (Some (buf, 0), 0)) (\<lambda>r.
       case r of Some (Some (m, _), _) \<Rightarrow> Inr (JSONSuccess, m) | _ \<Rightarrow> Inr (JSONFailure, buf)))"

definition json_serialize_to_buffer :: "json_value option \<Rightarrow> bytes \<Rightarrow> (json_status \<times> bytes) res" where
  "json_serialize_to_buffer value buf = write_pass False value buf"

definition json_serialize_to_buffer_pretty :: "json_value option \<Rightarrow> bytes \<Rightarrow> (json_status \<times> bytes) res" where
  "json_serialize_to_buffer_pretty value buf = write_pass True value buf"

text \<open>\<open>fresh n\<close> is what \<open>malloc (n)\<close> finds in the memory it returns.\<close>

definition string_of_value :: "bool \<Rightarrow> (nat \<Rightarrow> bytes) \<Rightarrow> json_value option \<Rightarrow> bytes option res" where
  "string_of_value is_pretty fresh value =
     bindr (size_of_pass is_pretty value) (\<lambda>size.
     if size = 0 then Inr None
     else
       bindr (write_pass is_pretty value (fresh size)) (\<lambda>(status, m).
       Inr (if status = JSONFailure then None else Some m)))"

definition json_serialize_to_string :: "(nat \<Rightarrow> bytes) \<Rightarrow> json_value option \<Rightarrow> bytes option res" where
  "json_serialize_to_string fresh value = string_of_value False fresh value"

definition json_serialize_to_string_pretty :: "(nat \<Rightarrow> bytes) \<Rightarrow> json_value option \<Rightarrow> bytes option res" where
  "json_serialize_to_string_pretty fresh value = string_of_value True fresh value"

text \<open>
  The file functions, with what \<open>fopen\<close>, \<open>fputs\<close> and \<open>fclose\<close> answer: the status, and the text handed to \<open>fputs\<close>.
\<close>

definition file_of_value ::
    "bool \<Rightarrow> (nat \<Rightarrow> bytes) \<Rightarrow> bool \<times> bool \<times> bool \<Rightarrow> json_value option \<Rightarrow> (json_status \<times> bytes option) res" where
  "file_of_value is_pretty fresh file value =
     (case file of (opens, puts, closes) \<Rightarrow>
        bindr (string_of_value is_pretty fresh value) (\<lambda>s.
        case s of
          None \<Rightarrow> Inr (JSONFailure, None)
        | Some m \<Rightarrow>
            if \<not> opens then Inr (JSONSuccess, None)
            else Inr (if puts \<and> closes then JSONSuccess else JSONFailure, Some (takeWhile (\<lambda>c. c \<noteq> 0) m))))"

definition json_serialize_to_file ::
    "(nat \<Rightarrow> bytes) \<Rightarrow> bool \<times> bool \<times> bool \<Rightarrow> json_value option \<Rightarrow> (json_status \<times> bytes option) res" where
  "json_serialize_to_file fresh file value = file_of_value False fresh file value"

definition json_serialize_to_file_pretty ::
    "(nat \<Rightarrow> bytes) \<Rightarrow> bool \<times> bool \<times> bool \<Rightarrow> json_value option \<Rightarrow> (json_status \<times> bytes option) res" where
  "json_serialize_to_file_pretty fresh file value = file_of_value True fresh file value"

end
