(* ===== verification/Json_Serialize_Correct.thy ===== *)
theory Json_Serialize_Correct
  imports Json_Serialize
begin

text \<open>
  What the serialiser writes: the text \<open>json_text\<close> of the tree, the same in both passes, so that the buffer it asks
  for is exactly large enough. \<open>counts s f\<close> says that without a buffer the step \<open>f\<close> adds the length of the text \<open>s\<close>, and
  \<open>stores t s f\<close> that it appends \<open>s\<close> to a buffer with room for it, and with \<open>t\<close> that a NUL follows.
\<close>

section \<open>Steps that append a text\<close>

definition counts :: "bytes \<Rightarrow> (ser \<Rightarrow> ser_res) \<Rightarrow> bool" where
  "counts s f \<longleftrightarrow> (\<forall>total. 0 \<le> total \<longrightarrow> total + int (length s) < 2 ^ 31 \<longrightarrow>
     f (None, total) = Inr (Some (None, total + int (length s))))"

definition stores :: "bool \<Rightarrow> bytes \<Rightarrow> (ser \<Rightarrow> ser_res) \<Rightarrow> bool" where
  "stores t s f \<longleftrightarrow>
     (\<forall>pre rest total. 0 \<le> total \<longrightarrow> total + int (length s) < 2 ^ 31 \<longrightarrow> length s < length rest \<longrightarrow>
        (\<exists>rest'. f (Some (pre @ rest, length pre), total) =
             Inr (Some (Some (pre @ s @ rest', length pre + length s), total + int (length s))) \<and>
           length rest' = length rest - length s \<and> (t \<longrightarrow> hd rest' = 0)))"

lemma counts_done: "counts [] (\<lambda>s. Inr (Some s))"
  by (simp add: counts_def)

lemma stores_done: "stores False [] (\<lambda>s. Inr (Some s))"
  by (simp add: stores_def)

lemma counts_then:
  assumes "counts s1 f" and "counts s2 g"
  shows "counts (s1 @ s2) (\<lambda>s. andthen (f s) g)"
  using assms by (simp add: counts_def andthen_def)

lemma stores_then:
  assumes f: "stores t1 s1 f" and g: "stores t2 s2 g"
  shows "stores t2 (s1 @ s2) (\<lambda>s. andthen (f s) g)"
  unfolding stores_def
proof (intro allI impI)
  fix pre rest :: bytes and total :: int
  assume a: "0 \<le> total" "total + int (length (s1 @ s2)) < 2 ^ 31" "length (s1 @ s2) < length rest"
  then have "\<exists>r1. f (Some (pre @ rest, length pre), total) =
      Inr (Some (Some (pre @ s1 @ r1, length pre + length s1), total + int (length s1))) \<and>
      length r1 = length rest - length s1 \<and> (t1 \<longrightarrow> hd r1 = 0)"
    by (intro f [unfolded stores_def, rule_format]) simp_all
  then obtain r1 where r1: "f (Some (pre @ rest, length pre), total) =
      Inr (Some (Some (pre @ s1 @ r1, length pre + length s1), total + int (length s1)))" "length r1 = length rest - length s1"
    by blast
  have "\<exists>r2. g (Some ((pre @ s1) @ r1, length (pre @ s1)), total + int (length s1)) =
      Inr (Some (Some ((pre @ s1) @ s2 @ r2, length (pre @ s1) + length s2), total + int (length s1) + int (length s2))) \<and>
      length r2 = length r1 - length s2 \<and> (t2 \<longrightarrow> hd r2 = 0)"
    using a r1(2) by (intro g [unfolded stores_def, rule_format]) simp_all
  then show "\<exists>rest'. andthen (f (Some (pre @ rest, length pre), total)) g =
      Inr (Some (Some (pre @ (s1 @ s2) @ rest', length pre + length (s1 @ s2)), total + int (length (s1 @ s2)))) \<and>
      length rest' = length rest - length (s1 @ s2) \<and> (t2 \<longrightarrow> hd rest' = 0)"
    using r1 by (auto simp: andthen_def)
qed

lemmas stores_seq = stores_then [where ?t1.0 = False]

lemma stores_weaken: "stores t s f \<Longrightarrow> stores False s f"
  unfolding stores_def by blast

lemma counts_call: "counts s f \<Longrightarrow> counts s (call_ser f)"
  by (simp add: counts_def call_ser_def andthen_def advance_def)

lemma stores_call:
  assumes "stores t s f"
  shows "stores t s (call_ser f)"
  unfolding stores_def
proof (intro allI impI)
  fix pre rest :: bytes and total :: int
  assume a: "0 \<le> total" "total + int (length s) < 2 ^ 31" "length s < length rest"
  then have "\<exists>r. f (Some (pre @ rest, length pre), 0) =
      Inr (Some (Some (pre @ s @ r, length pre + length s), 0 + int (length s))) \<and>
      length r = length rest - length s \<and> (t \<longrightarrow> hd r = 0)"
    by (intro assms [unfolded stores_def, rule_format]) simp_all
  then show "\<exists>rest'. call_ser f (Some (pre @ rest, length pre), total) =
      Inr (Some (Some (pre @ s @ rest', length pre + length s), total + int (length s))) \<and>
      length rest' = length rest - length s \<and> (t \<longrightarrow> hd rest' = 0)"
    using a by (auto simp: call_ser_def andthen_def advance_def)
qed

lemma counts_string: "counts str (append_string str)"
  by (simp add: counts_def append_string_def advance_def)

lemma sprintf_to_fits:
  "length str < length rest \<Longrightarrow>
   sprintf_to str (pre @ rest, length pre) = Inr (Some (pre @ str @ 0 # drop (Suc (length str)) rest, length pre))"
  by (simp add: sprintf_to_def)

lemma stores_string: "stores t str (append_string str)"
  by (auto simp: stores_def append_string_def sprintf_to_fits advance_def Suc_diff_Suc)

lemma counts_char: "counts [c] (append_char c)"
  by (simp add: counts_def append_char_def advance_def)

lemma stores_char: "stores False [c] (append_char c)"
  unfolding stores_def
proof (intro allI impI)
  fix pre rest :: bytes and total :: int
  assume a: "0 \<le> total" "total + int (length [c]) < 2 ^ 31" "length [c] < length rest"
  then obtain b r where "rest = b # r" by (cases rest) auto
  then show "\<exists>rest'. append_char c (Some (pre @ rest, length pre), total) =
      Inr (Some (Some (pre @ [c] @ rest', length pre + length [c]), total + int (length [c]))) \<and>
      length rest' = length rest - length [c] \<and> (False \<longrightarrow> hd rest' = 0)"
    using a by (auto simp: append_char_def advance_def st_append)
qed

lemma counts_when: "counts s f \<Longrightarrow> counts (if b then s else []) (when_ser b f)"
  by (cases b) (simp_all add: when_ser_def [abs_def] counts_done)

lemma stores_when: "stores t s f \<Longrightarrow> stores False (if b then s else []) (when_ser b f)"
  by (cases b) (auto simp: when_ser_def [abs_def] stores_done stores_weaken)

lemma each_ser_fun:
  "each_ser f [] = (\<lambda>s. Inr (Some s))" "each_ser f (x # xs) = (\<lambda>s. andthen (f x s) (each_ser f xs))"
  by (simp_all add: fun_eq_iff)

lemma counts_each: "(\<And>x. x \<in> set xs \<Longrightarrow> counts (g x) (f x)) \<Longrightarrow> counts (concat (map g xs)) (each_ser f xs)"
  by (induction xs) (simp_all add: each_ser_fun counts_done counts_then)

lemma stores_each:
  "(\<And>x. x \<in> set xs \<Longrightarrow> stores False (g x) (f x)) \<Longrightarrow> stores False (concat (map g xs)) (each_ser f xs)"
  by (induction xs) (auto simp: each_ser_fun stores_done intro: stores_then)

section \<open>The text of a tree\<close>

definition indent_text :: "nat \<Rightarrow> bytes" where
  "indent_text level = concat (replicate level (lit ''    ''))"

definition escape_char :: "u8 \<Rightarrow> bytes" where
  "escape_char c =
     (if c = 34 \<or> c = 92 \<or> c = 47 then [92, c]
      else if c = 8 then [92, 98] else if c = 12 then [92, 102] else if c = 10 then [92, 110]
      else if c = 13 then [92, 114] else if c = 9 then [92, 116] else [c])"

definition quoted :: "bytes \<Rightarrow> bytes" where
  "quoted str = [34] @ concat (map escape_char str) @ [34]"

definition element_text :: "nat \<Rightarrow> bool \<Rightarrow> nat \<Rightarrow> nat \<Rightarrow> bytes \<Rightarrow> bytes" where
  "element_text level pretty count i x =
     (if pretty then indent_text (level + 1) else []) @ x @ (if i < count - 1 then [44] else []) @ (if pretty then [10] else [])"

definition elements_text :: "nat \<Rightarrow> bool \<Rightarrow> bytes list \<Rightarrow> bytes" where
  "elements_text level pretty xs =
     concat (map (\<lambda>i. element_text level pretty (length xs) i (xs ! i)) [0..<length xs])"

definition brackets_text :: "nat \<Rightarrow> bool \<Rightarrow> nat \<Rightarrow> u8 \<Rightarrow> u8 \<Rightarrow> bytes \<Rightarrow> bytes" where
  "brackets_text level pretty count opening closing x =
     [opening] @ (if 0 < count \<and> pretty then [10] else []) @ x @
     (if 0 < count \<and> pretty then indent_text level else []) @ [closing]"

definition number_chars :: "dbl \<Rightarrow> bytes" where
  "number_chars d = (case number_text d of Inl _ \<Rightarrow> [] | Inr text \<Rightarrow> text)"

definition member_text :: "bool \<Rightarrow> bytes \<Rightarrow> bytes \<Rightarrow> bytes" where
  "member_text pretty name x = quoted name @ [58] @ (if pretty then [32] else []) @ x"

fun json_text :: "bool \<Rightarrow> nat \<Rightarrow> json_value \<Rightarrow> bytes" where
  "json_text pretty level (JSONArray vs) =
     brackets_text level pretty (length vs) 91 93 (elements_text level pretty (map (json_text pretty (level + 1)) vs))"
| "json_text pretty level (JSONObject ms) =
     brackets_text level pretty (length ms) 123 125
       (elements_text level pretty (map (\<lambda>m. member_text pretty (fst m) (json_text pretty (level + 1) (snd m))) ms))"
| "json_text pretty level (JSONString str) = quoted str"
| "json_text pretty level (JSONNumber d) = number_chars d"
| "json_text pretty level (JSONBoolean b) = lit (if b then ''true'' else ''false'')"
| "json_text pretty level JSONNull = lit ''null''"

text \<open>No number is outside the range of \<open>int\<close>, where the conversion in the code is undefined.\<close>

fun numbers_convert :: "json_value \<Rightarrow> bool" where
  "numbers_convert (JSONNumber x) = (\<exists>t. number_text x = Inr t)"
| "numbers_convert (JSONObject ms) = (\<forall>m \<in> set ms. numbers_convert (snd m))"
| "numbers_convert (JSONArray vs) = (\<forall>v \<in> set vs. numbers_convert v)"
| "numbers_convert v = True"

section \<open>The serialiser writes it\<close>

lemma indent_text_each: "concat (map (\<lambda>_. lit ''    '') [0..<level]) = indent_text level"
  unfolding indent_text_def map_replicate_const by simp

lemma counts_indent: "counts (indent_text level) (append_indent level)"
  unfolding append_indent_def indent_text_each [symmetric] by (intro counts_call counts_each counts_string)

lemma stores_indent: "stores False (indent_text level) (append_indent level)"
  unfolding append_indent_def indent_text_each [symmetric]
  by (intro stores_call stores_each stores_string)

lemma lit_escapes:
  "lit [CHR 0x22] = [34]" "lit [CHR 0x5C, CHR 0x22] = [92, 34]" "lit [CHR 0x5C, CHR 0x5C] = [92, 92]"
  "lit [CHR 0x5C, CHR ''/''] = [92, 47]" "lit [CHR 0x5C, CHR ''b''] = [92, 98]" "lit [CHR 0x5C, CHR ''f''] = [92, 102]"
  "lit [CHR 0x5C, CHR ''n''] = [92, 110]" "lit [CHR 0x5C, CHR ''r''] = [92, 114]" "lit [CHR 0x5C, CHR ''t''] = [92, 116]"
  "lit '':'' = [58]" "lit '','' = [44]" "lit '' '' = [32]" "lit [CHR 0x5B] = [91]" "lit [CHR 0x5D] = [93]"
  "lit [CHR 0x7B] = [123]" "lit [CHR 0x7D] = [125]"
  by (simp_all add: lit_def)

lemma counts_serialize_char: "counts (escape_char c) (serialize_char c)"
  by (auto simp: escape_char_def serialize_char_def asc_numerals lit_escapes counts_string counts_char)

lemma stores_serialize_char: "stores False (escape_char c) (serialize_char c)"
  by (auto simp: escape_char_def serialize_char_def asc_numerals lit_escapes
      intro: stores_string stores_char)

lemma counts_quoted: "counts (quoted str) (json_serialize_string str)"
  unfolding quoted_def json_serialize_string_def lit_escapes
  by (intro counts_call counts_then counts_string counts_each counts_serialize_char)

lemma stores_quoted: "stores t (quoted str) (json_serialize_string str)"
  unfolding quoted_def json_serialize_string_def lit_escapes
  by (intro stores_call stores_seq stores_string stores_each stores_serialize_char)

text \<open>The texts around one element and around all of them.\<close>

lemma counts_element: "counts x f \<Longrightarrow> counts (element_text level p count i x) (serialize_element level p count i f)"
  unfolding element_text_def serialize_element_def [abs_def] lit_escapes
  by (intro counts_then counts_when counts_indent counts_string)

lemma stores_element: "stores t x f \<Longrightarrow> stores False (element_text level p count i x) (serialize_element level p count i f)"
  unfolding element_text_def serialize_element_def [abs_def] lit_escapes
  by (intro stores_seq stores_when [OF stores_indent] stores_when [OF stores_string] stores_weaken [of t x])

lemma counts_brackets:
  assumes "counts x f" and "lit opening = [a]" and "lit closing = [b]"
  shows "counts (brackets_text level p count a b x) (serialize_brackets level p count opening closing f)"
  unfolding brackets_text_def serialize_brackets_def [abs_def] assms(2,3) [symmetric]
  by (intro counts_then counts_when counts_indent counts_string assms(1))

lemma stores_brackets:
  assumes "stores False x f" and "lit opening = [a]" and "lit closing = [b]"
  shows "stores t (brackets_text level p count a b x) (serialize_brackets level p count opening closing f)"
  unfolding brackets_text_def serialize_brackets_def [abs_def] assms(2,3) [symmetric]
  by (intro stores_seq stores_when [OF stores_indent] stores_when [OF stores_string] stores_string assms(1))

lemma counts_elements:
  assumes "\<And>i. i < n \<Longrightarrow> counts (xs ! i) (f i)" and "n = length xs"
  shows "counts (elements_text level p xs) (each_ser (\<lambda>i. serialize_element level p n i (f i)) [0..<n])"
  unfolding elements_text_def assms(2) by (intro counts_each counts_element) (simp add: assms)

lemma stores_elements:
  assumes "\<And>i. i < n \<Longrightarrow> stores True (xs ! i) (f i)" and "n = length xs"
  shows "stores False (elements_text level p xs) (each_ser (\<lambda>i. serialize_element level p n i (f i)) [0..<n])"
  unfolding elements_text_def assms(2) by (intro stores_each stores_element) (use assms in simp)

lemma counts_member:
  "counts x f \<Longrightarrow> counts (member_text p key x) (\<lambda>s. andthen (json_serialize_string key s) (\<lambda>s.
     andthen (append_string (lit '':'') s) (\<lambda>s. andthen (when_ser p (append_string (lit '' '')) s) (call_ser f))))"
  unfolding member_text_def lit_escapes by (intro counts_then counts_quoted counts_when counts_string counts_call)

lemma stores_member:
  "stores t x f \<Longrightarrow> stores t (member_text p key x) (\<lambda>s. andthen (json_serialize_string key s) (\<lambda>s.
     andthen (append_string (lit '':'') s) (\<lambda>s. andthen (when_ser p (append_string (lit '' '')) s) (call_ser f))))"
  unfolding member_text_def lit_escapes
  by (intro stores_seq stores_quoted stores_when [OF stores_string] stores_string stores_call)

text \<open>Numbers: the digits fit the counting buffer by far.\<close>

lemma number_text_short:
  assumes "number_text d = Inr t"
  shows "length t \<le> 18"
proof -
  obtain q where q: "d = Fin q"
    using assms by (cases d) (simp_all add: number_text_def dbl_to_int_def)
  define n where "n = trunc q"
  have n: "- (2 ^ 31) \<le> n" "n \<le> 2 ^ 31 - 1" and t: "t = lit (if d = Fin (of_int n) then fmt_i 0 n else fmt_f 6 d)"
    using assms by (auto simp: number_text_def dbl_to_int_def q n_def Let_def split: if_splits)
  have "\<bar>q\<bar> < of_int (2 ^ 31 + 1)"
    using n unfolding n_def trunc_def by (auto split: if_splits)
  then have "length (fmt_f 6 (Fin q)) \<le> 18"
    using length_fmt_f [of q 6 16] by simp
  moreover have "length (fmt_i 0 n) \<le> 11"
    using n length_dec_le [of n 10] length_dec_le [of "- n" 10] by (auto simp: fmt_i_def)
  ultimately show ?thesis using t q by (auto split: if_splits)
qed

lemma counts_number: "number_text d = Inr t \<Longrightarrow> counts (number_chars d) (serialize_number (Some 1100) d)"
  using number_text_short [of d t] by (simp add: counts_def serialize_number_def number_chars_def advance_def)

lemma stores_number: "number_text d = Inr t \<Longrightarrow> stores u (number_chars d) (serialize_number num_buf d)"
  by (auto simp: stores_def serialize_number_def number_chars_def advance_def sprintf_to_fits Suc_diff_Suc)

lemma member_value:
  "distinct (map fst ms) \<Longrightarrow> i < length ms \<Longrightarrow> json_object_get_value (Some ms) (fst (ms ! i)) = Some (snd (ms ! i))"
  by (induction ms arbitrary: i) (auto simp: json_object_get_value_def nth_Cons' split: if_splits prod.splits)

lemma item_value: "i < length vs \<Longrightarrow> json_array_get_value (Some vs) i = Some (vs ! i)"
  by (simp add: json_array_get_value_def json_array_get_count_def)

lemma serialize_array:
  "json_serialize_to_buffer_r (Some (JSONArray vs)) l p nb =
     serialize_brackets l p (length vs) [CHR 0x5B] [CHR 0x5D]
       (each_ser (\<lambda>i. serialize_element l p (length vs) i
          (call_ser (json_serialize_to_buffer_r (json_array_get_value (Some vs) i) (l + 1) p nb))) [0..<length vs])"
  by (subst json_serialize_to_buffer_r.simps) (simp only: option.case json_value.case)

lemma serialize_object:
  "json_serialize_to_buffer_r (Some (JSONObject ms)) l p nb =
     serialize_brackets l p (length ms) [CHR 0x7B] [CHR 0x7D]
       (each_ser (\<lambda>i. serialize_element l p (length ms) i (\<lambda>s.
          andthen (json_serialize_string (fst (ms ! i)) s) (\<lambda>s.
          andthen (append_string (lit '':'') s) (\<lambda>s.
          andthen (when_ser p (append_string (lit '' '')) s)
            (call_ser (json_serialize_to_buffer_r (json_object_get_value (Some ms) (fst (ms ! i))) (l + 1) p nb))))))
          [0..<length ms])"
  by (subst json_serialize_to_buffer_r.simps) (simp only: option.case json_value.case Let_def)

lemma serialize_counts:
  "json_ok d v \<Longrightarrow> numbers_convert v \<Longrightarrow> counts (json_text p l v) (json_serialize_to_buffer_r (Some v) l p (Some 1100))"
proof (induction d v arbitrary: l rule: json_ok.induct)
  case (1 d ms)
  have "counts (json_text p (l + 1) (snd (ms ! i))) (json_serialize_to_buffer_r (json_object_get_value (Some ms) (fst (ms ! i))) (l + 1) p (Some 1100))"
    if "i < length ms" for i
    using 1 that by (auto simp: member_value)
  then show ?case
    unfolding serialize_object json_text.simps
    by (intro counts_brackets counts_elements lit_escapes) (auto intro!: counts_member)
next
  case (2 d vs)
  have "counts (json_text p (l + 1) (vs ! i)) (json_serialize_to_buffer_r (json_array_get_value (Some vs) i) (l + 1) p (Some 1100))"
    if "i < length vs" for i
    using 2 that by (auto simp: item_value)
  then show ?case
    unfolding serialize_array json_text.simps
    by (intro counts_brackets counts_elements lit_escapes) (auto intro!: counts_call)
qed (auto simp: json_serialize_to_buffer_r.simps intro: counts_quoted counts_string counts_number)

lemma serialize_stores:
  "json_ok d v \<Longrightarrow> numbers_convert v \<Longrightarrow> stores True (json_text p l v) (json_serialize_to_buffer_r (Some v) l p nb)"
proof (induction d v arbitrary: l rule: json_ok.induct)
  case (1 d ms)
  have "stores True (json_text p (l + 1) (snd (ms ! i))) (json_serialize_to_buffer_r (json_object_get_value (Some ms) (fst (ms ! i))) (l + 1) p nb)"
    if "i < length ms" for i
    using 1 that by (auto simp: member_value)
  then show ?case
    unfolding serialize_object json_text.simps
    by (intro stores_brackets stores_elements lit_escapes) (auto intro!: stores_member)
next
  case (2 d vs)
  have "stores True (json_text p (l + 1) (vs ! i)) (json_serialize_to_buffer_r (json_array_get_value (Some vs) i) (l + 1) p nb)"
    if "i < length vs" for i
    using 2 that by (auto simp: item_value)
  then show ?case
    unfolding serialize_array json_text.simps
    by (intro stores_brackets stores_elements lit_escapes) (auto intro!: stores_call)
qed (auto simp: json_serialize_to_buffer_r.simps intro: stores_quoted stores_string stores_number)

section \<open>The interface\<close>

lemma size_exact:
  assumes "json_ok d v" and "numbers_convert v" and "length (json_text p 0 v) < 2 ^ 31 - 1"
  shows "size_of_pass p (Some v) = Inr (length (json_text p 0 v) + 1)"
  using serialize_counts [OF assms(1,2), of p 0] assms(3) by (simp add: counts_def size_of_pass_def)

lemma write_exact:
  assumes "json_ok d v" and "numbers_convert v" and "length (json_text p 0 v) < 2 ^ 31 - 1" and "length (json_text p 0 v) < length buf"
  shows "\<exists>rest. write_pass p (Some v) buf = Inr (JSONSuccess, json_text p 0 v @ 0 # rest) \<and>
    length (json_text p 0 v @ 0 # rest) = length buf"
proof -
  obtain rest where r: "json_serialize_to_buffer_r (Some v) 0 p None (Some (buf, 0), 0) =
      Inr (Some (Some (json_text p 0 v @ rest, length (json_text p 0 v)), int (length (json_text p 0 v))))"
    and l: "length rest = length buf - length (json_text p 0 v)" "hd rest = 0"
    using serialize_stores [OF assms(1,2), of p 0 None] assms(3,4) unfolding stores_def
    by (elim allE [of _ "[]"] allE [of _ buf] allE [of _ 0]) auto
  then obtain r' where "rest = 0 # r'" using assms(4) by (cases rest) auto
  then show ?thesis
    using r l size_exact [OF assms(1-3)] assms(4) by (auto simp: write_pass_def)
qed

lemma string_exact:
  assumes "json_ok d v" and "numbers_convert v" and "length (json_text p 0 v) < 2 ^ 31 - 1" and "\<And>n. length (fresh n) = n"
  shows "string_of_value p fresh (Some v) = Inr (Some (json_text p 0 v @ [0]))"
proof -
  obtain rest where "write_pass p (Some v) (fresh (length (json_text p 0 v) + 1)) =
      Inr (JSONSuccess, json_text p 0 v @ 0 # rest)" "length rest = 0"
    using write_exact [OF assms(1-3), of "fresh (length (json_text p 0 v) + 1)"] assms(4) by auto
  then show ?thesis
    using size_exact [OF assms(1-3)] by (simp add: string_of_value_def)
qed

text \<open>
  C17. For every tree the parser can return, with numbers within the range of \<open>int\<close> and a text shorter than \<open>INT_MAX\<close>, the two passes
  of the serialiser agree: the size is the length of the text and its NUL, nothing is written outside a buffer of that size whatever
  the memory holds, and the buffer then holds exactly the text and the NUL; a buffer that is one byte smaller is refused untouched.
\<close>

theorem serialize_exact_buffer:
  assumes "json_ok d v" and "numbers_convert v" and "length (json_text pretty 0 v) < 2 ^ 31 - 1"
    and "\<And>n. length (fresh n) = n"
  shows "string_of_value pretty fresh (Some v) = Inr (Some (json_text pretty 0 v @ [0])) \<and>
    write_pass pretty (Some v) (fresh (length (json_text pretty 0 v))) =
      Inr (JSONFailure, fresh (length (json_text pretty 0 v)))"
  using string_exact [OF assms] size_exact [OF assms(1-3)] assms(4) by (simp add: write_pass_def)

theorem serialize_exact_buffer_witness:
  "string_of_value False (\<lambda>n. replicate n 77) (Some (JSONArray [JSONNumber (Fin 1), JSONString [10]])) =
     Inr (Some [91, 49, 44, 34, 92, 110, 34, 93, 0])"
proof -
  let ?v = "JSONArray [JSONNumber (Fin 1), JSONString [10]]"
  have t: "json_text False 0 ?v = [91, 49, 44, 34, 92, 110, 34, 93]" by code_simp
  have "number_text (Fin 1) = Inr [49]" by code_simp
  then have "numbers_convert ?v" by simp
  then show ?thesis
    using serialize_exact_buffer [of 1 ?v False "\<lambda>n. replicate n 77"] t by (simp add: ARRAY_MAX_CAPACITY_def)
qed

end
