(* ===== verification/Json_Roundtrip.thy ===== *)
theory Json_Roundtrip
  imports Json_Serialize_Correct
begin

text \<open>
  The parser reads back what the serialiser writes. \<open>parses d t v\<close> says that the text \<open>t\<close>, wherever it stands
  with \<open>d\<close> levels of nesting left, is parsed as the value \<open>v\<close>, and exactly to its end.
\<close>

section \<open>White space\<close>

lemma skip_whitespaces_append: "list_all isspace ws \<Longrightarrow> skip_whitespaces (ws @ s) = skip_whitespaces s"
  by (simp add: skip_whitespaces_def list_all_iff)

lemma skip_whitespaces_Cons: "\<not> isspace c \<Longrightarrow> skip_whitespaces (c # s) = c # s"
  by (simp add: skip_whitespaces_def)

lemma parse_value_skip: "list_all isspace ws \<Longrightarrow> parse_value fuel (ws @ s) n = parse_value fuel s n"
  by (cases fuel) (simp_all add: skip_whitespaces_append)

lemma white_indent: "list_all isspace (indent_text l)"
  by (auto simp: indent_text_def list_all_iff lit_def isspace_def)

section \<open>Texts of values\<close>

text \<open>A character that is no part of a number.\<close>

definition number_stop :: "u8 \<Rightarrow> bool" where
  "number_stop c \<longleftrightarrow> \<not> isdigit c \<and> c \<noteq> 46 \<and> lower c \<noteq> 101 \<and> lower c \<noteq> 120"

text \<open>A string at the very end of a text is refused, so something follows all values but arrays and objects.\<close>

definition parses :: "nat \<Rightarrow> bytes \<Rightarrow> json_value \<Rightarrow> bool" where
  "parses d t v \<longleftrightarrow> t \<noteq> [] \<and> \<not> isspace (hd t) \<and>
     (\<forall>n rest fuel. n + d \<le> Suc MAX_NESTING \<longrightarrow> number_stop (cur rest) \<longrightarrow> (rest \<noteq> [] \<or> hd t \<in> {91, 123}) \<longrightarrow>
        2 * length (t @ rest) < fuel \<longrightarrow> parse_value fuel (t @ rest) n = Some (Some (v, rest)))"

lemma parsesI:
  assumes "t \<noteq> []" and "\<not> isspace (hd t)"
    and "\<And>n rest fuel. n + d \<le> Suc MAX_NESTING \<Longrightarrow> number_stop (cur rest) \<Longrightarrow> rest \<noteq> [] \<or> hd t \<in> {91, 123} \<Longrightarrow>
      2 * length (t @ rest) \<le> fuel \<Longrightarrow> parse_value (Suc fuel) (t @ rest) n = Some (Some (v, rest))"
  shows "parses d t v"
  unfolding parses_def
proof (intro conjI allI impI assms(1,2))
  fix n rest fuel
  assume a: "n + d \<le> Suc MAX_NESTING" "number_stop (cur rest)" "rest \<noteq> [] \<or> hd t \<in> {91, 123}" "2 * length (t @ rest) < fuel"
  obtain f where f: "fuel = Suc f" using a(4) by (cases fuel) auto
  show "parse_value fuel (t @ rest) n = Some (Some (v, rest))"
    unfolding f by (rule assms(3) [OF a(1-3)]) (use a(4) f in simp)
qed

lemma parsesD:
  "parses d t v \<Longrightarrow> n + d \<le> Suc MAX_NESTING \<Longrightarrow> number_stop (cur rest) \<Longrightarrow> rest \<noteq> [] \<Longrightarrow> 2 * length (t @ rest) < fuel \<Longrightarrow>
   parse_value fuel (t @ rest) n = Some (Some (v, rest))"
  unfolding parses_def by blast

lemma parses_whole:
  "parses 20 t v \<Longrightarrow> hd t \<in> {91, 123} \<Longrightarrow> parse_value (2 * length t + 1) t 0 = Some (Some (v, []))"
  unfolding parses_def
  by (elim conjE allE [of _ 0] allE [of _ "[]"] allE [of _ "2 * length t + 1"])
    (simp add: MAX_NESTING_def cur_def number_stop_def isdigit_def lower_def del: parse_value.simps)

lemma parses_skip: "parses d t v \<Longrightarrow> skip_whitespaces (t @ r) = t @ r"
  unfolding parses_def by (cases t) (auto simp: skip_whitespaces_Cons)

section \<open>Literals\<close>

lemma parses_null: "0 < d \<Longrightarrow> parses d (lit ''null'') JSONNull"
  by (rule parsesI) (simp_all add: lit_def isspace_def skip_whitespaces_def asc_numerals cur_def isdigit_def
      parse_null_value_def is_prefix_def MAX_NESTING_def)

lemma parses_boolean: "0 < d \<Longrightarrow> parses d (lit (if b then ''true'' else ''false'')) (JSONBoolean b)"
  by (rule parsesI) (simp_all add: lit_def isspace_def skip_whitespaces_def asc_numerals cur_def isdigit_def
      parse_boolean_value_def is_prefix_def MAX_NESTING_def)

section \<open>Strings\<close>

text \<open>The characters that come back: no control character but those that have an escape.\<close>

definition plain_char :: "u8 \<Rightarrow> bool" where
  "plain_char c \<longleftrightarrow> 32 \<le> c \<or> c \<in> {8, 9, 10, 12, 13}"

lemma skip_to_quote_escaped: "skip_to_quote (concat (map escape_char s) @ 34 # rest) = rest"
  by (induction s) (auto simp: escape_char_def asc_numerals)

lemma process_chars_plain:
  "c \<noteq> 92 \<Longrightarrow> \<not> c < 32 \<Longrightarrow> process_chars (c # s) (Suc n) = map_option ((#) c) (process_chars s n)"
  by (subst process_chars.simps) (simp add: cur_def asc_numerals)

lemma process_chars_escape:
  "simple_escape e = Some c \<Longrightarrow> process_chars (92 # e # s) (Suc (Suc n)) = map_option ((#) c) (process_chars s n)"
  by (subst process_chars.simps) (simp add: cur_def char_at_def asc_numerals)

lemma simple_escape_codes:
  "simple_escape 34 = Some 34" "simple_escape 92 = Some 92" "simple_escape 47 = Some 47" "simple_escape 98 = Some 8"
  "simple_escape 102 = Some 12" "simple_escape 110 = Some 10" "simple_escape 114 = Some 13" "simple_escape 116 = Some 9"
  by (simp_all add: simple_escape_def asc_numerals)

lemma process_chars_escaped:
  "list_all plain_char s \<Longrightarrow>
   process_chars (concat (map escape_char s) @ 34 # rest) (length (concat (map escape_char s))) = Some s"
proof (induction s)
  case (Cons c s)
  let ?r = "concat (map escape_char s) @ 34 # rest" and ?n = "length (concat (map escape_char s))"
  have "process_chars (escape_char c @ ?r) (length (escape_char c) + ?n) = map_option ((#) c) (process_chars ?r ?n)"
  proof (cases "c \<in> {34, 92, 47, 8, 12, 10, 13, 9}")
    case True
    then show ?thesis
      by (auto simp: escape_char_def process_chars_escape simple_escape_codes)
  next
    case False
    then have "\<not> c < 32" using Cons.prems by (auto simp: plain_char_def not_less)
    then show ?thesis
      using False by (simp add: escape_char_def process_chars_plain)
  qed
  then show ?case using Cons by simp
qed (simp add: process_chars.simps)

lemma plain_no_nul: "list_all plain_char s \<Longrightarrow> takeWhile (\<lambda>c. c \<noteq> 0) s = s"
  by (induction s) (auto simp: plain_char_def)

lemma get_quoted:
  assumes "list_all plain_char s" and "rest \<noteq> []"
  shows "get_quoted_string (quoted s @ rest) = (Some s, rest)"
  using assms
  by (simp add: get_quoted_string_def quoted_def skip_quotes_def skip_to_quote_escaped process_string_def
      process_chars_escaped plain_no_nul)

lemma parses_string: "0 < d \<Longrightarrow> list_all plain_char s \<Longrightarrow> parses d (quoted s) (JSONString s)"
  by (rule parsesI)
    (simp_all add: quoted_def isspace_def skip_whitespaces_def asc_numerals cur_def MAX_NESTING_def parse_string_value_def
      get_quoted [unfolded quoted_def, simplified])

section \<open>Numbers\<close>

lemma digit_byte:
  assumes "0 \<le> n" and "n < 10"
  shows "of_char (digit n) = (word_of_int (48 + n) :: u8)" and "uint (of_char (digit n) :: u8) = 48 + n"
proof -
  have l: "list_all (\<lambda>n. (of_char (digit n) :: u8) = word_of_int (48 + n) \<and> uint (of_char (digit n) :: u8) = 48 + n) [0..9]"
    by code_simp
  have "(of_char (digit n) :: u8) = word_of_int (48 + n) \<and> uint (of_char (digit n) :: u8) = 48 + n"
    by (rule bspec [OF l [unfolded list_all_iff set_upto]]) (use assms in simp)
  then show "of_char (digit n) = (word_of_int (48 + n) :: u8)" "uint (of_char (digit n) :: u8) = 48 + n"
    by blast+
qed

lemma digit_isdigit: "0 \<le> n \<Longrightarrow> n < 10 \<Longrightarrow> isdigit (of_char (digit n))"
  by (simp add: digit_byte(2) isdigit_def word_le_def)

lemma lit_dec_digits: "0 \<le> n \<Longrightarrow> list_all isdigit (lit (dec n))"
proof (induction n rule: dec.induct)
  case (1 n)
  then show ?case
    by (subst dec.simps) (simp add: lit_append lit_def digit_isdigit)
qed

lemma digit_value_snoc: "digit_value (ds @ [d]) = digit_value ds * 10 + uint (d - 48)"
  by (simp add: digit_value_def)

lemma digit_value_dec: "0 \<le> n \<Longrightarrow> digit_value (lit (dec n)) = n"
proof (induction n rule: dec.induct)
  case (1 n)
  have d: "uint (of_char (digit k) - 48 :: u8) = k" if "0 \<le> k" "k < 10" for k
  proof -
    have "(of_char (digit k) :: u8) - 48 = word_of_int k" using that by (simp add: digit_byte(1))
    then show ?thesis using that by (simp add: uint_word_of_int)
  qed
  show ?case
  proof (cases "n < 10")
    case True
    then show ?thesis using d [of n] 1 by (subst dec.simps) (simp add: lit_def digit_value_def)
  next
    case False
    then have "digit_value (lit (dec (n div 10))) = n div 10" using 1 by simp
    then show ?thesis
      using False d [of "n mod 10"] by (subst dec.simps) (simp add: lit_append lit_def [of "[_]"] digit_value_snoc)
  qed
qed

text \<open>A number of more than one digit does not start with 0.\<close>

lemma dec_first:
  assumes "0 < n"
  shows "hd (lit (dec n)) \<noteq> 48"
  using assms
proof (induction n rule: dec.induct)
  case (1 n)
  show ?case
  proof (cases "n < 10")
    case True
    then show ?thesis using 1 by (subst dec.simps) (simp add: lit_def digit_byte(2) word_uint_eq_iff)
  next
    case False
    then show ?thesis using 1 by (subst dec.simps) (simp add: lit_append lit_def hd_append)
  qed
qed

lemma round_dbl_int:
  assumes "\<bar>n\<bar> < 2 ^ 52"
  shows "0 < n \<Longrightarrow> round_dbl (of_int n) = Fin (of_int n)"
proof -
  assume n: "0 < n"
  define k where "k = expo (of_int n)"
  have k: "2 powi k \<le> (of_int n :: rat)" "(of_int n :: rat) < 2 powi (k + 1)"
    using expo_bounds [of "of_int n"] n by (simp_all add: k_def)
  have "0 \<le> k"
  proof (rule ccontr)
    assume "\<not> 0 \<le> k"
    then have "2 powi (k + 1) \<le> (2 :: rat) powi 0" by (intro power_int_increasing) auto
    then show False using k(2) n by simp
  qed
  moreover have "k \<le> 52"
  proof (rule ccontr)
    assume "\<not> k \<le> 52"
    then have "2 powi 52 \<le> (2 :: rat) powi k" by (intro power_int_increasing) auto
    then have "(2 :: rat) ^ 52 \<le> of_int n" using k(1) by simp
    then have "of_int (2 ^ 52) \<le> (of_int n :: rat)" by simp
    then show False using assms n unfolding of_int_le_iff by simp
  qed
  ultimately show "round_dbl (of_int n) = Fin (of_int n)"
    using k by (intro round_dbl_to_int [of k]) (auto intro: zero_less_power_int)
qed

text \<open>\<open>strtod\<close> and the test for leading zeros on the digits of a number, up to a character that ends it.\<close>

lemma digits_end:
  assumes "list_all isdigit ds" and "number_stop (cur rest)"
  shows "takeWhile isdigit (ds @ rest) = ds"
proof -
  have "takeWhile isdigit rest = []"
    using assms(2) by (cases rest) (simp_all add: number_stop_def cur_def)
  then show ?thesis
    using assms(1) by (simp add: list_all_iff takeWhile_append2)
qed

lemma digit_lower: "isdigit c \<Longrightarrow> lower c = c"
  by (auto simp: isdigit_def lower_def word_le_def)

lemma no_special_prefix:
  assumes "list_all isdigit ds" and "ds \<noteq> []" and "number_stop (cur rest)"
  shows "\<not> is_prefix_nocase (lit ''infinity'') (ds @ rest)" "\<not> is_prefix_nocase (lit ''inf'') (ds @ rest)"
    "\<not> is_prefix_nocase (lit ''nan'') (ds @ rest)" "\<not> is_prefix_nocase (lit ''0x'') (ds @ rest)"
proof -
  obtain c cs where ds: "ds = c # cs" using assms(2) by (cases ds) auto
  then have c: "isdigit c" using assms(1) by simp
  then have "lower c \<noteq> 105" "lower c \<noteq> 110"
    by (auto simp: digit_lower isdigit_def)
  then show "\<not> is_prefix_nocase (lit ''infinity'') (ds @ rest)" "\<not> is_prefix_nocase (lit ''inf'') (ds @ rest)"
    "\<not> is_prefix_nocase (lit ''nan'') (ds @ rest)"
    by (simp_all add: is_prefix_nocase_def ds lit_def)
  have "lower d \<noteq> 120" if "cs @ rest = d # r" for d r
  proof (cases cs)
    case Nil
    then show ?thesis using that assms(3) by (simp add: number_stop_def cur_def)
  next
    case (Cons e es)
    then have "isdigit d" using that assms(1) ds by simp
    then show ?thesis by (auto simp: digit_lower isdigit_def)
  qed
  then show "\<not> is_prefix_nocase (lit ''0x'') (ds @ rest)"
    by (cases "cs @ rest") (auto simp: is_prefix_nocase_def ds lit_def)
qed

lemma strtod_digits:
  assumes "0 \<le> n" and "n < 2 ^ 52" and "number_stop (cur rest)"
  shows "strtod_unsigned (lit (dec n) @ rest) = (Fin (of_int n), length (dec n))"
proof -
  let ?s = "lit (dec n) @ rest"
  have d: "list_all isdigit (lit (dec n))" "lit (dec n) \<noteq> []"
    using lit_dec_digits [OF assms(1)] by (simp_all add: lit_def)
  have e: "scan_exponent rest = (0, 0)" "cur rest \<noteq> asc CHR ''.''"
    using assms(3) by (simp_all add: scan_exponent_def number_stop_def asc_numerals)
  have "round_dbl (of_int n) = Fin (of_int n)"
    using round_dbl_int [of n] assms(1,2) by (cases "n = 0") (simp_all add: round_dbl_def)
  then show ?thesis
    using no_special_prefix [OF d assms(3)] e d
    by (simp add: strtod_unsigned_def digits_end [OF d(1) assms(3)] Let_def digit_value_dec assms(1))
qed

lemma parse_number:
  assumes "strtod (t @ rest) = (x, length t)" and "is_decimal (t @ rest) (length t)"
    and "t \<noteq> []" and "hd t = 45 \<or> isdigit (hd t)" and "0 < d"
    and "n + d \<le> Suc MAX_NESTING"
  shows "parse_value (Suc fuel) (t @ rest) n = Some (Some (JSONNumber x, rest))"
proof -
  obtain c cs where t: "t = c # cs" using assms(3) by (cases t) auto
  have c: "c = 45 \<or> isdigit c" using assms(4) t by simp
  then have "\<not> isspace c" "c \<noteq> 123" "c \<noteq> 91" "c \<noteq> 34" "c \<noteq> 102" "c \<noteq> 116"
    by (auto simp: isdigit_def isspace_def word_le_def)
  moreover have "parse_number_value (t @ rest) = Some (JSONNumber x, rest)"
    using assms(1,2) by (simp add: parse_number_value_def)
  ultimately show ?thesis
    using assms(5,6) c t
    by (auto simp: t skip_whitespaces_Cons cur_def asc_numerals Let_def MAX_NESTING_def)
qed

lemma digits_no_x: "list_all isdigit ds \<Longrightarrow> c \<in> set ds \<Longrightarrow> c \<noteq> 120 \<and> c \<noteq> 88 \<and> c \<noteq> 46"
  by (auto simp: list_all_iff isdigit_def)

lemma lit_minus_zero: "lit ''-0'' = [45, 48]"
  by (simp add: lit_def)

lemma decimal_digits:
  assumes "0 \<le> n"
  shows "is_decimal (lit (dec n) @ rest) (length (dec n))"
proof -
  have d: "list_all isdigit (lit (dec n))" by (rule lit_dec_digits [OF assms])
  obtain c cs where l: "lit (dec n) = c # cs" by (cases "lit (dec n)") (auto simp: lit_def)
  have x: "\<forall>b \<in> set (c # cs). b \<noteq> 120 \<and> b \<noteq> 88" using digits_no_x [OF d] unfolding l by blast
  have "c \<noteq> 48" if "1 < length (dec n)"
  proof -
    have "n \<noteq> 0" using that by (auto simp: dec.simps [of 0])
    then show ?thesis using dec_first [of n] assms l by simp
  qed
  moreover have "c \<noteq> 45" using d l by (auto simp: isdigit_def)
  moreover have "length (dec n) = length (c # cs)" unfolding l [symmetric] by simp
  ultimately show ?thesis
    unfolding l using x
    by (auto simp: is_decimal_def asc_numerals char_at_def cur_def is_prefix_def lit_minus_zero)
qed

lemma decimal_negative:
  assumes "0 < n"
  shows "is_decimal (45 # lit (dec n) @ rest) (Suc (length (dec n)))"
proof -
  have d: "list_all isdigit (lit (dec n))" using assms by (intro lit_dec_digits) simp
  obtain c cs where l: "lit (dec n) = c # cs" by (cases "lit (dec n)") (auto simp: lit_def)
  have x: "\<forall>b \<in> set (c # cs). b \<noteq> 120 \<and> b \<noteq> 88" using digits_no_x [OF d] unfolding l by blast
  have "c \<noteq> 48" using dec_first [OF assms] l by simp
  moreover have "length (dec n) = length (c # cs)" unfolding l [symmetric] by simp
  ultimately show ?thesis
    unfolding l using x
    by (auto simp: is_decimal_def asc_numerals char_at_def cur_def is_prefix_def lit_minus_zero)
qed

lemma parses_int:
  assumes "\<bar>n\<bar> < 2 ^ 52" and "0 < d"
  shows "parses d (lit (fmt_i 0 n)) (JSONNumber (Fin (of_int n)))"
proof (cases "n < 0")
  case False
  then have f: "fmt_i 0 n = dec n" by (simp add: fmt_i_def pad0_def)
  have d: "list_all isdigit (lit (dec n))" "lit (dec n) \<noteq> []"
    using False lit_dec_digits [of n] by (simp_all add: lit_def)
  then have h: "isdigit (hd (lit (dec n)))" by (cases "lit (dec n)") auto
  show ?thesis
    unfolding f
  proof (rule parsesI)
    show "\<not> isspace (hd (lit (dec n)))" using h by (auto simp: isdigit_def isspace_def word_le_def)
    fix m rest fuel
    assume a: "m + d \<le> Suc MAX_NESTING" "number_stop (cur rest)"
    have "cur (lit (dec n) @ rest) \<noteq> 45"
      using h d(2) by (cases "lit (dec n)") (auto simp: cur_def isdigit_def)
    then have "strtod (lit (dec n) @ rest) = (Fin (of_int n), length (lit (dec n)))"
      using strtod_digits [of n rest] False assms(1) a(2) by (simp add: strtod_def asc_numerals)
    then show "parse_value (Suc fuel) (lit (dec n) @ rest) m = Some (Some (JSONNumber (Fin (of_int n)), rest))"
      by (rule parse_number) (use d h assms(2) a(1) decimal_digits [of n rest] False in auto)
  qed (use d in simp)
next
  case True
  then have f: "lit (fmt_i 0 n) = 45 # lit (dec (- n))" by (simp add: fmt_i_def pad0_def lit_def)
  show ?thesis
    unfolding f
  proof (rule parsesI)
    fix m rest fuel
    assume a: "m + d \<le> Suc MAX_NESTING" "number_stop (cur rest)"
    have "strtod ((45 # lit (dec (- n))) @ rest) = (Fin (of_int n), length (45 # lit (dec (- n))))"
      using strtod_digits [of "- n" rest] True assms(1) a(2) by (simp add: strtod_def asc_numerals cur_def dbl_neg_def)
    then show "parse_value (Suc fuel) ((45 # lit (dec (- n))) @ rest) m = Some (Some (JSONNumber (Fin (of_int n)), rest))"
      by (rule parse_number) (use assms(2) a(1) decimal_negative [of "- n" rest] True in auto)
  qed (simp_all add: isspace_def)
qed

section \<open>Arrays and objects\<close>

fun sep_text :: "bytes \<Rightarrow> bytes \<Rightarrow> bytes list \<Rightarrow> bytes" where
  "sep_text before after [] = []"
| "sep_text before after [x] = before @ x @ after"
| "sep_text before after (x # y # xs) = before @ x @ [44] @ after @ sep_text before after (y # xs)"

lemma elements_text_sep:
  "elements_text level p xs = sep_text (if p then indent_text (level + 1) else []) (if p then [10] else []) xs"
proof -
  let ?sep = "sep_text (if p then indent_text (level + 1) else []) (if p then [10] else [])"
  have "concat (map (\<lambda>i. element_text level p (length xs) i (xs ! i)) [k..<length xs]) = ?sep (drop k xs)" if "k \<le> length xs" for k
    using that
  proof (induction rule: inc_induct)
    case (step k)
    then have d: "drop k xs = xs ! k # drop (Suc k) xs" by (simp add: Cons_nth_drop_Suc)
    show ?case
    proof (cases "drop (Suc k) xs")
      case Nil
      then have "\<not> k < length xs - 1" by simp
      then show ?thesis using step d Nil by (simp add: upt_conv_Cons element_text_def)
    next
      case (Cons y ys)
      then have "k < length xs - 1" by (metis drop_eq_Nil Suc_pred diff_Suc_1 list.distinct(1) not_le_imp_less Suc_lessE)
      then show ?thesis using step d Cons by (simp add: upt_conv_Cons element_text_def)
    qed
  qed simp
  from this [of 0] show ?thesis by (simp add: elements_text_def)
qed

lemma stop_chars: "number_stop 44" "number_stop 93" "number_stop 125" "number_stop 10" "number_stop 32"
  by (simp_all add: number_stop_def isdigit_def lower_def)

lemma not_space: "\<not> isspace 44" "\<not> isspace 93" "\<not> isspace 125" "\<not> isspace 91" "\<not> isspace 123" "\<not> isspace 58" "\<not> isspace 34"
  by (simp_all add: isspace_def)

lemma white_stop: "list_all isspace ws \<Longrightarrow> number_stop (cur (ws @ s)) \<or> ws = []"
  by (cases ws) (auto simp: cur_def isspace_def number_stop_def isdigit_def lower_def word_le_def)

text \<open>What follows an element: blanks and a comma or a bracket.\<close>

lemma after_stop:
  "list_all isspace ws \<Longrightarrow> c \<in> {44, 93, 125} \<Longrightarrow> number_stop (cur (ws @ c # s))"
  using white_stop [of ws "c # s"] by (auto simp: cur_def stop_chars)

lemma parse_items_text:
  assumes "list_all2 (parses d) ts vs" and "ts \<noteq> []" and "n + d \<le> Suc MAX_NESTING"
    and ws: "list_all isspace before" "list_all isspace after" "list_all isspace ind"
    and "length arr + length vs \<le> ARRAY_MAX_CAPACITY" and "grows_to ARRAY_MAX_CAPACITY cap" "length arr \<le> cap"
    and "2 * length (sep_text before after ts @ ind @ 93 # rest) + 1 < fuel"
  shows "parse_items fuel cap arr (skip_whitespaces (sep_text before after ts @ ind @ 93 # rest)) n =
    Some (Some (JSONArray (arr @ vs), rest))"
  using assms(1,2,7,8,9,10)
proof (induction ts vs arbitrary: cap arr fuel rule: list_all2_induct)
  case (Cons t ts v vs)
  obtain f where f: "fuel = Suc f" using Cons.prems(5) by (cases fuel) auto
  obtain c where c: "grown_capacity ARRAY_MAX_CAPACITY cap (length arr) = Some c"
      "grows_to ARRAY_MAX_CAPACITY c" "length arr < c"
    using grows_to_step [OF Cons.prems(3,4) _ grows_array] Cons.prems(2) by auto
  then have add: "json_array_add cap arr v = Some (c, arr @ [v])"
    by (simp add: json_array_add_def)
  have ne: "t @ r \<noteq> []" for r using Cons.hyps(1) by (simp add: parses_def)
  show ?case
  proof (cases ts)
    case Nil
    let ?r = "after @ ind @ 93 # rest"
    have s: "skip_whitespaces (sep_text before after (t # ts) @ ind @ 93 # rest) = t @ ?r"
      using ws(1) parses_skip [OF Cons.hyps(1)] Nil by (simp add: skip_whitespaces_append)
    have "number_stop (cur ?r)" using after_stop [of "after @ ind" 93 rest] ws by simp
    then have "parse_value f (t @ ?r) n = Some (Some (v, ?r))"
      using Cons.prems(5) Nil f by (intro parsesD [OF Cons.hyps(1) assms(3)]) auto
    then show ?thesis
      using add ne Nil Cons.hyps(2) ws unfolding s f
      by (simp add: Let_def skip_whitespaces_append skip_whitespaces_Cons not_space cur_def asc_numerals)
  next
    case (Cons t' ts')
    let ?rest = "sep_text before after ts @ ind @ 93 # rest" and ?r = "44 # after @ sep_text before after ts @ ind @ 93 # rest"
    have s: "skip_whitespaces (sep_text before after (t # ts) @ ind @ 93 # rest) = t @ ?r"
      using ws(1) parses_skip [OF Cons.hyps(1)] Cons by (simp add: skip_whitespaces_append)
    have "parse_value f (t @ ?r) n = Some (Some (v, ?r))"
      using Cons.prems(5) Cons f by (intro parsesD [OF Cons.hyps(1) assms(3)]) (auto simp: cur_def stop_chars)
    moreover have "parse_items f c (arr @ [v]) (skip_whitespaces ?rest) n = Some (Some (JSONArray ((arr @ [v]) @ vs), rest))"
      using Cons.prems f Cons c by (intro Cons.IH) auto
    ultimately show ?thesis
      using add ne ws(2) unfolding s f
      by (simp add: Let_def skip_whitespaces_append skip_whitespaces_Cons not_space cur_def asc_numerals)
  qed
qed simp

text \<open>No value starts with a closing bracket, so that a bracket after \<open>[\<close> means an empty array.\<close>

lemma parses_not_closing:
  assumes "parses d t v" and "d \<le> Suc MAX_NESTING"
  shows "hd t \<noteq> 93"
proof
  assume h: "hd t = 93"
  obtain t' where t: "t = 93 # t'" using h assms(1) by (cases t) (auto simp: parses_def)
  have "parse_value (Suc (2 * length (t @ [44]))) (t @ [44]) 0 = Some (Some (v, [44]))"
    using assms by (intro parsesD) (simp_all add: cur_def stop_chars)
  then show False
    by (simp add: t skip_whitespaces_Cons not_space cur_def asc_numerals isdigit_def)
qed

lemma parses_array:
  assumes "list_all2 (parses d) ts vs" and "length vs \<le> ARRAY_MAX_CAPACITY"
    and ws: "list_all isspace nl" "list_all isspace before" "list_all isspace after" "list_all isspace ind"
    and empty: "ts = [] \<Longrightarrow> nl = [] \<and> ind = []"
  shows "parses (Suc d) (91 # nl @ sep_text before after ts @ ind @ [93]) (JSONArray vs)"
proof (rule parsesI)
  fix n rest fuel
  assume a: "n + Suc d \<le> Suc MAX_NESTING"
    and fuel: "2 * length ((91 # nl @ sep_text before after ts @ ind @ [93]) @ rest) \<le> fuel"
  show "parse_value (Suc fuel) ((91 # nl @ sep_text before after ts @ ind @ [93]) @ rest) n = Some (Some (JSONArray vs, rest))"
  proof (cases "ts = []")
    case True
    then have "vs = []" using assms(1) by simp
    then show ?thesis
      using True empty a by (simp add: skip_whitespaces_Cons not_space cur_def asc_numerals Let_def)
  next
    case False
    let ?s = "sep_text before after ts @ ind @ 93 # rest"
    obtain t ts' where ts: "ts = t # ts'" using False by (cases ts) auto
    then have t: "parses d t (hd vs)" using assms(1) by (cases vs) auto
    have items: "parse_items fuel 0 [] (skip_whitespaces ?s) (n + 1) = Some (Some (JSONArray ([] @ vs), rest))"
      using a fuel assms(2) by (intro parse_items_text [OF assms(1) False _ ws(2,3,4)]) auto
    have "\<exists>r. skip_whitespaces ?s = t @ r"
      using ws(2) parses_skip [OF t] ts by (cases ts') (simp_all add: skip_whitespaces_append)
    moreover have "hd t \<noteq> 93"
      using parses_not_closing [OF t] a by simp
    ultimately have "cur (skip_whitespaces ?s) \<noteq> 93"
      using t by (cases t) (auto simp: cur_def parses_def)
    then show ?thesis
      using items a ws(1) by (simp add: skip_whitespaces_Cons skip_whitespaces_append not_space cur_def [of "_ # _"] asc_numerals Let_def)
  qed
qed (simp_all add: not_space)

text \<open>The same for the members of an object, each a name, a colon and a value.\<close>

definition parses_member :: "nat \<Rightarrow> bytes \<times> bytes \<Rightarrow> bytes \<times> json_value \<Rightarrow> bool" where
  "parses_member d x m \<longleftrightarrow> fst x = fst m \<and> list_all plain_char (fst m) \<and> parses d (snd x) (snd m)"

definition member_texts :: "bool \<Rightarrow> (bytes \<times> bytes) list \<Rightarrow> bytes list" where
  "member_texts p xs = map (\<lambda>x. member_text p (fst x) (snd x)) xs"

lemma member_text_rest:
  assumes "parses_member d x m" and "n + d \<le> Suc MAX_NESTING" and "number_stop (cur r)" and "r \<noteq> []"
    and "2 * length (snd x @ r) < f"
  obtains s where "get_quoted_string (member_text p (fst x) (snd x) @ r) = (Some (fst m), 58 # s)"
    and "parse_value f s n = Some (Some (snd m, r))"
proof -
  let ?s = "(if p then [32] else []) @ snd x @ r"
  have "get_quoted_string (member_text p (fst x) (snd x) @ r) = (Some (fst m), 58 # ?s)"
    using get_quoted [of "fst m" "58 # ?s"] assms(1) by (simp add: member_text_def parses_member_def)
  moreover have "parse_value f ?s n = Some (Some (snd m, r))"
    using assms by (subst parse_value_skip) (auto simp: isspace_def parses_member_def intro!: parsesD)
  ultimately show ?thesis by (rule that)
qed

lemma member_text_skip: "skip_whitespaces (member_text p k t @ r) = member_text p k t @ r"
  by (simp add: member_text_def quoted_def skip_whitespaces_Cons not_space)

lemma member_text_length: "length t < length (member_text p k t)"
  by (simp add: member_text_def)

lemma parse_members_text:
  assumes "list_all2 (parses_member d) xs ms" and "xs \<noteq> []" and "n + d \<le> Suc MAX_NESTING"
    and ws: "list_all isspace before" "list_all isspace after" "list_all isspace ind"
    and "length obj + length ms \<le> OBJECT_MAX_CAPACITY" and "grows_to OBJECT_MAX_CAPACITY cap" "length obj \<le> cap"
    and "distinct (map fst (obj @ ms))"
    and "2 * length (sep_text before after (member_texts p xs) @ ind @ 125 # rest) + 1 < fuel"
  shows "parse_members fuel cap obj (skip_whitespaces (sep_text before after (member_texts p xs) @ ind @ 125 # rest)) n =
    Some (Some (JSONObject (obj @ ms), rest))"
  using assms(1,2,7,8,9,10,11)
proof (induction xs ms arbitrary: cap obj fuel rule: list_all2_induct)
  case (Cons x xs m ms)
  let ?t = "member_text p (fst x) (snd x)"
  obtain f where f: "fuel = Suc f" using Cons.prems(6) by (cases fuel) auto
  obtain c where c: "grown_capacity OBJECT_MAX_CAPACITY cap (length obj) = Some c"
      "grows_to OBJECT_MAX_CAPACITY c" "length obj < c"
    using grows_to_step [OF Cons.prems(3,4) _ grows_object] Cons.prems(2) by auto
  then have add: "json_object_add cap obj (fst m) (snd m) = Some (c, obj @ [m])"
    using Cons.prems(5) by (simp add: json_object_add_def json_object_get_value_def nget_value_None)
  have ne: "?t @ r \<noteq> []" for r by (simp add: member_text_def)
  have len: "length (snd x) < length ?t" by (rule member_text_length)
  show ?case
  proof (cases xs)
    case Nil
    let ?r = "after @ ind @ 125 # rest"
    have s: "skip_whitespaces (sep_text before after (member_texts p (x # xs)) @ ind @ 125 # rest) = ?t @ ?r"
      using ws(1) Nil by (simp add: member_texts_def skip_whitespaces_append member_text_skip)
    have "number_stop (cur ?r)" using after_stop [of "after @ ind" 125 rest] ws by simp
    moreover have "?r \<noteq> []" "2 * length (snd x @ ?r) < f"
      using Cons.prems(6) Nil f len by (simp_all add: member_texts_def)
    ultimately obtain s where "get_quoted_string (?t @ ?r) = (Some (fst m), 58 # s)" "parse_value f s n = Some (Some (snd m, ?r))"
      using member_text_rest [OF Cons.hyps(1) assms(3), of ?r f p] by blast
    then show ?thesis
      using add ne Nil Cons.hyps(2) ws unfolding s f
      by (simp add: Let_def skip_whitespaces_append skip_whitespaces_Cons not_space cur_def asc_numerals)
  next
    case (Cons x' xs')
    let ?rest = "sep_text before after (member_texts p xs) @ ind @ 125 # rest"
    let ?r = "44 # after @ sep_text before after (member_texts p xs) @ ind @ 125 # rest"
    have s: "skip_whitespaces (sep_text before after (member_texts p (x # xs)) @ ind @ 125 # rest) = ?t @ ?r"
      using ws(1) Cons by (simp add: member_texts_def skip_whitespaces_append member_text_skip)
    have "2 * length (snd x @ ?r) < f"
      using Cons.prems(6) Cons f len by (simp add: member_texts_def)
    then obtain s where "get_quoted_string (?t @ ?r) = (Some (fst m), 58 # s)" "parse_value f s n = Some (Some (snd m, ?r))"
      using member_text_rest [OF Cons.hyps(1) assms(3), of ?r f p] by (auto simp: cur_def stop_chars)
    moreover have "parse_members f c (obj @ [m]) (skip_whitespaces ?rest) n = Some (Some (JSONObject ((obj @ [m]) @ ms), rest))"
      using Cons.prems f Cons c by (intro Cons.IH) (auto simp: member_texts_def)
    ultimately show ?thesis
      using add ne ws(2) unfolding s f
      by (simp add: Let_def skip_whitespaces_append skip_whitespaces_Cons not_space cur_def asc_numerals)
  qed
qed simp

lemma parses_object:
  assumes "list_all2 (parses_member d) xs ms" and "length ms \<le> OBJECT_MAX_CAPACITY" and "distinct (map fst ms)"
    and ws: "list_all isspace nl" "list_all isspace before" "list_all isspace after" "list_all isspace ind"
    and empty: "xs = [] \<Longrightarrow> nl = [] \<and> ind = []"
  shows "parses (Suc d) (123 # nl @ sep_text before after (member_texts p xs) @ ind @ [125]) (JSONObject ms)"
proof (rule parsesI)
  fix n rest fuel
  let ?s = "sep_text before after (member_texts p xs) @ ind @ 125 # rest"
  assume a: "n + Suc d \<le> Suc MAX_NESTING"
    and fuel: "2 * length ((123 # nl @ sep_text before after (member_texts p xs) @ ind @ [125]) @ rest) \<le> fuel"
  show "parse_value (Suc fuel) ((123 # nl @ sep_text before after (member_texts p xs) @ ind @ [125]) @ rest) n =
    Some (Some (JSONObject ms, rest))"
  proof (cases xs)
    case Nil
    then have "ms = []" using assms(1) by simp
    then show ?thesis
      using Nil empty a by (simp add: member_texts_def skip_whitespaces_Cons not_space cur_def asc_numerals Let_def)
  next
    case (Cons x xs')
    have items: "parse_members fuel 0 [] (skip_whitespaces ?s) (n + 1) = Some (Some (JSONObject ([] @ ms), rest))"
      using a fuel assms(2,3) Cons by (intro parse_members_text [OF assms(1) _ _ ws(2,3,4)]) auto
    have "\<exists>r. skip_whitespaces ?s = member_text p (fst x) (snd x) @ r"
      using ws(2) Cons by (cases xs') (simp_all add: member_texts_def skip_whitespaces_append member_text_skip)
    then have "cur (skip_whitespaces ?s) \<noteq> 125"
      by (auto simp: cur_def member_text_def quoted_def)
    then show ?thesis
      using items a ws(1) by (simp add: skip_whitespaces_Cons skip_whitespaces_append not_space cur_def [of "_ # _"] asc_numerals Let_def)
  qed
qed (simp_all add: not_space)

section \<open>Trees that come back\<close>

text \<open>
  Numbers are printed as \<open>int\<close> or with six decimals, so only the first kind comes back. Other control characters than the five
  with an escape are printed as they are and refused by the parser.
\<close>

definition int_number :: "dbl \<Rightarrow> bool" where
  "int_number x = (case dbl_to_int (- (2 ^ 31)) (2 ^ 31 - 1) x of Inl _ \<Rightarrow> False | Inr n \<Rightarrow> x = Fin (of_int n))"

fun printable :: "nat \<Rightarrow> json_value \<Rightarrow> bool" where
  "printable d (JSONObject ms) =
     (0 < d \<and> distinct (map fst ms) \<and> length ms \<le> OBJECT_MAX_CAPACITY \<and>
      (\<forall>m \<in> set ms. list_all plain_char (fst m) \<and> printable (d - 1) (snd m)))"
| "printable d (JSONArray vs) =
     (0 < d \<and> length vs \<le> ARRAY_MAX_CAPACITY \<and> (\<forall>v \<in> set vs. printable (d - 1) v))"
| "printable d (JSONString s) = (0 < d \<and> list_all plain_char s)"
| "printable d (JSONNumber x) = (0 < d \<and> int_number x)"
| "printable d (JSONBoolean b) = (0 < d)"
| "printable d JSONNull = (0 < d)"

lemma int_numberD:
  assumes "int_number x"
  obtains n where "x = Fin (of_int n)" and "\<bar>n\<bar> < 2 ^ 52" and "number_text x = Inr (lit (fmt_i 0 n))"
proof -
  obtain n where n: "dbl_to_int (- (2 ^ 31)) (2 ^ 31 - 1) x = Inr n" "x = Fin (of_int n)"
    using assms by (auto simp: int_number_def split: sum.splits)
  then have "- (2 ^ 31) \<le> n \<and> n \<le> 2 ^ 31 - 1"
    by (auto simp: dbl_to_int_def Let_def split: if_splits)
  then show ?thesis
    using n by (intro that [of n]) (auto simp: number_text_def)
qed

lemma plain_not_zero: "list_all plain_char s \<Longrightarrow> 0 \<notin> set s"
  by (auto simp: list_all_iff plain_char_def)

lemma printable_ok: "printable d v \<Longrightarrow> json_ok d v \<and> numbers_convert v"
  by (induction d v rule: printable.induct) (auto simp: plain_not_zero elim: int_numberD)

text \<open>The bracketed text, with the blanks of the pretty form named.\<close>

lemma brackets_sep:
  "brackets_text l p (length xs) a b (elements_text l p xs) =
     a # (if p \<and> xs \<noteq> [] then [10] else []) @
     sep_text (if p then indent_text (l + 1) else []) (if p then [10] else []) xs @
     (if p \<and> xs \<noteq> [] then indent_text l else []) @ [b]"
  by (simp add: brackets_text_def elements_text_sep)

lemma white_newline: "isspace 10"
  by (simp add: isspace_def)

lemma json_text_parses: "printable d v \<Longrightarrow> parses d (json_text p l v) v"
proof (induction d v arbitrary: l rule: printable.induct)
  case (1 d ms)
  let ?xs = "map (\<lambda>m. (fst m, json_text p (l + 1) (snd m))) ms"
  have "list_all2 (parses_member (d - 1)) ?xs ms"
    using 1 by (auto simp: list_all2_conv_all_nth parses_member_def)
  moreover have "json_text p l (JSONObject ms) = brackets_text l p (length (member_texts p ?xs)) 123 125 (elements_text l p (member_texts p ?xs))"
    by (simp add: member_texts_def comp_def)
  ultimately show ?case
    unfolding brackets_sep using 1(2) parses_object [of "d - 1" ?xs ms] by (simp add: white_indent white_newline member_texts_def)
next
  case (2 d vs)
  let ?ts = "map (json_text p (l + 1)) vs"
  have "list_all2 (parses (d - 1)) ?ts vs"
    using 2 by (auto simp: list_all2_conv_all_nth)
  moreover have "json_text p l (JSONArray vs) = brackets_text l p (length ?ts) 91 93 (elements_text l p ?ts)"
    by simp
  ultimately show ?case
    unfolding brackets_sep using 2(2) parses_array [of "d - 1" ?ts vs] by (simp add: white_indent white_newline)
next
  case (4 d x)
  then show ?case
    by (auto simp: number_chars_def parses_int elim!: int_numberD)
qed (simp_all only: json_text.simps printable.simps parses_string parses_boolean parses_null)

text \<open>The text holds no NUL.\<close>

lemma escape_nul: "0 \<in> set (escape_char c) \<Longrightarrow> c = 0"
  by (simp add: escape_char_def split: if_splits)

lemma quoted_no_nul: "list_all plain_char s \<Longrightarrow> 0 \<notin> set (quoted s)"
  using plain_not_zero [of s] by (auto simp: quoted_def dest: escape_nul)

lemma digits_no_nul: "list_all isdigit ds \<Longrightarrow> 0 \<notin> set ds"
  by (auto simp: list_all_iff isdigit_def)

lemma int_no_nul: "0 \<notin> set (lit (fmt_i 0 n))"
proof (cases "n < 0")
  case True
  then show ?thesis using digits_no_nul [OF lit_dec_digits [of "- n"]] by (simp add: fmt_i_def pad0_def lit_def)
next
  case False
  then show ?thesis using digits_no_nul [OF lit_dec_digits [of n]] by (simp add: fmt_i_def pad0_def)
qed

lemma brackets_no_nul:
  "(\<And>x. x \<in> set xs \<Longrightarrow> 0 \<notin> set x) \<Longrightarrow> a \<noteq> 0 \<Longrightarrow> b \<noteq> 0 \<Longrightarrow> 0 \<notin> set (brackets_text l p n a b (elements_text l p xs))"
  by (auto simp: brackets_text_def elements_text_def element_text_def indent_text_def lit_def)

lemma json_text_no_nul: "printable d v \<Longrightarrow> 0 \<notin> set (json_text p l v)"
proof (induction d v arbitrary: l rule: printable.induct)
  case (1 d ms)
  then show ?case
    unfolding json_text.simps by (intro brackets_no_nul) (auto simp: member_text_def quoted_no_nul)
next
  case (2 d vs)
  then show ?case
    unfolding json_text.simps by (intro brackets_no_nul) auto
next
  case (4 d x)
  then show ?case
    by (auto simp: number_chars_def int_no_nul elim!: int_numberD)
qed (auto simp: quoted_no_nul lit_def)

text \<open>
  C4. What \<open>json_serialize_to_string\<close> and its pretty form print, \<open>json_parse_string\<close> reads back as the same tree, for every object or array
  that keeps the parser's limits (20 levels, the capacities, distinct names), whose numbers are in the range of \<open>int\<close> without
  a fraction and whose strings and names hold no control character but those that have an escape.
\<close>

theorem serialize_parse_roundtrip:
  assumes "printable 20 v" and "json_value_get_type (Some v) \<in> {4, 5}"
    and "length (json_text pretty 0 v) < 2 ^ 31 - 1" and "\<And>n. length (fresh n) = n"
  shows "\<exists>m. string_of_value pretty fresh (Some v) = Inr (Some m) \<and>
    json_parse_string (Some (takeWhile (\<lambda>c. c \<noteq> 0) m)) = Some (Some v)"
proof -
  let ?t = "json_text pretty 0 v"
  have m: "string_of_value pretty fresh (Some v) = Inr (Some (?t @ [0]))"
    using string_exact [of 20 v pretty fresh] printable_ok [OF assms(1)] assms(3,4) by blast
  have "takeWhile (\<lambda>c. c \<noteq> 0) (?t @ [0]) = ?t"
    using json_text_no_nul [OF assms(1), of pretty 0] by (auto simp: takeWhile_append intro: takeWhile_eq_all_conv [THEN iffD2])
  moreover have h: "hd ?t \<in> {91, 123}"
    using assms(2) by (cases v) (auto simp: json_value_get_type_def brackets_text_def)
  moreover have p: "parses 20 ?t v" by (rule json_text_parses [OF assms(1)])
  then have "parse_value (2 * length ?t + 1) ?t 0 = Some (Some (v, []))"
    using h by (rule parses_whole)
  moreover have "skip_whitespaces ?t = ?t" using parses_skip [OF p, of "[]"] by simp
  ultimately show ?thesis
    using m p h
    by (cases ?t) (auto simp: json_parse_string_def parses_def cur_def asc_numerals Let_def simp del: parse_value.simps)
qed

theorem serialize_parse_roundtrip_witness:
  "\<exists>m. string_of_value True (\<lambda>n. replicate n 77) (Some (JSONObject [([97], JSONArray [JSONNumber (Fin (of_int (- 5))), JSONString [10, 34]])])) =
     Inr (Some m) \<and>
     json_parse_string (Some (takeWhile (\<lambda>c. c \<noteq> 0) m)) =
       Some (Some (JSONObject [([97], JSONArray [JSONNumber (Fin (of_int (- 5))), JSONString [10, 34]])]))"
proof (rule serialize_parse_roundtrip)
  let ?v = "JSONObject [([97], JSONArray [JSONNumber (Fin (of_int (- 5))), JSONString [10, 34]])]"
  show "printable 20 ?v"
    by (simp add: plain_char_def int_number_def dbl_to_int_def trunc_def Let_def OBJECT_MAX_CAPACITY_def ARRAY_MAX_CAPACITY_def)
  have "length (json_text True 0 ?v) < 100" by code_simp
  then show "length (json_text True 0 ?v) < 2 ^ 31 - 1" by simp
qed (simp_all add: json_value_get_type_def)

end
