(* ===== verification/Utilities.thy ===== *)
theory Utilities
  imports Thread_Down Thread_Up
begin

text \<open>
  The two test servers \<open>util_ack.c\<close> and \<open>util_sink.c\<close>: programs around the library that read the datagrams of
  one link with \<open>recv_from\<close>; \<open>util_ack\<close> answers each request with \<open>send_to\<close>, \<open>util_sink\<close> only counts the
  bytes. What they print, the pause of 30 ms and their signal handlers are left out.
\<close>

section \<open>\<open>util_ack\<close>\<close>

text \<open>One turn of \<open>thread_ack\<close>: the answer to a datagram, \<open>None\<close> for each \<open>continue\<close>. The token is sent back as it is.\<close>

definition ack_reply :: "int \<Rightarrow> bytes \<Rightarrow> bytes option" where
  "ack_reply link databuf =
     (if length databuf < 12 then None
      else if databuf ! 0 \<noteq> PROTOCOL_VERSION then None
      else if link = uplink \<and> databuf ! 3 = PKT_PUSH_DATA then Some (take 4 (databuf[3 := PKT_PUSH_ACK]))
      else if link = downlink \<and> databuf ! 3 = PKT_PULL_DATA then Some (take 4 (databuf[3 := PKT_PULL_ACK]))
      else None)"

text \<open>The gateway's address, which is only printed.\<close>

definition ack_gw_mac :: "bytes \<Rightarrow> u64" where
  "ack_gw_mac databuf =
     word_of_int (foldl (\<lambda>n b. n * 256 + uint b) 0 (take 4 (drop 4 databuf))) * 2 ^ 32 +
     word_of_int (foldl (\<lambda>n b. n * 256 + uint b) 0 (take 4 (drop 8 databuf)))"

text \<open>
  The loop: each element is what \<open>recv_from\<close> returns and what \<open>send_to\<close> would. The answers sent, and whether
  the thread has returned.
\<close>

fun thread_ack :: "int \<Rightarrow> ((errno + bytes) \<times> (errno + int)) list \<Rightarrow> bytes list \<times> bool" where
  "thread_ack link [] = ([], False)"
| "thread_ack link ((Inl e, sent) # turns) = ([], True)"
| "thread_ack link ((Inr databuf, sent) # turns) =
     (case ack_reply link databuf of
        None \<Rightarrow> thread_ack link turns
      | Some a \<Rightarrow>
          (case sent of
             Inl e \<Rightarrow> ([a], True)
           | Inr n \<Rightarrow> (let (as, returned) = thread_ack link turns in (a # as, returned))))"

section \<open>\<open>util_sink\<close>\<close>

fun thread_sink :: "(errno + bytes) list \<Rightarrow> nat list \<times> bool" where
  "thread_sink [] = ([], False)"
| "thread_sink (Inl e # turns) = ([], True)"
| "thread_sink (Inr databuf # turns) = (let (ns, returned) = thread_sink turns in (length databuf # ns, returned))"

end
