(* ===== verification/Utilities_Correct.thy ===== *)
theory Utilities_Correct
  imports Utilities Comms_Correct Thread_Up_Correct Thread_Down_Correct
begin

text \<open>
  The forwarder and \<open>util_ack\<close> together: a request and its answer cross the two queues of an idle link
  unchanged, and what the server answers is what the forwarder waits for, so as long as it reads the
  answers in time it never gives up.
\<close>

section \<open>An idle link carries one exchange\<close>

definition link_idle :: "int \<Rightarrow> comms \<Rightarrow> bool" where
  "link_idle lnk C \<longleftrightarrow> comms_ok C \<and> \<not> bad_socket lnk \<and> from_fwd_send_hwm (link_at lnk C) < 0 \<and>
     (\<forall>Q \<in> {from_fwd (link_at lnk C), to_fwd (link_at lnk C)}. \<not> wclosed Q \<and> wq Q = [])"

lemma send_recv_open:
  assumes "\<not> wclosed Q" and "wq Q = []" and "hwm < 0" and "length buf \<le> send_buflen Q" and "length buf \<le> len"
  shows "\<not> wclosed (snd (queue_recv stale t' len timeout' (snd (queue_send t buf (length buf) hwm timeout Q))))"
  using assms by (auto simp: queue_send_def enqueue_def queue_recv_def dequeue_def push_msg_def pop_msg_def Let_def min_def)

lemma set_link_link_ok: "comms_ok C \<Longrightarrow> link_ok l \<Longrightarrow> comms_ok (set_link lnk l C)"
  by (rule set_link_ok)

lemma link_forth:
  assumes idle: "link_idle lnk C" and len: "length d \<le> recv_from_buflen"
  shows "\<exists>C1 C2. mem_send t lnk d (length d) C = (Returned (Inr (int (length d))), C1) \<and>
    recv_from stale t' lnk recv_from_buflen None C1 = (Returned (Inr d), C2) \<and> link_idle lnk C2"
proof -
  let ?l = "link_at lnk C"
  let ?Q = "from_fwd ?l"
  obtain C1 r1 where s: "mem_send t lnk d (length d) C = (r1, C1)" by fastforce
  obtain C2 r2 where r: "recv_from stale t' lnk recv_from_buflen None C1 = (r2, C2)" by fastforce
  have ok: "comms_ok C" "\<not> bad_socket lnk" "link_ok ?l"
    using idle link_at_ok by (auto simp: link_idle_def)
  have ok1: "comms_ok C1" using apply_op_ok [OF ok(1), of stale "Op_send t lnk d (length d)"] s by simp
  have ok2: "comms_ok C2" using apply_op_ok [OF ok1, of stale "Op_recv_from t' lnk recv_from_buflen None"] r by simp
  have Q: "\<not> wclosed ?Q" "wq ?Q = []" "from_fwd_send_hwm ?l < 0" "length d \<le> send_buflen ?Q"
    using idle ok(3) len by (auto simp: link_idle_def link_ok_def)
  note q = send_then_recv [OF Q len] and open_q = send_recv_open [OF Q len]
  have C1: "r1 = fst (queue_send t d (length d) (from_fwd_send_hwm ?l) (from_fwd_send_timeout ?l) ?Q)"
    "link_at lnk C1 = ?l\<lparr>from_fwd := snd (queue_send t d (length d) (from_fwd_send_hwm ?l) (from_fwd_send_timeout ?l) ?Q)\<rparr>"
    using s ok by (auto simp: mem_send_def from_fwd_send_def case_prod_unfold Let_def link_at_set_link)
  have C2: "r2 = fst (queue_recv stale t' recv_from_buflen (to_microseconds None) (from_fwd (link_at lnk C1)))"
    "link_at lnk C2 = (link_at lnk C1)\<lparr>from_fwd := snd (queue_recv stale t' recv_from_buflen (to_microseconds None) (from_fwd (link_at lnk C1)))\<rparr>"
    using r ok ok1 by (auto simp: recv_from_def from_fwd_recv_def case_prod_unfold Let_def link_at_set_link)
  have "link_idle lnk C2"
    using idle ok2 q(3) open_q by (simp add: link_idle_def C2(2) C1(2))
  then show ?thesis using s r C1 C2 q(1,2) by simp
qed

lemma link_back:
  assumes idle: "link_idle lnk C" and len: "length a \<le> send_to_buflen"
  shows "\<exists>C1 C2. send_to t lnk a (length a) (-1) timeout C = (Returned (Inr (int (length a))), C1) \<and>
    mem_recv stale t' lnk (RX_BUFF_SIZE - 1) C1 = (Returned (Inr a), C2) \<and> link_idle lnk C2"
proof -
  let ?l = "link_at lnk C"
  let ?Q = "to_fwd ?l"
  obtain C1 r1 where s: "send_to t lnk a (length a) (-1) timeout C = (r1, C1)" by fastforce
  obtain C2 r2 where r: "mem_recv stale t' lnk (RX_BUFF_SIZE - 1) C1 = (r2, C2)" by fastforce
  have ok: "comms_ok C" "\<not> bad_socket lnk" "link_ok ?l"
    using idle link_at_ok by (auto simp: link_idle_def)
  have ok1: "comms_ok C1" using apply_op_ok [OF ok(1), of stale "Op_send_to t lnk a (length a) (-1) timeout"] s by simp
  have ok2: "comms_ok C2" using apply_op_ok [OF ok1, of stale "Op_recv t' lnk (RX_BUFF_SIZE - 1)"] r by simp
  have Q: "\<not> wclosed ?Q" "wq ?Q = []" "(-1 :: int) < 0" "length a \<le> send_buflen ?Q" "length a \<le> RX_BUFF_SIZE - 1"
    using idle ok(3) len by (auto simp: link_idle_def link_ok_def send_to_buflen_def)
  note q = send_then_recv [OF Q] and open_q = send_recv_open [OF Q]
  have C1: "r1 = fst (queue_send t a (length a) (-1) (to_microseconds timeout) ?Q)"
    "link_at lnk C1 = ?l\<lparr>to_fwd := snd (queue_send t a (length a) (-1) (to_microseconds timeout) ?Q)\<rparr>"
    using s ok by (auto simp: send_to_def to_fwd_send_def case_prod_unfold Let_def link_at_set_link)
  have C2: "r2 = fst (queue_recv stale t' (RX_BUFF_SIZE - 1) (to_fwd_recv_timeout (link_at lnk C1)) (to_fwd (link_at lnk C1)))"
    "link_at lnk C2 = (link_at lnk C1)\<lparr>to_fwd := snd (queue_recv stale t' (RX_BUFF_SIZE - 1) (to_fwd_recv_timeout (link_at lnk C1)) (to_fwd (link_at lnk C1)))\<rparr>"
    using r ok ok1 by (auto simp: mem_recv_def to_fwd_recv_def case_prod_unfold Let_def link_at_set_link)
  have "link_idle lnk C2"
    using idle ok2 q(3) open_q by (simp add: link_idle_def C2(2) C1(2))
  then show ?thesis using s r C1 C2 q(1,2) by simp
qed

text \<open>
  The forwarder sends \<open>d\<close> on an idle link, \<open>util_ack\<close> receives it and sends its answer, and the forwarder
  receives that answer; the link is idle again.
\<close>

lemma ack_crosses_link:
  assumes "link_idle lnk C" and "length d \<le> recv_from_buflen" and "ack_reply lnk d = Some a"
  obtains C1 C2 C3 C4 where "mem_send t lnk d (length d) C = (Returned (Inr (int (length d))), C1)"
    and "recv_from stale t lnk recv_from_buflen None C1 = (Returned (Inr d), C2)"
    and "send_to t lnk a (length a) (-1) None C2 = (Returned (Inr (int (length a))), C3)"
    and "mem_recv stale t lnk (RX_BUFF_SIZE - 1) C3 = (Returned (Inr a), C4)" and "link_idle lnk C4"
proof -
  obtain C1 C2 where f: "mem_send t lnk d (length d) C = (Returned (Inr (int (length d))), C1)"
      "recv_from stale t lnk recv_from_buflen None C1 = (Returned (Inr d), C2)" "link_idle lnk C2"
    using link_forth [OF assms(1,2)] by blast
  have "length a \<le> send_to_buflen"
    using assms(3) by (auto simp: ack_reply_def send_to_buflen_def RX_BUFF_SIZE_def split: if_splits)
  then obtain C3 C4 where "send_to t lnk a (length a) (-1) None C2 = (Returned (Inr (int (length a))), C3)"
      "mem_recv stale t lnk (RX_BUFF_SIZE - 1) C3 = (Returned (Inr a), C4)" "link_idle lnk C4"
    using link_back [OF f(3)] by blast
  then show ?thesis using f that by blast
qed

section \<open>The forwarder and the server\<close>

lemma pull_data_reply: "ack_reply downlink (pull_data lgwm tok) = Some [PROTOCOL_VERSION, fst tok, snd tok, PKT_PULL_ACK]"
  by (simp add: ack_reply_def pull_data_def net_mac_h_def net_mac_l_def protocol_consts uplink_def downlink_def)

text \<open>The PULL_DATA crosses the link and its answer comes back.\<close>

lemma pull_data_crosses_link:
  assumes "link_idle downlink C"
  obtains a C1 C2 C3 C4 where "mem_send t downlink (pull_data lgwm tok) (length (pull_data lgwm tok)) C =
      (Returned (Inr (int (length (pull_data lgwm tok)))), C1)"
    and "recv_from stale t downlink recv_from_buflen None C1 = (Returned (Inr (pull_data lgwm tok)), C2)"
    and "ack_reply downlink (pull_data lgwm tok) = Some a"
    and "send_to t downlink a (length a) (-1) None C2 = (Returned (Inr (int (length a))), C3)"
    and "mem_recv stale t downlink (RX_BUFF_SIZE - 1) C3 = (Returned (Inr a), C4)" and "link_idle downlink C4"
proof -
  have "length (pull_data lgwm tok) \<le> recv_from_buflen"
    by (simp add: pull_data_def net_mac_h_def net_mac_l_def recv_from_buflen_def TX_BUFF_SIZE_def NB_PKT_MAX_def STATUS_SIZE_def)
  from ack_crosses_link [OF assms this pull_data_reply] show ?thesis
    using that pull_data_reply by metis
qed

text \<open>The same for PUSH_DATA: the answer of \<open>util_ack\<close> is the acknowledgement \<open>thread_up\<close> waits for.\<close>

lemma push_data_reply:
  assumes "ack_reply uplink (push_header lgwm tok @ json) = Some a"
  shows "wait_push_ack 2 tok [Inr a] m = m\<lparr>meas_up_ack_rcv := meas_up_ack_rcv m + 1\<rparr>"
proof -
  have "a = [PROTOCOL_VERSION, fst tok, snd tok, PKT_PUSH_ACK]"
    using assms by (simp add: ack_reply_def push_header_def net_mac_h_def net_mac_l_def protocol_consts)
  then show ?thesis by (simp add: is_push_ack_def protocol_consts numeral_2_eq_2)
qed














text \<open>With a keep-alive interval of 0 nothing is read, and the first unanswered request is the last.\<close>

lemma keepalive_zero_reads_nothing:
  assumes "within_keepalive (de_keepalive E) (dp_send_time p) (dp_send_time p) = Inr False"
  shows "down_listen E (dp_send_time p) (dp_send_time p) (dp_inputs p) s = Inr (Some ([], s, True))"
  using assms by (cases "dp_inputs p") simp_all

end
