(* ===== verification/Tx_Test.thy ===== *)
theory Tx_Test
  imports Thread_Down Comms Printf
begin

unbundle bit_operations_syntax

text \<open>
  \<open>util_tx_test.c\<close>: the test program that plays the network server. It waits for the PULL_DATA of the gateway,
  acknowledges it and sends PULL_RESP requests to emit numbered packets, each after the TX_ACK of the one before.
  The command line is given as \<open>getopt\<close> splits it, the argument of an option as \<open>sscanf\<close> reads it (\<open>None\<close>: nothing converted). What
  \<open>recv_from\<close>, \<open>send_to\<close> and \<open>rand\<close> answer is an input; the signal handler and all messages are left out.
\<close>

section \<open>Options\<close>

record test_conf =
  tt_mod :: bytes
  tt_f_target :: dbl  \<comment> \<open>\<open>float\<close>\<close>
  tt_sf :: int
  tt_bw :: int
  tt_pow :: int
  tt_delay :: int
  tt_repeat :: int
  tt_invert :: bool
  tt_br_kbps :: dbl  \<comment> \<open>\<open>float\<close>\<close>
  tt_fdev_khz :: u8
  tt_payload_size :: int
  tt_id :: u8
  tt_cfg_dir :: bytes

definition test_default :: test_conf where
  "test_default = \<lparr>tt_mod = lit ''LORA'', tt_f_target = Fin 866, tt_sf = 10, tt_bw = 125, tt_pow = 14, tt_delay = 1000,
     tt_repeat = 1, tt_invert = False, tt_br_kbps = Fin 50, tt_fdev_khz = 25, tt_payload_size = 9, tt_id = 0, tt_cfg_dir = []\<rparr>"

datatype test_option =
  Opt_h
| Opt_c bytes
| Opt_f "dbl option"
| Opt_m "bytes option"
| Opt_s "int option"
| Opt_b "int option"
| Opt_d "u32 option"
| Opt_r "dbl option"
| Opt_p "int option"
| Opt_z "int option"
| Opt_t "int option"
| Opt_x "u32 option"
| Opt_v "u32 option"
| Opt_i
| Opt_unknown

text \<open>Comparisons with a constant, false for NaN.\<close>

definition dbl_below :: "dbl \<Rightarrow> rat \<Rightarrow> bool" where
  "dbl_below d c = (case d of Fin x \<Rightarrow> x < c | Infinity neg \<Rightarrow> neg | NaN \<Rightarrow> False)"

definition dbl_above :: "dbl \<Rightarrow> rat \<Rightarrow> bool" where
  "dbl_above d c = (case d of Fin x \<Rightarrow> c < x | Infinity neg \<Rightarrow> \<not> neg | NaN \<Rightarrow> False)"

definition accept :: "'a option \<Rightarrow> ('a \<Rightarrow> bool) \<Rightarrow> ('a \<Rightarrow> test_conf) \<Rightarrow> test_conf option res" where
  "accept arg bad store = (case arg of None \<Rightarrow> Inr None | Some x \<Rightarrow> Inr (if bad x then None else Some (store x)))"

text \<open>
  One turn of the \<open>switch\<close>; \<open>None\<close>: the program returns \<open>EXIT_FAILURE\<close>. \<open>sscanf (optarg, "%s", arg_s)\<close> has no limit, so a word of 64
  characters or more is written past \<open>arg_s\<close>.
\<close>

definition test_option :: "test_option \<Rightarrow> test_conf \<Rightarrow> test_conf option res" where
  "test_option opt a =
     (case opt of
        Opt_h \<Rightarrow> Inr None
      | Opt_c arg \<Rightarrow> Inr (Some (a\<lparr>tt_cfg_dir := take 1024 arg\<rparr>))
      | Opt_f arg \<Rightarrow> accept arg (\<lambda>x. dbl_below x 30 \<or> dbl_above x 3000) (\<lambda>x. a\<lparr>tt_f_target := x\<rparr>)
      | Opt_m arg \<Rightarrow>
          (case arg of
             None \<Rightarrow> Inr None
           | Some w \<Rightarrow> if 64 \<le> length w then Inl OutOfBounds
                       else accept arg (\<lambda>w. w \<noteq> lit ''LORA'' \<and> w \<noteq> lit ''FSK'') (\<lambda>w. a\<lparr>tt_mod := w\<rparr>))
      | Opt_s arg \<Rightarrow> accept arg (\<lambda>x. x < 7 \<or> 12 < x) (\<lambda>x. a\<lparr>tt_sf := x\<rparr>)
      | Opt_b arg \<Rightarrow> accept arg (\<lambda>x. x \<noteq> 125 \<and> x \<noteq> 250 \<and> x \<noteq> 500) (\<lambda>x. a\<lparr>tt_bw := x\<rparr>)
      | Opt_d arg \<Rightarrow> accept arg (\<lambda>x. x < 1 \<or> 250 < x) (\<lambda>x. a\<lparr>tt_fdev_khz := ucast x\<rparr>)
      | Opt_r arg \<Rightarrow> accept arg (\<lambda>x. dbl_below x (1 / 2) \<or> dbl_above x 250) (\<lambda>x. a\<lparr>tt_br_kbps := x\<rparr>)
      | Opt_p arg \<Rightarrow> accept arg (\<lambda>x. x < 0 \<or> 30 < x) (\<lambda>x. a\<lparr>tt_pow := x\<rparr>)
      | Opt_z arg \<Rightarrow> accept arg (\<lambda>x. x < 9 \<or> 255 < x) (\<lambda>x. a\<lparr>tt_payload_size := x\<rparr>)
      | Opt_t arg \<Rightarrow> accept arg (\<lambda>x. x < 0) (\<lambda>x. a\<lparr>tt_delay := x\<rparr>)
      | Opt_x arg \<Rightarrow> accept arg (\<lambda>x. sint x < 1) (\<lambda>x. a\<lparr>tt_repeat := sint x\<rparr>)
      | Opt_v arg \<Rightarrow> accept arg (\<lambda>x. x < 1 \<and> 255 < x) (\<lambda>x. a\<lparr>tt_id := ucast x\<rparr>)
      | Opt_i \<Rightarrow> Inr (Some (a\<lparr>tt_invert := True\<rparr>))
      | Opt_unknown \<Rightarrow> Inr None)"

fun test_options :: "test_option list \<Rightarrow> test_conf \<Rightarrow> test_conf option res" where
  "test_options [] a = Inr (Some a)"
| "test_options (opt # opts) a =
     bindr (test_option opt a) (\<lambda>r. case r of None \<Rightarrow> Inr None | Some a \<Rightarrow> test_options opts a)"

section \<open>The request\<close>

text \<open>The arrays of \<open>main\<close> and its two indices.\<close>

record test_buf =
  tb_databuf :: bytes
  tb_payload_bin :: bytes
  tb_payload_b64 :: bytes
  tb_buff_index :: nat
  tb_payload_index :: nat

type_synonym text_buf = "bytes \<times> nat"

text \<open>\<open>None\<close>: \<open>return wait_for_fwd (thrid_fwd)\<close>.\<close>

definition and_then :: "'a option res \<Rightarrow> ('a \<Rightarrow> 'b option res) \<Rightarrow> 'b option res" where
  "and_then m f = bindr m (\<lambda>r. case r of None \<Rightarrow> Inr None | Some x \<Rightarrow> f x)"

definition add_text :: "string \<Rightarrow> text_buf \<Rightarrow> text_buf option res" where
  "add_text s b = bindr (put_bytes (fst b) (snd b) (lit s)) (\<lambda>b. Inr (Some b))"

text \<open>\<open>i = snprintf (databuf + buff_index, n, ...)\<close>, refused when the text is cut.\<close>

definition add_format :: "nat \<Rightarrow> string \<Rightarrow> text_buf \<Rightarrow> text_buf option res" where
  "add_format n s b =
     bindr (memcpy (fst b) (snd b) (take (n - 1) (lit s) @ [0])) (\<lambda>buf.
     Inr (if length s < n then Some (buf, snd b + length s) else None))"

definition test_modulation :: "test_conf \<Rightarrow> text_buf \<Rightarrow> text_buf option res" where
  "test_modulation a b =
     (if tt_mod a = lit ''FSK'' then
        bindr (dbl_to_u32 (dbl_mul (tt_br_kbps a) 1000)) (\<lambda>datr.
        bindr (dbl_to_u32 (dbl_mul (Fin (of_int (uint (tt_fdev_khz a)))) 1000)) (\<lambda>fdev.
        add_format 50 ('',\"modu\":\"FSK\",\"datr\":'' @ dec (uint datr) @ '',\"fdev\":'' @ dec (uint fdev)) b))
      else
        add_format 50 ('',\"modu\":\"LORA\",\"datr\":\"SF'' @ fmt_i 0 (tt_sf a) @ ''BW'' @ fmt_i 0 (tt_bw a) @
          ''\",\"codr\":\"4/6\"'') b)"

definition test_fields :: "test_conf \<Rightarrow> text_buf \<Rightarrow> text_buf option res" where
  "test_fields a b =
     and_then (add_text ''{\"txpk\":{\"imme\":true'' b) (\<lambda>b.
     and_then (add_format 20 ('',\"freq\":'' @ fmt_f 6 (tt_f_target a)) b) (\<lambda>b.
     and_then (add_text '',\"rfch\":0'' b) (\<lambda>b.
     and_then (add_format 12 ('',\"powe\":'' @ fmt_i 0 (tt_pow a)) b) (\<lambda>b.
     and_then (test_modulation a b) (\<lambda>b.
     and_then (add_text (if tt_invert a then '',\"ipol\":true'' else '',\"ipol\":false'') b) (\<lambda>b.
     and_then (if tt_mod a = lit ''LORA'' then add_text '',\"prea\":8'' b else Inr (Some b)) (\<lambda>b.
     and_then (add_format 12 ('',\"size\":'' @ fmt_i 0 (tt_payload_size a)) b)
       (add_text '',\"data\":\"''))))))))"

text \<open>
  The request, with room for the payload. The conversion of the payload, not yet written, only tells the length.
  \<open>databuf\<close> still holds the datagram received.
\<close>

definition test_request :: "test_conf \<Rightarrow> test_buf \<Rightarrow> test_buf option res" where
  "test_request a s =
     bindr (memcpy (tb_databuf s) 0 [PROTOCOL_VERSION, 0, 0, PKT_PULL_RESP]) (\<lambda>databuf.
     and_then (test_fields a (databuf, 4)) (\<lambda>(databuf, payload_index).
     bindr (bin_to_b64 (Some (tb_payload_bin s)) (tt_payload_size a) (Some (tb_payload_b64 s)) 341) (\<lambda>(x, out).
     if x < 0 then Inr None
     else
       and_then (add_text ''\"}}'' (databuf, payload_index + nat x)) (\<lambda>(databuf, buff_index).
       Inr (Some (s\<lparr>tb_databuf := databuf, tb_payload_b64 := (case out of None \<Rightarrow> [] | Some txt \<Rightarrow> txt),
                    tb_buff_index := buff_index, tb_payload_index := payload_index\<rparr>))))))"

section \<open>One packet\<close>

definition per_payload :: "test_conf \<Rightarrow> int \<Rightarrow> bytes" where
  "per_payload a i =
     (let head = [tt_id a, word_of_int (drop_bit 24 i), word_of_int (drop_bit 16 i), word_of_int (drop_bit 8 i),
                  word_of_int i, asc CHR ''P'', asc CHR ''E'', asc CHR ''R''] in
      head @ [sum_list head] @ map of_nat [0..<nat (tt_payload_size a - 9)])"

text \<open>The datagram of packet \<open>i\<close> with its random token.\<close>

definition test_packet :: "test_conf \<Rightarrow> int \<Rightarrow> u8 \<times> u8 \<Rightarrow> test_buf \<Rightarrow> (bytes \<times> test_buf) option res" where
  "test_packet a i tok s =
     bindr (memcpy (tb_payload_bin s) 0 (per_payload a i)) (\<lambda>payload_bin.
     bindr (bin_to_b64 (Some payload_bin) (tt_payload_size a) (Some (tb_payload_b64 s)) 341) (\<lambda>(x, out).
     let payload_b64 = (case out of None \<Rightarrow> [] | Some txt \<Rightarrow> txt) in
     if x < 0 then Inr None
     else
       bindr (memcpy (tb_databuf s) (tb_payload_index s) (take (nat x) payload_b64)) (\<lambda>databuf.
       bindr (st databuf 1 (fst tok)) (\<lambda>databuf.
       bindr (st databuf 2 (snd tok)) (\<lambda>databuf.
       Inr (Some (take (tb_buff_index s) databuf,
              s\<lparr>tb_databuf := databuf, tb_payload_bin := payload_bin, tb_payload_b64 := payload_b64\<rparr>)))))))"

section \<open>Waiting\<close>

datatype 'a waited = Waiting | Closed | Arrived 'a

text \<open>The two loops around \<open>recv_from\<close>, which only \<open>EBADF\<close> or an expected datagram ends; \<open>Waiting\<close>: nothing more arrives.\<close>

fun wait_for :: "(bytes \<Rightarrow> bool) \<Rightarrow> (errno + bytes) list \<Rightarrow> bytes waited" where
  "wait_for expected [] = Waiting"
| "wait_for expected (Inl e # rs) = (if e = EBADF then Closed else wait_for expected rs)"
| "wait_for expected (Inr d # rs) = (if expected d then Arrived d else wait_for expected rs)"

definition is_pull_data :: "bytes \<Rightarrow> bool" where
  "is_pull_data d \<longleftrightarrow> \<not> (length d < 12 \<or> d ! 0 \<noteq> PROTOCOL_VERSION \<or> d ! 3 \<noteq> PKT_PULL_DATA)"

definition is_tx_ack :: "u8 \<times> u8 \<Rightarrow> bytes \<Rightarrow> bool" where
  "is_tx_ack tok d \<longleftrightarrow>
     \<not> (length d < 12 \<or> d ! 0 \<noteq> PROTOCOL_VERSION \<or> d ! 3 \<noteq> PKT_TX_ACK) \<and> \<not> (d ! 1 \<noteq> fst tok \<or> d ! 2 \<noteq> snd tok)"

section \<open>The program\<close>

datatype test_end =
  Test_refused  \<comment> \<open>the command line, or the forwarder's thread\<close>
| Test_waiting
| Test_closed  \<comment> \<open>\<open>return wait_for_fwd (thrid_fwd)\<close> before the end\<close>
| Test_done

text \<open>
  The loop over the packets: each round has its token, what \<open>send_to\<close> returns and what \<open>recv_from\<close> returns. The datagrams
  handed to \<open>send_to\<close> and how it ends. \<open>delay * 1000\<close> is an \<open>int\<close>.
\<close>

fun test_loop ::
    "test_conf \<Rightarrow> int \<Rightarrow> ((u8 \<times> u8) \<times> (errno + int) \<times> (errno + bytes) list) list \<Rightarrow> test_buf \<Rightarrow> (bytes list \<times> test_end) res" where
  "test_loop a i [] s = Inr ([], if i < tt_repeat a then Test_waiting else Test_done)"
| "test_loop a i ((tok, sent, answers) # rounds) s =
     (if \<not> i < tt_repeat a then Inr ([], Test_done)
      else
        bindr (test_packet a i tok s) (\<lambda>r.
        case r of
          None \<Rightarrow> Inr ([], Test_closed)
        | Some (d, s) \<Rightarrow>
            if sent = Inl EBADF then Inr ([d], Test_closed)
            else
              (case wait_for (is_tx_ack tok) answers of
                 Waiting \<Rightarrow> Inr ([d], Test_waiting)
               | Closed \<Rightarrow> Inr ([d], Test_closed)
               | Arrived _ \<Rightarrow>
                   if 2 ^ 31 \<le> tt_delay a * 1000 then Inl SignedOverflow
                   else bindr (test_loop a (i + 1) rounds s) (\<lambda>(ds, e). Inr (d # ds, e)))))"

text \<open>What the program meets: is the thread created, what arrives first, what the first \<open>send_to\<close> returns, then the rounds.\<close>

record test_env =
  te_thread_ok :: bool
  te_requests :: "(errno + bytes) list"
  te_ack_sent :: "errno + int"
  te_rounds :: "((u8 \<times> u8) \<times> (errno + int) \<times> (errno + bytes) list) list"

definition test_main :: "test_option list \<Rightarrow> test_env \<Rightarrow> test_buf \<Rightarrow> (bytes list \<times> test_end) res" where
  "test_main opts E s =
     bindr (test_options opts test_default) (\<lambda>r.
     case r of
       None \<Rightarrow> Inr ([], Test_refused)
     | Some a \<Rightarrow>
         if \<not> te_thread_ok E then Inr ([], Test_refused)
         else
           (case wait_for is_pull_data (te_requests E) of
              Waiting \<Rightarrow> Inr ([], Test_waiting)
            | Closed \<Rightarrow> Inr ([], Test_closed)
            | Arrived req \<Rightarrow>
                bindr (memcpy (tb_databuf s) 0 req) (\<lambda>databuf.
                bindr (st databuf 3 PKT_PULL_ACK) (\<lambda>databuf.
                let ack = take 4 databuf in
                if te_ack_sent E = Inl EBADF then Inr ([ack], Test_closed)
                else
                  bindr (test_request a (s\<lparr>tb_databuf := databuf\<rparr>)) (\<lambda>r.
                  case r of
                    None \<Rightarrow> Inr ([ack], Test_closed)
                  | Some s \<Rightarrow> bindr (test_loop a 0 (te_rounds E) s) (\<lambda>(ds, e). Inr (ack # ds, e)))))))"

end
