(* ===== verification/Tx_Test_Text.thy ===== *)
theory Tx_Test_Text
  imports Tx_Test Json_Roundtrip Downlink_Correct
begin

text \<open>
  Texts that other programs than the serialiser write: strings without escapes, decimal fractions, and texts from which the parser
  removes no comment although they have slashes inside strings, as Base64 does.
\<close>

section \<open>Strings without escapes\<close>

definition raw_char :: "u8 \<Rightarrow> bool" where
  "raw_char c \<longleftrightarrow> 32 \<le> c \<and> c \<noteq> 34 \<and> c \<noteq> 92"

definition in_quotes :: "bytes \<Rightarrow> bytes" where
  "in_quotes s = [34] @ s @ [34]"

lemma skip_to_quote_raw: "list_all raw_char s \<Longrightarrow> skip_to_quote (s @ 34 # rest) = rest"
  by (induction s) (auto simp: raw_char_def asc_numerals)

lemma process_chars_raw: "list_all raw_char s \<Longrightarrow> process_chars (s @ 34 # rest) (length s) = Some s"
proof (induction s)
  case (Cons c s)
  then show ?case
    using process_chars_plain [of c "s @ 34 # rest" "length s"] by (simp add: raw_char_def not_less)
qed (simp add: process_chars.simps)

lemma raw_no_nul: "list_all raw_char s \<Longrightarrow> takeWhile (\<lambda>c. c \<noteq> 0) s = s"
  by (induction s) (auto simp: raw_char_def)

lemma get_raw_string:
  assumes "list_all raw_char s" and "rest \<noteq> []"
  shows "get_quoted_string (in_quotes s @ rest) = (Some s, rest)"
  using assms
  by (simp add: get_quoted_string_def in_quotes_def skip_quotes_def skip_to_quote_raw process_string_def process_chars_raw raw_no_nul)

lemma parses_raw: "0 < d \<Longrightarrow> list_all raw_char s \<Longrightarrow> parses d (in_quotes s) (JSONString s)"
  by (rule parsesI)
    (simp_all add: in_quotes_def isspace_def skip_whitespaces_def asc_numerals cur_def MAX_NESTING_def parse_string_value_def
      get_raw_string [unfolded in_quotes_def, simplified])

lemma quoted_raw: "list_all raw_char s \<Longrightarrow> 47 \<notin> set s \<Longrightarrow> quoted s = in_quotes s"
proof -
  assume "list_all raw_char s" "47 \<notin> set s"
  then have "concat (map escape_char s) = s"
    by (induction s) (auto simp: escape_char_def raw_char_def)
  then show ?thesis by (simp add: quoted_def in_quotes_def)
qed

section \<open>Decimal fractions\<close>

lemma digits_no_prefix:
  assumes "list_all isdigit ds" and "ds \<noteq> []"
  shows "\<not> is_prefix_nocase (lit ''infinity'') (ds @ 46 # rest)" "\<not> is_prefix_nocase (lit ''inf'') (ds @ 46 # rest)"
    "\<not> is_prefix_nocase (lit ''nan'') (ds @ 46 # rest)" "\<not> is_prefix_nocase (lit ''0x'') (ds @ 46 # rest)"
proof -
  obtain c cs where ds: "ds = c # cs" using assms(2) by (cases ds) auto
  then have c: "isdigit c" using assms(1) by simp
  then have "lower c \<noteq> 105" "lower c \<noteq> 110" by (auto simp: digit_lower isdigit_def)
  then show "\<not> is_prefix_nocase (lit ''infinity'') (ds @ 46 # rest)" "\<not> is_prefix_nocase (lit ''inf'') (ds @ 46 # rest)"
    "\<not> is_prefix_nocase (lit ''nan'') (ds @ 46 # rest)"
    by (simp_all add: is_prefix_nocase_def ds lit_def)
  have "lower d \<noteq> 120" if "cs @ 46 # rest = d # r" for d r
    using that assms(1) ds by (cases cs) (auto simp: lower_def isdigit_def)
  then show "\<not> is_prefix_nocase (lit ''0x'') (ds @ 46 # rest)"
    by (cases "cs @ 46 # rest") (auto simp: is_prefix_nocase_def ds lit_def)
qed

lemma strtod_fraction:
  assumes ds: "list_all isdigit ds" "ds \<noteq> []" and fs: "list_all isdigit fs" and stop: "number_stop (cur rest)"
  shows "strtod_unsigned (ds @ 46 # fs @ rest) =
    (round_dbl (of_int (digit_value (ds @ fs)) * 10 powi (- int (length fs))), length ds + 1 + length fs)"
proof -
  have e: "scan_exponent rest = (0, 0)"
    using stop by (simp add: scan_exponent_def number_stop_def asc_numerals)
  have "takeWhile isdigit (ds @ 46 # fs @ rest) = ds"
    using ds(1) by (simp add: takeWhile_append2 list_all_iff isdigit_def)
  then show ?thesis
    using digits_no_prefix [OF ds, of "fs @ rest"] e ds digits_end [OF fs stop]
    by (simp add: strtod_unsigned_def Let_def cur_def asc_numerals)
qed

lemma is_decimal_digit:
  assumes "c \<noteq> 48" and "c \<noteq> 45" and "\<And>b. b \<in> set (c # t) \<Longrightarrow> b \<noteq> 120 \<and> b \<noteq> 88"
  shows "is_decimal ((c # t) @ rest) (length (c # t))"
proof -
  have "char_at ((c # t) @ rest) 0 = c" by (simp add: char_at_def cur_def)
  moreover have "\<not> is_prefix (lit ''-0'') ((c # t) @ rest)"
    using assms(2) by (simp add: is_prefix_def lit_minus_zero)
  moreover have "take (length (c # t)) ((c # t) @ rest) = c # t" by simp
  ultimately show ?thesis
    using assms(1,3) unfolding is_decimal_def asc_numerals by auto
qed

lemma parses_fraction:
  assumes n: "0 < n" and len: "6 < length (Printf.dec n)" and "0 < d"
  shows "parses d (lit (point 6 (Printf.dec n))) (JSONNumber (round_dbl (of_int n / 1000000)))"
proof -
  define k where "k = length (Printf.dec n) - 6"
  define ds fs where "ds = take k (lit (Printf.dec n))" and "fs = drop k (lit (Printf.dec n))"
  have dig: "list_all isdigit (lit (Printf.dec n))" using n by (intro lit_dec_digits) simp
  have t: "lit (point 6 (Printf.dec n)) = ds @ 46 # fs"
    by (simp add: point_def ds_def fs_def k_def lit_def take_map drop_map)
  have l: "length ds = k" "length fs = 6" "0 < k" using len by (simp_all add: ds_def fs_def k_def)
  have app: "ds @ fs = lit (Printf.dec n)" by (simp add: ds_def fs_def)
  have d: "list_all isdigit ds" "list_all isdigit fs" "ds \<noteq> []"
    using dig [folded app] l by auto
  obtain c cs where ds: "ds = c # cs" using d(3) by (cases ds) auto
  have c: "isdigit c" "c \<noteq> 48"
    using d(1) dec_first [OF n, folded app] by (simp_all add: ds)
  have v: "round_dbl (of_int (digit_value (ds @ fs)) * 10 powi (- int (length fs))) = round_dbl (of_int n / 1000000)"
  proof -
    have "digit_value (ds @ fs) = n" unfolding app using n by (intro digit_value_dec) simp
    moreover have "10 powi (- int 6) = (1 / 1000000 :: rat)" by (simp add: power_int_minus)
    ultimately show ?thesis unfolding l(2) by simp
  qed
  show ?thesis
    unfolding t
  proof (rule parsesI)
    show "\<not> isspace (hd (ds @ 46 # fs))" using c by (auto simp: ds isdigit_def isspace_def word_le_def)
    fix m rest fuel
    assume a: "m + d \<le> Suc MAX_NESTING" "number_stop (cur rest)"
    have "cur ((ds @ 46 # fs) @ rest) \<noteq> 45" using c by (auto simp: cur_def isdigit_def ds)
    then have s: "strtod ((ds @ 46 # fs) @ rest) = (round_dbl (of_int n / 1000000), length (ds @ 46 # fs))"
      using strtod_fraction [OF d(1,3,2) a(2)] v by (simp add: strtod_def asc_numerals)
    have x: "b \<noteq> 120 \<and> b \<noteq> 88" if "b \<in> set (c # cs @ 46 # fs)" for b
      using that d(1,2) unfolding ds by (auto simp: list_all_iff isdigit_def)
    have "c \<noteq> 45" using c by (auto simp: isdigit_def)
    then have dec: "is_decimal ((ds @ 46 # fs) @ rest) (length (ds @ 46 # fs))"
      using is_decimal_digit [of c "cs @ 46 # fs" rest] c(2) x by (simp add: ds)
    show "parse_value (Suc fuel) ((ds @ 46 # fs) @ rest) m = Some (Some (JSONNumber (round_dbl (of_int n / 1000000)), rest))"
      by (rule parse_number [OF s dec]) (use c a(1) assms(3) in \<open>auto simp: ds\<close>)
  qed simp
qed

section \<open>No comments\<close>

definition comment_token :: "bytes \<Rightarrow> bool" where
  "comment_token tok \<longleftrightarrow> tok = lit ''/*'' \<or> tok = lit ''//''"

definition no_comment :: "bytes \<Rightarrow> bool" where
  "no_comment t \<longleftrightarrow>
     (\<forall>tok en rest. comment_token tok \<longrightarrow>
        remove_comments_from tok en False False (t @ rest) = t @ remove_comments_from tok en False False rest)"

lemma no_comment_append: "no_comment s \<Longrightarrow> no_comment t \<Longrightarrow> no_comment (s @ t)"
  by (simp add: no_comment_def)

lemma no_comment_char: "c \<noteq> 92 \<Longrightarrow> c \<noteq> 34 \<Longrightarrow> c \<noteq> 47 \<Longrightarrow> no_comment [c]"
  by (auto simp: no_comment_def comment_token_def asc_numerals is_prefix_def lit_def)

lemma no_comment_plain: "list_all (\<lambda>c. c \<noteq> 92 \<and> c \<noteq> 34 \<and> c \<noteq> 47) t \<Longrightarrow> no_comment t"
proof (induction t)
  case (Cons c t)
  then show ?case using no_comment_append [of "[c]" t] no_comment_char [of c] by simp
qed (simp add: no_comment_def)

lemma comments_in_string:
  "list_all raw_char s \<Longrightarrow>
   remove_comments_from tok en True False (s @ 34 # rest) = s @ 34 # remove_comments_from tok en False False rest"
  by (induction s) (auto simp: raw_char_def asc_numerals)

lemma no_comment_quotes: "list_all raw_char s \<Longrightarrow> no_comment (in_quotes s)"
  by (auto simp: no_comment_def in_quotes_def asc_numerals comments_in_string)

lemma remove_no_comment:
  assumes "no_comment t"
  shows "remove_comments (remove_comments t ''/*'' ''*/'') ''//'' [CHR 0x0A] = t"
proof -
  have "remove_comments_from tok en False False t = t" if "comment_token tok" for tok en
    using assms [unfolded no_comment_def] that by (elim allE [of _ tok] allE [of _ en] allE [of _ "[]"]) simp
  then show ?thesis by (simp add: remove_comments_def comment_token_def)
qed

text \<open>A text that starts with a brace, is free of comments and is that of a value.\<close>

lemma parse_with_comments:
  assumes "parses 20 t v" and "no_comment t" and "hd t = 123"
  shows "json_parse_string_with_comments t = Some (Some v)"
proof -
  have "skip_whitespaces t = t" using parses_skip [OF assms(1), of "[]"] by simp
  moreover have "t \<noteq> []" using assms(1) by (simp add: parses_def)
  ultimately show ?thesis
    using parses_whole [OF assms(1)] assms(3)
    unfolding json_parse_string_with_comments_def remove_no_comment [OF assms(2)] Let_def
    by (cases t) (simp_all add: cur_def asc_numerals del: parse_value.simps)
qed

end
