(* ===== verification/Tx_Test_Correct.thy ===== *)
theory Tx_Test_Correct
  imports Tx_Test_Text
begin

unbundle bit_operations_syntax

text \<open>
  The test program and the forwarder agree: every datagram \<open>util_tx_test\<close> sends is a PULL_RESP that the forwarder reads as exactly the
  packet the command line asks for, and the answer of the forwarder is the one the program waits for.
\<close>

section \<open>Accepted options\<close>

definition conf_ok :: "test_conf \<Rightarrow> bool" where
  "conf_ok a \<longleftrightarrow> (tt_mod a = lit ''LORA'' \<or> tt_mod a = lit ''FSK'') \<and>
     \<not> dbl_below (tt_f_target a) 30 \<and> \<not> dbl_above (tt_f_target a) 3000 \<and>
     7 \<le> tt_sf a \<and> tt_sf a \<le> 12 \<and> tt_bw a \<in> {125, 250, 500} \<and>
     1 \<le> uint (tt_fdev_khz a) \<and> uint (tt_fdev_khz a) \<le> 250 \<and>
     \<not> dbl_below (tt_br_kbps a) (1 / 2) \<and> \<not> dbl_above (tt_br_kbps a) 250 \<and>
     0 \<le> tt_pow a \<and> tt_pow a \<le> 30 \<and> 9 \<le> tt_payload_size a \<and> tt_payload_size a \<le> 255 \<and>
     0 \<le> tt_delay a \<and> 1 \<le> tt_repeat a \<and> tt_repeat a < 2 ^ 31 \<and> length (tt_cfg_dir a) \<le> 1024"

lemma conf_ok_default: "conf_ok test_default"
  by (simp add: conf_ok_def test_default_def dbl_below_def dbl_above_def)

lemma accept_iff: "accept arg bad store = Inr (Some a) \<longleftrightarrow> (\<exists>x. arg = Some x \<and> \<not> bad x \<and> a = store x)"
  by (auto simp: accept_def split: option.splits)

lemma fdev_fits:
  fixes x :: u32
  assumes "\<not> (x < 1 \<or> 250 < x)"
  shows "1 \<le> uint (ucast x :: u8)" and "uint (ucast x :: u8) \<le> 250"
proof -
  have x: "1 \<le> uint x" "uint x \<le> 250" using assms unfolding de_Morgan_disj not_less word_le_def by simp_all
  then have "uint (ucast x :: u8) = uint x" by (simp add: unsigned_ucast_eq take_bit_int_eq_self)
  then show "1 \<le> uint (ucast x :: u8)" "uint (ucast x :: u8) \<le> 250" using x by simp_all
qed

lemma test_option_ok:
  assumes "test_option opt a = Inr (Some a')" and "conf_ok a"
  shows "conf_ok a'"
proof (cases opt)
  case (Opt_m arg)
  then obtain w where "arg = Some w" "w = lit ''LORA'' \<or> w = lit ''FSK''" "a' = a\<lparr>tt_mod := w\<rparr>"
    using assms(1) by (auto simp: test_option_def accept_iff split: option.splits if_splits)
  then show ?thesis using assms(2) by (simp add: conf_ok_def)
next
  case (Opt_d arg)
  then have "accept arg (\<lambda>x. x < 1 \<or> 250 < x) (\<lambda>x. a\<lparr>tt_fdev_khz := ucast x\<rparr>) = Inr (Some a')"
    using assms(1) by (simp add: test_option_def)
  then obtain x :: u32 where "\<not> (x < 1 \<or> 250 < x)" "a' = a\<lparr>tt_fdev_khz := ucast x\<rparr>"
    unfolding accept_iff by blast
  moreover from this(1) have "1 \<le> uint (ucast x :: u8)" "uint (ucast x :: u8) \<le> 250" by (rule fdev_fits)+
  ultimately show ?thesis using assms(2) by (simp add: conf_ok_def)
next
  case (Opt_x arg)
  then obtain x :: u32 where "\<not> sint x < 1" "a' = a\<lparr>tt_repeat := sint x\<rparr>"
    using assms(1) by (auto simp: test_option_def accept_iff)
  moreover have "sint x < 2 ^ 31" using sint_lt [of x] by simp
  ultimately show ?thesis using assms(2) by (simp add: conf_ok_def)
qed (use assms in \<open>clarsimp simp: test_option_def accept_iff conf_ok_def not_less\<close>)+

lemma test_options_ok: "test_options opts a = Inr (Some a') \<Longrightarrow> conf_ok a \<Longrightarrow> conf_ok a'"
  by (induction opts arbitrary: a) (auto simp: bindr_eq_Inr_iff split: option.splits intro: test_option_ok)

section \<open>Writing the request\<close>

text \<open>The step appends a text, and leaves the size of the array and what is before it.\<close>

definition appends :: "bytes \<Rightarrow> (text_buf \<Rightarrow> text_buf option res) \<Rightarrow> bool" where
  "appends s f \<longleftrightarrow>
     (\<forall>out rest. length s < length rest \<longrightarrow>
        (\<exists>rest'. f (out @ rest, length out) = Inr (Some (out @ s @ rest', length out + length s)) \<and>
           length rest' = length rest - length s))"

lemma appends_text: "appends (lit s) (add_text s)"
  by (simp add: appends_def add_text_def put_bytes_def)

lemma appends_format: "length s < n \<Longrightarrow> appends (lit s) (add_format n s)"
  by (auto simp: appends_def add_format_def Suc_diff_Suc)

lemma appends_none: "appends [] (\<lambda>b. Inr (Some b))"
  by (simp add: appends_def)

lemma appends_then:
  assumes f: "appends s1 f" and g: "appends s2 g"
  shows "appends (s1 @ s2) (\<lambda>b. and_then (f b) g)"
  unfolding appends_def
proof (intro allI impI)
  fix out rest :: bytes
  assume l: "length (s1 @ s2) < length rest"
  then have "\<exists>r1. f (out @ rest, length out) = Inr (Some (out @ s1 @ r1, length out + length s1)) \<and> length r1 = length rest - length s1"
    by (intro f [unfolded appends_def, rule_format]) simp
  then obtain r1 where r1: "f (out @ rest, length out) = Inr (Some (out @ s1 @ r1, length out + length s1))" "length r1 = length rest - length s1"
    by blast
  have "\<exists>r2. g ((out @ s1) @ r1, length (out @ s1)) = Inr (Some ((out @ s1) @ s2 @ r2, length (out @ s1) + length s2)) \<and>
      length r2 = length r1 - length s2"
    using l r1(2) by (intro g [unfolded appends_def, rule_format]) simp
  then show "\<exists>rest'. and_then (f (out @ rest, length out)) g =
      Inr (Some (out @ (s1 @ s2) @ rest', length out + length (s1 @ s2))) \<and> length rest' = length rest - length (s1 @ s2)"
    using r1 by (auto simp: and_then_def)
qed

lemma appends_if: "(c \<Longrightarrow> appends s f) \<Longrightarrow> (\<not> c \<Longrightarrow> appends t g) \<Longrightarrow> appends (if c then s else t) (\<lambda>b. if c then f b else g b)"
  by (simp add: appends_def)

section \<open>The text\<close>

definition freq_string :: "int \<Rightarrow> string" where
  "freq_string hz = point 6 (Printf.dec hz)"

definition modulation_string :: "test_conf \<Rightarrow> int \<Rightarrow> string" where
  "modulation_string a datr =
     (if tt_mod a = lit ''FSK'' then
        '',\"modu\":\"FSK\",\"datr\":'' @ Printf.dec datr @ '',\"fdev\":'' @ Printf.dec (1000 * uint (tt_fdev_khz a))
      else
        '',\"modu\":\"LORA\",\"datr\":\"SF'' @ fmt_i 0 (tt_sf a) @ ''BW'' @ fmt_i 0 (tt_bw a) @ ''\",\"codr\":\"4/6\"'')"

definition fields_text :: "test_conf \<Rightarrow> int \<Rightarrow> int \<Rightarrow> bytes" where
  "fields_text a hz datr =
     lit ''{\"txpk\":{\"imme\":true'' @ lit ('',\"freq\":'' @ freq_string hz) @ lit '',\"rfch\":0'' @
     lit ('',\"powe\":'' @ fmt_i 0 (tt_pow a)) @ lit (modulation_string a datr) @
     lit (if tt_invert a then '',\"ipol\":true'' else '',\"ipol\":false'') @
     (if tt_mod a = lit ''LORA'' then lit '',\"prea\":8'' else []) @
     lit ('',\"size\":'' @ fmt_i 0 (tt_payload_size a)) @ lit '',\"data\":\"''"

text \<open>The numbers: the frequency to the hertz, and those of an FSK packet.\<close>

lemma length_dec_gt: "10 ^ k \<le> n \<Longrightarrow> k < length (Printf.dec n)"
proof (induction k arbitrary: n)
  case (Suc k)
  have "1 \<le> (10 :: int) ^ k" by simp
  then have "\<not> n < 10" using Suc.prems unfolding power_Suc by linarith
  moreover have "10 ^ k \<le> n div 10" using Suc.prems by (simp add: zdiv_mono1 [of "10 * 10 ^ k" n 10, simplified])
  ultimately show ?case using Suc.IH [of "n div 10"] by (subst Printf.dec.simps) simp
qed simp

lemma freq_range:
  assumes "\<not> dbl_below (Fin q) 30" and "\<not> dbl_above (Fin q) 3000" and "hz = round_half_even (q * 1000000)"
  shows "29999999 \<le> hz" and "hz \<le> 3000000001"
proof -
  have q: "30 \<le> q" "q \<le> 3000" using assms(1,2) by (simp_all add: dbl_below_def dbl_above_def)
  have "\<bar>q * 1000000 - of_int hz\<bar> \<le> 1 / 2" using round_half_even_near [of "q * 1000000"] assms(3) by simp
  then have "of_int 29999999 \<le> (of_int hz :: rat)" "of_int hz \<le> (of_int 3000000001 :: rat)"
    using q unfolding abs_le_iff of_int_numeral by linarith+
  then show "29999999 \<le> hz" "hz \<le> 3000000001" unfolding of_int_le_iff .
qed

lemma freq_format:
  assumes "\<not> dbl_below (Fin q) 30" and "\<not> dbl_above (Fin q) 3000" and "hz = round_half_even (q * 1000000)"
  shows "fmt_f 6 (Fin q) = freq_string hz" and "6 < length (Printf.dec hz)" and "length (freq_string hz) \<le> 11"
proof -
  note r = freq_range [OF assms]
  show l: "6 < length (Printf.dec hz)" using r by (intro length_dec_gt) simp
  have "length (Printf.dec hz) \<le> 10" using r by (intro length_dec_le) simp_all
  then show "length (freq_string hz) \<le> 11" using l by (simp add: freq_string_def length_point)
  have "0 < q" using assms(1) by (simp add: dbl_below_def)
  then show "fmt_f 6 (Fin q) = freq_string hz"
    using l by (simp add: fmt_f_def freq_string_def assms(3) pad0_def)
qed

lemma bitrate_converts:
  assumes "\<not> dbl_below (Fin br) (1 / 2)" and "\<not> dbl_above (Fin br) 250"
  obtains n where "dbl_to_u32 (dbl_mul (Fin br) 1000) = Inr n" and "uint n \<le> 250001"
proof -
  let ?x = "br * 1000"
  have x: "500 \<le> ?x" "?x \<le> 250000" using assms by (simp_all add: dbl_below_def dbl_above_def)
  then have pos: "0 < ?x" by simp
  have b: "2 powi (expo ?x) \<le> ?x" "?x < 2 powi (expo ?x + 1)" using expo_bounds [OF pos] by blast+
  have "\<not> 18 \<le> expo ?x" using power_int_increasing [of 18 "expo ?x" "2 :: rat"] b(1) x(2) by auto
  moreover have "\<not> expo ?x + 1 \<le> 0" using power_int_increasing [of "expo ?x + 1" 0 "2 :: rat"] b(2) x(1) by auto
  ultimately have e: "- 1022 \<le> expo ?x" "expo ?x \<le> 17" by auto
  obtain y where y: "round_dbl ?x = Fin y" "\<bar>y - ?x\<bar> \<le> 2 powi (expo ?x - 53)"
    using round_dbl_near [OF b] e by auto
  have "2 powi (expo ?x - 53) \<le> (2 :: rat) powi 0" using e by (intro power_int_increasing) auto
  then have "0 \<le> y" "y \<le> 250001" using y(2) x by (auto simp: abs_le_iff)
  moreover from this have "0 \<le> \<lfloor>y\<rfloor>" "\<lfloor>y\<rfloor> \<le> 250001" using floor_mono [of y 250001] by simp_all
  ultimately show ?thesis
    by (intro that [of "word_of_int \<lfloor>y\<rfloor>"]) (simp_all add: dbl_mul_def y(1) dbl_to_u32_def dbl_to_int_def trunc_def uint_word_of_int)
qed

lemma fdev_converts:
  fixes k :: u8
  assumes "1 \<le> uint k"
  shows "dbl_to_u32 (dbl_mul (Fin (of_int (uint k))) 1000) = Inr (word_of_int (1000 * uint k))"
    and "uint (word_of_int (1000 * uint k) :: u32) = 1000 * uint k"
proof -
  have k: "uint k < 256" using uint_lt2p [of k] by simp
  have "round_dbl (of_int (1000 * uint k)) = Fin (of_int (1000 * uint k))" using k assms by (intro round_dbl_int) simp_all
  then have "dbl_mul (Fin (of_int (uint k))) 1000 = Fin (of_int (1000 * uint k))" by (simp add: dbl_mul_def mult.commute)
  then show "dbl_to_u32 (dbl_mul (Fin (of_int (uint k))) 1000) = Inr (word_of_int (1000 * uint k))"
    using k dbl_to_int_of_int [of 0 "1000 * uint k" 4294967295] by (simp only: dbl_to_u32_def) simp
  show "uint (word_of_int (1000 * uint k) :: u32) = 1000 * uint k" using k by (subst uint_word_of_int) simp
qed

text \<open>What a configuration says the request holds: the frequency in hertz and the bit rate of FSK.\<close>

definition describes :: "test_conf \<Rightarrow> int \<Rightarrow> u32 \<Rightarrow> bool" where
  "describes a hz datr \<longleftrightarrow>
     (\<exists>q. tt_f_target a = Fin q \<and> hz = round_half_even (q * 1000000)) \<and>
     dbl_to_u32 (dbl_mul (tt_br_kbps a) 1000) = Inr datr"

lemma short_number: "0 \<le> n \<Longrightarrow> n < 10 ^ k \<Longrightarrow> 0 < k \<Longrightarrow> length (fmt_i 0 n) \<le> k"
  using length_fmt_i [of n k 0] by simp

lemma appends_modulation:
  assumes ok: "conf_ok a" and d: "describes a hz datr"
  shows "appends (lit (modulation_string a (uint datr))) (test_modulation a)"
proof (cases "tt_mod a = lit ''FSK''")
  case True
  obtain br where br: "tt_br_kbps a = Fin br"
    using d by (cases "tt_br_kbps a") (auto simp: describes_def dbl_mul_def dbl_to_u32_def dbl_to_int_def)
  then obtain n where "dbl_to_u32 (dbl_mul (tt_br_kbps a) 1000) = Inr n" "uint n \<le> 250001"
    using bitrate_converts [of br] ok by (auto simp: conf_ok_def)
  then have n: "uint datr \<le> 250001" "dbl_to_u32 (dbl_mul (tt_br_kbps a) 1000) = Inr datr" using d by (auto simp: describes_def)
  have k: "1 \<le> uint (tt_fdev_khz a)" "uint (tt_fdev_khz a) \<le> 250" using ok by (simp_all add: conf_ok_def)
  have "length (Printf.dec (uint datr)) \<le> 6" "length (Printf.dec (1000 * uint (tt_fdev_khz a))) \<le> 6"
    using n k by (auto intro!: length_dec_le)
  then show ?thesis
    using True n(2) fdev_converts [OF k(1)]
    unfolding test_modulation_def [abs_def] modulation_string_def by (simp add: appends_format)
next
  case False
  have "length (fmt_i 0 (tt_sf a)) \<le> 2" "length (fmt_i 0 (tt_bw a)) \<le> 3"
    using ok by (auto simp: conf_ok_def intro!: short_number)
  then show ?thesis
    using False unfolding test_modulation_def [abs_def] modulation_string_def by (simp add: appends_format)
qed

lemma appends_fields:
  assumes ok: "conf_ok a" and d: "describes a hz datr"
  shows "appends (fields_text a hz (uint datr)) (test_fields a)"
proof -
  obtain q where q: "tt_f_target a = Fin q" "hz = round_half_even (q * 1000000)" using d by (auto simp: describes_def)
  have f: "fmt_f 6 (tt_f_target a) = freq_string hz" "length (freq_string hz) \<le> 11"
    using freq_format [of q hz] ok q by (simp_all add: conf_ok_def)
  have l: "length (fmt_i 0 (tt_pow a)) \<le> 2" "length (fmt_i 0 (tt_payload_size a)) \<le> 3"
    using ok by (auto simp: conf_ok_def intro!: short_number)
  show ?thesis
    unfolding fields_text_def test_fields_def [abs_def] f(1)
    by (intro appends_then appends_text appends_format appends_modulation [OF ok d] appends_if appends_none)
      (use f(2) l in simp_all)
qed

section \<open>The buffer between two packets\<close>

definition b64_room :: "test_conf \<Rightarrow> nat" where
  "b64_room a = 4 * ((nat (tt_payload_size a) + 2) div 3)"

text \<open>The array holds the header with some token, the fields \<open>F\<close>, room for the payload and the end of the text.\<close>

definition ready :: "test_conf \<Rightarrow> bytes \<Rightarrow> test_buf \<Rightarrow> bool" where
  "ready a F s \<longleftrightarrow> length (tb_payload_bin s) = 255 \<and> length (tb_payload_b64 s) = 341 \<and>
     tb_payload_index s = 4 + length F \<and> tb_buff_index s = 4 + length F + b64_room a + 3 \<and>
     (\<exists>h l d rest. tb_databuf s = [PROTOCOL_VERSION, h, l, PKT_PULL_RESP] @ F @ d @ lit ''\"}}'' @ rest \<and> length d = b64_room a)"

definition fresh_buf :: "test_buf \<Rightarrow> bool" where
  "fresh_buf s \<longleftrightarrow> length (tb_databuf s) = send_to_buflen \<and> length (tb_payload_bin s) = 255 \<and> length (tb_payload_b64 s) = 341"

lemma payload_size:
  assumes "conf_ok a"
  obtains n where "tt_payload_size a = int n" and "9 \<le> n" and "n \<le> 255"
  using assms that [of "nat (tt_payload_size a)"] unfolding conf_ok_def by auto

lemma b64_room_le: "conf_ok a \<Longrightarrow> b64_room a \<le> 340"
  by (erule payload_size) (simp add: b64_room_def)

lemma encode_payload:
  assumes ok: "conf_ok a" and l: "length p = 255" "length b = 341"
  shows "bin_to_b64 (Some p) (tt_payload_size a) (Some b) 341 =
      Inr (int (b64_room a), Some (b64_encode (take (nat (tt_payload_size a)) p) @ 0 # drop (b64_room a + 1) b))"
    and "length (b64_encode (take (nat (tt_payload_size a)) p)) = b64_room a"
proof -
  have n: "nat (tt_payload_size a) \<le> length p" "0 \<le> tt_payload_size a" using ok l by (auto elim: payload_size)
  show e: "length (b64_encode (take (nat (tt_payload_size a)) p)) = b64_room a"
    using n by (simp add: length_b64_encode b64_room_def min_def)
  then show "bin_to_b64 (Some p) (tt_payload_size a) (Some b) 341 =
      Inr (int (b64_room a), Some (b64_encode (take (nat (tt_payload_size a)) p) @ 0 # drop (b64_room a + 1) b))"
    using bin_to_b64_ok [OF n(1) refl, of b 341] b64_room_le [OF ok] l n by simp
qed

lemma fields_short:
  assumes ok: "conf_ok a" and d: "describes a hz datr"
  shows "length (fields_text a hz (uint datr)) \<le> 200"
proof -
  obtain q where q: "tt_f_target a = Fin q" "hz = round_half_even (q * 1000000)" using d by (auto simp: describes_def)
  have f: "length (freq_string hz) \<le> 11"
    using freq_format [of q hz] ok q by (simp_all add: conf_ok_def)
  have l: "length (fmt_i 0 (tt_pow a)) \<le> 2" "length (fmt_i 0 (tt_payload_size a)) \<le> 3" "length (fmt_i 0 (tt_sf a)) \<le> 2" "length (fmt_i 0 (tt_bw a)) \<le> 3"
    using ok by (auto simp: conf_ok_def intro!: short_number)
  obtain br where br: "tt_br_kbps a = Fin br"
    using d by (cases "tt_br_kbps a") (auto simp: describes_def dbl_mul_def dbl_to_u32_def dbl_to_int_def)
  then obtain n where "dbl_to_u32 (dbl_mul (tt_br_kbps a) 1000) = Inr n" "uint n \<le> 250001"
    using bitrate_converts [of br] ok by (auto simp: conf_ok_def)
  then have n: "uint datr \<le> 250001" using d by (auto simp: describes_def)
  have "uint (tt_fdev_khz a) \<le> 250" using ok by (simp add: conf_ok_def)
  then have "length (Printf.dec (uint datr)) \<le> 6" "length (Printf.dec (1000 * uint (tt_fdev_khz a))) \<le> 6"
    using n by (auto intro!: length_dec_le)
  then show ?thesis
    using f l by (simp add: fields_text_def modulation_string_def)
qed

lemma request_ready:
  assumes ok: "conf_ok a" and d: "describes a hz datr" and s: "fresh_buf s"
  shows "\<exists>s'. test_request a s = Inr (Some s') \<and> ready a (fields_text a hz (uint datr)) s'"
proof -
  let ?F = "fields_text a hz (uint datr)" and ?h = "[PROTOCOL_VERSION, 0, 0, PKT_PULL_RESP]"
  let ?rest = "drop 4 (tb_databuf s)"
  have l: "length ?rest = 995" "length (tb_payload_bin s) = 255" "length (tb_payload_b64 s) = 341"
    using s by (simp_all add: fresh_buf_def send_to_buflen_def RX_BUFF_SIZE_def)
  have h: "memcpy (tb_databuf s) 0 ?h = Inr (?h @ ?rest)"
    using s by (simp add: fresh_buf_def send_to_buflen_def RX_BUFF_SIZE_def eval_nat_numeral)
  have F: "length ?F \<le> 200" by (rule fields_short [OF ok d])
  then obtain r where r: "test_fields a (?h @ ?rest, length ?h) = Inr (Some (?h @ ?F @ r, length ?h + length ?F))"
      "length r = 995 - length ?F"
    using appends_fields [OF ok d] l(1) unfolding appends_def by (elim allE [of _ ?h] allE [of _ ?rest]) auto
  define n where "n = b64_room a"
  have n: "n \<le> 340" using b64_room_le [OF ok] by (simp add: n_def)
  have "put_bytes ((?h @ ?F @ take n r) @ drop n r) (4 + length ?F + n) (lit ''\"}}'') =
      Inr (((?h @ ?F @ take n r) @ lit ''\"}}'') @ drop (length (lit ''\"}}'')) (drop n r), 4 + length ?F + n + length (lit ''\"}}''))"
    using n r(2) F by (intro put_bytes_ok) simp_all
  moreover have "(?h @ ?F @ take n r) @ drop n r = ?h @ ?F @ r" by simp
  moreover have "drop (length (lit ''\"}}'')) (drop n r) = drop (n + 3) r" by (simp add: eval_nat_numeral)
  ultimately have m: "add_text ''\"}}'' (?h @ ?F @ r, 4 + length ?F + n) =
      Inr (Some ((?h @ ?F @ take n r) @ lit ''\"}}'' @ drop (n + 3) r, 4 + length ?F + n + 3))"
    unfolding add_text_def fst_conv snd_conv by (simp only: bindr_Inr append_assoc length_lit) simp
  have f: "test_fields a (?h @ ?rest, 4) = Inr (Some (?h @ ?F @ r, 4 + length ?F))" using r(1) by (simp add: eval_nat_numeral)
  let ?s = "s\<lparr>tb_databuf := (?h @ ?F @ take n r) @ lit ''\"}}'' @ drop (n + 3) r,
      tb_payload_b64 := b64_encode (take (nat (tt_payload_size a)) (tb_payload_bin s)) @ 0 # drop (n + 1) (tb_payload_b64 s),
      tb_buff_index := 4 + length ?F + n + 3, tb_payload_index := 4 + length ?F\<rparr>"
  have "test_request a s = Inr (Some ?s)"
    unfolding test_request_def h bindr_Inr f and_then_def option.case prod.case encode_payload(1) [OF ok l(2,3)] n_def [symmetric] nat_int m
    by simp
  moreover have "length (take n r) = n" using r(2) n F by simp
  moreover have "length (b64_encode (take (nat (tt_payload_size a)) (tb_payload_bin s)) @ 0 # drop (n + 1) (tb_payload_b64 s)) = 341"
    using encode_payload(2) [OF ok l(2,3)] l(3) n by (simp add: n_def)
  ultimately have "test_request a s = Inr (Some ?s) \<and> ready a ?F ?s"
    unfolding ready_def using l(2)
    by (intro conjI exI [of _ 0] exI [of _ "take n r"] exI [of _ "drop (n + 3) r"]) (simp_all add: n_def)
  then show ?thesis by blast
qed

section \<open>One datagram\<close>

lemma memcpy_between:
  "length pre = k \<Longrightarrow> length old = length new \<Longrightarrow> memcpy (pre @ old @ post) k new = Inr (pre @ new @ post)"
  by simp

lemma length_per_payload: "conf_ok a \<Longrightarrow> length (per_payload a i) = nat (tt_payload_size a)"
  by (erule payload_size) (simp add: per_payload_def Let_def)

definition datagram :: "test_conf \<Rightarrow> bytes \<Rightarrow> int \<Rightarrow> u8 \<times> u8 \<Rightarrow> bytes" where
  "datagram a F i tok =
     [PROTOCOL_VERSION, fst tok, snd tok, PKT_PULL_RESP] @ F @ b64_encode (per_payload a i) @ lit ''\"}}''"

lemma packet_ready:
  assumes ok: "conf_ok a" and r: "ready a F s"
  shows "\<exists>s'. test_packet a i tok s = Inr (Some (datagram a F i tok, s')) \<and> ready a F s'"
proof -
  obtain h l d rest where D: "tb_databuf s = [PROTOCOL_VERSION, h, l, PKT_PULL_RESP] @ F @ d @ lit ''\"}}'' @ rest" "length d = b64_room a"
    using r unfolding ready_def by blast
  let ?n = "nat (tt_payload_size a)"
  define p where "p = per_payload a i @ drop ?n (tb_payload_bin s)"
  have n: "?n \<le> 255" using ok by (auto elim: payload_size)
  have p: "memcpy (tb_payload_bin s) 0 (per_payload a i) = Inr p" "length p = 255" "take ?n p = per_payload a i"
    using r n length_per_payload [OF ok] by (simp_all add: p_def ready_def)
  define e where "e = b64_encode (per_payload a i)"
  have b: "length (tb_payload_b64 s) = 341" using r by (simp add: ready_def)
  note enc = encode_payload [OF ok p(2) b, unfolded p(3), folded e_def]
  have "memcpy (tb_databuf s) (4 + length F) e =
      Inr ([PROTOCOL_VERSION, h, l, PKT_PULL_RESP] @ F @ e @ lit ''\"}}'' @ rest)"
    unfolding D(1) using memcpy_between [of "[PROTOCOL_VERSION, h, l, PKT_PULL_RESP] @ F" "4 + length F" d e] D(2) enc(2) by simp
  moreover have "take (b64_room a) (e @ 0 # drop (b64_room a + 1) (tb_payload_b64 s)) = e" using enc(2) by simp
  moreover have "take (7 + (length F + b64_room a)) (PROTOCOL_VERSION # fst tok # snd tok # PKT_PULL_RESP # F @ e @ lit ''\"}}'' @ rest) =
      PROTOCOL_VERSION # fst tok # snd tok # PKT_PULL_RESP # F @ e @ lit ''\"}}''"
  proof -
    have "7 + k = Suc (Suc (Suc (Suc (k + 3))))" for k :: nat by simp
    then show ?thesis using enc(2) by (simp only: take_Suc_Cons) simp
  qed
  ultimately have "test_packet a i tok s = Inr (Some (datagram a F i tok,
      s\<lparr>tb_databuf := [PROTOCOL_VERSION, fst tok, snd tok, PKT_PULL_RESP] @ F @ e @ lit ''\"}}'' @ rest,
        tb_payload_bin := p, tb_payload_b64 := e @ 0 # drop (b64_room a + 1) (tb_payload_b64 s)\<rparr>))"
    using r enc p(1) by (simp add: test_packet_def ready_def st_def datagram_def e_def)
  moreover have "length (e @ 0 # drop (b64_room a + 1) (tb_payload_b64 s)) = 341"
    using enc(2) b b64_room_le [OF ok] by simp
  ultimately show ?thesis
    using r p(2) enc(2) by (simp add: ready_def) blast
qed

section \<open>The text as JSON\<close>

definition is_fsk :: "test_conf \<Rightarrow> bool" where
  "is_fsk a \<longleftrightarrow> tt_mod a = lit ''FSK''"

lemma is_fsk_mod: "conf_ok a \<Longrightarrow> tt_mod a = (if is_fsk a then lit ''FSK'' else lit ''LORA'')"
  by (auto simp: conf_ok_def is_fsk_def)

definition datr_string :: "test_conf \<Rightarrow> string" where
  "datr_string a = ''SF'' @ fmt_i 0 (tt_sf a) @ ''BW'' @ fmt_i 0 (tt_bw a)"

text \<open>The members of the \<open>txpk\<close> object: each name with its text and the value that text stands for.\<close>

definition request_members :: "test_conf \<Rightarrow> int \<Rightarrow> u32 \<Rightarrow> bytes \<Rightarrow> (bytes \<times> bytes \<times> json_value) list" where
  "request_members a hz datr b64 =
     [(lit ''imme'', lit ''true'', JSONBoolean True),
      (lit ''freq'', lit (freq_string hz), JSONNumber (round_dbl (of_int hz / 1000000))),
      (lit ''rfch'', lit (fmt_i 0 0), JSONNumber (Fin (of_int 0))),
      (lit ''powe'', lit (fmt_i 0 (tt_pow a)), JSONNumber (Fin (of_int (tt_pow a))))] @
     (if is_fsk a then
        [(lit ''modu'', in_quotes (lit ''FSK''), JSONString (lit ''FSK'')),
         (lit ''datr'', lit (fmt_i 0 (uint datr)), JSONNumber (Fin (of_int (uint datr)))),
         (lit ''fdev'', lit (fmt_i 0 (1000 * uint (tt_fdev_khz a))), JSONNumber (Fin (of_int (1000 * uint (tt_fdev_khz a)))))]
      else
        [(lit ''modu'', in_quotes (lit ''LORA''), JSONString (lit ''LORA'')),
         (lit ''datr'', in_quotes (lit (datr_string a)), JSONString (lit (datr_string a))),
         (lit ''codr'', in_quotes (lit ''4/6''), JSONString (lit ''4/6''))]) @
     [(lit ''ipol'', lit (if tt_invert a then ''true'' else ''false''), JSONBoolean (tt_invert a))] @
     (if is_fsk a then [] else [(lit ''prea'', lit (fmt_i 0 8), JSONNumber (Fin (of_int 8)))]) @
     [(lit ''size'', lit (fmt_i 0 (tt_payload_size a)), JSONNumber (Fin (of_int (tt_payload_size a)))),
      (lit ''data'', in_quotes b64, JSONString b64)]"

definition txpk_object :: "test_conf \<Rightarrow> int \<Rightarrow> u32 \<Rightarrow> bytes \<Rightarrow> json_object" where
  "txpk_object a hz datr b64 = map (\<lambda>(k, t, v). (k, v)) (request_members a hz datr b64)"

definition braces :: "(bytes \<times> bytes) list \<Rightarrow> bytes" where
  "braces xs = 123 # sep_text [] [] (member_texts False xs) @ [125]"

definition txpk_text :: "test_conf \<Rightarrow> int \<Rightarrow> u32 \<Rightarrow> bytes \<Rightarrow> bytes" where
  "txpk_text a hz datr b64 = braces (map (\<lambda>(k, t, v). (k, t)) (request_members a hz datr b64))"

lemma fmt_i_dec: "0 \<le> n \<Longrightarrow> fmt_i 0 n = Printf.dec n"
  by (simp add: fmt_i_def pad0_def)

lemma small_numbers: "fmt_i 0 0 = ''0''" "fmt_i 0 8 = ''8''"
  by code_simp+

lemma request_text:
  assumes ok: "conf_ok a"
  shows "fields_text a hz (uint datr) @ b64 @ lit ''\"}}'' = braces [(lit ''txpk'', txpk_text a hz datr b64)]"
proof (cases "is_fsk a")
  case True
  then show ?thesis
    using is_fsk_mod [OF ok]
    by (simp add: braces_def txpk_text_def request_members_def member_texts_def member_text_def quoted_def escape_char_def
        in_quotes_def fields_text_def modulation_string_def small_numbers fmt_i_dec lit_def)
next
  case False
  then show ?thesis
    using is_fsk_mod [OF ok]
    by (simp add: braces_def txpk_text_def request_members_def member_texts_def member_text_def quoted_def escape_char_def
        in_quotes_def fields_text_def modulation_string_def datr_string_def small_numbers lit_def)
qed

text \<open>Each text stands for its value, and holds no comment.\<close>

lemma raw_digits: "list_all isdigit t \<Longrightarrow> list_all raw_char t"
  by (auto simp: list_all_iff isdigit_def raw_char_def word_le_def)

lemma raw_number: "0 \<le> n \<Longrightarrow> list_all raw_char (lit (fmt_i 0 n))"
  using raw_digits [OF lit_dec_digits] by (simp add: fmt_i_dec)

lemma raw_literals:
  "list_all raw_char (lit ''LORA'')" "list_all raw_char (lit ''FSK'')" "list_all raw_char (lit ''4/6'')"
  "list_all raw_char (lit ''SF'')" "list_all raw_char (lit ''BW'')"
  by (simp_all add: lit_def raw_char_def)

lemma raw_datr:
  assumes "conf_ok a"
  shows "list_all raw_char (lit (datr_string a))"
proof -
  have "list_all raw_char (lit (fmt_i 0 (tt_sf a)))" "list_all raw_char (lit (fmt_i 0 (tt_bw a)))"
    using assms by (auto simp: conf_ok_def intro!: raw_number)
  then show ?thesis by (simp only: datr_string_def lit_append list_all_append raw_literals)
qed

lemma b64_char_raw:
  assumes "x < 64"
  shows "raw_char (b64_char x)"
proof -
  have "list_all raw_char b64_alphabet" "length b64_alphabet = 64" by code_simp+
  moreover have "unat x < 64" using assms by (simp add: word_less_nat_alt)
  ultimately show ?thesis by (simp add: b64_char_def list_all_length)
qed

lemma b64_raw: "list_all raw_char (b64_encode bs)"
proof -
  have "raw_char (b64_char x)" if "x \<in> set (b64_digits bs)" for x
    using that b64_digits_lt [of bs] b64_char_raw by blast
  moreover have "raw_char code_pad" by (simp add: code_pad_def raw_char_def)
  ultimately show ?thesis by (auto simp: b64_encode_def b64_nopad_def list_all_iff)
qed

definition member_good :: "nat \<Rightarrow> bytes \<times> bytes \<times> json_value \<Rightarrow> bool" where
  "member_good d m \<longleftrightarrow> (case m of (k, t, v) \<Rightarrow> list_all plain_char k \<and> parses d t v \<and> no_comment (quoted k @ [58] @ t))"

lemma digits_no_comment: "list_all isdigit t \<Longrightarrow> no_comment t"
  by (rule no_comment_plain) (auto simp: list_all_iff isdigit_def)


lemma number_no_comment: "0 \<le> n \<Longrightarrow> no_comment (lit (fmt_i 0 n))"
  by (simp add: fmt_i_dec digits_no_comment lit_dec_digits)

lemma freq_no_comment:
  assumes "0 \<le> hz"
  shows "no_comment (lit (freq_string hz))"
proof (rule no_comment_plain)
  have "c \<noteq> 92 \<and> c \<noteq> 34 \<and> c \<noteq> 47" if "c \<in> set (lit (Printf.dec hz))" for c
    using that lit_dec_digits [OF assms] by (auto simp: list_all_iff isdigit_def)
  moreover have "set (lit (freq_string hz)) \<subseteq> insert 46 (set (lit (Printf.dec hz)))"
    by (auto simp: freq_string_def point_def lit_def dest!: in_set_takeD in_set_dropD)
  ultimately have "c = 46 \<or> c \<noteq> 92 \<and> c \<noteq> 34 \<and> c \<noteq> 47" if "c \<in> set (lit (freq_string hz))" for c
    using that by blast
  then show "list_all (\<lambda>c. c \<noteq> 92 \<and> c \<noteq> 34 \<and> c \<noteq> 47) (lit (freq_string hz))"
    unfolding list_all_iff by force
qed

text \<open>The names.\<close>

lemma name_good:
  assumes "k \<in> {''imme'', ''freq'', ''rfch'', ''powe'', ''modu'', ''datr'', ''fdev'', ''codr'', ''ipol'', ''prea'', ''size'', ''data'', ''txpk''}"
  shows "list_all plain_char (lit k)" and "no_comment (quoted (lit k) @ [58])"
proof -
  have "list_all (\<lambda>k. list_all plain_char (lit k) \<and> list_all raw_char (lit k) \<and> (47 :: u8) \<notin> set (lit k))
      [''imme'', ''freq'', ''rfch'', ''powe'', ''modu'', ''datr'', ''fdev'', ''codr'', ''ipol'', ''prea'', ''size'', ''data'', ''txpk'']"
    by (simp add: lit_def plain_char_def raw_char_def)
  then have k: "list_all plain_char (lit k)" "list_all raw_char (lit k)" "(47 :: u8) \<notin> set (lit k)"
    using assms by (auto simp: list_all_iff)
  show "list_all plain_char (lit k)" by (rule k(1))
  show "no_comment (quoted (lit k) @ [58])"
    unfolding quoted_raw [OF k(2,3)] by (intro no_comment_append no_comment_quotes k(2) no_comment_char) simp_all
qed

lemma member_goodI:
  assumes "k \<in> {''imme'', ''freq'', ''rfch'', ''powe'', ''modu'', ''datr'', ''fdev'', ''codr'', ''ipol'', ''prea'', ''size'', ''data'', ''txpk''}"
    and "parses d t v" and "no_comment t"
  shows "member_good d (lit k, t, v)"
  using name_good [OF assms(1)] assms(2,3) no_comment_append [of "quoted (lit k) @ [58]" t] by (simp add: member_good_def)

lemma boolean_good:
  "0 < d \<Longrightarrow> parses d (lit (if b then ''true'' else ''false'')) (JSONBoolean b) \<and> no_comment (lit (if b then ''true'' else ''false''))"
proof (intro conjI parses_boolean no_comment_plain)
  show "list_all (\<lambda>c. c \<noteq> 92 \<and> c \<noteq> 34 \<and> c \<noteq> 47) (lit (if b then ''true'' else ''false''))"
    by (cases b) (simp_all add: lit_def)
qed

lemma number_good:
  "0 < d \<Longrightarrow> 0 \<le> n \<Longrightarrow> n < 2 ^ 52 \<Longrightarrow> parses d (lit (fmt_i 0 n)) (JSONNumber (Fin (of_int n))) \<and> no_comment (lit (fmt_i 0 n))"
  by (intro conjI parses_int number_no_comment) auto

lemma string_good:
  "0 < d \<Longrightarrow> list_all raw_char s \<Longrightarrow> parses d (in_quotes s) (JSONString s) \<and> no_comment (in_quotes s)"
  by (intro conjI parses_raw no_comment_quotes)

lemma member_goodI':
  assumes "parses d t v \<and> no_comment t"
    and "k \<in> {''imme'', ''freq'', ''rfch'', ''powe'', ''modu'', ''datr'', ''fdev'', ''codr'', ''ipol'', ''prea'', ''size'', ''data'', ''txpk''}"
  shows "member_good d (lit k, t, v)"
  using assms by (intro member_goodI) blast+

lemma members_good:
  assumes ok: "conf_ok a" and d: "describes a hz datr" and raw: "list_all raw_char b64" and "0 < d"
  shows "list_all (member_good d) (request_members a hz datr b64)"
proof -
  obtain q where q: "tt_f_target a = Fin q" "hz = round_half_even (q * 1000000)" using d by (auto simp: describes_def)
  have f: "6 < length (Printf.dec hz)" "0 < hz"
    using freq_format [of q hz] freq_range [of q hz] ok q by (simp_all add: conf_ok_def)
  have freq: "parses d (lit (freq_string hz)) (JSONNumber (round_dbl (of_int hz / 1000000))) \<and> no_comment (lit (freq_string hz))"
    using parses_fraction [OF f(2,1) assms(4)] freq_no_comment [of hz] f(2) by (simp add: freq_string_def)
  have "uint datr < 2 ^ 52" using uint_lt2p [of datr] by simp
  moreover have "0 \<le> tt_pow a" "tt_pow a < 2 ^ 52" "0 \<le> tt_payload_size a" "tt_payload_size a < 2 ^ 52"
      "1000 * uint (tt_fdev_khz a) < 2 ^ 52"
    using ok by (simp_all add: conf_ok_def)
  ultimately have n: "parses d (lit (fmt_i 0 (uint datr))) (JSONNumber (Fin (of_int (uint datr)))) \<and> no_comment (lit (fmt_i 0 (uint datr)))"
      "parses d (lit (fmt_i 0 (tt_pow a))) (JSONNumber (Fin (of_int (tt_pow a)))) \<and> no_comment (lit (fmt_i 0 (tt_pow a)))"
      "parses d (lit (fmt_i 0 (tt_payload_size a))) (JSONNumber (Fin (of_int (tt_payload_size a)))) \<and> no_comment (lit (fmt_i 0 (tt_payload_size a)))"
      "parses d (lit (fmt_i 0 (1000 * uint (tt_fdev_khz a)))) (JSONNumber (Fin (of_int (1000 * uint (tt_fdev_khz a))))) \<and>
         no_comment (lit (fmt_i 0 (1000 * uint (tt_fdev_khz a))))"
      "parses d (lit (fmt_i 0 0)) (JSONNumber (Fin (of_int 0))) \<and> no_comment (lit (fmt_i 0 0))"
      "parses d (lit (fmt_i 0 8)) (JSONNumber (Fin (of_int 8))) \<and> no_comment (lit (fmt_i 0 8))"
    using assms(4) by (intro number_good; simp)+
  note numbers = n [THEN member_goodI']
  note booleans = boolean_good [OF assms(4), of True, simplified, THEN member_goodI'] boolean_good [OF assms(4), THEN member_goodI']
  note strings = raw [THEN string_good [OF assms(4)], THEN member_goodI']
    raw_datr [OF ok, THEN string_good [OF assms(4)], THEN member_goodI']
    raw_literals [THEN string_good [OF assms(4)], THEN member_goodI']
  show ?thesis
    unfolding request_members_def
    by (cases "is_fsk a"; simp only: list_all_append list.pred_inject HOL.simp_thms if_True if_False;
        intro conjI freq [THEN member_goodI'] numbers booleans strings; simp)
qed

text \<open>An object of good members is one.\<close>

lemma no_comment_sep: "list_all no_comment xs \<Longrightarrow> no_comment (sep_text [] [] xs)"
  by (induction "[] :: bytes" "[] :: bytes" xs rule: sep_text.induct)
    (auto simp: no_comment_append no_comment_char simp flip: append_Cons intro!: no_comment_append [of "[44]", simplified] no_comment_plain [of "[]"])

lemma braces_good:
  assumes "list_all (member_good d) ms" and "distinct (map fst ms)" and "length ms \<le> OBJECT_MAX_CAPACITY"
  shows "parses (Suc d) (braces (map (\<lambda>(k, t, v). (k, t)) ms)) (JSONObject (map (\<lambda>(k, t, v). (k, v)) ms))"
    and "no_comment (braces (map (\<lambda>(k, t, v). (k, t)) ms))"
proof -
  have l: "list_all2 (parses_member d) (map (\<lambda>(k, t, v). (k, t)) ms) (map (\<lambda>(k, t, v). (k, v)) ms)"
    using assms(1) by (induction ms) (auto simp: parses_member_def member_good_def)
  have "map fst (map (\<lambda>(k, t, v). (k, v)) ms) = map fst ms" by auto
  then have "distinct (map fst (map (\<lambda>(k, t, v). (k, v)) ms))" using assms(2) by (simp only:)
  then show "parses (Suc d) (braces (map (\<lambda>(k, t, v). (k, t)) ms)) (JSONObject (map (\<lambda>(k, t, v). (k, v)) ms))"
    using parses_object [OF l, of "[]" "[]" "[]" "[]" False] assms(3) by (simp add: braces_def)
  have "list_all no_comment (member_texts False (map (\<lambda>(k, t, v). (k, t)) ms))"
    using assms(1) by (auto simp: list_all_iff member_good_def member_texts_def member_text_def)
  then have "no_comment ([123] @ sep_text [] [] (member_texts False (map (\<lambda>(k, t, v). (k, t)) ms)) @ [125])"
    by (intro no_comment_append no_comment_sep no_comment_char) simp_all
  then show "no_comment (braces (map (\<lambda>(k, t, v). (k, t)) ms))" by (simp add: braces_def)
qed

lemma request_parsed:
  assumes ok: "conf_ok a" and d: "describes a hz datr" and raw: "list_all raw_char b64"
  shows "json_parse_string_with_comments (fields_text a hz (uint datr) @ b64 @ lit ''\"}}'') =
    Some (Some (JSONObject [(lit ''txpk'', JSONObject (txpk_object a hz datr b64))]))"
proof -
  have dist: "distinct (map fst (request_members a hz datr b64))" "length (request_members a hz datr b64) \<le> OBJECT_MAX_CAPACITY"
    by (cases "is_fsk a"; simp add: request_members_def lit_def OBJECT_MAX_CAPACITY_def)+
  have "parses (Suc 18) (txpk_text a hz datr b64) (JSONObject (txpk_object a hz datr b64))" "no_comment (txpk_text a hz datr b64)"
    unfolding txpk_text_def txpk_object_def
    using braces_good [OF members_good [OF ok d raw, of 18] dist] by simp_all
  then have "member_good 19 (lit ''txpk'', txpk_text a hz datr b64, JSONObject (txpk_object a hz datr b64))"
    by (intro member_goodI) simp_all
  then have "parses (Suc 19) (braces [(lit ''txpk'', txpk_text a hz datr b64)]) (JSONObject [(lit ''txpk'', JSONObject (txpk_object a hz datr b64))])"
      "no_comment (braces [(lit ''txpk'', txpk_text a hz datr b64)])"
    using braces_good [of 19 "[(lit ''txpk'', txpk_text a hz datr b64, JSONObject (txpk_object a hz datr b64))]"]
    by (simp_all add: OBJECT_MAX_CAPACITY_def)
  then show ?thesis
    unfolding request_text [OF ok] by (intro parse_with_comments) (simp_all add: braces_def)
qed

lemma request_no_nul:
  assumes ok: "conf_ok a" and d: "describes a hz datr" and raw: "list_all raw_char b64"
  shows "0 \<notin> set (fields_text a hz (uint datr) @ b64 @ lit ''\"}}'')"
proof -
  obtain q where q: "tt_f_target a = Fin q" "hz = round_half_even (q * 1000000)" using d by (auto simp: describes_def)
  have hz: "0 \<le> hz" using freq_range [of q hz] ok q by (simp add: conf_ok_def)
  have dec: "0 \<notin> set (lit (Printf.dec n))" if "0 \<le> n" for n
    using digits_no_nul [OF lit_dec_digits [OF that]] .
  have "set (lit (freq_string hz)) \<subseteq> insert 46 (set (lit (Printf.dec hz)))"
    by (auto simp: freq_string_def point_def lit_def dest!: in_set_takeD in_set_dropD)
  then have "0 \<notin> set (lit (freq_string hz))" using dec [OF hz] by auto
  moreover have "0 \<notin> set b64" using raw by (auto simp: list_all_iff raw_char_def)
  moreover have "0 \<notin> set (lit (modulation_string a (uint datr)))"
    using dec [of "uint datr"] dec [of "1000 * uint (tt_fdev_khz a)"] int_no_nul [of "tt_sf a"] int_no_nul [of "tt_bw a"]
    by (auto simp: modulation_string_def lit_append) (simp_all add: lit_def)
  moreover have "0 \<notin> set (lit (if tt_invert a then '',\"ipol\":true'' else '',\"ipol\":false''))"
      "0 \<notin> set (if tt_mod a = lit ''LORA'' then lit '',\"prea\":8'' else [])" "0 \<notin> set (lit ''{\"txpk\":{\"imme\":true'')"
      "0 \<notin> set (lit '',\"freq\":'')" "0 \<notin> set (lit '',\"rfch\":0'')" "0 \<notin> set (lit '',\"powe\":'')" "0 \<notin> set (lit '',\"size\":'')"
      "0 \<notin> set (lit '',\"data\":\"'')" "0 \<notin> set (lit ''\"}}'')"
    by (simp_all add: lit_def)
  ultimately show ?thesis
    using int_no_nul [of "tt_pow a"] int_no_nul [of "tt_payload_size a"]
    unfolding fields_text_def lit_append set_append Un_iff by blast
qed

section \<open>What the forwarder reads\<close>

definition band :: "int \<Rightarrow> bool" where
  "band hz \<longleftrightarrow> 269000000 \<le> hz \<and> hz < 512000000 \<or> 537000000 \<le> hz \<and> hz < 1024000000"

text \<open>The packet the command line asks for.\<close>

definition asked_packet :: "hal \<Rightarrow> gateway \<Rightarrow> test_conf \<Rightarrow> int \<Rightarrow> u32 \<Rightarrow> int \<Rightarrow> lgw_pkt_tx" where
  "asked_packet H gw a hz datr i =
     \<lparr>freq_hz = word_of_int hz, tx_mode = hal_IMMEDIATE H, count_us = 0, rf_chain = 0,
      rf_power = word_of_int (tt_pow a) - gw_antenna_gain gw,
      modulation = (if is_fsk a then hal_MOD_FSK H else hal_MOD_LORA H),
      bandwidth = (if is_fsk a then 0 else if tt_bw a = 125 then hal_BW_125KHZ H else if tt_bw a = 250 then hal_BW_250KHZ H
                   else hal_BW_500KHZ H),
      datarate = (if is_fsk a then datr else hal_DR_LORA H (nat (tt_sf a))),
      coderate = (if is_fsk a then 0 else hal_CR_LORA H 6), invert_pol = (\<not> is_fsk a \<and> tt_invert a),
      f_dev = (if is_fsk a then tt_fdev_khz a else 0), preamble = (if is_fsk a then 5 else 8),
      no_crc = False, no_header = False, pkt_size = of_nat (length (per_payload a i)),
      payload = per_payload a i @ replicate (hal_payload_max H - length (per_payload a i)) 0\<rparr>"

lemma datr_string_table:
  "list_all (\<lambda>sf. list_all (\<lambda>bw. scan_datr (lit (''SF'' @ fmt_i 0 sf @ ''BW'' @ fmt_i 0 bw)) = Some (sf, bw)) [125, 250, 500])
     [7, 8, 9, 10, 11, 12]"
  by code_simp

lemma scan_datr_string: "conf_ok a \<Longrightarrow> scan_datr (lit (datr_string a)) = Some (tt_sf a, tt_bw a)"
proof -
  assume ok: "conf_ok a"
  then have "tt_sf a \<in> {7, 8, 9, 10, 11, 12}" "tt_bw a \<in> {125, 250, 500}"
    by (auto simp: conf_ok_def)
  then show ?thesis using datr_string_table by (auto simp: datr_string_def)
qed

lemma txpk_lookup:
  fixes a hz datr b64
  defines "obj \<equiv> Some (txpk_object a hz datr b64)"
  shows "json_object_get_value obj (lit ''imme'') = Some (JSONBoolean True)"
    and "json_object_get_value obj (lit ''ncrc'') = None"
    and "json_object_get_value obj (lit ''freq'') = Some (JSONNumber (round_dbl (of_int hz / 1000000)))"
    and "json_object_get_value obj (lit ''rfch'') = Some (JSONNumber (Fin 0))"
    and "json_object_get_value obj (lit ''powe'') = Some (JSONNumber (Fin (of_int (tt_pow a))))"
    and "json_object_get_value obj (lit ''modu'') = Some (JSONString (if is_fsk a then lit ''FSK'' else lit ''LORA''))"
    and "json_object_get_value obj (lit ''datr'') =
      Some (if is_fsk a then JSONNumber (Fin (of_int (uint datr))) else JSONString (lit (datr_string a)))"
    and "json_object_get_value obj (lit ''fdev'') = (if is_fsk a then Some (JSONNumber (Fin (of_int (1000 * uint (tt_fdev_khz a))))) else None)"
    and "json_object_get_value obj (lit ''codr'') = (if is_fsk a then None else Some (JSONString (lit ''4/6'')))"
    and "json_object_get_value obj (lit ''ipol'') = Some (JSONBoolean (tt_invert a))"
    and "json_object_get_value obj (lit ''prea'') = (if is_fsk a then None else Some (JSONNumber (Fin 8)))"
    and "json_object_get_value obj (lit ''size'') = Some (JSONNumber (Fin (of_int (tt_payload_size a))))"
    and "json_object_get_value obj (lit ''data'') = Some (JSONString b64)"
  by (cases "is_fsk a"; simp add: obj_def txpk_object_def request_members_def json_object_get_value_def lit_def)+

lemma codr_46: "coderate_of H (lit ''4/6'') = Some (hal_CR_LORA H 6)"
proof -
  have "lit ''4/6'' \<noteq> lit ''4/5''" by code_simp
  then show ?thesis by (simp add: coderate_of_def)
qed

lemma request_read:
  assumes ok: "conf_ok a" and b: "band hz" and max: "nat (tt_payload_size a) \<le> hal_payload_max H"
  shows "parse_txpk H gw (Some (txpk_object a hz datr (b64_encode (per_payload a i)))) =
     Inr (Go (asked_packet H gw a hz datr i, JIT_PKT_TYPE_DOWNLINK_CLASS_C))"
proof -
  define bs where "bs = per_payload a i"
  obtain n where n: "tt_payload_size a = int n" "n \<le> 255" using ok by (auto elim: payload_size)
  have l: "length bs = n" using length_per_payload [OF ok, of i] n by (simp add: bs_def)
  have hz: "dbl_to_u32 (dbl_mul (round_dbl (of_int hz / 1000000)) 1000000) = Inr (word_of_int hz)"
    using mhz_to_hz_exact [of hz] b by (auto simp: dbl_to_u32_def band_def)
  have pw: "dbl_to_s8 (Fin (of_int (tt_pow a))) = Inr (word_of_int (tt_pow a))"
    using ok by (simp add: dbl_to_s8_def conf_ok_def)
  have ch: "dbl_to_u8 (Fin 0) = Inr 0" using dbl_to_int_of_int [of 0 0 255] by (simp add: dbl_to_u8_def)
  have sz: "dbl_to_u16 (Fin (of_int (tt_payload_size a))) = Inr (of_nat n)"
    using n dbl_to_int_of_int [of 0 "int n" 65535] by (simp add: dbl_to_u16_def)
  have pre: "dbl_to_int (- 2147483648) 2147483647 (Fin 8) = Inr 8"
    using dbl_to_int_of_int [of "- 2147483648" 8 2147483647] by simp
  have sp: "spreading_of H (tt_sf a) = Some (hal_DR_LORA H (nat (tt_sf a)))"
    using ok by (simp add: spreading_of_def conf_ok_def)
  have bw: "bandwidth_of H (tt_bw a) = Some (if tt_bw a = 125 then hal_BW_125KHZ H else if tt_bw a = 250 then hal_BW_250KHZ H
      else hal_BW_500KHZ H)"
    using ok by (auto simp: bandwidth_of_def conf_ok_def)
  have k: "1 \<le> uint (tt_fdev_khz a)" using ok by (simp add: conf_ok_def)
  then have "round_dbl (of_int (uint (tt_fdev_khz a))) = Fin (of_int (uint (tt_fdev_khz a)))"
    using uint_lt2p [of "tt_fdev_khz a"] by (intro round_dbl_int) simp_all
  then have fd: "dbl_to_u8 (dbl_div (Fin (of_int (1000 * uint (tt_fdev_khz a)))) 1000) = Inr (tt_fdev_khz a)"
    using dbl_to_u8_uint [of "tt_fdev_khz a"] by (simp add: dbl_div_def)
  have pl: "payload (pkt_zero (hal_payload_max H)) = replicate (hal_payload_max H) 0" by (simp add: pkt_zero_def)
  have dec: "b64_to_bin (Some (b64_encode bs @ [0])) (int (length (b64_encode bs))) (Some (replicate (hal_payload_max H) 0)) (int (hal_payload_max H)) =
     Inr (int n, Some (bs @ replicate (hal_payload_max H - n) 0))"
    using b64_decode_payload [of bs "hal_payload_max H"] l max n by simp
  note look = txpk_lookup [of a hz datr "b64_encode bs"]
  note defs = parse_txpk_def parse_target_time_def parse_rf_def parse_payload_def parse_preamble_def
      json_object_get_boolean_def json_object_get_string_def look
  show ?thesis
  proof (cases "is_fsk a")
    case True
    have "lit ''FSK'' \<noteq> lit ''LORA''" by code_simp
    then show ?thesis
      unfolding bs_def [symmetric] defs parse_fsk_def
      using True hz pw ch sz fd dec l dbl_to_u32_uint [of datr]
      by (simp add: json_value_get_boolean_def json_value_get_number_def json_value_get_string_def
          STD_FSK_PREAMB_def asked_packet_def pkt_zero_def Let_def bs_def)
  next
    case False
    then show ?thesis
      unfolding bs_def [symmetric] defs parse_lora_def
      using hz pw ch sz pre dec l scan_datr_string [OF ok] sp bw codr_46
      by (simp add: json_value_get_boolean_def json_value_get_number_def json_value_get_string_def
          MIN_LORA_PREAMB_def asked_packet_def pkt_zero_def Let_def bs_def)
  qed
qed

section \<open>The whole exchange\<close>

lemma wait_for_expected: "wait_for f rs = Arrived d \<Longrightarrow> f d \<and> Inr d \<in> set rs"
  by (induction f rs rule: wait_for.induct) (auto split: if_splits)

text \<open>A round in which the link is open and the expected answer arrives.\<close>

definition answered :: "(u8 \<times> u8) \<times> (errno + int) \<times> (errno + bytes) list \<Rightarrow> bool" where
  "answered r \<longleftrightarrow> (case r of (tok, sent, answers) \<Rightarrow> sent \<noteq> Inl EBADF \<and> (\<exists>x. wait_for (is_tx_ack tok) answers = Arrived x))"

lemma answered_iff:
  "answered (tok, sent, answers) \<longleftrightarrow> sent \<noteq> Inl EBADF \<and> (\<exists>x. wait_for (is_tx_ack tok) answers = Arrived x)"
  by (simp add: answered_def)

text \<open>The loop sends the numbered datagrams, and all of them if it ends by itself, as it does when each is answered.\<close>

lemma test_loop_sends:
  assumes ok: "conf_ok a" and delay: "tt_delay a * 1000 < 2 ^ 31" and "ready a F s"
  shows "\<exists>ds e. test_loop a i rounds s = Inr (ds, e) \<and> length ds \<le> length rounds \<and>
    (\<forall>k < length ds. ds ! k = datagram a F (i + int k) (fst (rounds ! k))) \<and>
    (e = Test_done \<longrightarrow> i \<le> tt_repeat a \<longrightarrow> i + int (length ds) = tt_repeat a) \<and>
    (list_all answered rounds \<and> tt_repeat a \<le> i + int (length rounds) \<longrightarrow> e = Test_done)"
  using assms(3)
proof (induction rounds arbitrary: i s)
  case (Cons r rounds)
  obtain tok sent answers where r: "r = (tok, sent, answers)" by (cases r)
  show ?case
  proof (cases "i < tt_repeat a")
    case True
    obtain s' where p: "test_packet a i tok s = Inr (Some (datagram a F i tok, s'))" "ready a F s'"
      using packet_ready [OF ok Cons.prems] by blast
    obtain ds e where IH: "test_loop a (i + 1) rounds s' = Inr (ds, e)" "length ds \<le> length rounds"
        "\<forall>k < length ds. ds ! k = datagram a F (i + 1 + int k) (fst (rounds ! k))"
        "e = Test_done \<Longrightarrow> i + 1 + int (length ds) = tt_repeat a"
        "list_all answered rounds \<Longrightarrow> tt_repeat a \<le> i + 1 + int (length rounds) \<Longrightarrow> e = Test_done"
      using Cons.IH [OF p(2), of "i + 1"] True by auto
    have "(d # ds) ! k = datagram a F (i + int k) (fst ((r # rounds) ! k))" if "d = datagram a F i tok" "k < length (d # ds)" for d k
      using that IH(3) r by (cases k) (auto simp: add_ac)
    then show ?thesis
      using True p(1) IH delay unfolding r
      by (cases "sent = Inl EBADF"; cases "wait_for (is_tx_ack tok) answers") (auto simp: answered_iff)
  qed (use r in simp)
qed simp

lemma datagram_understood:
  assumes ok: "conf_ok a" and d: "describes a hz datr" and b: "band hz" and max: "nat (tt_payload_size a) \<le> hal_payload_max H"
    and dg: "dg = datagram a (fields_text a hz (uint datr)) i tok"
  shows "json_parse_string_with_comments (takeWhile (\<lambda>c. c \<noteq> 0) (drop 4 dg)) =
      Some (Some (JSONObject [(lit ''txpk'', JSONObject (txpk_object a hz datr (b64_encode (per_payload a i))))]))"
    and "length dg \<le> send_to_buflen" and "\<not> bad_datagram dg" and "dg ! 3 = PKT_PULL_RESP" and "(dg ! 1, dg ! 2) = tok"
proof -
  let ?t = "fields_text a hz (uint datr) @ b64_encode (per_payload a i) @ lit ''\"}}''"
  have "takeWhile (\<lambda>c. c \<noteq> 0) ?t = ?t"
    unfolding takeWhile_eq_all_conv using request_no_nul [OF ok d b64_raw, of "per_payload a i"] by blast
  moreover have "drop 4 dg = ?t" by (simp add: dg datagram_def)
  ultimately show "json_parse_string_with_comments (takeWhile (\<lambda>c. c \<noteq> 0) (drop 4 dg)) =
      Some (Some (JSONObject [(lit ''txpk'', JSONObject (txpk_object a hz datr (b64_encode (per_payload a i))))]))"
    using request_parsed [OF ok d b64_raw] by (simp only:)
  obtain n where n: "tt_payload_size a = int n" "n \<le> 255" using ok by (auto elim: payload_size)
  then have "length (b64_encode (per_payload a i)) \<le> 340"
    using length_per_payload [OF ok, of i] by (simp add: length_b64_encode)
  then show "length dg \<le> send_to_buflen"
    using fields_short [OF ok d] by (simp add: dg datagram_def send_to_buflen_def RX_BUFF_SIZE_def)
  show "\<not> bad_datagram dg" "dg ! 3 = PKT_PULL_RESP" "(dg ! 1, dg ! 2) = tok"
    by (simp_all add: dg datagram_def bad_datagram_def)
qed

lemma txpk_member:
  "json_object_get_object (json_value_get_object (Some (JSONObject [(lit ''txpk'', JSONObject ms)]))) (lit ''txpk'') = Some ms"
  by (simp add: json_object_get_object_def json_value_get_object_def json_object_get_value_def)

text \<open>Whatever becomes of the packet, the answer is the one the program waits for.\<close>

lemma request_answered:
  assumes p: "json_parse_string_with_comments (takeWhile (\<lambda>c. c \<noteq> 0) (drop 4 dg)) = Some (Some (JSONObject [(lit ''txpk'', JSONObject ms)]))"
    and t: "parse_txpk H gw (Some ms) = Inr (Go (packet, ty))" and tok: "(dg ! 1, dg ! 2) = tok"
    and h: "handle_pull_resp H gw offset now dg q m = Inr (q', m', ack)"
  shows "\<exists>x. ack = Some x \<and> is_tx_ack tok x"
proof -
  have ack: "is_tx_ack tok (ack_header lgwm (dg ! 1) (dg ! 2) @ j)" for lgwm j
    using tok by (auto simp: is_tx_ack_def ack_header_def net_mac_h_def net_mac_l_def be32_def)
  show ?thesis
    using h p t ack
    by (auto simp: handle_pull_resp_def Let_def txpk_member bindr_eq_Inr_iff send_tx_ack_eq split: if_splits prod.splits)
qed

text \<open>A run in which the gateway shows up and answers every request.\<close>

definition served :: "test_conf \<Rightarrow> test_env \<Rightarrow> bool" where
  "served a E \<longleftrightarrow> te_thread_ok E \<and> (\<exists>req. wait_for is_pull_data (te_requests E) = Arrived req) \<and> te_ack_sent E \<noteq> Inl EBADF \<and>
     list_all answered (te_rounds E) \<and> tt_repeat a \<le> int (length (te_rounds E))"

definition request_understood :: "hal \<Rightarrow> gateway \<Rightarrow> lgw_pkt_tx \<Rightarrow> u8 \<times> u8 \<Rightarrow> bytes \<Rightarrow> bool" where
  "request_understood H gw packet tok d \<longleftrightarrow>
     length d \<le> send_to_buflen \<and> \<not> bad_datagram d \<and> d ! 3 = PKT_PULL_RESP \<and> (d ! 1, d ! 2) = tok \<and>
     (\<exists>root_val. json_parse_string_with_comments (takeWhile (\<lambda>c. c \<noteq> 0) (drop 4 d)) = Some (Some root_val) \<and>
        parse_txpk H gw (json_object_get_object (json_value_get_object (Some root_val)) (lit ''txpk'')) =
          Inr (Go (packet, JIT_PKT_TYPE_DOWNLINK_CLASS_C))) \<and>
     (\<forall>offset now q m q' m' ack.
        handle_pull_resp H gw offset now d q m = Inr (q', m', ack) \<longrightarrow> (\<exists>x. ack = Some x \<and> is_tx_ack tok x))"

lemma datagram_request:
  assumes ok: "conf_ok a" and d: "describes a hz datr" and b: "band hz" and max: "nat (tt_payload_size a) \<le> hal_payload_max H"
  shows "request_understood H gw (asked_packet H gw a hz datr i) tok (datagram a (fields_text a hz (uint datr)) i tok)"
proof -
  note u = datagram_understood [OF ok d b max refl, of i tok]
  have "\<forall>offset now q m q' m' ack.
        handle_pull_resp H gw offset now (datagram a (fields_text a hz (uint datr)) i tok) q m = Inr (q', m', ack) \<longrightarrow>
        (\<exists>x. ack = Some x \<and> is_tx_ack tok x)"
    using request_answered [OF u(1) request_read [OF ok b max] u(5)] by blast
  then show ?thesis
    unfolding request_understood_def using u request_read [OF ok b max, of gw datr i] txpk_member by auto
qed

text \<open>
  C3. For a command line that \<open>util_tx_test\<close> accepts with a frequency between 269 and 512 or between 537 and 1024 MHz and a bit rate
  that is a number, a pause below \<open>2^31\<close> microseconds, a payload that fits the radio's packet, and datagrams of the forwarder that fit
  the link's messages: the program stays inside its arrays, and every datagram after its PULL_ACK is a PULL_RESP that the forwarder
  reads, from the bytes, as exactly the packet asked for, with the payload numbered by the round and the frequency to the hertz (of the \<open>float\<close>
  the option is kept in: 868.1 stands for 868.099976); the forwarder's answer carries the token the program waits for; and a run that ends by itself has sent as many packets as asked, as it
  does when the gateway shows up and answers. Outside these frequencies the six decimals of the request do not always come back:
  \<open>-f 64.2\<close> and \<open>-f 512.003\<close> are read one hertz too low.
\<close>

theorem tx_test_and_forwarder_agree:
  assumes "test_options opts test_default = Inr (Some a)" and "describes a hz datr" and "band hz"
    and "nat (tt_payload_size a) \<le> hal_payload_max H" and "tt_delay a * 1000 < 2 ^ 31" and "fresh_buf s"
    and "\<And>d. Inr d \<in> set (te_requests E) \<Longrightarrow> length d \<le> send_to_buflen"
  shows "\<exists>ds e. test_main opts E s = Inr (ds, e) \<and>
    (\<forall>k. Suc k < length ds \<longrightarrow>
       request_understood H gw (asked_packet H gw a hz datr (int k)) (fst (te_rounds E ! k)) (ds ! Suc k)) \<and>
    (e = Test_done \<longrightarrow> int (length ds) = tt_repeat a + 1) \<and> (served a E \<longrightarrow> e = Test_done)"
proof -
  have ok: "conf_ok a" using test_options_ok [OF assms(1) conf_ok_default] .
  show ?thesis
  proof (cases "te_thread_ok E \<and> (\<exists>req. wait_for is_pull_data (te_requests E) = Arrived req)")
    case False
    then show ?thesis
      using assms(1) by (cases "te_thread_ok E"; cases "wait_for is_pull_data (te_requests E)") (auto simp: test_main_def served_def)
  next
    case True
    then obtain req where req: "wait_for is_pull_data (te_requests E) = Arrived req" "length req \<le> send_to_buflen"
      using wait_for_expected assms(7) by blast
    define b where "b = (req @ drop (length req) (tb_databuf s))[3 := PKT_PULL_ACK]"
    have b: "bindr (memcpy (tb_databuf s) 0 req) (\<lambda>databuf. st databuf 3 PKT_PULL_ACK) = Inr b" "length b = send_to_buflen"
      using req(2) assms(6) by (simp_all add: fresh_buf_def b_def st_def send_to_buflen_def RX_BUFF_SIZE_def)
    then have "fresh_buf (s\<lparr>tb_databuf := b\<rparr>)" using assms(6) by (simp add: fresh_buf_def)
    then obtain s' where s': "test_request a (s\<lparr>tb_databuf := b\<rparr>) = Inr (Some s')" "ready a (fields_text a hz (uint datr)) s'"
      using request_ready [OF ok assms(2)] by blast
    obtain ds e where l: "test_loop a 0 (te_rounds E) s' = Inr (ds, e)"
        "\<forall>k < length ds. ds ! k = datagram a (fields_text a hz (uint datr)) (int k) (fst (te_rounds E ! k))"
        "e = Test_done \<Longrightarrow> int (length ds) = tt_repeat a" "served a E \<Longrightarrow> e = Test_done"
      using test_loop_sends [OF ok assms(5) s'(2), of 0 "te_rounds E"] ok by (auto simp: conf_ok_def served_def)
    have m: "test_main opts E s =
        (if te_ack_sent E = Inl EBADF then Inr ([take 4 b], Test_closed) else Inr (take 4 b # ds, e))"
      using True assms(1) req(1) b(1) s'(1) l(1)
      by (auto simp: test_main_def bindr_assoc [symmetric] Let_def)
    show ?thesis
      using m l(2,3,4) datagram_request [OF ok assms(2,3,4), of gw] by (auto simp: served_def)
  qed
qed

definition demo_test_env :: test_env where
  "demo_test_env = \<lparr>te_thread_ok = True, te_requests = [Inr ([2, 7, 8, 2] @ replicate 8 0)], te_ack_sent = Inr 4,
     te_rounds = [((1, 2), Inr 200, [Inr ([2, 1, 2, 5] @ replicate 8 0)])]\<rparr>"

definition demo_test_buf :: test_buf where
  "demo_test_buf = \<lparr>tb_databuf = replicate 999 170, tb_payload_bin = replicate 255 170, tb_payload_b64 = replicate 341 170,
     tb_buff_index = 0, tb_payload_index = 0\<rparr>"

lemma demo_served: "served (test_default\<lparr>tt_sf := 7, tt_invert := True\<rparr>) demo_test_env"
  by (simp add: served_def demo_test_env_def test_default_def answered_def is_pull_data_def is_tx_ack_def protocol_consts)

theorem tx_test_and_forwarder_agree_witness:
  "\<exists>ds. test_main [Opt_s (Some 7), Opt_i] demo_test_env demo_test_buf = Inr (ds, Test_done) \<and> length ds = 2 \<and>
     request_understood (hal_example\<lparr>hal_payload_max := 255\<rparr>) gateway_example
       (asked_packet (hal_example\<lparr>hal_payload_max := 255\<rparr>) gateway_example
          (test_default\<lparr>tt_sf := 7, tt_invert := True\<rparr>) 866000000 50000 0) (1, 2) (ds ! 1)"
proof -
  let ?a = "test_default\<lparr>tt_sf := 7, tt_invert := True\<rparr>" and ?H = "hal_example\<lparr>hal_payload_max := 255\<rparr>"
  have "dbl_to_u32 (dbl_mul (Fin 50) 1000) = Inr 50000" "866000000 = round_half_even (866 * 1000000)" by code_simp+
  then have d: "describes ?a 866000000 50000"
    by (simp add: describes_def test_default_def)
  have o: "test_options [Opt_s (Some 7), Opt_i] test_default = Inr (Some ?a)"
    by (simp add: test_option_def accept_def)
  have "\<exists>ds e. test_main [Opt_s (Some 7), Opt_i] demo_test_env demo_test_buf = Inr (ds, e) \<and>
    (\<forall>k. Suc k < length ds \<longrightarrow>
       request_understood ?H gateway_example (asked_packet ?H gateway_example ?a 866000000 50000 (int k))
         (fst (te_rounds demo_test_env ! k)) (ds ! Suc k)) \<and>
    (e = Test_done \<longrightarrow> int (length ds) = tt_repeat ?a + 1) \<and> (served ?a demo_test_env \<longrightarrow> e = Test_done)"
    by (rule tx_test_and_forwarder_agree [OF o d])
      (auto simp: band_def test_default_def fresh_buf_def demo_test_buf_def demo_test_env_def send_to_buflen_def RX_BUFF_SIZE_def)
  then obtain ds where ds: "test_main [Opt_s (Some 7), Opt_i] demo_test_env demo_test_buf = Inr (ds, Test_done)" "length ds = 2"
      "\<forall>k. Suc k < length ds \<longrightarrow>
         request_understood ?H gateway_example (asked_packet ?H gateway_example ?a 866000000 50000 (int k))
           (fst (te_rounds demo_test_env ! k)) (ds ! Suc k)"
    using demo_served by (auto simp: test_default_def)
  then show ?thesis using spec [OF ds(3), of 0] by (auto simp: demo_test_env_def)
qed

end
