(* ===== verification/Spec2Isabelle.thy ===== *)
theory Spec2Isabelle
  imports Base64_Correct Jit_Properties Timersync Crc16 Tx_Ack Json_Correct Downlink_Safety Comms_Correct
    Thread_Down_Correct Jit_Thread_Correct Thread_Up_Properties Thread_Gps_Correct Config_Properties
    Main_Properties Json_Edit_Correct Json_Utf8_Correct Json_Roundtrip Utilities_Correct Tx_Test_Correct
begin

text \<open>
  A verification library for the LoRa packet forwarder: a gateway program that passes radio packets between a
  concentrator (a radio front end driven by the library \<open>libloragw\<close>) and a network server, with datagrams that hold a
  binary header and JSON. This repository builds the forwarder as a library: its sockets, sleeps, \<open>exit\<close> and
  \<open>printf\<close> are renamed to functions of \<open>lora_comms.cc\<close>, which connect it to the program around it with queues.

  \<^bold>\<open>The program's parts\<close> (all under \<open>src/lora_pkt_fwd\<close>). \<open>lora_pkt_fwd.c\<close> runs one thread per job. \<open>thread_up\<close>
  fetches received packets, filters and counts them and sends them as PUSH_DATA. \<open>thread_down\<close> polls the server with
  PULL_DATA; for a PULL_RESP it parses the JSON (\<open>parson.c\<close>), decodes the payload (\<open>base64.c\<close>), checks the packet,
  puts it into the just-in-time queue (\<open>jitqueue.c\<close>) and answers with TX_ACK; it also puts class B beacons into that
  queue. \<open>thread_jit\<close> takes the packets out when they are due and hands them to the concentrator. \<open>timersync.c\<close> keeps
  the offset between the clock of the host and that of the concentrator. \<open>thread_gps\<close> reads the GPS receiver and
  \<open>thread_valid\<close> judges the time reference, which beacons and GPS-timed downlinks need. All threads meet in
  the queue, in the counters, and in the reference. \<open>main\<close> reads the configuration files, starts the threads and
  writes the statistics. The programs under \<open>src/util_*\<close> use the library from outside: \<open>util_ack\<close>, \<open>util_sink\<close> and
  \<open>util_tx_test\<close> play the server.

  \<^bold>\<open>Which theory models what.\<close>
  \<^item> \<open>Fwd_Prelude\<close>: machine integers; \<open>'a res = stop + 'a\<close>, where \<open>stop\<close> says how a C function ends without returning
    (\<open>exit\<close>, access outside an array, NULL, a conversion that does not fit, a signed overflow, an overlapping \<open>memcpy\<close>, \<open>assert\<close>); arrays with checked access
    (\<open>ld\<close>, \<open>st\<close>, \<open>memcpy\<close>); \<open>bindr\<close> sequences the steps.
  \<^item> \<open>Doubles\<close>: IEEE 754 doubles as exact rationals with rounding after each operation; \<open>Printf\<close>: decimal texts and
    \<open>gmtime\<close>; \<open>Hal\<close>: the packet structure, and a record with the constants and functions of \<open>libloragw\<close>,
    which every definition that needs them takes as an argument.
  \<^item> \<open>Base64\<close> (\<open>base64.c\<close>), \<open>Crc16\<close> (\<open>crc16\<close>), \<open>Json\<close> and \<open>Json_Parse\<close> (the parser and the access functions of
    \<open>parson.c\<close>), \<open>Json_Edit\<close> (its other operations on trees: setters, removal, copy, comparison, validation, the check of
    UTF-8), \<open>Json_Serialize\<close> (its serialiser), \<open>Timersync\<close> (\<open>timersync.c\<close>).
  \<^item> \<open>Jit_Queue\<close> (\<open>jitqueue.c\<close>): the record \<open>jit_queue\<close> is the C structure, the node array with its counters; \<open>qsort_r\<close> is
    an insertion sort by the comparison of the code.
  \<^item> \<open>Tx_Ack\<close> (\<open>send_tx_ack\<close> and the downstream counters), \<open>Downlink\<close> (one PULL_RESP in \<open>thread_down\<close>), \<open>Beacon\<close> (beacon
    frame and slot loop), \<open>Thread_Down\<close> (its two loops), \<open>Jit_Thread\<close> (\<open>thread_jit\<close>), \<open>Thread_Up\<close> (\<open>thread_up\<close>),
    \<open>Thread_Gps\<close> (\<open>thread_gps\<close> and \<open>thread_valid\<close>).
  \<^item> \<open>Wait_Queue\<close> (\<open>WaitQueue\<close>, \<open>Queue\<close>, \<open>LogQueue\<close> of \<open>lora_comms.cc\<close>) and \<open>Comms\<close> (links, sockets, stop and sleep,
    logging, the interface for the program around).
  \<^item> \<open>Config\<close> (\<open>parse_SX1301_configuration\<close>), \<open>Gateway_Config\<close> (\<open>parse_gateway_configuration\<close> and which files \<open>main\<close> reads),
    \<open>Main_Loop\<close> (start, statistics loop and end of \<open>main\<close>).
  \<^item> \<open>Utilities\<close> (the threads of \<open>util_ack.c\<close> and \<open>util_sink.c\<close>), \<open>Tx_Test\<close> (\<open>util_tx_test.c\<close>).

  A C \<open>struct\<close> is a record and an \<open>enum\<close> a datatype; integers keep their width as words; what \<open>exit\<close>s, asserts or leaves
  an array is an \<open>Inl\<close>; the variables a loop carries are the record its rounds pass on. Inputs of a thread (datagrams,
  clocks, random tokens, answers of the library) are arguments of the round, so that a run of the thread is a list of
  inputs.

  \<^bold>\<open>What the lemmas show.\<close>
  \<^item> \<open>Base64_Correct\<close>: the codec is RFC 4648 on lists, round trip, buffer bounds, and which inputs end the program. The
    locale there states what a codec promises and is interpreted on the code's functions.
  \<^item> \<open>Crc16\<close>: a beacon with one damaged byte is detected. \<open>Timersync\<close>: converted times follow the counter.
  \<^item> \<open>Json_Correct\<close>: the parser returns for every text, and its trees respect the nesting limit and have distinct names.
  \<^item> \<open>Json_Utf8_Correct\<close>: the check accepts exactly UTF-8. \<open>Json_Edit_Correct\<close>: setting and getting under dotted names, copies,
    and the inverted validation of arrays. \<open>Json_Serialize_Correct\<close>: both passes of the serialiser write the text
    \<open>json_text\<close> (\<open>counts\<close> and \<open>stores\<close> describe a step of each). \<open>Json_Roundtrip\<close>: the parser reads the text back
    (\<open>parses d t v\<close>: the text \<open>t\<close> is read as \<open>v\<close> wherever \<open>d\<close> levels are left).
  \<^item> \<open>Jit_Invariant\<close>, \<open>Jit_Class_C\<close>, \<open>Jit_Properties\<close>: the invariant \<open>jit_inv\<close> of every reachable queue (no overlap of
    transmissions, counters right, entries that come from accepted packets), the verdict of \<open>jit_enqueue\<close> for every packet against a specification
    in numbers, which class C packets find a slot and where, what dequeue and peek remove, and the two ways peek leaves the array.
  \<^item> \<open>Downlink_Correct\<close>, \<open>Downlink_Safety\<close>: a \<open>txpk\<close> object becomes the packet it describes, only supported packets are
    queued, and a request whose antenna index reads outside a table.
  \<^item> \<open>Beacon_Correct\<close>, \<open>Thread_Down_Correct\<close>, \<open>Jit_Thread_Correct\<close>: the beacon's bytes against a frame
    written from the protocol (\<open>protocol_frame\<close>), the slots are filled, the loop that spins while the queue is full; the
    downstream thread keeps the invariant for all datagrams, ends when it is told to stop, and gives up after the configured
    number of unanswered requests; what a round of \<open>thread_jit\<close> hands over, and that no packet is transmitted twice.
  \<^item> \<open>Thread_Up_Correct\<close>, \<open>Thread_Up_Properties\<close>: the text of a PUSH_DATA (\<open>writes f s\<close>: \<open>f\<close> appends \<open>s\<close>), when it fits
    \<open>buff_up\<close> and that eight full packets do not, and exact counters.
  \<^item> \<open>Thread_Gps_Correct\<close>: frames are segments of the serial stream, each processed once, until a \<open>memcpy\<close> overlaps, and
    when it does;
    when the crystal correction is announced.
  \<^item> \<open>Wait_Queue_Runs\<close>, \<open>Wait_Queue_Class\<close>, \<open>Queue_Correct\<close>, \<open>Log_Queue_Correct\<close>, \<open>Comms_Correct\<close>: threads on a shared
    queue as a step relation; the locales \<open>queue_class\<close> and \<open>eager_queue_class\<close> state what a queue's operations promise and
    are interpreted on both queue classes; the bytes sent and received in a run are those of a FIFO channel, no wake-up is lost
    in \<open>Queue\<close>, and the reader a deferred close leaves asleep in \<open>LogQueue\<close>; datagrams cross a link whole.
  \<^item> \<open>Config_Correct\<close>, \<open>Config_Properties\<close>: no file takes the configuration outside its arrays; the gain table and the gateway
    address follow the file; what a local file does to the global one. \<open>Main_Properties\<close>: the sockets, the status report,
    and statistics that lose no count. \<open>Utilities_Correct\<close>: while \<open>util_ack\<close> answers in time, \<open>thread_down\<close> does not give up.
  \<^item> \<open>Tx_Test_Text\<close>, \<open>Tx_Test_Correct\<close>: the bytes \<open>util_tx_test\<close> sends are read by the forwarder as the packet its command line
    asks for (\<open>appends s f\<close>: the step \<open>f\<close> writes \<open>s\<close>).

  \<^bold>\<open>Bounds and fuel.\<close> The JSON parser recurses with fuel \<open>2 * length + 1\<close>, and \<open>parse_total\<close> shows that it never runs out.
  All other loops are structural or come with a measure. Loops that wait for other threads (the beacon loop, the thread
  loops) run over a list of inputs, one element for each round; \<open>None\<close> is a run that needs more rounds. Condition
  variables are sets of sleeping threads, and a thread may wake up without having been notified.

  \<^bold>\<open>Not modelled\<close>, and why. The parameters of the definitions: \<open>libloragw\<close>, the GPS frame parsers, sockets, \<open>read\<close>, clocks,
  \<open>rand\<close>, \<open>vsnprintf\<close> of the log, pthreads. The value that \<open>Queue::recv\<close> reads after the element is freed is the
  argument \<open>stale\<close>. An overlapping \<open>memcpy\<close>, like other undefined behaviour, ends the run with an \<open>Inl\<close>. The sign of a floating zero is not kept.
  Messages for the terminal and signal handlers are left out, so are the \<open>main\<close> functions of \<open>util_ack\<close> and \<open>util_sink\<close>, which only start
  threads. In \<open>parson.c\<close>, allocation succeeds, and what only frees memory leaves no trace in a tree; the capacity of an
  object or array is not part of the tree, the functions that add a member take it as an argument. \<open>util_tx_test\<close> starts from
  the options as \<open>getopt\<close> and \<open>sscanf\<close> deliver them; its copy of \<open>base64.c\<close> is byte for byte the one modelled. \<open>loragw_hal.h\<close>
  and the other headers of the concentrator library are not in the repository.
\<close>

end
